(* ===== verification/Kernel_Prelude.thy ===== *)
theory Kernel_Prelude
  imports Main "HOL-Library.Word" "HOL-Library.Monad_Syntax"
begin

unbundle bit_operations_syntax

text \<open>
  Shared vocabulary of the development: the machine integer types of the C sources, the
  byte-addressed memory, the collections of rewrite rules that the component theories
  extend, and the generic facts on words and counted loops used by more than one component.

  C types are mapped as follows.  \<^verbatim>\<open>uint8_t\<close> \dots \<^verbatim>\<open>uint64_t\<close>, \<^verbatim>\<open>size_t\<close>, \<^verbatim>\<open>long\<close> and every pointer
  are words of their width.  \<^verbatim>\<open>int\<close> is the 32-bit word holding its two's complement
  representation: \<open>sint\<close> reads it, \<open>scast\<close> is the sign extension the compiler emits when an
  \<^verbatim>\<open>int\<close> meets a 64-bit operand.  An operation whose C loop may run forever returns an
  \<open>option\<close>; \<open>None\<close> says that the C function does not return.
\<close>

section \<open>Types\<close>

type_synonym u8 = "8 word"
type_synonym u16 = "16 word"
type_synonym u32 = "32 word"
type_synonym u64 = "64 word"
type_synonym memory = "u64 \<Rightarrow> u8"

named_theorems mem_simps \<open>reads after writes\<close>
named_theorems layout_simps \<open>structure layouts and register constants\<close>

section \<open>Words\<close>

lemma unat_of_nat64: "i < 2 ^ 64 \<Longrightarrow> unat (of_nat i :: u64) = i"
  by (simp add: unat_of_nat take_bit_nat_eq_self_iff)

lemma unat_ucast_up:
  "LENGTH('a) \<le> LENGTH('b) \<Longrightarrow> unat (ucast (w :: 'a::len word) :: 'b::len word) = unat w"
  by (simp add: unsigned_ucast_eq take_bit_nat_eq_self less_le_trans[OF unsigned_less])

lemma unat_of_nat32: "i < 2 ^ 32 \<Longrightarrow> unat (of_nat i :: u32) = i"
  by (simp add: unat_of_nat take_bit_nat_eq_self_iff)

lemma sint_of_nat32: "n < 2 ^ 31 \<Longrightarrow> sint (of_nat n :: u32) = int n"
  by (subst signed_of_nat) (simp add: signed_take_bit_int_eq_self)

lemma scast_of_nat32: "n < 2 ^ 31 \<Longrightarrow> scast (of_nat n :: u32) = (of_nat n :: u64)"
  by (simp add: scast_eq sint_of_nat32)

lemma ucast_of_nat64_32: "i < 2 ^ 64 \<Longrightarrow> ucast (of_nat i :: u64) = (of_nat i :: u32)"
  by (simp add: word_unat_eq_iff unsigned_ucast_eq unat_of_nat64 unsigned_of_nat)

lemma unat_diff_Suc:
  fixes a b :: u64
  assumes "b \<noteq> a"
  shows "unat (b - a) = Suc (unat (b - (a + 1)))"
proof -
  have "b - a \<noteq> 0" using assms by simp
  then have "unat (b - a) = Suc (unat (b - a - 1))"
    using unat_minus_one[of "b - a"] unat_gt_0[of "b - a"] by simp
  then show ?thesis by (simp add: algebra_simps)
qed


end
