(* ===== verification/Kernel_Memory.thy ===== *)
theory Kernel_Memory
  imports Kernel_Prelude
begin

text \<open>
  Byte-addressed memory and the cells the C code reads and writes in it.  \<open>rdn\<close> and \<open>wrn\<close> are
  the little-endian load and store of \<open>n\<close> bytes; the four access widths are instances of the
  interface \<open>mem_cell\<close>, whose laws (a read sees the last write, a write outside its cell is not
  seen) carry all the reasoning about memory in the component theories.  \<open>sep\<close> says that two
  address ranges do not overlap (modulo \<open>2 ^ 64\<close>), \<open>agree_off\<close> that two memories differ at most
  inside one range.
\<close>

section \<open>Byte-addressed memory\<close>

primrec rdn :: "memory \<Rightarrow> u64 \<Rightarrow> nat \<Rightarrow> 'a::len word" where
  "rdn m a 0 = 0"
| "rdn m a (Suc n) = ucast (m a) OR push_bit 8 (rdn m (a + 1) n)"

primrec wrn :: "memory \<Rightarrow> u64 \<Rightarrow> nat \<Rightarrow> 'a::len word \<Rightarrow> memory" where
  "wrn m a 0 v = m"
| "wrn m a (Suc n) v = (wrn m (a + 1) n (drop_bit 8 v))(a := ucast v)"

lemma bit_rdn:
  "bit (rdn m a n :: 'a::len word) i \<longleftrightarrow>
     i < LENGTH('a) \<and> i < 8 * n \<and> bit (m (a + of_nat (i div 8))) (i mod 8)"
proof (induction n arbitrary: a i)
  case 0
  then show ?case by simp
next
  case (Suc n)
  show ?case
  proof (cases "i < 8")
    case True
    then show ?thesis
      by (auto simp: bit_or_iff bit_push_bit_iff bit_unsigned_iff)
  next
    case False
    then obtain j where i: "i = 8 + j" using le_Suc_ex[of 8 i] by auto
    have d: "(8 + j) div 8 = Suc (j div 8)" by simp
    have "\<not> bit (m a) (8 + j)" using bit_imp_le_length[of "m a" "8+j"] by auto
    then show ?thesis
      by (auto simp: i bit_or_iff bit_push_bit_iff bit_unsigned_iff Suc.IH d add.assoc simp del: div_add_self1)
  qed
qed

lemma wrn_apply:
  "wrn m a n (v :: 'a::len word) b =
     (if unat (b - a) < n then ucast (drop_bit (8 * unat (b - a)) v) else m b)"
proof (induction n arbitrary: a v)
  case 0
  then show ?case by simp
next
  case (Suc n)
  show ?case
  proof (cases "b = a")
    case True
    then show ?thesis by simp
  next
    case False
    then show ?thesis
      by (simp add: Suc.IH unat_diff_Suc[OF False] drop_bit_drop_bit add.commute)
  qed
qed

section \<open>Separate ranges\<close>

definition sep :: "u64 \<Rightarrow> nat \<Rightarrow> u64 \<Rightarrow> nat \<Rightarrow> bool" where
  "sep a n b k \<longleftrightarrow> n \<le> unat (b - a) \<and> k \<le> unat (a - b)"

lemma sep_sym: "sep a n b k \<longleftrightarrow> sep b k a n"
  by (auto simp: sep_def)

lemma sep_notin:
  assumes "sep a n b k" and "j < k"
  shows "\<not> unat (b + of_nat j - a) < n"
proof -
  have nb: "n \<le> unat (b - a)" and ka: "k \<le> unat (a - b)"
    using assms(1) by (auto simp: sep_def)
  have j64: "j < 2 ^ 64" using assms(2) ka unsigned_less[of "a - b", where 'a = nat] by simp
  have uj: "unat (of_nat j :: u64) = j" using j64 by (rule unat_of_nat64)
  have ab: "b \<noteq> a" using ka assms(2) by auto
  have "unat (a - b) + unat (b - a) = 2 ^ 64"
    using ab unsigned_less[of a, where 'a = nat] unsigned_less[of b, where 'a = nat]
    by (auto simp: unat_sub_if' word_unat_eq_iff)
  then have s: "unat (b - a) + j < 2 ^ 64" using assms(2) ka by simp
  have "unat (b - a + of_nat j) = unat (b - a) + j"
    using s uj by (subst unat_plus_if') simp
  then show ?thesis using nb by (simp add: algebra_simps)
qed


lemma sep_bytes:
  assumes "0 < n" and "0 < k"
  shows "sep a n b k \<longleftrightarrow> (\<forall>i < n. \<forall>j < k. a + of_nat i \<noteq> b + of_nat j)"
proof
  assume s: "sep a n b k"
  have "n < 2 ^ 64" using s unsigned_less[of "b - a", where 'a = nat] by (simp add: sep_def)
  show "\<forall>i < n. \<forall>j < k. a + of_nat i \<noteq> b + of_nat j"
  proof (intro allI impI notI)
    fix i j assume ij: "i < n" "j < k" and eq: "a + of_nat i = b + of_nat j"
    have "b + of_nat j - a = of_nat i" by (simp flip: eq)
    then show False using sep_notin[OF s ij(2)] unat_of_nat64[of i] ij(1) \<open>n < 2 ^ 64\<close> by simp
  qed
next
  assume d: "\<forall>i < n. \<forall>j < k. a + of_nat i \<noteq> b + of_nat j"
  show "sep a n b k"
    unfolding sep_def
  proof (rule conjI; rule leI; rule notI)
    assume "unat (b - a) < n"
    then show False using d[rule_format, of "unat (b - a)" 0] assms by simp
  next
    assume "unat (a - b) < k"
    then show False using d[rule_format, of 0 "unat (a - b)"] assms by simp
  qed
qed

lemma sep_sub:
  assumes "sep a n b k" and "i + n' \<le> n" and "j + k' \<le> k" and "0 < n'" and "0 < k'"
  shows "sep (a + of_nat i) n' (b + of_nat j) k'"
proof -
  have d: "\<forall>i < n. \<forall>j < k. a + of_nat i \<noteq> b + of_nat j"
    using assms by (subst (asm) sep_bytes) auto
  show ?thesis
  proof (subst sep_bytes)
    show "\<forall>i'<n'. \<forall>j'<k'. a + of_nat i + of_nat i' \<noteq> b + of_nat j + of_nat j'"
    proof (intro allI impI)
      fix i' j' assume "i' < n'" "j' < k'"
      then have "a + of_nat (i + i') \<noteq> b + of_nat (j + j')" using d assms(2,3)
        by (metis add_le_cancel_left le_eq_less_or_eq less_le_trans nat_add_left_cancel_less)
      then show "a + of_nat i + of_nat i' \<noteq> b + of_nat j + of_nat j'"
        by (simp add: add.assoc)
    qed
  qed (use assms in auto)
qed

lemma sep_offset:
  fixes a b :: u64
  assumes "b = a + of_nat k" and "n \<le> k" and "k + l \<le> 2 ^ 64" and "0 < n" and "0 < l"
  shows "sep a n b l"
proof -
  have k: "unat (of_nat k :: u64) = k" using assms by (intro unat_of_nat64) simp
  then have "(of_nat k :: u64) \<noteq> 0" using assms by auto
  then have "unat (0 - of_nat k :: u64) = 2 ^ 64 - k"
    using k assms(2,4) by (subst unat_sub_if') simp
  then show ?thesis using assms k by (simp add: sep_def)
qed

definition agree_off :: "u64 \<Rightarrow> nat \<Rightarrow> memory \<Rightarrow> memory \<Rightarrow> bool" where
  "agree_off a n m m' \<longleftrightarrow> (\<forall>b. n \<le> unat (b - a) \<longrightarrow> m' b = m b)"

lemma agree_off_refl [simp]: "agree_off a n m m"
  by (simp add: agree_off_def)

lemma agree_off_trans: "agree_off a n m m' \<Longrightarrow> agree_off a n m' m'' \<Longrightarrow> agree_off a n m m''"
  by (simp add: agree_off_def)

lemma agree_off_sep:
  "agree_off a n m m' \<Longrightarrow> sep a n b k \<Longrightarrow> j < k \<Longrightarrow> m' (b + of_nat j) = m (b + of_nat j)"
  using sep_notin[of a n b k j] by (simp add: agree_off_def)

lemma rdn_cong:
  assumes "\<And>i. i < n \<Longrightarrow> m (a + of_nat i) = m' (a + of_nat i)"
  shows "(rdn m a n :: 'a::len word) = rdn m' a n"
  by (rule bit_word_eqI) (auto simp: bit_rdn assms)

lemma rdn_wrn_same:
  assumes "n < 2 ^ 64" and "LENGTH('a) \<le> 8 * n"
  shows "rdn (wrn m a n (v :: 'a::len word)) a n = v"
proof (rule bit_word_eqI)
  fix i assume i: "i < LENGTH('a)"
  then have "i div 8 < n" using assms(2) by auto
  then have "unat (of_nat (i div 8) :: u64) = i div 8" using assms(1) by (intro unat_of_nat64) simp
  with i \<open>i div 8 < n\<close> show "bit (rdn (wrn m a n v) a n :: 'a word) i = bit v i"
    using assms(2) by (auto simp: bit_rdn wrn_apply bit_unsigned_iff bit_drop_bit_eq)
qed

section \<open>Cells\<close>

locale mem_cell =
  fixes rd :: "memory \<Rightarrow> u64 \<Rightarrow> 'a::len word"
    and wr :: "memory \<Rightarrow> u64 \<Rightarrow> 'a word \<Rightarrow> memory"
    and n :: nat
  assumes rd_wr_same: "rd (wr m a v) a = v"
    and wr_agree: "agree_off a n m (wr m a v)"
    and rd_cong: "(\<And>i. i < n \<Longrightarrow> m (a + of_nat i) = m' (a + of_nat i)) \<Longrightarrow> rd m a = rd m' a"
begin

lemma rd_agree: "agree_off b k m m' \<Longrightarrow> sep b k a n \<Longrightarrow> rd m' a = rd m a"
  by (rule rd_cong) (rule agree_off_sep)

lemma rd_wr_sep: "sep b n a n \<Longrightarrow> rd (wr m b v) a = rd m a"
  by (rule rd_agree [OF wr_agree])

end

definition rd8 :: "memory \<Rightarrow> u64 \<Rightarrow> u8" where "rd8 m a = m a"
definition wr8 :: "memory \<Rightarrow> u64 \<Rightarrow> u8 \<Rightarrow> memory" where "wr8 m a v = m(a := v)"
definition rd16 :: "memory \<Rightarrow> u64 \<Rightarrow> u16" where "rd16 m a = rdn m a 2"
definition wr16 :: "memory \<Rightarrow> u64 \<Rightarrow> u16 \<Rightarrow> memory" where "wr16 m a v = wrn m a 2 v"
definition rd32 :: "memory \<Rightarrow> u64 \<Rightarrow> u32" where "rd32 m a = rdn m a 4"
definition wr32 :: "memory \<Rightarrow> u64 \<Rightarrow> u32 \<Rightarrow> memory" where "wr32 m a v = wrn m a 4 v"
definition rd64 :: "memory \<Rightarrow> u64 \<Rightarrow> u64" where "rd64 m a = rdn m a 8"
definition wr64 :: "memory \<Rightarrow> u64 \<Rightarrow> u64 \<Rightarrow> memory" where "wr64 m a v = wrn m a 8 v"

lemma wrn_agree: "agree_off a n m (wrn m a n v)"
  by (simp add: agree_off_def wrn_apply)

interpretation c8: mem_cell rd8 wr8 1
  by unfold_locales (auto simp: rd8_def wr8_def agree_off_def)

interpretation c16: mem_cell rd16 wr16 2
  by unfold_locales (auto simp: rd16_def wr16_def rdn_wrn_same wrn_agree intro: rdn_cong)

interpretation c32: mem_cell rd32 wr32 4
  by unfold_locales (auto simp: rd32_def wr32_def rdn_wrn_same wrn_agree intro: rdn_cong)

interpretation c64: mem_cell rd64 wr64 8
  by unfold_locales (auto simp: rd64_def wr64_def rdn_wrn_same wrn_agree intro: rdn_cong)

lemmas rd_wr_same [mem_simps] =
  c8.rd_wr_same c16.rd_wr_same c32.rd_wr_same c64.rd_wr_same

lemmas rd_wr_sep [mem_simps] =
  c8.rd_agree [OF c8.wr_agree] c8.rd_agree [OF c16.wr_agree]
  c8.rd_agree [OF c32.wr_agree] c8.rd_agree [OF c64.wr_agree]
  c16.rd_agree [OF c8.wr_agree] c16.rd_agree [OF c16.wr_agree]
  c16.rd_agree [OF c32.wr_agree] c16.rd_agree [OF c64.wr_agree]
  c32.rd_agree [OF c8.wr_agree] c32.rd_agree [OF c16.wr_agree]
  c32.rd_agree [OF c32.wr_agree] c32.rd_agree [OF c64.wr_agree]
  c64.rd_agree [OF c8.wr_agree] c64.rd_agree [OF c16.wr_agree]
  c64.rd_agree [OF c32.wr_agree] c64.rd_agree [OF c64.wr_agree]

lemma rdn_zero [simp]: "rdn (\<lambda>_. 0) a n = 0"
  by (induction n arbitrary: a) simp_all

lemma rd_zero [simp]: "rd8 (\<lambda>_. 0) a = 0" "rd16 (\<lambda>_. 0) a = 0" "rd32 (\<lambda>_. 0) a = 0" "rd64 (\<lambda>_. 0) a = 0"
  by (simp_all add: rd8_def rd16_def rd32_def rd64_def)

end
