(* ===== verification/Kernel_State.thy ===== *)
theory Kernel_State
  imports Kernel_Memory
begin

text \<open>
  The base state of the machine: its memory, the linker symbols that delimit the kernel image and
  the sequence of output operations performed so far.  The logging functions \<^verbatim>\<open>log_info\<close>, \<^verbatim>\<open>log_ok\<close>,
  \<^verbatim>\<open>log_warn\<close> and \<^verbatim>\<open>log_error\<close>, \<^verbatim>\<open>printk\<close>, \<^verbatim>\<open>kernel_panic\<close> and the terminal functions append to
  \<open>console\<close>; the theory of the terminal says what each item draws.  The state of every component
  extends this record.
\<close>

datatype log_level = Log_info | Log_ok | Log_warn | Log_error

datatype vararg = Arg_word u64 | Arg_str string

datatype out_item =
    Logged log_level string string "vararg list"
  | Printed string "vararg list"
  | Panicked string
  | Put_char u8
  | Set_fg u8
  | Set_bg u8
  | Clear_screen
  | Init_terminal u64 u64

record machine =
  mem :: memory
  console :: "out_item list"
  kern_start :: u64
  kern_end :: u64

definition emit :: "out_item \<Rightarrow> 'a machine_scheme \<Rightarrow> 'a machine_scheme" where
  "emit x s = s\<lparr>console := console s @ [x]\<rparr>"

definition klog :: "log_level \<Rightarrow> string \<Rightarrow> string \<Rightarrow> vararg list \<Rightarrow> 'a machine_scheme \<Rightarrow> 'a machine_scheme" where
  "klog l md fmt args s = emit (Logged l md fmt args) s"

lemma emit_simps [simp]:
  "mem (emit x s) = mem s"
  "console (emit x s) = console s @ [x]"
  "kern_start (emit x s) = kern_start s"
  "kern_end (emit x s) = kern_end s"
  "machine.more (emit x s) = machine.more s"
  by (simp_all add: emit_def)

lemma klog_simps [simp]:
  "mem (klog l md fmt args s) = mem s"
  "kern_start (klog l md fmt args s) = kern_start s"
  "kern_end (klog l md fmt args s) = kern_end s"
  "machine.more (klog l md fmt args s) = machine.more s"
  by (simp_all add: klog_def)

end
