(* ===== verification/Kernel_String.thy ===== *)
theory Kernel_String
  imports Kernel_Memory
begin

text \<open>
  The memory and string routines of \<^verbatim>\<open>kernel/src/string/string.c\<close>.  Counted loops are folds over the
  memory; the loops that look for a terminator are partial functions, since nothing in the C code
  bounds them.  \<open>cstr m a cs\<close> says that the bytes \<open>cs\<close>, none of them zero, lie at \<open>a\<close>, followed by
  a terminator.
\<close>

section \<open>The routines\<close>

definition memset :: "memory \<Rightarrow> u64 \<Rightarrow> u32 \<Rightarrow> u64 \<Rightarrow> memory" where
  "memset m bufptr value sz =
     fold (\<lambda>i m. wr8 m (bufptr + of_nat i) (ucast value)) [0..<unat sz] m"

definition memcpy :: "memory \<Rightarrow> u64 \<Rightarrow> u64 \<Rightarrow> u64 \<Rightarrow> memory" where
  "memcpy m dstptr srcptr sz =
     fold (\<lambda>i m. wr8 m (dstptr + of_nat i) (rd8 m (srcptr + of_nat i))) [0..<unat sz] m"

definition memset32 :: "memory \<Rightarrow> u64 \<Rightarrow> u32 \<Rightarrow> u64 \<Rightarrow> memory" where
  "memset32 m bufptr value sz =
     fold (\<lambda>i m. wr32 m (bufptr + 4 * of_nat i) value) [0..<unat sz] m"

definition memset64 :: "memory \<Rightarrow> u64 \<Rightarrow> u32 \<Rightarrow> u64 \<Rightarrow> memory" where
  "memset64 m bufptr value sz =
     fold (\<lambda>i m. wr64 m (bufptr + 8 * of_nat i) (scast value)) [0..<unat sz] m"

fun memcmp_loop :: "memory \<Rightarrow> u64 \<Rightarrow> u64 \<Rightarrow> nat list \<Rightarrow> u32" where
  "memcmp_loop m a b [] = 0"
| "memcmp_loop m a b (i # is) =
     (if rd8 m (a + of_nat i) < rd8 m (b + of_nat i) then - 1
      else if rd8 m (b + of_nat i) < rd8 m (a + of_nat i) then 1
      else memcmp_loop m a b is)"

definition memcmp :: "memory \<Rightarrow> u64 \<Rightarrow> u64 \<Rightarrow> u64 \<Rightarrow> u32" where
  "memcmp m aptr bptr sz = memcmp_loop m aptr bptr [0..<unat sz]"

partial_function (option) strlen_loop :: "memory \<Rightarrow> u64 \<Rightarrow> u64 \<Rightarrow> u64 option" where
  "strlen_loop m str len =
     (if rd8 m (str + len) \<noteq> 0 then strlen_loop m str (len + 1) else Some len)"

definition strlen :: "memory \<Rightarrow> u64 \<Rightarrow> u64 option" where
  "strlen m str = strlen_loop m str 0"

partial_function (option) strchr :: "memory \<Rightarrow> u64 \<Rightarrow> u32 \<Rightarrow> u64 option" where
  "strchr m str character =
     (if scast (rd8 m str) = character then Some str
      else if rd8 m str \<noteq> 0 then strchr m (str + 1) character
      else Some 0)"

partial_function (option) strcmp :: "memory \<Rightarrow> u64 \<Rightarrow> u64 \<Rightarrow> u32 option" where
  "strcmp m cs ct =
     (let c1 = rd8 m cs; c2 = rd8 m ct in
      if c1 \<noteq> c2 then Some (if c1 < c2 then - 1 else 1)
      else if c1 = 0 then Some 0
      else strcmp m (cs + 1) (ct + 1))"

partial_function (option) strcpy_loop :: "memory \<Rightarrow> u64 \<Rightarrow> u64 \<Rightarrow> memory option" where
  "strcpy_loop m dest src =
     (let c = rd8 m src; m' = wr8 m dest c in
      if c \<noteq> 0 then strcpy_loop m' (dest + 1) (src + 1) else Some m')"

definition strcpy :: "memory \<Rightarrow> u64 \<Rightarrow> u64 \<Rightarrow> (u64 \<times> memory) option" where
  "strcpy m dest src = map_option (Pair dest) (strcpy_loop m dest src)"

section \<open>Terminated strings\<close>

primrec cstr :: "memory \<Rightarrow> u64 \<Rightarrow> u8 list \<Rightarrow> bool" where
  "cstr m a [] \<longleftrightarrow> rd8 m a = 0"
| "cstr m a (c # cs) \<longleftrightarrow> rd8 m a = c \<and> c \<noteq> 0 \<and> cstr m (a + 1) cs"

primrec strcmp_spec :: "u8 list \<Rightarrow> u8 list \<Rightarrow> u32" where
  "strcmp_spec [] ts = (if ts = [] then 0 else - 1)"
| "strcmp_spec (c # cs) ts =
     (case ts of [] \<Rightarrow> 1
      | d # ds \<Rightarrow> if c < d then - 1 else if d < c then 1 else strcmp_spec cs ds)"

lemma offset_eq_iff:
  fixes a b :: u64
  assumes "n < 2 ^ 64"
  shows "b = a + of_nat n \<longleftrightarrow> unat (b - a) = n"
  using unat_of_nat64[OF assms] by (auto simp: add.commute diff_eq_eq)

lemma memset_fold:
  assumes "n < 2 ^ 64"
  shows "fold (\<lambda>i m. wr8 m (a + of_nat i) v) [0..<n] m b =
     (if unat (b - a) < n then v else m b)"
  using assms
proof (induction n)
  case (Suc n)
  then show ?case using offset_eq_iff[of n b a] by (auto simp: wr8_def)
qed simp

lemma memset_apply:
  "memset m a v n b = (if unat (b - a) < unat n then ucast v else m b)"
  using memset_fold[of "unat n" a "ucast v" m b] unsigned_less[of n, where 'a = nat]
  by (simp add: memset_def)

lemma memset_agree: "agree_off a (unat n) m (memset m a v n)"
  by (simp add: agree_off_def memset_apply)

lemma memcpy_fold:
  assumes "n < 2 ^ 64" and "sep dst n src n"
  shows "fold (\<lambda>i m. wr8 m (dst + of_nat i) (rd8 m (src + of_nat i))) [0..<n] m b =
     (if unat (b - dst) < n then m (src + (b - dst)) else m b)"
  using assms
proof (induction n arbitrary: b)
  case (Suc n)
  have s: "sep dst n src n" using Suc.prems(2) by (auto simp: sep_def)
  have out: "\<not> unat (src + of_nat n - dst) < n"
    using sep_notin[OF Suc.prems(2), of n] by simp
  show ?case
    using Suc.IH[OF _ s] Suc.prems(1) out offset_eq_iff[of n b dst]
    by (auto simp: wr8_def rd8_def)
qed simp

lemma memcpy_apply:
  assumes "sep dst (unat n) src (unat n)"
  shows "memcpy m dst src n b = (if unat (b - dst) < unat n then m (src + (b - dst)) else m b)"
  using memcpy_fold[of "unat n", OF _ assms] unsigned_less[of n, where 'a = nat]
  by (simp add: memcpy_def)

lemma memcpy_agree: "agree_off dst (unat n) m (memcpy m dst src n)"
proof -
  have "agree_off dst (unat n) m
      (fold (\<lambda>i m. wr8 m (dst + of_nat i) (rd8 m (src + of_nat i))) [0..<k] m)"
    if "k \<le> unat n" for k
    using that
  proof (induction k)
    case (Suc k)
    have "k < 2 ^ 64" using Suc.prems unsigned_less[of n, where 'a = nat] by simp
    then show ?case
      using Suc offset_eq_iff[of k _ dst] by (auto simp: agree_off_def wr8_def)
  qed simp
  then show ?thesis by (simp add: memcpy_def)
qed

lemma memcmp_loop_eq_0:
  "memcmp_loop m a b is = 0 \<longleftrightarrow> (\<forall>i\<in>set is. rd8 m (a + of_nat i) = rd8 m (b + of_nat i))"
  by (induction "is") (auto simp: not_less_iff_gr_or_eq)

lemma memcmp_eq_0:
  "memcmp m a b n = 0 \<longleftrightarrow> (\<forall>i < unat n. rd8 m (a + of_nat i) = rd8 m (b + of_nat i))"
  by (auto simp: memcmp_def memcmp_loop_eq_0)

lemma strlen_loop_cstr:
  "cstr m (a + len) cs \<Longrightarrow> strlen_loop m a len = Some (len + of_nat (length cs))"
  by (induction cs arbitrary: len)
     (subst strlen_loop.simps, simp add: add.assoc)+

lemma strlen_cstr: "cstr m a cs \<Longrightarrow> strlen m a = Some (of_nat (length cs))"
  using strlen_loop_cstr[of m a 0 cs] by (simp add: strlen_def)

lemma strcmp_cstr: "cstr m a cs \<Longrightarrow> cstr m b ds \<Longrightarrow> strcmp m a b = Some (strcmp_spec cs ds)"
proof (induction cs arbitrary: a b ds)
  case Nil
  then show ?case
    by (cases ds) (auto simp: strcmp.simps[of m a b] word_gt_0)
next
  case (Cons c cs)
  then show ?case
    by (cases ds) (auto simp: strcmp.simps[of m a b] word_gt_0 Let_def)
qed

lemma strcmp_spec_eq_0: "strcmp_spec cs ds = 0 \<longleftrightarrow> cs = ds"
  by (induction cs arbitrary: ds) (auto split: list.splits)

lemma strcmp_spec_lex:
  "strcmp_spec cs ds = - 1 \<longleftrightarrow> (cs, ds) \<in> lexord {(c, d). c < d}"
  "strcmp_spec cs ds = 1 \<longleftrightarrow> (ds, cs) \<in> lexord {(c, d). c < d}"
  by (induction cs arbitrary: ds) (auto simp: neq_Nil_conv split: list.splits)

lemma cstr_agree:
  "agree_off b k m m' \<Longrightarrow> sep b k a (Suc (length cs)) \<Longrightarrow> 0 < k \<Longrightarrow> cstr m' a cs = cstr m a cs"
proof (induction cs arbitrary: a)
  case Nil
  then show ?case using c8.rd_agree by simp
next
  case (Cons c cs)
  have "sep b k (a + of_nat 1) (Suc (length cs))" "sep b k a 1"
    using sep_sub[OF Cons.prems(2), of 0 k 1 "Suc (length cs)"]
      sep_sub[OF Cons.prems(2), of 0 k 0 1] Cons.prems(3) by auto
  then show ?case using Cons.IH[of "a + 1"] Cons.prems c8.rd_agree[of b k m m' a] by simp
qed

lemma strcpy_loop_cstr:
  assumes "cstr m src cs" and "sep dest (Suc (length cs)) src (Suc (length cs))"
  shows "\<exists>m'. strcpy_loop m dest src = Some m' \<and> cstr m' dest cs
           \<and> agree_off dest (Suc (length cs)) m m'"
  using assms
proof (induction cs arbitrary: m dest src)
  case Nil
  then show ?case using c8.wr_agree[of dest m 0]
    by (auto simp: strcpy_loop.simps[of m] Let_def mem_simps)
next
  case (Cons c cs)
  let ?n = "Suc (length cs)" and ?m = "wr8 m dest c"
  have s1: "sep dest 1 (src + of_nat 1) ?n" and s2: "sep (dest + of_nat 1) ?n (src + of_nat 1) ?n"
    using sep_sub[OF Cons.prems(2), of 0 1 1 ?n] sep_sub[OF Cons.prems(2), of 1 ?n 1 ?n] by auto
  have "cstr ?m (src + 1) cs"
    using cstr_agree[OF c8.wr_agree s1] Cons.prems(1) by simp
  with Cons.IH[of ?m "src + 1" "dest + 1"] s2 obtain m' where
    m': "strcpy_loop ?m (dest + 1) (src + 1) = Some m'" "cstr m' (dest + 1) cs"
      "agree_off (dest + 1) ?n ?m m'" by auto
  have lt: "Suc ?n < 2 ^ 64"
    using Cons.prems(2) unsigned_less[of "src - dest", where 'a = nat] by (simp add: sep_def)
  then have far: "?n \<le> unat (dest - (dest + 1))"
    by (simp add: unsigned_minus_1_eq_mask mask_eq_exp_minus_1)
  have ag: "agree_off dest (Suc ?n) m m'"
    unfolding agree_off_def
  proof (intro allI impI)
    fix b assume b: "Suc ?n \<le> unat (b - dest)"
    then have "b \<noteq> dest" by auto
    with b show "m' b = m b"
      using m'(3) unat_diff_Suc[of b dest] by (auto simp: agree_off_def wr8_def)
  qed
  have "rd8 m' dest = c"
    using m'(3) far by (simp add: agree_off_def rd8_def wr8_def)
  with m' ag Cons.prems(1) show ?case
    by (simp add: strcpy_loop.simps[of m] Let_def)
qed

section \<open>Properties\<close>

text \<open>
  C10.  On two terminated byte strings \<^verbatim>\<open>strcmp\<close> returns, it returns 0 exactly
  when the strings are equal, and its result is the sign of the lexicographic comparison of the
  strings as sequences of unsigned bytes.
\<close>

theorem strcmp_decides:
  assumes "cstr m a cs" and "cstr m b ds"
  shows "\<exists>r. strcmp m a b = Some r \<and> (r = 0 \<longleftrightarrow> cs = ds) \<and>
    (r = - 1 \<longleftrightarrow> (cs, ds) \<in> lexord {(c, d). c < d}) \<and> (r = 1 \<longleftrightarrow> (ds, cs) \<in> lexord {(c, d). c < d})"
  using strcmp_cstr[OF assms] strcmp_spec_eq_0[of cs ds] strcmp_spec_lex[of cs ds] by simp

theorem strcmp_decides_witness:
  "\<exists>r. strcmp ((\<lambda>_. 0)(0x100 := 104, 0x101 := 105, 0x200 := 104)) 0x100 0x200 = Some r \<and> r = 1"
  using strcmp_decides[of "(\<lambda>_. 0)(0x100 := 104, 0x101 := 105, 0x200 := 104)" "0x100" "[104, 105]" "0x200" "[104]"]
  by (simp add: rd8_def)

text \<open>
  \<^verbatim>\<open>strcpy\<close> of a terminated string into a destination that does not overlap it
  returns the destination, leaves the terminated string there, and changes no byte beyond the
  string and its terminator.
\<close>

lemma strcpy_copies:
  assumes "cstr m src cs" and "sep dest (Suc (length cs)) src (Suc (length cs))"
  shows "\<exists>m'. strcpy m dest src = Some (dest, m') \<and> cstr m' dest cs \<and> cstr m' src cs \<and>
    strlen m' dest = Some (of_nat (length cs)) \<and> agree_off dest (Suc (length cs)) m m'"
proof -
  from strcpy_loop_cstr[OF assms] obtain m' where m': "strcpy_loop m dest src = Some m'" "cstr m' dest cs"
    "agree_off dest (Suc (length cs)) m m'" by blast
  then show ?thesis using cstr_agree[OF m'(3) assms(2)] assms(1)
    by (auto simp: strcpy_def strlen_cstr)
qed

end
