(* ===== verification/Bitmap.thy ===== *)
theory Bitmap
  imports Kernel_Memory
begin

text \<open>
  The bitmap of \<^verbatim>\<open>kernel/src/ds/bitmap.c\<close>, most significant bit first, used for physical pages
  (\<^verbatim>\<open>pmm.c\<close>) and for the virtual pages of a process (\<^verbatim>\<open>vmm.c\<close>).  \<open>bm_bit\<close> is the abstract bit; the
  interface \<open>bit_store\<close> gives the laws of marking runs of bits and is interpreted on the model of
  the C functions.
\<close>

record bitmap_t =
  bm_bitmap :: u64
  bm_size :: u64

definition bitmap_get :: "memory \<Rightarrow> bitmap_t \<Rightarrow> u32 \<Rightarrow> u8" where
  "bitmap_get m b idx =
     (if bm_size b * 8 < ucast idx then 0
      else
        let byteIndex = ucast (idx div 8) :: u64;
            bitIndex = ucast (idx mod 8) :: u8;
            bitIndexer = drop_bit (unat bitIndex) 0b10000000
        in if rd8 m (bm_bitmap b + byteIndex) AND bitIndexer > 0 then 1 else 0)"

definition bitmap_set :: "memory \<Rightarrow> bitmap_t \<Rightarrow> u32 \<Rightarrow> u8 \<Rightarrow> u8 \<times> memory" where
  "bitmap_set m b idx value =
     (if bm_size b * 8 < ucast idx then (0, m)
      else
        let byteIndex = ucast (idx div 8) :: u64;
            bitIndex = ucast (idx mod 8) :: u8;
            bitIndexer = drop_bit (unat bitIndex) 0b10000000;
            p = bm_bitmap b + byteIndex;
            m1 = wr8 m p (rd8 m p AND NOT bitIndexer);
            m2 = (if value \<noteq> 0 then wr8 m1 p (rd8 m1 p OR bitIndexer) else m1)
        in (1, m2))"

section \<open>The abstract bits\<close>

definition bm_bit :: "memory \<Rightarrow> bitmap_t \<Rightarrow> nat \<Rightarrow> bool" where
  "bm_bit m b i = bit (m (bm_bitmap b + of_nat (i div 8))) (7 - i mod 8)"

definition bm_limit :: "bitmap_t \<Rightarrow> nat" where
  "bm_limit b = min (unat (bm_size b * 8)) (2 ^ 32)"

lemma bit_indexer: "k < 8 \<Longrightarrow> drop_bit k (0b10000000 :: u8) = push_bit (7 - k) 1"
  by (simp add: less_Suc_eq numeral_eq_Suc) (elim disjE; simp)

lemma and_single_bit_pos:
  fixes x :: u8
  assumes "n < 8"
  shows "x AND push_bit n 1 > 0 \<longleftrightarrow> bit x n"
proof -
  have "x AND push_bit n 1 = 0 \<longleftrightarrow> \<not> bit x n"
    using assms by (auto simp: bit_and_iff bit_push_bit_iff bit_exp_iff
        intro!: bit_word_eqI dest: arg_cong[where f = "\<lambda>w. bit w n"])
  then show ?thesis by (simp add: word_gt_0)
qed

lemma u32_index:
  assumes "i < 2 ^ 32"
  shows "ucast ((of_nat i :: u32) div 8) = (of_nat (i div 8) :: u64)"
    and "unat (ucast ((of_nat i :: u32) mod 8) :: u8) = i mod 8"
    and "(ucast (of_nat i :: u32) :: u64) = of_nat i"
proof -
  have u: "unat (of_nat i :: u32) = i" using assms by (rule unat_of_nat32)
  have u': "unat (of_nat i :: u64) = i" "unat (of_nat (i div 8) :: u64) = i div 8"
    using assms by (auto intro!: unat_of_nat64)
  show "ucast ((of_nat i :: u32) div 8) = (of_nat (i div 8) :: u64)"
    by (simp add: word_unat_eq_iff unat_div_distrib unat_ucast_up u u')
  have "i mod 8 < 2 ^ 8" by (rule less_trans[OF mod_less_divisor]) simp_all
  then show "unat (ucast ((of_nat i :: u32) mod 8) :: u8) = i mod 8"
    by (simp add: unat_mod_distrib unsigned_ucast_eq u take_bit_nat_eq_self)
  show "(ucast (of_nat i :: u32) :: u64) = of_nat i"
    by (simp add: word_unat_eq_iff unat_ucast_up u u')
qed

lemma bitmap_get_bit:
  assumes "i < 2 ^ 32" and "i \<le> unat (bm_size b * 8)"
  shows "bitmap_get m b (of_nat i) = (if bm_bit m b i then 1 else 0)"
proof -
  have "\<not> bm_size b * 8 < of_nat i"
    using assms unat_of_nat64[of i] by (simp add: word_less_nat_alt)
  then show ?thesis
    by (simp add: bitmap_get_def u32_index[OF assms(1)] bit_indexer Let_def
        and_single_bit_pos bm_bit_def rd8_def del: push_bit_of_1)
qed

lemma bitmap_get_out:
  assumes "unat (bm_size b * 8) < i" and "i < 2 ^ 32"
  shows "bitmap_get m b (of_nat i) = 0"
  using assms unat_of_nat64[of i]
  by (simp add: bitmap_get_def u32_index[OF assms(2)] word_less_nat_alt)

lemma bitmap_set_out:
  assumes "unat (bm_size b * 8) < i" and "i < 2 ^ 32"
  shows "bitmap_set m b (of_nat i) v = (0, m)"
  using assms unat_of_nat64[of i]
  by (simp add: bitmap_set_def u32_index[OF assms(2)] word_less_nat_alt)

lemma bitmap_set_bit:
  assumes "i < 2 ^ 32" and "i \<le> unat (bm_size b * 8)" and "j < 2 ^ 32"
  shows "bm_bit (snd (bitmap_set m b (of_nat i) v)) b j = (if j = i then v \<noteq> 0 else bm_bit m b j)"
proof -
  have "\<not> bm_size b * 8 < of_nat i"
    using assms unat_of_nat64[of i] by (simp add: word_less_nat_alt)
  moreover have "(of_nat (j div 8) :: u64) = of_nat (i div 8) \<longleftrightarrow> j div 8 = i div 8"
    using assms unat_of_nat64[of "i div 8"] unat_of_nat64[of "j div 8"]
    by (auto dest: arg_cong[where f = unat])
  moreover have "j = i \<longleftrightarrow> j div 8 = i div 8 \<and> 7 - j mod 8 = 7 - i mod 8"
  proof -
    have "i mod 8 \<le> 7" "j mod 8 \<le> 7" by simp_all
    then have "7 - j mod 8 = 7 - i mod 8 \<longleftrightarrow> j mod 8 = i mod 8" by linarith
    then show ?thesis by (metis div_mult_mod_eq)
  qed
  ultimately show ?thesis
    by (auto simp: bitmap_set_def u32_index[OF assms(1)] bit_indexer Let_def
        bm_bit_def rd8_def wr8_def bit_and_iff bit_or_iff bit_not_iff bit_exp_iff)
qed

lemma bitmap_set_agree:
  assumes "i < 2 ^ 32" and "i < 8 * n"
  shows "agree_off (bm_bitmap b) n m (snd (bitmap_set m b (of_nat i) v))"
proof -
  have "unat (of_nat (i div 8) :: u64) = i div 8" using assms by (intro unat_of_nat64) auto
  moreover have "i div 8 < n" using assms by auto
  ultimately have "n \<le> unat (c - bm_bitmap b) \<Longrightarrow> c \<noteq> bm_bitmap b + of_nat (i div 8)" for c
    by auto
  then show ?thesis
    by (simp add: agree_off_def bitmap_set_def u32_index[OF assms(1)] Let_def wr8_def)
qed

lemma bm_bit_agree:
  assumes "agree_off a n m m'" and "sep a n (bm_bitmap b) k" and "i < 8 * k"
  shows "bm_bit m' b i = bm_bit m b i"
  using agree_off_sep[OF assms(1,2), of "i div 8"] assms(3) by (auto simp: bm_bit_def)

section \<open>Runs of bits\<close>

locale bit_store =
  fixes get :: "'m \<Rightarrow> nat \<Rightarrow> bool"
    and put :: "'m \<Rightarrow> nat \<Rightarrow> bool \<Rightarrow> 'm"
    and bound :: nat
  assumes get_put: "i < bound \<Longrightarrow> j < bound \<Longrightarrow> get (put m i v) j = (if j = i then v else get m j)"
begin

definition mark :: "nat \<Rightarrow> nat \<Rightarrow> bool \<Rightarrow> 'm \<Rightarrow> 'm" where
  "mark k n v m = fold (\<lambda>i m. put m (k + i) v) [0..<n] m"

lemma get_mark:
  assumes "k + n \<le> bound" and "j < bound"
  shows "get (mark k n v m) j = (if k \<le> j \<and> j < k + n then v else get m j)"
  using assms(1)
proof (induction n)
  case (Suc n)
  then show ?case using assms(2) by (auto simp: mark_def get_put)
qed (auto simp: mark_def)

lemma get_mark_unmark:
  assumes "k + n \<le> bound" and "j < bound" and "\<And>i. k \<le> i \<Longrightarrow> i < k + n \<Longrightarrow> \<not> get m i"
  shows "get (mark k n False (mark k n True m)) j = get m j"
  using assms by (auto simp: get_mark)

end

definition bm_get :: "bitmap_t \<Rightarrow> memory \<Rightarrow> nat \<Rightarrow> bool" where
  "bm_get b m i \<longleftrightarrow> bitmap_get m b (of_nat i) \<noteq> 0"

definition bm_put :: "bitmap_t \<Rightarrow> memory \<Rightarrow> nat \<Rightarrow> bool \<Rightarrow> memory" where
  "bm_put b m i v = snd (bitmap_set m b (of_nat i) (if v then 1 else 0))"

lemma bm_get_bit: "i < bm_limit b \<Longrightarrow> bm_get b m i = bm_bit m b i"
  by (simp add: bm_get_def bm_limit_def bitmap_get_bit)

interpretation bm: bit_store "bm_get b" "bm_put b" "bm_limit b" for b
  by unfold_locales (simp add: bm_get_bit, simp add: bm_put_def bm_limit_def bitmap_set_bit)

section \<open>Properties\<close>

text \<open>
  C9.  For an index within the bitmap, \<^verbatim>\<open>bitmap_set\<close> reports success, the bit read back by
  \<^verbatim>\<open>bitmap_get\<close> is the value written, every other in-range bit is unchanged, and an index beyond
  the accepted range leaves the memory as it was and is reported as 0 by both.
\<close>

theorem bitmap_set_get:
  assumes "j < bm_limit b"
  shows "if i < bm_limit b
    then fst (bitmap_set m b (of_nat i) v) = 1 \<and>
      bitmap_get (snd (bitmap_set m b (of_nat i) v)) b (of_nat j) =
        (if j = i then (if v = 0 then 0 else 1) else bitmap_get m b (of_nat j))
    else i < 2 ^ 32 \<and> unat (bm_size b * 8) < i \<longrightarrow>
      bitmap_set m b (of_nat i) v = (0, m) \<and> bitmap_get m b (of_nat i) = 0"
proof (cases "i < bm_limit b")
  case True
  then have i: "i < 2 ^ 32" "i \<le> unat (bm_size b * 8)" by (auto simp: bm_limit_def)
  have j: "j < 2 ^ 32" "j \<le> unat (bm_size b * 8)" using assms by (auto simp: bm_limit_def)
  have "fst (bitmap_set m b (of_nat i) v) = 1"
    using i unat_of_nat64[of i] by (simp add: bitmap_set_def u32_index Let_def word_less_nat_alt)
  then show ?thesis using True i j by (simp add: bitmap_get_bit bitmap_set_bit)
qed (auto simp: bitmap_set_out bitmap_get_out)

theorem bitmap_set_get_witness:
  "bitmap_get (snd (bitmap_set (\<lambda>_. 0) \<lparr>bm_bitmap = 0x1000, bm_size = 2\<rparr> (of_nat 9) 1))
     \<lparr>bm_bitmap = 0x1000, bm_size = 2\<rparr> (of_nat 9) = 1"
  using bitmap_set_get[of 9 "\<lparr>bm_bitmap = 0x1000, bm_size = 2\<rparr>" 9 "\<lambda>_. 0" 1]
  by (simp add: bm_limit_def)

text \<open>
  The range check is one too permissive: the index \<^verbatim>\<open>size * 8\<close>, the first one past the end, is
  accepted, and setting it writes the byte after the bitmap.
\<close>

theorem bitmap_set_past_end:
  "bitmap_set (\<lambda>_. 0) \<lparr>bm_bitmap = 0x1000, bm_size = 2\<rparr> 16 1 = (1, (\<lambda>_. 0)(0x1002 := 0x80))"
  by (auto simp: bitmap_set_def Let_def wr8_def rd8_def)

end
