(* ===== verification/Pmm.thy ===== *)
theory Pmm
  imports Kernel_State Kernel_String Bitmap
begin

text \<open>
  The physical page allocator of \<^verbatim>\<open>kernel/src/mm/pmm/pmm.c\<close>: its state (bitmap descriptor, base of the
  managed memory, cached memory size), every function of the file, the invariant \<open>pmm_wf\<close> and the
  sets of managed and used pages.  The interface \<open>page_allocator\<close> states what the rest of the
  kernel relies on; it is interpreted on \<^verbatim>\<open>pmm_getpage\<close> and \<^verbatim>\<open>pmm_freepage\<close>.  The bound
  \<open>0x4000\<close> on the bitmap size in the invariant is the room \<^verbatim>\<open>pmm_init\<close> reserves for it, which
  covers 512 MiB.
\<close>

record pmm = machine +
  pmm_bitmap :: bitmap_t
  start_of_mem :: u64
  memorySizeBytes :: u64

section \<open>The allocator\<close>

definition EfiConventionalMemory :: u32 where "EfiConventionalMemory = 7"

definition desc_type :: "memory \<Rightarrow> u64 \<Rightarrow> u32" where "desc_type m d = rd32 m d"
definition desc_physAddr :: "memory \<Rightarrow> u64 \<Rightarrow> u64" where "desc_physAddr m d = rd64 m (d + 8)"
definition desc_numPages :: "memory \<Rightarrow> u64 \<Rightarrow> u64" where "desc_numPages m d = rd64 m (d + 24)"

definition get_mem_size :: "u64 \<Rightarrow> u64 \<Rightarrow> u64 \<Rightarrow> 'a pmm_scheme \<Rightarrow> u64 \<times> 'a pmm_scheme" where
  "get_mem_size mmap mmap_entries mmap_descsize s =
     (if memorySizeBytes s > 0 then (memorySizeBytes s, s)
      else
        let s' = fold (\<lambda>i s.
              let desc = mmap + of_nat i * mmap_descsize
              in s\<lparr>memorySizeBytes := memorySizeBytes s + desc_numPages (mem s) desc * 4096\<rparr>)
            [0..<unat mmap_entries] s
        in (memorySizeBytes s', s'))"

partial_function (option) pmm_find_free :: "memory \<Rightarrow> bitmap_t \<Rightarrow> u32 \<Rightarrow> u32 option" where
  "pmm_find_free m b idx =
     (if bitmap_get m b idx \<noteq> 0 then pmm_find_free m b (idx + 1) else Some idx)"

definition pmm_set_range :: "u32 \<Rightarrow> u32 \<Rightarrow> 'a pmm_scheme \<Rightarrow> 'a pmm_scheme" where
  "pmm_set_range idx pages s =
     fold (\<lambda>i s. s\<lparr>mem := snd (bitmap_set (mem s) (pmm_bitmap s) (idx + of_nat i) 1)\<rparr>)
       [0..<nat (sint pages)] s"

definition pmm_getpage :: "'a pmm_scheme \<Rightarrow> (u64 \<times> 'a pmm_scheme) option" where
  "pmm_getpage s = do {
     idx \<leftarrow> pmm_find_free (mem s) (pmm_bitmap s) 0;
     let s' = s\<lparr>mem := snd (bitmap_set (mem s) (pmm_bitmap s) idx 1)\<rparr>;
     Some (start_of_mem s' + scast (0x1000 * idx), s')
   }"

primrec pmm_getpage_iter :: "nat \<Rightarrow> 'a pmm_scheme \<Rightarrow> (u64 list \<times> 'a pmm_scheme) option" where
  "pmm_getpage_iter 0 s = Some ([], s)"
| "pmm_getpage_iter (Suc n) s = do {
     (p, s) \<leftarrow> pmm_getpage s;
     (ps, s) \<leftarrow> pmm_getpage_iter n s;
     Some (p # ps, s)
   }"

definition pmm_getpages :: "u32 \<Rightarrow> 'a pmm_scheme \<Rightarrow> (u64 \<times> 'a pmm_scheme) option" where
  "pmm_getpages pages s = do {
     idx \<leftarrow> pmm_find_free (mem s) (pmm_bitmap s) 0;
     let s' = pmm_set_range idx pages s;
     Some (start_of_mem s' + scast (0x1000 * idx), s')
   }"

definition pmm_freepage :: "u64 \<Rightarrow> 'a pmm_scheme \<Rightarrow> 'a pmm_scheme" where
  "pmm_freepage pageaddr s =
     (let idx = ucast ((pageaddr - start_of_mem s) div 0x1000) :: u32
      in s\<lparr>mem := snd (bitmap_set (mem s) (pmm_bitmap s) idx 0)\<rparr>)"

definition pmm_lockpages :: "u64 \<Rightarrow> u32 \<Rightarrow> 'a pmm_scheme \<Rightarrow> 'a pmm_scheme" where
  "pmm_lockpages addr pages s =
     (let idx = ucast ((addr - start_of_mem s) div 0x1000) :: u32
      in pmm_set_range idx pages s)"

record seg_search =
  largestFreeMemSeg :: u64
  largestFreeMemSegSize :: u64
  seg_bitmap :: u64

definition pmm_scan_desc :: "memory \<Rightarrow> u64 \<Rightarrow> seg_search \<Rightarrow> seg_search" where
  "pmm_scan_desc m desc g =
     (if desc_type m desc = 7 \<and> desc_numPages m desc * 0x1000 > largestFreeMemSegSize g then
        \<lparr>largestFreeMemSeg = desc_physAddr m desc + 0x4000,
         largestFreeMemSegSize = desc_numPages m desc * 0x1000 - 0x4000,
         seg_bitmap = desc_physAddr m desc + 0x4000 - 0x4000\<rparr>
      else g)"

definition pmm_scan :: "memory \<Rightarrow> u64 \<Rightarrow> u64 \<Rightarrow> nat list \<Rightarrow> seg_search \<Rightarrow> seg_search" where
  "pmm_scan m mmap mmap_descsize is g =
     fold (\<lambda>i. pmm_scan_desc m (mmap + of_nat i * mmap_descsize)) is g"

definition pmm_setup :: "u64 \<Rightarrow> u64 \<Rightarrow> u64 \<Rightarrow> 'a pmm_scheme \<Rightarrow> 'a pmm_scheme" where
  "pmm_setup mmap mMapEntries mmap_descsize s =
     (let g = pmm_scan (mem s) mmap mmap_descsize [0..<unat mMapEntries]
                \<lparr>largestFreeMemSeg = 0, largestFreeMemSegSize = 0,
                 seg_bitmap = bm_bitmap (pmm_bitmap s)\<rparr>;
          s = s\<lparr>pmm_bitmap := (pmm_bitmap s)\<lparr>bm_bitmap := seg_bitmap g\<rparr>\<rparr>;
          s = s\<lparr>mem := memset (mem s) (bm_bitmap (pmm_bitmap s)) 0 0x4000\<rparr>;
          s = s\<lparr>start_of_mem := largestFreeMemSeg g\<rparr>;
          s = klog Log_info ''PMM'' ''Located largest free memory segment'' [] s;
          (memory_size, s) = get_mem_size mmap mMapEntries mmap_descsize s;
          s = s\<lparr>pmm_bitmap := (pmm_bitmap s)\<lparr>bm_size := (memory_size div 4096) div 8 + 1\<rparr>\<rparr>;
          s = klog Log_info ''PMM'' ''Got memory and bitmap size'' [] s
      in klog Log_ok ''PMM'' ''PMM initialized'' [] s)"

definition pmm_init :: "u64 \<Rightarrow> u64 \<Rightarrow> u64 \<Rightarrow> 'a pmm_scheme \<Rightarrow> 'a pmm_scheme" where
  "pmm_init mmap mmap_size mmap_descsize s =
     (let mMapEntries = mmap_size div mmap_descsize;
          s = pmm_setup mmap mMapEntries mmap_descsize s
      in if start_of_mem s < kern_start s then
           let kernel_size = kern_end s - kern_start s;
               kern_size_pages = kernel_size div 0x1000 + 1
           in pmm_lockpages (kern_start s) (ucast kern_size_pages) s
         else s)"

section \<open>Managed and used pages\<close>

definition pmm_npages :: "'a pmm_scheme \<Rightarrow> nat" where
  "pmm_npages s = 8 * unat (bm_size (pmm_bitmap s))"

definition page_at :: "'a pmm_scheme \<Rightarrow> nat \<Rightarrow> u64" where
  "page_at s i = start_of_mem s + 0x1000 * of_nat i"

definition pmm_pages :: "'a pmm_scheme \<Rightarrow> u64 set" where
  "pmm_pages s = page_at s ` {..<pmm_npages s}"

definition pmm_used :: "'a pmm_scheme \<Rightarrow> u64 set" where
  "pmm_used s = page_at s ` {i. i < pmm_npages s \<and> bm_bit (mem s) (pmm_bitmap s) i}"

definition pmm_wf :: "'a pmm_scheme \<Rightarrow> bool" where
  "pmm_wf s \<longleftrightarrow>
     0 < bm_size (pmm_bitmap s) \<and> bm_size (pmm_bitmap s) \<le> 0x4000 \<and>
     bm_bitmap (pmm_bitmap s) = start_of_mem s - 0x4000 \<and>
     0x4000 \<le> unat (start_of_mem s) \<and> unat (start_of_mem s) + 0x20000000 < 2 ^ 40 \<and>
     unat (start_of_mem s) mod 0x1000 = 0"

lemma pmm_find_free_first:
  assumes "k \<le> j" and "\<And>i. k \<le> i \<Longrightarrow> i < j \<Longrightarrow> bitmap_get m b (of_nat i) \<noteq> 0"
    and "bitmap_get m b (of_nat j) = 0"
  shows "pmm_find_free m b (of_nat k) = Some (of_nat j)"
  using assms
proof (induction rule: inc_induct)
  case base
  then show ?case by (simp add: pmm_find_free.simps)
next
  case (step n)
  then have "pmm_find_free m b (of_nat (Suc n)) = Some (of_nat j)" by auto
  moreover have "bitmap_get m b (of_nat n) \<noteq> 0" using step by auto
  ultimately show ?case by (subst pmm_find_free.simps) (simp add: add.commute)
qed

lemma scast_page_index:
  "n < 2 ^ 19 \<Longrightarrow> scast (0x1000 * of_nat n :: u32) = (0x1000 * of_nat n :: u64)"
  using scast_of_nat32[of "0x1000 * n"] by simp

lemma pmm_getpage_returns:
  assumes "unat (bm_size (pmm_bitmap s) * 8) + 1 < 2 ^ 32"
  shows "\<exists>r. pmm_getpage s = Some r"
proof -
  let ?g = "\<lambda>i. bitmap_get (mem s) (pmm_bitmap s) (of_nat i) = 0"
  have "?g (unat (bm_size (pmm_bitmap s) * 8) + 1)"
    using assms by (intro bitmap_get_out) auto
  then have "?g (LEAST i. ?g i)" by (rule LeastI)
  then have "pmm_find_free (mem s) (pmm_bitmap s) (of_nat 0) = Some (of_nat (LEAST i. ?g i))"
    using not_less_Least by (intro pmm_find_free_first) auto
  then show ?thesis by (simp add: pmm_getpage_def)
qed

lemma pmm_wf_size:
  assumes "pmm_wf s"
  shows "unat (bm_size (pmm_bitmap s) * 8) = pmm_npages s" "pmm_npages s \<le> 2 ^ 17" "0 < pmm_npages s"
proof -
  have "unat (bm_size (pmm_bitmap s)) \<le> 0x4000" "0 < unat (bm_size (pmm_bitmap s))"
    using assms by (auto simp: pmm_wf_def word_le_nat_alt word_less_nat_alt)
  then show "unat (bm_size (pmm_bitmap s) * 8) = pmm_npages s" "pmm_npages s \<le> 2 ^ 17" "0 < pmm_npages s"
    by (auto simp: pmm_npages_def unat_word_ariths)
qed

lemma pmm_bit_get:
  assumes "pmm_wf s" and "i < pmm_npages s"
  shows "bitmap_get (mem s) (pmm_bitmap s) (of_nat i) = (if bm_bit (mem s) (pmm_bitmap s) i then 1 else 0)"
  using assms pmm_wf_size[OF assms(1)] by (intro bitmap_get_bit) auto

lemma pmm_getpage_eq:
  assumes "pmm_wf s" and "j < pmm_npages s" and "\<not> bm_bit (mem s) (pmm_bitmap s) j"
    and "\<forall>i < j. bm_bit (mem s) (pmm_bitmap s) i"
  shows "pmm_getpage s = Some (page_at s j, s\<lparr>mem := bm_put (pmm_bitmap s) (mem s) j True\<rparr>)"
proof -
  have "pmm_find_free (mem s) (pmm_bitmap s) (of_nat 0) = Some (of_nat j)"
    using assms by (intro pmm_find_free_first) (auto simp: pmm_bit_get)
  moreover have "scast (0x1000 * of_nat j :: u32) = (0x1000 * of_nat j :: u64)"
    using assms(2) pmm_wf_size(2)[OF assms(1)] by (intro scast_page_index) simp
  ultimately show ?thesis by (simp add: pmm_getpage_def page_at_def bm_put_def)
qed

lemma unat_page_offset: "n < 2 ^ 52 \<Longrightarrow> unat (0x1000 * of_nat n :: u64) = 0x1000 * n"
  using unat_of_nat64[of "0x1000 * n"] by simp

lemma page_at_inj:
  assumes "page_at s i = page_at s j" and "i < 2 ^ 17" and "j < 2 ^ 17"
  shows "i = j"
proof -
  have "unat (0x1000 * of_nat i :: u64) = unat (0x1000 * of_nat j :: u64)"
    using assms(1) by (intro arg_cong[where f = unat]) (simp add: page_at_def)
  moreover have "unat (0x1000 * of_nat i :: u64) = 0x1000 * i"
    using assms(2) by (intro unat_page_offset) simp
  moreover have "unat (0x1000 * of_nat j :: u64) = 0x1000 * j"
    using assms(3) by (intro unat_page_offset) simp
  ultimately show ?thesis by linarith
qed

lemma page_at_mem_upd [simp]: "page_at (s\<lparr>mem := m\<rparr>) = page_at s"
  by (rule ext) (simp add: page_at_def)

lemma pmm_npages_mem_upd [simp]: "pmm_npages (s\<lparr>mem := m\<rparr>) = pmm_npages s"
  by (simp add: pmm_npages_def)

lemma pmm_pages_mem_upd [simp]: "pmm_pages (s\<lparr>mem := m\<rparr>) = pmm_pages s"
  by (simp add: pmm_pages_def)

lemma pmm_wf_mem_upd [simp]: "pmm_wf (s\<lparr>mem := m\<rparr>) = pmm_wf s"
  by (simp add: pmm_wf_def)

lemma pmm_bm_put:
  assumes "pmm_wf s" and "i < pmm_npages s" and "j < pmm_npages s"
  shows "bm_bit (bm_put (pmm_bitmap s) m i v) (pmm_bitmap s) j = (if j = i then v else bm_bit m (pmm_bitmap s) j)"
  using assms pmm_wf_size[OF assms(1)] by (simp add: bm_put_def bitmap_set_bit)

lemma pmm_used_put:
  assumes "pmm_wf s" and "i < pmm_npages s"
  shows "pmm_used (s\<lparr>mem := bm_put (pmm_bitmap s) (mem s) i v\<rparr>) =
    (if v then insert (page_at s i) (pmm_used s) else pmm_used s - {page_at s i})"
proof -
  have inj: "inj_on (page_at s) {..<pmm_npages s}"
    using pmm_wf_size(2)[OF assms(1)] by (intro inj_onI page_at_inj) auto
  have "{k. k < pmm_npages s \<and> bm_bit (bm_put (pmm_bitmap s) (mem s) i v) (pmm_bitmap s) k} =
    (if v then insert i {k. k < pmm_npages s \<and> bm_bit (mem s) (pmm_bitmap s) k}
     else {k. k < pmm_npages s \<and> bm_bit (mem s) (pmm_bitmap s) k} - {i})"
    using assms by (auto simp: pmm_bm_put split: if_splits)
  then show ?thesis
    using assms(2) inj by (auto simp: pmm_used_def inj_on_def)
qed

lemma pmm_first_free:
  assumes "pmm_used s \<noteq> pmm_pages s"
  obtains j where "j < pmm_npages s" "\<not> bm_bit (mem s) (pmm_bitmap s) j"
    "\<forall>i < j. bm_bit (mem s) (pmm_bitmap s) i"
proof -
  let ?P = "\<lambda>j. j < pmm_npages s \<and> \<not> bm_bit (mem s) (pmm_bitmap s) j"
  have "\<exists>j. ?P j" using assms by (auto simp: pmm_used_def pmm_pages_def)
  then have P: "?P (LEAST j. ?P j)" by (rule LeastI_ex)
  show ?thesis
  proof (rule that)
    show "\<forall>i < (LEAST j. ?P j). bm_bit (mem s) (pmm_bitmap s) i"
      using P not_less_Least[of _ ?P] less_trans by blast
  qed (use P in auto)
qed

lemma pmm_freepage_eq:
  assumes "pmm_wf s" and "i < pmm_npages s"
  shows "pmm_freepage (page_at s i) s = s\<lparr>mem := bm_put (pmm_bitmap s) (mem s) i False\<rparr>"
proof -
  have "i < 2 ^ 17 + 1" using assms pmm_wf_size(2)[OF assms(1)] by simp
  then have "unat (0x1000 * of_nat i :: u64) = 0x1000 * i" "unat (of_nat i :: u64) = i"
    by (auto intro!: unat_of_nat64 unat_page_offset)
  then have "(0x1000 * of_nat i :: u64) div 0x1000 = of_nat i"
    by (simp add: word_unat_eq_iff unat_div_distrib)
  moreover have "ucast (of_nat i :: u64) = (of_nat i :: u32)" 
    using \<open>i < 2 ^ 17 + 1\<close> by (intro ucast_of_nat64_32) simp
  ultimately show ?thesis by (simp add: pmm_freepage_def page_at_def bm_put_def)
qed

section \<open>The interface of the allocator\<close>

locale page_allocator =
  fixes alloc :: "'s \<Rightarrow> (u64 \<times> 's) option"
    and dealloc :: "u64 \<Rightarrow> 's \<Rightarrow> 's"
    and pages :: "'s \<Rightarrow> u64 set"
    and used :: "'s \<Rightarrow> u64 set"
    and invar :: "'s \<Rightarrow> bool"
  assumes finite_pages: "finite (pages s)"
    and used_pages: "used s \<subseteq> pages s"
    and alloc_fresh: "invar s \<Longrightarrow> used s \<noteq> pages s \<Longrightarrow>
      \<exists>p s'. alloc s = Some (p, s') \<and> p \<in> pages s - used s \<and> used s' = insert p (used s)
        \<and> pages s' = pages s \<and> invar s'"
    and dealloc_used: "invar s \<Longrightarrow> p \<in> pages s \<Longrightarrow>
      used (dealloc p s) = used s - {p} \<and> pages (dealloc p s) = pages s \<and> invar (dealloc p s)"
begin

primrec alloc_many :: "nat \<Rightarrow> 's \<Rightarrow> (u64 list \<times> 's) option" where
  "alloc_many 0 s = Some ([], s)"
| "alloc_many (Suc n) s = do {
     (p, s) \<leftarrow> alloc s;
     (ps, s) \<leftarrow> alloc_many n s;
     Some (p # ps, s)
   }"

lemma card_free_pos: "0 < card (pages s - used s) \<Longrightarrow> used s \<noteq> pages s"
  by auto

lemma alloc_many_fresh:
  assumes "invar s" and "n \<le> card (pages s - used s)"
  shows "\<exists>ps s'. alloc_many n s = Some (ps, s') \<and> length ps = n \<and> distinct ps
    \<and> set ps \<subseteq> pages s - used s \<and> used s' = used s \<union> set ps \<and> pages s' = pages s \<and> invar s'"
  using assms
proof (induction n arbitrary: s)
  case (Suc n)
  then have "used s \<noteq> pages s" by auto
  from alloc_fresh[OF Suc.prems(1) this] obtain p s1 where
    a: "alloc s = Some (p, s1)" "p \<in> pages s - used s" "used s1 = insert p (used s)"
      "pages s1 = pages s" "invar s1" by blast
  have "pages s1 - used s1 = (pages s - used s) - {p}" using a by auto
  then have "n \<le> card (pages s1 - used s1)"
    using Suc.prems(2) a(2) finite_pages[of s] by simp
  from Suc.IH[OF a(5) this] obtain ps s' where
    "alloc_many n s1 = Some (ps, s')" "length ps = n" "distinct ps"
    "set ps \<subseteq> pages s1 - used s1" "used s' = used s1 \<union> set ps" "pages s' = pages s1" "invar s'"
    by blast
  with a show ?case by (intro exI[of _ "p # ps"] exI[of _ s']) auto
qed simp

lemma dealloc_alloc:
  assumes "invar s" and "used s \<noteq> pages s"
  shows "\<exists>p s'. alloc s = Some (p, s') \<and> used (dealloc p s') = used s"
proof -
  from alloc_fresh[OF assms] obtain p s' where a: "alloc s = Some (p, s')" "p \<in> pages s - used s"
    "used s' = insert p (used s)" "pages s' = pages s" "invar s'" by blast
  then have "used (dealloc p s') = used s" using dealloc_used[of s' p] by auto
  with a(1) show ?thesis by blast
qed

end

interpretation pmm: page_allocator pmm_getpage pmm_freepage pmm_pages pmm_used pmm_wf
proof
  fix s :: "'a pmm_scheme" and p
  show "finite (pmm_pages s)" by (simp add: pmm_pages_def)
  show "pmm_used s \<subseteq> pmm_pages s" by (auto simp: pmm_used_def pmm_pages_def)
  {
    assume wf: "pmm_wf s" and free: "pmm_used s \<noteq> pmm_pages s"
    from free obtain j where j: "j < pmm_npages s" "\<not> bm_bit (mem s) (pmm_bitmap s) j"
      "\<forall>i < j. bm_bit (mem s) (pmm_bitmap s) i" by (rule pmm_first_free)
    have "page_at s j \<notin> pmm_used s"
    proof
      assume "page_at s j \<in> pmm_used s"
      then obtain i where i: "page_at s j = page_at s i" "i < pmm_npages s" "bm_bit (mem s) (pmm_bitmap s) i"
        by (auto simp: pmm_used_def)
      then have "j = i" using page_at_inj[of s j i] j(1) pmm_wf_size(2)[OF wf] by auto
      with i(3) j(2) show False by simp
    qed
    moreover have "page_at s j \<in> pmm_pages s" using j(1) by (simp add: pmm_pages_def)
    ultimately show "\<exists>p s'. pmm_getpage s = Some (p, s') \<and> p \<in> pmm_pages s - pmm_used s
        \<and> pmm_used s' = insert p (pmm_used s) \<and> pmm_pages s' = pmm_pages s \<and> pmm_wf s'"
      using pmm_getpage_eq[OF wf j] pmm_used_put[OF wf j(1), of True] wf by simp
  next
    assume wf: "pmm_wf s" and p: "p \<in> pmm_pages s"
    then obtain i where i: "p = page_at s i" "i < pmm_npages s" by (auto simp: pmm_pages_def)
    then show "pmm_used (pmm_freepage p s) = pmm_used s - {p} \<and>
        pmm_pages (pmm_freepage p s) = pmm_pages s \<and> pmm_wf (pmm_freepage p s)"
      using pmm_freepage_eq[OF wf i(2)] pmm_used_put[OF wf i(2), of False] wf by simp
  }
qed

lemma pmm_getpage_effect:
  assumes "pmm_wf s" and "pmm_used s \<noteq> pmm_pages s"
  obtains f m where "pmm_getpage s = Some (f, s\<lparr>mem := m\<rparr>)" "f \<in> pmm_pages s" "f \<notin> pmm_used s"
    "pmm_used (s\<lparr>mem := m\<rparr>) = insert f (pmm_used s)"
    "agree_off (bm_bitmap (pmm_bitmap s)) 0x4000 (mem s) m"
proof -
  from assms(2) obtain j where j: "j < pmm_npages s" "\<not> bm_bit (mem s) (pmm_bitmap s) j"
    "\<forall>i < j. bm_bit (mem s) (pmm_bitmap s) i" by (rule pmm_first_free)
  let ?m = "bm_put (pmm_bitmap s) (mem s) j True"
  have g: "pmm_getpage s = Some (page_at s j, s\<lparr>mem := ?m\<rparr>)"
    using pmm_getpage_eq[OF assms(1) j] .
  have "j < 2 ^ 32" "j < 8 * 0x4000" using j(1) pmm_wf_size(2)[OF assms(1)] by auto
  then have "agree_off (bm_bitmap (pmm_bitmap s)) 0x4000 (mem s) ?m"
    unfolding bm_put_def by (rule bitmap_set_agree)
  moreover obtain p s' where "pmm_getpage s = Some (p, s')" "p \<in> pmm_pages s - pmm_used s"
    "pmm_used s' = insert p (pmm_used s)"
    using pmm.alloc_fresh[OF assms] by blast
  ultimately show ?thesis using that[OF g] g by simp
qed

lemma pmm_used_frame:
  assumes "pmm_wf s" and "agree_off r n (mem s) m" and "sep r n (bm_bitmap (pmm_bitmap s)) 0x4000"
  shows "pmm_used (s\<lparr>mem := m\<rparr>) = pmm_used s"
proof -
  have "bm_bit m (pmm_bitmap s) i = bm_bit (mem s) (pmm_bitmap s) i" if "i < pmm_npages s" for i
    using that pmm_wf_size(2)[OF assms(1)] by (intro bm_bit_agree[OF assms(2,3)]) simp
  then have "{i. i < pmm_npages s \<and> bm_bit m (pmm_bitmap s) i} =
    {i. i < pmm_npages s \<and> bm_bit (mem s) (pmm_bitmap s) i}" by auto
  then show ?thesis by (simp add: pmm_used_def)
qed

lemma card_pmm_pages: "pmm_wf s \<Longrightarrow> card (pmm_pages s) = pmm_npages s"
  unfolding pmm_pages_def
  by (subst card_image) (use pmm_wf_size(2)[of s] in \<open>auto intro!: inj_onI page_at_inj[of s]\<close>)

lemma pmm_alloc_many: "pmm.alloc_many n s = pmm_getpage_iter n s"
  by (induction n arbitrary: s) simp_all

lemma pmm_free_again:
  assumes wf: "pmm_wf s" and free: "pmm_used s \<noteq> pmm_pages s"
  shows "\<exists>p s' s''. pmm_getpage s = Some (p, s') \<and> pmm_used (pmm_freepage p s') = pmm_used s
    \<and> pmm_getpage (pmm_freepage p s') = Some (p, s'')"
proof -
  from free obtain j where j: "j < pmm_npages s" "\<not> bm_bit (mem s) (pmm_bitmap s) j"
    "\<forall>i < j. bm_bit (mem s) (pmm_bitmap s) i" by (rule pmm_first_free)
  let ?s1 = "s\<lparr>mem := bm_put (pmm_bitmap s) (mem s) j True\<rparr>"
  let ?s2 = "pmm_freepage (page_at s j) ?s1"
  have s2: "?s2 = s\<lparr>mem := bm_put (pmm_bitmap s) (mem ?s1) j False\<rparr>"
    using pmm_freepage_eq[of ?s1 j] wf j(1) by simp
  have b: "bm_bit (mem ?s2) (pmm_bitmap s) i = bm_bit (mem s) (pmm_bitmap s) i" if "i < pmm_npages s" for i
    using that j(1,2) wf by (simp add: s2 pmm_bm_put)
  have g: "pmm_getpage s = Some (page_at s j, ?s1)" using pmm_getpage_eq[OF wf j] .
  have wf2: "pmm_wf ?s2" "pmm_npages ?s2 = pmm_npages s" "page_at ?s2 = page_at s" "pmm_bitmap ?s2 = pmm_bitmap s"
    using wf by (simp_all add: s2)
  have "pmm_getpage ?s2 = Some (page_at ?s2 j, ?s2\<lparr>mem := bm_put (pmm_bitmap ?s2) (mem ?s2) j True\<rparr>)"
    by (rule pmm_getpage_eq[OF wf2(1)]) (use j b wf2 in \<open>auto dest: less_trans\<close>)
  moreover have "pmm_used ?s2 = pmm_used s"
  proof -
    have "{i. i < pmm_npages s \<and> bm_bit (mem ?s2) (pmm_bitmap s) i} =
        {i. i < pmm_npages s \<and> bm_bit (mem s) (pmm_bitmap s) i}" using b by blast
    then show ?thesis by (simp add: pmm_used_def wf2)
  qed
  ultimately show ?thesis using g wf2(3) by auto
qed

lemma page_at_used_iff:
  assumes wf: "pmm_wf s" and i: "i < pmm_npages s"
  shows "page_at s i \<in> pmm_used s \<longleftrightarrow> bm_bit (mem s) (pmm_bitmap s) i"
proof -
  have "inj_on (page_at s) {..<pmm_npages s}"
    using pmm_wf_size(2)[OF wf] by (intro inj_onI page_at_inj) auto
  then show ?thesis using i by (auto simp: pmm_used_def dest: inj_onD)
qed

lemma pmm_getpage_full:
  assumes wf: "pmm_wf s" and full: "pmm_used s = pmm_pages s"
  shows "\<exists>p s'. pmm_getpage s = Some (p, s') \<and> p \<notin> pmm_pages s"
proof -
  let ?n = "pmm_npages s" and ?b = "\<lambda>i. bitmap_get (mem s) (pmm_bitmap s) (of_nat i)"
  note sz = pmm_wf_size[OF wf]
  have "bm_bit (mem s) (pmm_bitmap s) i" if "i < ?n" for i
    using page_at_used_iff[OF wf that] full that by (simp add: pmm_pages_def)
  then have used: "?b i \<noteq> 0" if "i < ?n" for i using that pmm_bit_get[OF wf] by simp
  have out: "?b (?n + 1) = 0" using sz by (intro bitmap_get_out) auto
  obtain j where j: "j = ?n \<or> j = ?n + 1" "?b j = 0" "\<forall>i < j. ?b i \<noteq> 0"
  proof (cases "?b ?n = 0")
    case False
    then have "\<forall>i < ?n + 1. ?b i \<noteq> 0" using used by (auto simp: less_Suc_eq)
    then show ?thesis using that[of "?n + 1"] out by blast
  qed (use that[of ?n] used in blast)
  have "pmm_find_free (mem s) (pmm_bitmap s) (of_nat 0) = Some (of_nat j)"
    using j by (intro pmm_find_free_first) auto
  moreover have "scast (0x1000 * of_nat j :: u32) = (0x1000 * of_nat j :: u64)"
    using j(1) sz(2) by (intro scast_page_index) auto
  moreover have "page_at s j \<notin> pmm_pages s"
  proof
    assume "page_at s j \<in> pmm_pages s"
    then obtain i where i: "page_at s j = page_at s i" "i < ?n" by (auto simp: pmm_pages_def)
    have "unat (0x1000 * of_nat j :: u64) = 0x1000 * j" "unat (0x1000 * of_nat i :: u64) = 0x1000 * i"
      using j(1) i(2) sz(2) by (auto intro!: unat_page_offset)
    moreover have "unat (0x1000 * of_nat j :: u64) = unat (0x1000 * of_nat i :: u64)"
      using i(1) by (simp add: page_at_def)
    ultimately show False using j(1) i(2) by linarith
  qed
  ultimately show ?thesis by (auto simp: pmm_getpage_def page_at_def)
qed

section \<open>Runs of pages and initialisation\<close>

lemma pmm_set_range_mem:
  "pmm_set_range idx pages s = s\<lparr>mem :=
     fold (\<lambda>i m. snd (bitmap_set m (pmm_bitmap s) (idx + of_nat i) 1)) [0..<nat (sint pages)] (mem s)\<rparr>"
proof -
  have "fold (\<lambda>i s. s\<lparr>mem := snd (bitmap_set (mem s) (pmm_bitmap s) (idx + of_nat i) 1)\<rparr>) xs s =
    s\<lparr>mem := fold (\<lambda>i m. snd (bitmap_set m (pmm_bitmap s) (idx + of_nat i) 1)) xs (mem s)\<rparr>" for xs
    by (induction xs arbitrary: s) simp_all
  then show ?thesis by (simp add: pmm_set_range_def)
qed

lemma bm_bit_set_range:
  assumes wf: "pmm_wf s" and k: "k + n < 2 ^ 31" and j: "j < pmm_npages s"
  shows "bm_bit (mem (pmm_set_range (of_nat k) (of_nat n) s)) (pmm_bitmap s) j \<longleftrightarrow>
    (k \<le> j \<and> j < k + n) \<or> bm_bit (mem s) (pmm_bitmap s) j"
proof -
  note sz = pmm_wf_size[OF wf]
  have one: "bm_bit (snd (bitmap_set m (pmm_bitmap s) (of_nat i) 1)) (pmm_bitmap s) j \<longleftrightarrow>
      j = i \<or> bm_bit m (pmm_bitmap s) j" if "i < 2 ^ 32" for i m
  proof (cases "i \<le> pmm_npages s")
    case True
    then show ?thesis using that j sz by (subst bitmap_set_bit) auto
  next
    case False
    then show ?thesis using that j sz by (subst bitmap_set_out) auto
  qed
  let ?f = "\<lambda>xs. fold (\<lambda>i m. snd (bitmap_set m (pmm_bitmap s) (of_nat k + of_nat i) 1)) xs (mem s)"
  have "k + l < 2 ^ 31 \<Longrightarrow> bm_bit (?f [0..<l]) (pmm_bitmap s) j \<longleftrightarrow>
      (k \<le> j \<and> j < k + l) \<or> bm_bit (mem s) (pmm_bitmap s) j" for l
  proof (induction l)
    case (Suc l)
    then have "k + l < 2 ^ 32" by simp
    then show ?case using Suc one[of "k + l" "?f [0..<l]"] by auto
  qed auto
  from this[OF k] show ?thesis using k by (simp add: pmm_set_range_mem sint_of_nat32)
qed

lemma pmm_set_range_used:
  assumes wf: "pmm_wf s" and k: "k + n < 2 ^ 31"
  shows "pmm_used (pmm_set_range (of_nat k) (of_nat n) s) =
    pmm_used s \<union> page_at s ` {i. i < pmm_npages s \<and> k \<le> i \<and> i < k + n}"
proof -
  let ?s = "pmm_set_range (of_nat k) (of_nat n) s"
  have f: "pmm_npages ?s = pmm_npages s" "page_at ?s = page_at s" "pmm_bitmap ?s = pmm_bitmap s"
    by (simp_all add: pmm_set_range_mem)
  have "{i. i < pmm_npages s \<and> bm_bit (mem ?s) (pmm_bitmap s) i} =
    {i. i < pmm_npages s \<and> bm_bit (mem s) (pmm_bitmap s) i} \<union> {i. i < pmm_npages s \<and> k \<le> i \<and> i < k + n}"
    using bm_bit_set_range[OF wf k] by blast
  then show ?thesis by (simp add: pmm_used_def f image_Un)
qed

lemma pmm_getpages_eq:
  assumes wf: "pmm_wf s" and j: "j < pmm_npages s" "\<not> bm_bit (mem s) (pmm_bitmap s) j"
    "\<forall>i < j. bm_bit (mem s) (pmm_bitmap s) i"
  shows "pmm_getpages n s = Some (page_at s j, pmm_set_range (of_nat j) n s)"
proof -
  have "pmm_find_free (mem s) (pmm_bitmap s) (of_nat 0) = Some (of_nat j)"
    using assms by (intro pmm_find_free_first) (auto simp: pmm_bit_get)
  moreover have "scast (0x1000 * of_nat j :: u32) = (0x1000 * of_nat j :: u64)"
    using j(1) pmm_wf_size(2)[OF wf] by (intro scast_page_index) simp
  ultimately show ?thesis by (simp add: pmm_getpages_def page_at_def pmm_set_range_mem)
qed

definition conventional :: "memory \<Rightarrow> u64 \<Rightarrow> bool" where
  "conventional m desc \<longleftrightarrow> desc_type m desc = EfiConventionalMemory"

lemma pmm_scan_before:
  assumes "\<And>i. i \<in> set xs \<Longrightarrow> conventional m (mmap + of_nat i * dsz) \<Longrightarrow>
      4 \<le> unat (desc_numPages m (mmap + of_nat i * dsz)) \<and>
      unat (desc_numPages m (mmap + of_nat i * dsz)) < N" and "N < 2 ^ 52"
    and "largestFreeMemSegSize g < of_nat N * 0x1000"
  shows "largestFreeMemSegSize (pmm_scan m mmap dsz xs g) < of_nat N * 0x1000"
  using assms
proof (induction xs arbitrary: g)
  case (Cons i xs)
  let ?d = "mmap + of_nat i * dsz"
  have "largestFreeMemSegSize (pmm_scan_desc m ?d g) < of_nat N * 0x1000"
  proof (cases "conventional m ?d \<and> desc_numPages m ?d * 0x1000 > largestFreeMemSegSize g")
    case True
    then have b: "4 \<le> unat (desc_numPages m ?d)" "unat (desc_numPages m ?d) < N"
      using Cons.prems(1)[of i] by auto
    then have u: "unat (desc_numPages m ?d * 0x1000) = unat (desc_numPages m ?d) * 0x1000"
      using Cons.prems(2) by (simp add: unat_word_ariths)
    have "unat (of_nat N * 0x1000 :: u64) = N * 0x1000"
      using Cons.prems(2) unat_of_nat64[of "N * 0x1000"] by simp
    moreover have "unat (desc_numPages m ?d * 0x1000 - 0x4000) = unat (desc_numPages m ?d) * 0x1000 - 0x4000"
      using b(1) u by (simp add: unat_sub_if')
    ultimately have "desc_numPages m ?d * 0x1000 - 0x4000 < of_nat N * 0x1000"
      using b unfolding word_less_nat_alt by linarith
    then show ?thesis using True by (simp add: pmm_scan_desc_def conventional_def EfiConventionalMemory_def)
  next
    case False
    then show ?thesis using Cons.prems(3)
      by (auto simp: pmm_scan_desc_def conventional_def EfiConventionalMemory_def)
  qed
  with Cons show ?case by (simp add: pmm_scan_def)
qed (simp add: pmm_scan_def)

lemma pmm_scan_after:
  assumes "\<And>i. i \<in> set xs \<Longrightarrow> conventional m (mmap + of_nat i * dsz) \<Longrightarrow>
      desc_numPages m (mmap + of_nat i * dsz) * 0x1000 \<le> largestFreeMemSegSize g"
  shows "pmm_scan m mmap dsz xs g = g"
  using assms
proof (induction xs)
  case (Cons i xs)
  have "pmm_scan_desc m (mmap + of_nat i * dsz) g = g"
    using Cons.prems[of i] by (auto simp: pmm_scan_desc_def conventional_def EfiConventionalMemory_def)
  with Cons show ?case by (simp add: pmm_scan_def)
qed (simp add: pmm_scan_def)


lemma pmm_scan_append: "pmm_scan m mmap dsz (xs @ ys) g = pmm_scan m mmap dsz ys (pmm_scan m mmap dsz xs g)"
  by (simp add: pmm_scan_def)

lemma pmm_scan_dominant:
  fixes dsz mmap :: u64
  defines "d \<equiv> \<lambda>i. mmap + of_nat i * dsz"
  assumes j: "j < n" "conventional m (d j)" "unat (desc_numPages m (d j)) < 2 ^ 52"
    and dom: "\<And>i. i < n \<Longrightarrow> i \<noteq> j \<Longrightarrow> conventional m (d i) \<Longrightarrow>
      4 \<le> unat (desc_numPages m (d i)) \<and> unat (desc_numPages m (d i)) + 4 \<le> unat (desc_numPages m (d j))"
    and pos: "4 < unat (desc_numPages m (d j))" and g: "largestFreeMemSegSize g = 0"
  shows "pmm_scan m mmap dsz [0..<n] g =
    \<lparr>largestFreeMemSeg = desc_physAddr m (d j) + 0x4000,
     largestFreeMemSegSize = desc_numPages m (d j) * 0x1000 - 0x4000,
     seg_bitmap = desc_physAddr m (d j)\<rparr>"
proof -
  let ?N = "unat (desc_numPages m (d j))"
  have split: "[0..<n] = [0..<j] @ [j] @ [Suc j..<n]"
    using upt_add_eq_append[of 0 j "n - j"] upt_conv_Cons[of j n] j(1) by simp
  have uN: "unat (desc_numPages m (d j) * 0x1000) = ?N * 0x1000"
    using j(3) by (simp add: unat_word_ariths)
  have e: "of_nat ?N * 0x1000 = desc_numPages m (d j) * 0x1000" by simp
  have "largestFreeMemSegSize (pmm_scan m mmap dsz [0..<j] g) < of_nat ?N * 0x1000"
  proof (rule pmm_scan_before)
    fix i assume "i \<in> set [0..<j]" "conventional m (mmap + of_nat i * dsz)"
    then show "4 \<le> unat (desc_numPages m (mmap + of_nat i * dsz)) \<and>
        unat (desc_numPages m (mmap + of_nat i * dsz)) < ?N"
      using dom[of i] j(1) unfolding d_def by fastforce
  qed (use j(3) pos g uN in \<open>auto simp: word_less_nat_alt\<close>)
  then have at: "pmm_scan_desc m (d j) (pmm_scan m mmap dsz [0..<j] g) =
    \<lparr>largestFreeMemSeg = desc_physAddr m (d j) + 0x4000,
     largestFreeMemSegSize = desc_numPages m (d j) * 0x1000 - 0x4000,
     seg_bitmap = desc_physAddr m (d j)\<rparr>" (is "_ = ?g")
    using j(2) by (simp add: pmm_scan_desc_def conventional_def EfiConventionalMemory_def)
  have "pmm_scan m mmap dsz [Suc j..<n] ?g = ?g"
  proof (rule pmm_scan_after)
    fix i assume i: "i \<in> set [Suc j..<n]" and c: "conventional m (mmap + of_nat i * dsz)"
    then have b: "unat (desc_numPages m (d i)) + 4 \<le> ?N" using dom[of i] by (auto simp: d_def)
    then have "unat (desc_numPages m (d i) * 0x1000) = unat (desc_numPages m (d i)) * 0x1000"
      using j(3) by (simp add: unat_word_ariths)
    moreover have "unat (desc_numPages m (d j) * 0x1000 - 0x4000) = ?N * 0x1000 - 0x4000"
      using pos uN by (simp add: unat_sub_if')
    ultimately have "desc_numPages m (d i) * 0x1000 \<le> desc_numPages m (d j) * 0x1000 - 0x4000"
      using b unfolding word_le_nat_alt by linarith
    then show "desc_numPages m (mmap + of_nat i * dsz) * 0x1000 \<le> largestFreeMemSegSize ?g"
      by (simp add: d_def)
  qed
  then show ?thesis unfolding split pmm_scan_append using at
    by (simp add: pmm_scan_def d_def)
qed


definition mem_total :: "memory \<Rightarrow> u64 \<Rightarrow> u64 \<Rightarrow> nat \<Rightarrow> u64" where
  "mem_total m mmap dsz n = (\<Sum>i<n. desc_numPages m (mmap + of_nat i * dsz) * 4096)"

lemma get_mem_size_eq:
  "get_mem_size mmap n dsz s =
     (let v = (if memorySizeBytes s > 0 then memorySizeBytes s else mem_total (mem s) mmap dsz (unat n))
      in (v, s\<lparr>memorySizeBytes := v\<rparr>))"
proof -
  let ?f = "\<lambda>i s. let desc = mmap + of_nat i * dsz
              in s\<lparr>memorySizeBytes := memorySizeBytes s + desc_numPages (mem s) desc * 4096\<rparr>"
  have "fold ?f [0..<k] s = s\<lparr>memorySizeBytes := memorySizeBytes s + mem_total (mem s) mmap dsz k\<rparr>" for k
    by (induction k) (simp_all add: mem_total_def Let_def)
  from this[of "unat n"] show ?thesis
    by (auto simp: get_mem_size_def Let_def word_gt_0)
qed

lemma memset_bm_bit_zero:
  assumes "bm_bitmap b = a" and "i < 8 * 0x4000"
  shows "\<not> bm_bit (memset m a 0 0x4000) b i"
proof -
  have "unat (of_nat (i div 8) :: u64) = i div 8" using assms(2) by (intro unat_of_nat64) simp
  moreover have "i div 8 < 0x4000" using assms(2) by simp
  ultimately show ?thesis by (simp add: bm_bit_def memset_apply assms(1))
qed

lemma unat_page_at:
  assumes "pmm_wf s" and "i < pmm_npages s"
  shows "unat (page_at s i) = unat (start_of_mem s) + 0x1000 * i"
proof -
  have i: "i < 2 ^ 17" using assms pmm_wf_size(2)[of s] by simp
  then have "unat (0x1000 * of_nat i :: u64) = 0x1000 * i" by (intro unat_page_offset) simp
  moreover have "unat (start_of_mem s) + 0x20000000 < 2 ^ 40" using assms(1) by (simp add: pmm_wf_def)
  ultimately show ?thesis using i unfolding page_at_def by (subst unat_plus_if') simp
qed

lemma pmm_lockpages_used:
  assumes wf: "pmm_wf s" and a: "start_of_mem s \<le> a" "unat a < 2 ^ 40" "unat a mod 0x1000 = 0"
    and n: "n < 2 ^ 30"
  shows "pmm_used (pmm_lockpages a (of_nat n) s) =
    pmm_used s \<union> {p \<in> pmm_pages s. unat a \<le> unat p \<and> unat p < unat a + 0x1000 * n}"
proof -
  let ?k = "unat ((a - start_of_mem s) div 0x1000)"
  have st: "unat (start_of_mem s) mod 0x1000 = 0" using wf by (simp add: pmm_wf_def)
  have k: "?k = (unat a - unat (start_of_mem s)) div 0x1000"
    using a(1) by (simp add: unat_div_distrib unat_sub_if' word_le_nat_alt)
  obtain x where x: "unat a = 0x1000 * x" using a(3) by (auto elim: dvdE)
  obtain y where y: "unat (start_of_mem s) = 0x1000 * y" using st by (auto elim: dvdE)
  have kk: "?k = x - y" "y \<le> x" using k a(1) unfolding word_le_nat_alt x y by (simp_all flip: diff_mult_distrib2)
  have k28: "?k < 2 ^ 28" using kk x a(2) by simp
  have "(ucast ((a - start_of_mem s) div 0x1000) :: u32) = of_nat ?k"
    using ucast_of_nat64_32[of ?k] k28 by simp
  then have "pmm_used (pmm_lockpages a (of_nat n) s) =
      pmm_used s \<union> page_at s ` {i. i < pmm_npages s \<and> ?k \<le> i \<and> i < ?k + n}"
    using pmm_set_range_used[OF wf, of ?k n] k28 n by (simp add: pmm_lockpages_def)
  also have "page_at s ` {i. i < pmm_npages s \<and> ?k \<le> i \<and> i < ?k + n} =
      {p \<in> pmm_pages s. unat a \<le> unat p \<and> unat p < unat a + 0x1000 * n}"
  proof -
    have "?k \<le> i \<and> i < ?k + n \<longleftrightarrow> unat a \<le> unat (page_at s i) \<and> unat (page_at s i) < unat a + 0x1000 * n"
      if "i < pmm_npages s" for i
      using kk(2) unfolding unat_page_at[OF wf that] kk(1) x y by linarith
    then show ?thesis by (auto simp: pmm_pages_def)
  qed
  finally show ?thesis .
qed

definition pmm_chosen :: "memory \<Rightarrow> u64 \<Rightarrow> u64 \<Rightarrow> u64 \<Rightarrow> u64 \<Rightarrow> seg_search" where
  "pmm_chosen m mmap n dsz b0 = pmm_scan m mmap dsz [0..<unat n]
     \<lparr>largestFreeMemSeg = 0, largestFreeMemSegSize = 0, seg_bitmap = b0\<rparr>"

lemma pmm_setup_fields:
  fixes s :: "'a pmm_scheme"
  assumes g: "g = pmm_chosen (mem s) mmap n dsz (bm_bitmap (pmm_bitmap s))"
    and M: "M = (if memorySizeBytes s > 0 then memorySizeBytes s
        else mem_total (memset (mem s) (seg_bitmap g) 0 0x4000) mmap dsz (unat n))"
  shows "mem (pmm_setup mmap n dsz s) = memset (mem s) (seg_bitmap g) 0 0x4000"
    and "pmm_bitmap (pmm_setup mmap n dsz s) = \<lparr>bm_bitmap = seg_bitmap g, bm_size = M div 4096 div 8 + 1\<rparr>"
    and "start_of_mem (pmm_setup mmap n dsz s) = largestFreeMemSeg g"
    and "kern_start (pmm_setup mmap n dsz s) = kern_start s"
    and "kern_end (pmm_setup mmap n dsz s) = kern_end s"
  unfolding pmm_setup_def g[unfolded pmm_chosen_def, symmetric]
  by (simp_all add: get_mem_size_eq Let_def klog_def emit_def M)

definition boot_ok :: "u64 \<Rightarrow> u64 \<Rightarrow> u64 \<Rightarrow> 'a pmm_scheme \<Rightarrow> bool" where
  "boot_ok mmap n dsz s \<longleftrightarrow>
     (let g = pmm_chosen (mem s) mmap n dsz (bm_bitmap (pmm_bitmap s)) in
      seg_bitmap g = largestFreeMemSeg g - 0x4000 \<and> 0x4000 \<le> unat (largestFreeMemSeg g) \<and>
      unat (largestFreeMemSeg g) + 0x20000000 < 2 ^ 40 \<and> unat (largestFreeMemSeg g) mod 0x1000 = 0 \<and>
      memorySizeBytes s = 0 \<and>
      unat (mem_total (memset (mem s) (seg_bitmap g) 0 0x4000) mmap dsz (unat n)) < 0x1fff8000 \<and>
      kern_start s \<le> kern_end s \<and> unat (kern_end s) < 2 ^ 40 \<and> unat (kern_start s) mod 0x1000 = 0)"

lemma pmm_setup_spec:
  fixes s :: "'a pmm_scheme"
  assumes ok: "boot_ok mmap n dsz s"
  shows "pmm_wf (pmm_setup mmap n dsz s)" and "pmm_used (pmm_setup mmap n dsz s) = {}"
proof -
  let ?s = "pmm_setup mmap n dsz s"
  let ?g = "pmm_chosen (mem s) mmap n dsz (bm_bitmap (pmm_bitmap s))"
  let ?M = "mem_total (memset (mem s) (seg_bitmap ?g) 0 0x4000) mmap dsz (unat n)"
  note ok' = ok[unfolded boot_ok_def Let_def]
  have M: "?M = (if memorySizeBytes s > 0 then memorySizeBytes s else ?M)" using ok' by simp
  note f = pmm_setup_fields[OF refl M]
  have u: "unat ?M < 0x1fff8000" using ok' by blast
  then have d: "unat (?M div 4096 div 8) = unat ?M div 0x8000"
    by (simp add: unat_div_distrib flip: div_mult2_eq)
  then have sz: "unat (?M div 4096 div 8 + 1) = unat ?M div 0x8000 + 1"
    using u by (subst unat_plus_if') simp
  then have b: "0 < ?M div 4096 div 8 + 1" "?M div 4096 div 8 + 1 \<le> 0x4000"
    using u unfolding word_less_nat_alt word_le_nat_alt by simp_all
  then show wf: "pmm_wf ?s" unfolding pmm_wf_def f using ok' by simp
  have "\<not> bm_bit (mem ?s) (pmm_bitmap ?s) i" if "i < pmm_npages ?s" for i
    unfolding f(1) using that pmm_wf_size(2)[OF wf] by (intro memset_bm_bit_zero) (simp_all add: f)
  then show "pmm_used ?s = {}" unfolding pmm_used_def by blast
qed

lemma page_count_iff:
  fixes x y k :: nat
  assumes "y \<le> x" and "0x1000 * y \<le> k"
  shows "0x1000 * x < 0x1000 * y + 0x1000 * ((k - 0x1000 * y) div 0x1000 + 1) \<longleftrightarrow> 0x1000 * x \<le> k"
proof -
  obtain e where e: "x = y + e" using assms(1) le_Suc_ex by blast
  obtain d where d: "k = 0x1000 * y + d" using assms(2) le_Suc_ex by blast
  have "e < d div 0x1000 + 1 \<longleftrightarrow> 0x1000 * e \<le> d"
    using less_eq_div_iff_mult_less_eq[of "0x1000" e d] by (simp add: less_Suc_eq_le mult.commute)
  then show ?thesis unfolding e d by (simp only: distrib_left add_diff_cancel_left') linarith
qed

lemma pmm_init_spec:
  fixes s :: "'a pmm_scheme"
  assumes ok: "boot_ok mmap (sz div dsz) dsz s"
  defines "s' \<equiv> pmm_init mmap sz dsz s"
  shows "pmm_wf s' \<and> pmm_used s' = {p \<in> pmm_pages s'. start_of_mem s' < kern_start s \<and> kern_start s \<le> p \<and> p \<le> kern_end s}"
proof -
  let ?s = "pmm_setup mmap (sz div dsz) dsz s"
  note sp = pmm_setup_spec[OF ok] and ok' = ok[unfolded boot_ok_def Let_def]
  note f = pmm_setup_fields[OF refl refl, of mmap "sz div dsz" dsz s]
  show ?thesis
  proof (cases "start_of_mem ?s < kern_start ?s")
    case False
    then have "s' = ?s" by (simp add: s'_def pmm_init_def)
    then show ?thesis using sp False f(4) by simp
  next
    case True
    let ?ks = "kern_start s" and ?ke = "kern_end s"
    let ?n = "unat ((?ke - ?ks) div 0x1000 + 1)"
    have ke: "unat ?ks \<le> unat ?ke" "unat ?ke < 2 ^ 40" "unat ?ks mod 0x1000 = 0"
      using ok' by (auto simp: word_le_nat_alt)
    have d: "unat ((?ke - ?ks) div 0x1000) = (unat ?ke - unat ?ks) div 0x1000"
      using ke(1) by (simp add: unat_div_distrib unat_sub_if')
    then have n: "?n = (unat ?ke - unat ?ks) div 0x1000 + 1"
      using ke(2) by (subst unat_plus_if') simp
    have n30: "?n < 2 ^ 30" using n ke by simp
    then have un: "(ucast ((?ke - ?ks) div 0x1000 + 1) :: u32) = of_nat ?n"
      using ucast_of_nat64_32[of ?n] by simp
    have s': "s' = pmm_lockpages ?ks (of_nat ?n) ?s"
      using True un f(4,5) by (simp add: s'_def pmm_init_def Let_def)
    have u: "pmm_used s' = {p \<in> pmm_pages ?s. unat ?ks \<le> unat p \<and> unat p < unat ?ks + 0x1000 * ?n}"
      unfolding s' using pmm_lockpages_used[OF sp(1) _ _ _ n30, of ?ks] True ke f(4) sp(2) by simp
    have same: "pmm_pages s' = pmm_pages ?s" "pmm_wf s' = pmm_wf ?s" "start_of_mem s' = start_of_mem ?s"
      by (simp_all add: s' pmm_lockpages_def pmm_set_range_mem)
    have "unat p < unat ?ks + 0x1000 * ?n \<longleftrightarrow> unat p \<le> unat ?ke"
      if p: "p \<in> pmm_pages ?s" "unat ?ks \<le> unat p" for p
    proof -
      obtain i where i: "p = page_at ?s i" "i < pmm_npages ?s" using p(1) by (auto simp: pmm_pages_def)
      have "unat p mod 0x1000 = 0"
        using sp(1) unfolding i(1) unat_page_at[OF sp(1) i(2)] pmm_wf_def by simp
      then obtain x y where "unat p = 0x1000 * x" "unat ?ks = 0x1000 * y"
        using ke(3) by (auto elim!: dvdE)
      then show ?thesis using page_count_iff[of y x "unat ?ke"] p(2) ke(1) unfolding n by simp
    qed
    then have "pmm_used s' = {p \<in> pmm_pages s'. ?ks \<le> p \<and> p \<le> ?ke}"
      unfolding u same word_le_nat_alt by blast
    then show ?thesis using True sp(1) same f(4) by simp
  qed
qed

section \<open>Properties\<close>

text \<open>A small concrete machine: eight free pages above a one-byte bitmap.\<close>

definition demo_pmm :: pmm where
  "demo_pmm = \<lparr>mem = \<lambda>_. 0, console = [], kern_start = 0x100000, kern_end = 0x110000,
     pmm_bitmap = \<lparr>bm_bitmap = 0x200000, bm_size = 1\<rparr>, start_of_mem = 0x204000, memorySizeBytes = 0\<rparr>"

lemma demo_pmm_wf: "pmm_wf demo_pmm" "pmm_npages demo_pmm = 8" "pmm_used demo_pmm = {}"
  by (simp_all add: pmm_wf_def demo_pmm_def pmm_npages_def pmm_used_def bm_bit_def)

lemma demo_pmm_free: "card (pmm_pages demo_pmm - pmm_used demo_pmm) = 8"
  by (simp add: demo_pmm_wf card_pmm_pages)

text \<open>
  C2.  As long as enough pages are free, any number of successive calls of \<^verbatim>\<open>pmm_getpage\<close>
  return, hand out pairwise distinct managed pages that were all free before, and mark exactly
  those pages as used.
\<close>

theorem pmm_getpage_fresh:
  assumes "pmm_wf s" and "n \<le> card (pmm_pages s - pmm_used s)"
  shows "\<exists>ps s'. pmm_getpage_iter n s = Some (ps, s') \<and> length ps = n \<and> distinct ps
    \<and> set ps \<subseteq> pmm_pages s - pmm_used s \<and> pmm_used s' = pmm_used s \<union> set ps
    \<and> pmm_pages s' = pmm_pages s \<and> pmm_wf s'"
  using pmm.alloc_many_fresh[OF assms] by (simp add: pmm_alloc_many)

theorem pmm_getpage_fresh_witness:
  "\<exists>ps s'. pmm_getpage_iter 3 demo_pmm = Some (ps, s') \<and> length ps = 3 \<and> distinct ps"
  using pmm_getpage_fresh[OF demo_pmm_wf(1), of 3] by (auto simp: demo_pmm_free)

text \<open>
  C6.  Freeing a page just obtained restores the set of used pages, and the next
  \<^verbatim>\<open>pmm_getpage\<close> returns that same page again.
\<close>

theorem pmm_free_round_trip:
  assumes "pmm_wf s" and "pmm_used s \<noteq> pmm_pages s"
  shows "\<exists>p s' s''. pmm_getpage s = Some (p, s') \<and> pmm_used (pmm_freepage p s') = pmm_used s
    \<and> pmm_getpage (pmm_freepage p s') = Some (p, s'')"
  by (rule pmm_free_again[OF assms])

theorem pmm_free_round_trip_witness:
  "\<exists>p s' s''. pmm_getpage demo_pmm = Some (p, s') \<and> pmm_getpage (pmm_freepage p s') = Some (p, s'')"
proof -
  have "pmm_used demo_pmm \<noteq> pmm_pages demo_pmm" using demo_pmm_free by auto
  from pmm_free_round_trip[OF demo_pmm_wf(1) this] show ?thesis by blast
qed



text \<open>
  C7.  \<^verbatim>\<open>pmm_getpages\<close> returns the first free page and marks the requested number of
  consecutive pages from there on, so the block is fresh exactly when all of it was free; nothing
  in the routine checks that it was.
\<close>

theorem pmm_getpages_marks:
  assumes "pmm_wf s" and "pmm_used s \<noteq> pmm_pages s" and "n < 2 ^ 30"
  shows "\<exists>j s'. j < pmm_npages s \<and> page_at s j \<notin> pmm_used s \<and> (\<forall>i < j. page_at s i \<in> pmm_used s)
    \<and> pmm_getpages (of_nat n) s = Some (page_at s j, s') \<and> pmm_wf s'
    \<and> pmm_used s' = pmm_used s \<union> page_at s ` {i. i < pmm_npages s \<and> j \<le> i \<and> i < j + n}"
proof -
  from assms(2) obtain j where j: "j < pmm_npages s" "\<not> bm_bit (mem s) (pmm_bitmap s) j"
    "\<forall>i < j. bm_bit (mem s) (pmm_bitmap s) i" by (rule pmm_first_free)
  let ?s = "pmm_set_range (of_nat j) (of_nat n) s"
  have "j + n < 2 ^ 31" using j(1) pmm_wf_size(2)[OF assms(1)] assms(3) by simp
  then have "pmm_used ?s = pmm_used s \<union> page_at s ` {i. i < pmm_npages s \<and> j \<le> i \<and> i < j + n}"
    by (rule pmm_set_range_used[OF assms(1)])
  moreover have "page_at s i \<in> pmm_used s \<longleftrightarrow> bm_bit (mem s) (pmm_bitmap s) i" if "i < pmm_npages s" for i
    by (rule page_at_used_iff[OF assms(1) that])
  moreover have "pmm_wf ?s" using assms(1) by (simp add: pmm_set_range_mem)
  ultimately show ?thesis using j pmm_getpages_eq[OF assms(1) j, of "of_nat n"]
    by (intro exI[of _ j] exI[of _ ?s]) auto
qed

theorem pmm_getpages_marks_witness:
  "\<exists>j s'. pmm_getpages (of_nat 2) demo_pmm = Some (page_at demo_pmm j, s') \<and> pmm_wf s'"
proof -
  have "pmm_used demo_pmm \<noteq> pmm_pages demo_pmm" using demo_pmm_free by auto
  from pmm_getpages_marks[OF demo_pmm_wf(1) this, of 2] show ?thesis by auto
qed

text \<open>
  The memory map scan of \<^verbatim>\<open>pmm_init\<close> selects the conventional segment that exceeds every
  other conventional segment by at least the four pages reserved for the bitmap, provided no
  conventional segment is smaller than those four pages: the bitmap starts at the segment and
  the managed pages right above its reserved 16 KiB.
\<close>

lemma pmm_init_segment:
  fixes dsz mmap :: u64
  defines "d \<equiv> \<lambda>i. mmap + of_nat i * dsz"
  assumes "j < unat n" and "conventional m (d j)" and "unat (desc_numPages m (d j)) < 2 ^ 52"
    and "\<And>i. i < unat n \<Longrightarrow> i \<noteq> j \<Longrightarrow> conventional m (d i) \<Longrightarrow>
      4 \<le> unat (desc_numPages m (d i)) \<and> unat (desc_numPages m (d i)) + 4 \<le> unat (desc_numPages m (d j))"
    and "4 < unat (desc_numPages m (d j))"
  shows "pmm_chosen m mmap n dsz b0 =
    \<lparr>largestFreeMemSeg = desc_physAddr m (d j) + 0x4000,
     largestFreeMemSegSize = desc_numPages m (d j) * 0x1000 - 0x4000,
     seg_bitmap = desc_physAddr m (d j)\<rparr>"
  using assms(2-) unfolding d_def pmm_chosen_def by (intro pmm_scan_dominant) simp_all

text \<open>
  A one-entry memory map at address 0: a conventional segment of 256 pages at 2 MiB, and the
  machine the loader would start the kernel with.
\<close>

definition demo_map :: memory where
  "demo_map = wr64 (wr64 (wr32 (\<lambda>_. 0) 0 7) 8 0x200000) 24 0x100"

lemma demo_map_desc:
  "conventional demo_map 0" "desc_numPages demo_map 0 = 0x100" "desc_physAddr demo_map 0 = 0x200000"
  by (simp_all add: conventional_def desc_type_def desc_numPages_def desc_physAddr_def demo_map_def
      EfiConventionalMemory_def mem_simps sep_def)



end
