(* ===== verification/Paging.thy ===== *)
theory Paging
  imports Pmm
begin

text \<open>
  The four-level page tables of \<^verbatim>\<open>kernel/src/mm/vmm/paging.c\<close>.  The tables live in memory and are
  walked and extended exactly as the C code does; \<open>tbl\<close> and \<open>pte\<close> read the tree back and
  \<open>translate\<close> is the address translation the processor performs with it.  The invariant \<open>pt_inv\<close>
  says that every table of a directory is a used page of the allocator and that no two paths
  share a table.  Under it, mapping and unmapping are point updates of the abstract page table
  \<open>pte\<close>, and \<open>pt_frame\<close> bounds what they touch.  The interface \<open>page_mapper\<close> lifts this to the
  runs of pages that \<^verbatim>\<open>mmap\<close> and \<^verbatim>\<open>munmap\<close> handle.  The loops of \<^verbatim>\<open>paging_init\<close> and
  \<^verbatim>\<open>create_page_table\<close> are unbounded in the model: their bound is re-read in each iteration.
\<close>

section \<open>Entries and tables\<close>

definition PAGE_PRESENT :: u64 where "PAGE_PRESENT = 1"
definition PAGE_READWRITE :: u64 where "PAGE_READWRITE = 2"
definition PAGE_USER :: u64 where "PAGE_USER = 4"
definition PAGE_WRITE_THROUGH :: u64 where "PAGE_WRITE_THROUGH = 8"
definition PAGE_CACHE_DISABLED :: u64 where "PAGE_CACHE_DISABLED = 16"
definition PAGE_NORMAL :: u64 where "PAGE_NORMAL = PAGE_PRESENT OR PAGE_READWRITE"

lemmas page_flag_defs [layout_simps] = PAGE_PRESENT_def PAGE_READWRITE_def PAGE_USER_def
  PAGE_WRITE_THROUGH_def PAGE_CACHE_DISABLED_def PAGE_NORMAL_def

record paging = pmm +
  pml4 :: u64
  cr3 :: u64
  b_info :: u64
  invlpg_log :: "u64 list"

definition pde_setaddress :: "u64 \<Rightarrow> u64 \<Rightarrow> u64" where
  "pde_setaddress pde address =
     (let address = address AND 0x000000ffffffffff;
          pde = pde AND 0xfff0000000000fff
      in pde OR address)"

definition pde_getaddress :: "u64 \<Rightarrow> u64" where
  "pde_getaddress pde = pde AND 0x000ffffffffff000"

record page_map_idx =
  PDP_i :: u64
  PD_i :: u64
  PT_i :: u64
  P_i :: u64

definition pmidx_init :: "u64 \<Rightarrow> page_map_idx" where
  "pmidx_init virtual =
     (let virtual = drop_bit 12 virtual; p = virtual AND 0x1ff;
          virtual = drop_bit 9 virtual; pt = virtual AND 0x1ff;
          virtual = drop_bit 9 virtual; pd = virtual AND 0x1ff;
          virtual = drop_bit 9 virtual; pdp = virtual AND 0x1ff
      in \<lparr>PDP_i = pdp, PD_i = pd, PT_i = pt, P_i = p\<rparr>)"

definition paging_get_pml4 :: "'a paging_scheme \<Rightarrow> u64" where
  "paging_get_pml4 s = pml4 s"

definition paging_change_dir :: "u64 \<Rightarrow> 'a paging_scheme \<Rightarrow> 'a paging_scheme" where
  "paging_change_dir dir s = s\<lparr>pml4 := dir, cr3 := dir\<rparr>"

definition entry_addr :: "u64 \<Rightarrow> u64 \<Rightarrow> u64" where
  "entry_addr table i = table + 8 * i"

definition paging_next :: "u64 \<Rightarrow> u64 \<Rightarrow> u64 \<Rightarrow> 'a pmm_scheme \<Rightarrow> (u64 \<times> 'a pmm_scheme) option" where
  "paging_next table i flags s =
     (let pde = rd64 (mem s) (entry_addr table i) in
      if pde AND PAGE_PRESENT = 0 then do {
        (sub, s) \<leftarrow> pmm_getpage s;
        let s = s\<lparr>mem := memset (mem s) sub 0 0x1000\<rparr>;
        let pde = pde_setaddress pde sub;
        let pde = pde OR flags;
        Some (sub, s\<lparr>mem := wr64 (mem s) (entry_addr table i) pde\<rparr>)
      } else Some (pde_getaddress pde, s))"

definition paging_map_dir :: "u64 \<Rightarrow> u64 \<Rightarrow> u64 \<Rightarrow> u64 \<Rightarrow> 'a pmm_scheme \<Rightarrow> 'a pmm_scheme option" where
  "paging_map_dir dir virtual physical flags s =
     (let indexer = pmidx_init virtual in do {
        (pdp, s) \<leftarrow> paging_next dir (PDP_i indexer) flags s;
        (pd, s) \<leftarrow> paging_next pdp (PD_i indexer) flags s;
        (pt, s) \<leftarrow> paging_next pd (PT_i indexer) flags s;
        let pde = rd64 (mem s) (entry_addr pt (P_i indexer));
        let pde = pde_setaddress pde physical;
        let pde = pde OR flags;
        Some (s\<lparr>mem := wr64 (mem s) (entry_addr pt (P_i indexer)) pde\<rparr>)
      })"

definition paging_unmap_dir :: "u64 \<Rightarrow> u64 \<Rightarrow> 'a pmm_scheme \<Rightarrow> 'a pmm_scheme" where
  "paging_unmap_dir dir virtual s =
     (let indexer = pmidx_init virtual; pde = rd64 (mem s) (entry_addr dir (PDP_i indexer)) in
      if pde AND PAGE_PRESENT = 0 then s else
      let pdp = pde_getaddress pde; pde = rd64 (mem s) (entry_addr pdp (PD_i indexer)) in
      if pde AND PAGE_PRESENT = 0 then s else
      let pd = pde_getaddress pde; pde = rd64 (mem s) (entry_addr pd (PT_i indexer)) in
      if pde AND PAGE_PRESENT = 0 then s else
      let pt = pde_getaddress pde; pde = rd64 (mem s) (entry_addr pt (P_i indexer)) in
      if pde AND PAGE_PRESENT = 0 then s
      else s\<lparr>mem := wr64 (mem s) (entry_addr pt (P_i indexer)) 0\<rparr>)"

definition paging_map :: "u64 \<Rightarrow> u64 \<Rightarrow> u64 \<Rightarrow> 'a paging_scheme \<Rightarrow> 'a paging_scheme option" where
  "paging_map virtual physical flags s = do {
     s \<leftarrow> paging_map_dir (pml4 s) virtual physical flags s;
     Some (s\<lparr>invlpg_log := invlpg_log s @ [virtual]\<rparr>)
   }"

definition paging_unmap :: "u64 \<Rightarrow> 'a paging_scheme \<Rightarrow> 'a paging_scheme" where
  "paging_unmap virtual s =
     (let s = paging_unmap_dir (pml4 s) virtual s
      in s\<lparr>invlpg_log := invlpg_log s @ [virtual]\<rparr>)"

definition bi_framebuffer :: "memory \<Rightarrow> u64 \<Rightarrow> u64" where "bi_framebuffer m b = rd64 m b"
definition bi_mMap :: "memory \<Rightarrow> u64 \<Rightarrow> u64" where "bi_mMap m b = rd64 m (b + 16)"
definition bi_mMapSize :: "memory \<Rightarrow> u64 \<Rightarrow> u64" where "bi_mMapSize m b = rd64 m (b + 24)"
definition bi_mMapDescSize :: "memory \<Rightarrow> u64 \<Rightarrow> u64" where "bi_mMapDescSize m b = rd64 m (b + 32)"

partial_function (option) map_identity ::
  "u64 \<Rightarrow> ('a pmm_scheme \<Rightarrow> u64 \<times> 'a pmm_scheme) \<Rightarrow> u64 \<Rightarrow> u64 \<Rightarrow> 'a pmm_scheme \<Rightarrow> 'a pmm_scheme option" where
  "map_identity dir limit flags t s =
     (let (l, s) = limit s in
      if t < l then do {
        s \<leftarrow> paging_map_dir dir t t flags s;
        map_identity dir limit flags (t + 0x1000) s
      } else Some s)"

definition create_page_table :: "'a paging_scheme \<Rightarrow> (u64 \<times> 'a paging_scheme) option" where
  "create_page_table s = do {
     (tbl, s) \<leftarrow> pmm_getpage s;
     let s = s\<lparr>mem := memset (mem s) tbl 0 0x1000\<rparr>;
     let mMapEntries = bi_mMapSize (mem s) (b_info s) div bi_mMapDescSize (mem s) (b_info s);
     s \<leftarrow> map_identity tbl (\<lambda>s. (kern_end s + 0x1000, s)) PAGE_NORMAL (kern_start s) s;
     s \<leftarrow> map_identity tbl
            (\<lambda>s. get_mem_size (bi_mMap (mem s) (b_info s)) mMapEntries (bi_mMapDescSize (mem s) (b_info s)) s)
            PAGE_NORMAL (kern_end s + 0x1000) s;
     Some (tbl, s)
   }"

definition paging_init :: "u64 \<Rightarrow> 'a paging_scheme \<Rightarrow> 'a paging_scheme option" where
  "paging_init boot_info s = do {
     let s = s\<lparr>b_info := boot_info\<rparr>;
     (p, s) \<leftarrow> pmm_getpage s;
     let s = s\<lparr>pml4 := p\<rparr>;
     let s = s\<lparr>mem := memset (mem s) (pml4 s) 0 0x1000\<rparr>;
     let s = klog Log_info ''PAGE'' ''Initialized kernel PML4 page'' [] s;
     let mMapEntries = bi_mMapSize (mem s) boot_info div bi_mMapDescSize (mem s) boot_info;
     s \<leftarrow> map_identity (pml4 s)
            (\<lambda>s. get_mem_size (bi_mMap (mem s) boot_info) mMapEntries (bi_mMapDescSize (mem s) boot_info) s)
            PAGE_NORMAL 0 s;
     let s = klog Log_info ''PAGE'' ''Mapped memory'' [] s;
     let fb = bi_framebuffer (mem s) boot_info;
     let fbBase = rd64 (mem s) fb;
     let fbSize = rd64 (mem s) (fb + 8) + 0x1000;
     s \<leftarrow> map_identity (pml4 s) (\<lambda>s. (fbBase + fbSize, s))
            (PAGE_NORMAL OR PAGE_CACHE_DISABLED OR PAGE_WRITE_THROUGH) fbBase s;
     let s = s\<lparr>cr3 := pml4 s\<rparr>;
     Some (klog Log_ok ''PAGE'' ''Paging initialized (CR3: 0x%x)'' [Arg_word (pml4 s)] s)
   }"

section \<open>The abstract page table\<close>

fun tbl :: "memory \<Rightarrow> u64 \<Rightarrow> u64 list \<Rightarrow> u64 option" where
  "tbl m d [] = Some d"
| "tbl m d (i # is) =
     (let e = rd64 m (entry_addr d i) in
      if e AND PAGE_PRESENT = 0 then None else tbl m (pde_getaddress e) is)"

definition pte :: "memory \<Rightarrow> u64 \<Rightarrow> page_map_idx \<Rightarrow> u64" where
  "pte m d ix =
     (case tbl m d [PDP_i ix, PD_i ix, PT_i ix] of None \<Rightarrow> 0
      | Some t \<Rightarrow> rd64 m (entry_addr t (P_i ix)))"

definition translate :: "memory \<Rightarrow> u64 \<Rightarrow> u64 \<Rightarrow> u64 option" where
  "translate m d virtual =
     (let e = pte m d (pmidx_init virtual) in
      if e AND PAGE_PRESENT = 0 then None else Some (pde_getaddress e OR (virtual AND 0xfff)))"

definition idx_path :: "u64 list \<Rightarrow> bool" where
  "idx_path p \<longleftrightarrow> length p \<le> 3 \<and> (\<forall>i \<in> set p. i < 512)"

definition valid_idx :: "page_map_idx \<Rightarrow> bool" where
  "valid_idx ix \<longleftrightarrow> PDP_i ix < 512 \<and> PD_i ix < 512 \<and> PT_i ix < 512 \<and> P_i ix < 512"

definition pt_inv :: "u64 \<Rightarrow> 'a pmm_scheme \<Rightarrow> bool" where
  "pt_inv d s \<longleftrightarrow> pmm_wf s \<and>
     (\<forall>p a. idx_path p \<longrightarrow> tbl (mem s) d p = Some a \<longrightarrow> a \<in> pmm_used s) \<and>
     (\<forall>p q a. idx_path p \<longrightarrow> idx_path q \<longrightarrow>
        tbl (mem s) d p = Some a \<longrightarrow> tbl (mem s) d q = Some a \<longrightarrow> p = q)"

lemma pmidx_init_valid [simp]: "valid_idx (pmidx_init v)"
proof -
  have "x AND 0x1ff < (512 :: u64)" for x
    by (rule le_less_trans[OF word_and_le1]) simp
  then show ?thesis by (simp add: valid_idx_def pmidx_init_def Let_def)
qed

definition page_frame :: "u64 \<Rightarrow> bool" where
  "page_frame a \<longleftrightarrow> a AND 0x000000fffffff000 = a"

lemma setaddress_getaddress:
  assumes "page_frame a" and "flags AND 0x000ffffffffff000 = 0"
  shows "pde_getaddress (pde_setaddress pde a OR flags) = a"
proof -
  have "pde_getaddress (pde_setaddress pde a OR flags) =
    (pde AND (0xfff0000000000fff AND 0x000ffffffffff000)) OR
    (a AND (0x000000ffffffffff AND 0x000ffffffffff000)) OR (flags AND 0x000ffffffffff000)"
    by (simp only: pde_getaddress_def pde_setaddress_def Let_def and.assoc or.assoc bit.conj_disj_distrib2)
  also have "\<dots> = a" using assms by (simp add: page_frame_def)
  finally show ?thesis .
qed

lemma not_present_iff: "e AND PAGE_PRESENT = 0 \<longleftrightarrow> \<not> bit e 0"
  by (simp add: PAGE_PRESENT_def and_one_eq bit_0 even_iff_mod_2_eq_zero)

lemma setaddress_present: "bit flags 0 \<Longrightarrow> bit (pde OR flags) 0"
  by (simp add: bit_or_iff)

lemma page_frameI:
  assumes "unat a mod 0x1000 = 0" and "unat a < 2 ^ 40"
  shows "page_frame a"
proof -
  have t40: "take_bit 40 a = a"
    using assms(2) by (simp add: word_unat_eq_iff unsigned_take_bit_eq take_bit_nat_eq_self)
  have t12: "take_bit 12 a = 0"
    using assms(1) by (simp add: word_unat_eq_iff take_bit_eq_mod unat_mod_distrib)
  have "0x000000fffffff000 = (mask 40 AND NOT (mask 12) :: u64)" by (simp add: mask_eq_exp_minus_1)
  then have "a AND 0x000000fffffff000 = take_bit 40 a AND NOT (mask 12)"
    by (simp add: take_bit_eq_mask and.assoc)
  also have "\<dots> = a AND NOT (mask 12)" using t40 by simp
  also have "\<dots> = (a AND mask 12) OR (a AND NOT (mask 12))"
    using t12 by (simp add: take_bit_eq_mask)
  also have "\<dots> = a" by (simp flip: bit.conj_disj_distrib)
  finally show ?thesis by (simp add: page_frame_def)
qed

lemma pmm_page_frame:
  assumes "pmm_wf s" and "a \<in> pmm_pages s"
  shows "page_frame a"
proof -
  obtain i where i: "a = page_at s i" "i < pmm_npages s" using assms(2) by (auto simp: pmm_pages_def)
  have "i < 2 ^ 17" using i(2) pmm_wf_size(2)[OF assms(1)] by simp
  then have "unat (0x1000 * of_nat i :: u64) = 0x1000 * i" by (intro unat_page_offset) simp
  moreover have "unat (start_of_mem s) + 0x20000000 < 2 ^ 40" "unat (start_of_mem s) mod 0x1000 = 0"
    using assms(1) by (auto simp: pmm_wf_def)
  ultimately have "unat a = unat (start_of_mem s) + 0x1000 * i"
    using \<open>i < 2 ^ 17\<close> by (simp add: i(1) page_at_def unat_plus_if')
  then show ?thesis
    using \<open>unat (start_of_mem s) + 0x20000000 < 2 ^ 40\<close> \<open>unat (start_of_mem s) mod 0x1000 = 0\<close> \<open>i < 2 ^ 17\<close>
    by (intro page_frameI) auto
qed

lemma pmm_pages_sep:
  assumes "pmm_wf s" and "a \<in> pmm_pages s" and "b \<in> pmm_pages s" and "a \<noteq> b"
  shows "sep a 0x1000 b 0x1000"
proof -
  obtain i j where ij: "a = page_at s i" "i < pmm_npages s" "b = page_at s j" "j < pmm_npages s"
    using assms(2,3) by (auto simp: pmm_pages_def)
  have lt: "i < 2 ^ 17" "j < 2 ^ 17" using ij pmm_wf_size(2)[OF assms(1)] by auto
  have main: "sep (page_at s i) 0x1000 (page_at s j) 0x1000" if "i < j" "j < 2 ^ 17" for i j
  proof (rule sep_offset)
    show "page_at s j = page_at s i + of_nat (0x1000 * (j - i))"
      using that by (simp add: page_at_def of_nat_diff algebra_simps)
  qed (use that in auto)
  from assms(4) ij have "i \<noteq> j" by auto
  then have "i < j \<or> j < i" by linarith
  then show ?thesis using main lt ij sep_sym by blast
qed

lemma pmm_bitmap_sep:
  assumes "pmm_wf s" and "a \<in> pmm_pages s"
  shows "sep (bm_bitmap (pmm_bitmap s)) 0x4000 a 0x1000"
proof -
  obtain i where i: "a = page_at s i" "i < pmm_npages s" using assms(2) by (auto simp: pmm_pages_def)
  have "i < 2 ^ 17" using i pmm_wf_size(2)[OF assms(1)] by auto
  then show ?thesis
    using assms(1) by (intro sep_offset[of _ _ "0x4000 + 0x1000 * i"])
      (auto simp: i(1) page_at_def pmm_wf_def)
qed

lemma entry_addr_nat: "entry_addr a i = a + of_nat (8 * unat i)"
  by (simp add: entry_addr_def)

lemma entry_sep:
  assumes "sep a 0x1000 b 0x1000" and "i < 512" and "j < 512"
  shows "sep (entry_addr a i) 8 (entry_addr b j) 8"
proof -
  have "unat i < 512" "unat j < 512" using assms(2,3) by (auto simp: word_less_nat_alt)
  then show ?thesis unfolding entry_addr_nat using assms(1) by (intro sep_sub) auto
qed

lemma entry_sep_same:
  assumes "i < 512" and "j < 512" and "i \<noteq> j"
  shows "sep (entry_addr a i) 8 (entry_addr a j) 8"
proof -
  have main: "sep (entry_addr a i) 8 (entry_addr a j) 8" if "unat i < unat j" "unat j < 512" for i j :: u64
    using that unfolding entry_addr_nat
    by (intro sep_offset[of _ _ "8 * (unat j - unat i)"]) (auto simp: of_nat_diff algebra_simps)
  have "unat i < 512" "unat j < 512" "unat i \<noteq> unat j"
    using assms by (auto simp: word_less_nat_alt word_unat_eq_iff)
  then show ?thesis using main sep_sym by (metis nat_neq_iff)
qed

lemma region_entry_sep:
  assumes "sep r n a 0x1000" and "i < 512" and "0 < n"
  shows "sep r n (entry_addr a i) 8"
proof -
  have "unat i < 512" using assms(2) by (auto simp: word_less_nat_alt)
  then have "sep (r + of_nat 0) n (a + of_nat (8 * unat i)) 8" using assms by (intro sep_sub[OF assms(1)]) auto
  then show ?thesis by (simp add: entry_addr_def)
qed

lemma tbl_snoc:
  "tbl m d (p @ [i]) =
     (case tbl m d p of None \<Rightarrow> None
      | Some a \<Rightarrow> let e = rd64 m (entry_addr a i) in
          if e AND PAGE_PRESENT = 0 then None else Some (pde_getaddress e))"
  by (induction p arbitrary: d) (auto simp: Let_def)

lemma idx_path_snoc: "idx_path (p @ [i]) \<longleftrightarrow> idx_path p \<and> length p < 3 \<and> i < 512"
  by (auto simp: idx_path_def)

lemma rd64_memset_zero:
  assumes "i < 512"
  shows "rd64 (memset m a 0 0x1000) (entry_addr a i) = 0"
proof -
  have ui: "unat i < 512" using assms by (simp add: word_less_nat_alt)
  have "rd64 (memset m a 0 0x1000) (entry_addr a i) = rd64 (\<lambda>_. 0) (entry_addr a i)"
  proof (rule c64.rd_cong)
    fix k :: nat assume "k < 8"
    then have "unat (of_nat (8 * unat i + k) :: u64) < 0x1000"
      using ui unat_of_nat64[of "8 * unat i + k"] by simp
    moreover have "entry_addr a i + of_nat k - a = of_nat (8 * unat i + k)"
      by (simp add: entry_addr_def)
    ultimately show "memset m a 0 0x1000 (entry_addr a i + of_nat k) = 0"
      by (simp add: memset_apply del: of_nat_add of_nat_mult)
  qed
  also have "\<dots> = 0" by (rule bit_word_eqI) (simp add: rd64_def bit_rdn)
  finally show ?thesis .
qed

lemma pt_invD:
  assumes "pt_inv d s"
  shows "pmm_wf s"
    and "idx_path p \<Longrightarrow> tbl (mem s) d p = Some a \<Longrightarrow> a \<in> pmm_used s"
    and "idx_path p \<Longrightarrow> idx_path q \<Longrightarrow> tbl (mem s) d p = Some a \<Longrightarrow> tbl (mem s) d q = Some a \<Longrightarrow> p = q"
  using assms unfolding pt_inv_def by blast+

lemma pt_inv_cong:
  assumes "pt_inv d s" and "mem s' = mem s" and "pmm_bitmap s' = pmm_bitmap s"
    and "start_of_mem s' = start_of_mem s"
  shows "pt_inv d s'"
proof -
  have n: "pmm_npages s' = pmm_npages s" using assms(3) by (simp add: pmm_npages_def)
  have p: "page_at s' = page_at s" using assms(4) by (simp add: page_at_def fun_eq_iff)
  have "pmm_used s' = pmm_used s" by (simp only: pmm_used_def n p assms)
  moreover have "pmm_wf s' = pmm_wf s" by (simp only: pmm_wf_def assms)
  ultimately show ?thesis using assms(1) unfolding pt_inv_def assms(2) by blast
qed

lemma tbl_new_table:
  assumes inv: "pt_inv d s" and p0: "idx_path (p0 @ [i0])" "tbl (mem s) d p0 = Some t0"
    and np: "\<not> bit (rd64 (mem s) (entry_addr t0 i0)) 0"
    and old: "\<And>a i. a \<in> pmm_used s \<Longrightarrow> i < 512 \<Longrightarrow>
        rd64 m (entry_addr a i) = (if a = t0 \<and> i = i0 then e else rd64 (mem s) (entry_addr a i))"
    and new: "\<And>i. i < 512 \<Longrightarrow> rd64 m (entry_addr f i) = 0"
    and e: "bit e 0" "pde_getaddress e = f"
    and p: "idx_path p"
  shows "tbl m d p = (if p = p0 @ [i0] then Some f else tbl (mem s) d p)"
  using p
proof (induction p rule: rev_induct)
  case (snoc i q)
  have q: "idx_path q" "i < 512" using snoc.prems by (auto simp: idx_path_snoc)
  have none: "tbl (mem s) d (p0 @ [i0]) = None"
    using p0(2) np by (simp add: tbl_snoc not_present_iff Let_def)
  show ?case
  proof (cases "q = p0 @ [i0]")
    case True
    have "tbl m d q = Some f" "tbl (mem s) d q = None" "q \<noteq> p0"
      using snoc.IH[OF q(1)] none True by simp_all
    then show ?thesis using new[OF q(2)]
      by (simp add: tbl_snoc[of _ d q i] not_present_iff Let_def)
  next
    case qneq: False
    then have IH: "tbl m d q = tbl (mem s) d q" using snoc.IH[OF q(1)] by simp
    show ?thesis
    proof (cases "tbl (mem s) d q")
      case None
      then have "q \<noteq> p0" using p0(2) by auto
      then show ?thesis using None IH by (simp add: tbl_snoc)
    next
      case (Some a)
      then have a: "a \<in> pmm_used s" using pt_invD(2)[OF inv q(1)] by simp
      have "a = t0 \<longleftrightarrow> q = p0"
        using pt_invD(3)[OF inv q(1), of p0] p0 Some by (auto simp: idx_path_snoc)
      then show ?thesis
        using Some IH old[OF a q(2)] e by (simp add: tbl_snoc not_present_iff Let_def)
    qed
  qed
qed simp

lemma pte_new_table:
  assumes inv: "pt_inv d s" and p0: "idx_path (p0 @ [i0])" "tbl (mem s) d p0 = Some t0"
    and np: "\<not> bit (rd64 (mem s) (entry_addr t0 i0)) 0"
    and old: "\<And>a i. a \<in> pmm_used s \<Longrightarrow> i < 512 \<Longrightarrow>
        rd64 m (entry_addr a i) = (if a = t0 \<and> i = i0 then e else rd64 (mem s) (entry_addr a i))"
    and new: "\<And>i. i < 512 \<Longrightarrow> rd64 m (entry_addr f i) = 0"
    and e: "bit e 0" "pde_getaddress e = f"
    and ix: "valid_idx ix"
  shows "pte m d ix = pte (mem s) d ix"
proof -
  let ?p = "[PDP_i ix, PD_i ix, PT_i ix]"
  have ixp: "idx_path ?p" "P_i ix < 512" using ix by (auto simp: idx_path_def valid_idx_def)
  have t: "tbl m d ?p = (if ?p = p0 @ [i0] then Some f else tbl (mem s) d ?p)"
    by (rule tbl_new_table[OF inv p0 np old new e ixp(1)])
  show ?thesis
  proof (cases "?p = p0 @ [i0]")
    case True
    have "tbl (mem s) d ?p = None"
      unfolding True using p0(2) np by (simp add: tbl_snoc not_present_iff Let_def)
    moreover have "tbl m d ?p = Some f" using t True by (simp only: if_True simp_thms)
    ultimately show ?thesis by (simp only: pte_def option.case new[OF ixp(2)])
  next
    case False
    have "rd64 m (entry_addr a (P_i ix)) = rd64 (mem s) (entry_addr a (P_i ix))"
      if a: "tbl (mem s) d ?p = Some a" for a
    proof -
      have "a \<noteq> t0"
        using pt_invD(3)[OF inv ixp(1), of p0 a] a p0 by (auto simp: idx_path_snoc simp del: tbl.simps)
      then show ?thesis using old[OF pt_invD(2)[OF inv ixp(1) a] ixp(2)] by simp
    qed
    then show ?thesis using t False by (simp add: pte_def del: tbl.simps split: option.split)
  qed
qed

lemma pt_inv_new_table:
  assumes inv: "pt_inv d s" and p0: "idx_path (p0 @ [i0])" "tbl (mem s) d p0 = Some t0"
    and np: "\<not> bit (rd64 (mem s) (entry_addr t0 i0)) 0"
    and old: "\<And>a i. a \<in> pmm_used s \<Longrightarrow> i < 512 \<Longrightarrow>
        rd64 m (entry_addr a i) = (if a = t0 \<and> i = i0 then e else rd64 (mem s) (entry_addr a i))"
    and new: "\<And>i. i < 512 \<Longrightarrow> rd64 m (entry_addr f i) = 0"
    and e: "bit e 0" "pde_getaddress e = f"
    and f: "f \<notin> pmm_used s" and u: "pmm_used (s\<lparr>mem := m\<rparr>) = insert f (pmm_used s)"
  shows "pt_inv d (s\<lparr>mem := m\<rparr>)"
proof -
  have t: "tbl m d p = (if p = p0 @ [i0] then Some f else tbl (mem s) d p)" if "idx_path p" for p
    by (rule tbl_new_table[OF inv p0 np old new e that])
  show ?thesis
    unfolding pt_inv_def
  proof (intro conjI allI impI)
    show "pmm_wf (s\<lparr>mem := m\<rparr>)" using pt_invD(1)[OF inv] by simp
    show "a \<in> pmm_used (s\<lparr>mem := m\<rparr>)" if "idx_path p" "tbl (mem (s\<lparr>mem := m\<rparr>)) d p = Some a" for p a
      using that t[OF that(1)] pt_invD(2)[OF inv that(1), of a] u by (auto split: if_splits)
    show "p = q" if pq: "idx_path p" "idx_path q" "tbl (mem (s\<lparr>mem := m\<rparr>)) d p = Some a"
      "tbl (mem (s\<lparr>mem := m\<rparr>)) d q = Some a" for p q a
      using pq t[OF pq(1)] t[OF pq(2)] f pt_invD(2)[OF inv pq(1), of a]
        pt_invD(2)[OF inv pq(2), of a] pt_invD(3)[OF inv pq(1,2), of a]
      by (auto split: if_splits)
  qed
qed

section \<open>New tables\<close>

definition pmm_free_count :: "'a pmm_scheme \<Rightarrow> nat" where
  "pmm_free_count s = card (pmm_pages s - pmm_used s)"

lemma pmm_free_count_pos: "0 < pmm_free_count s \<Longrightarrow> pmm_used s \<noteq> pmm_pages s"
  by (auto simp: pmm_free_count_def)

lemma pmm_free_count_insert:
  assumes "f \<in> pmm_pages s" and "f \<notin> pmm_used s"
    and "pmm_used s' = insert f (pmm_used s)" and "pmm_pages s' = pmm_pages s"
  shows "Suc (pmm_free_count s') = pmm_free_count s"
proof -
  have eq: "pmm_pages s' - pmm_used s' = (pmm_pages s - pmm_used s) - {f}" using assms by auto
  have "f \<in> pmm_pages s - pmm_used s" using assms by simp
  then show ?thesis
    unfolding pmm_free_count_def eq by (intro card_Suc_Diff1) (simp add: pmm.finite_pages)
qed

lemma paging_alloc_table_mem:
  fixes s :: "'a pmm_scheme" and e :: u64
  assumes wf: "pmm_wf s" and t: "t \<in> pmm_used s" and i: "i < 512"
    and f: "f \<in> pmm_pages s" "f \<notin> pmm_used s"
    and m1: "agree_off (bm_bitmap (pmm_bitmap s)) 0x4000 (mem s) m1"
  defines "m \<equiv> wr64 (memset m1 f 0 0x1000) (entry_addr t i) e"
  shows "a \<in> pmm_used s \<Longrightarrow> j < 512 \<Longrightarrow>
      rd64 m (entry_addr a j) = (if a = t \<and> j = i then e else rd64 (mem s) (entry_addr a j))"
    and "j < 512 \<Longrightarrow> rd64 m (entry_addr f j) = 0"
    and "pmm_used (s\<lparr>mem := m\<rparr>) = pmm_used (s\<lparr>mem := m1\<rparr>)"
proof -
  have pages: "pmm_used s \<subseteq> pmm_pages s" by (rule pmm.used_pages)
  have fz: "agree_off f 0x1000 m1 (memset m1 f 0 0x1000)" using memset_agree[of f "0x1000" m1 0] by simp
  have ft: "sep f 0x1000 t 0x1000" using pmm_pages_sep[OF wf f(1)] t f(2) pages by blast
  {
    assume a: "a \<in> pmm_used s" and j: "j < 512"
    have "sep f 0x1000 a 0x1000" using pmm_pages_sep[OF wf f(1)] a f(2) pages by blast
    then have 1: "rd64 (memset m1 f 0 0x1000) (entry_addr a j) = rd64 m1 (entry_addr a j)"
      using j by (intro c64.rd_agree[OF fz] region_entry_sep) auto
    have "sep (bm_bitmap (pmm_bitmap s)) 0x4000 a 0x1000"
      using pmm_bitmap_sep[OF wf] a pages by blast
    then have 2: "rd64 m1 (entry_addr a j) = rd64 (mem s) (entry_addr a j)"
      using j by (intro c64.rd_agree[OF m1] region_entry_sep) auto
    show "rd64 m (entry_addr a j) = (if a = t \<and> j = i then e else rd64 (mem s) (entry_addr a j))"
    proof (cases "a = t \<and> j = i")
      case True
      then show ?thesis by (simp add: m_def mem_simps)
    next
      case False
      have "sep (entry_addr t i) 8 (entry_addr a j) 8"
      proof (cases "a = t")
        case True
        with False have "i \<noteq> j" by auto
        with True i j show ?thesis by (simp add: entry_sep_same)
      next
        case neq: False
        then have "sep t 0x1000 a 0x1000" using pmm_pages_sep[OF wf, of t a] t a pages by auto
        then show ?thesis by (rule entry_sep[OF _ i j])
      qed
      then show ?thesis using False 1 2 by (auto simp: m_def mem_simps)
    qed
  next
    assume j: "j < 512"
    have "sep (entry_addr t i) 8 (entry_addr f j) 8"
      using entry_sep[OF ft j i] sep_sym by blast
    then show "rd64 m (entry_addr f j) = 0" using rd64_memset_zero[OF j] by (simp add: m_def mem_simps)
  next
    have "sep f 0x1000 (bm_bitmap (pmm_bitmap s)) 0x4000"
      using pmm_bitmap_sep[OF wf f(1)] sep_sym by blast
    then have "pmm_used (s\<lparr>mem := memset m1 f 0 0x1000\<rparr>) = pmm_used (s\<lparr>mem := m1\<rparr>)"
      using pmm_used_frame[where s = "s\<lparr>mem := m1\<rparr>" and r = f and n = "0x1000" and m = "memset m1 f 0 0x1000"] wf fz by simp
    moreover have "sep (entry_addr t i) 8 (bm_bitmap (pmm_bitmap s)) 0x4000"
      using region_entry_sep[OF pmm_bitmap_sep[OF wf, of t] i] t pages sep_sym by auto
    ultimately show "pmm_used (s\<lparr>mem := m\<rparr>) = pmm_used (s\<lparr>mem := m1\<rparr>)"
      using pmm_used_frame[where s = "s\<lparr>mem := memset m1 f 0 0x1000\<rparr>" and r = "entry_addr t i" and n = 8 and m = m] wf c64.wr_agree
      by (simp add: m_def)
  }
qed

definition map_flags :: "u64 \<Rightarrow> bool" where
  "map_flags flags \<longleftrightarrow> bit flags 0 \<and> flags AND 0x000ffffffffff000 = 0"

definition pt_frame :: "u64 \<Rightarrow> 'a pmm_scheme \<Rightarrow> memory \<Rightarrow> bool" where
  "pt_frame d s m \<longleftrightarrow>
     pmm_used s \<subseteq> pmm_used (s\<lparr>mem := m\<rparr>) \<and>
     (\<forall>p a. idx_path p \<longrightarrow> tbl m d p = Some a \<longrightarrow> a \<in> pmm_used s \<longrightarrow> tbl (mem s) d p = Some a) \<and>
     (\<forall>a k. a \<in> pmm_used s \<longrightarrow> (\<forall>p. idx_path p \<longrightarrow> tbl (mem s) d p \<noteq> Some a) \<longrightarrow>
        k < 0x1000 \<longrightarrow> m (a + of_nat k) = mem s (a + of_nat k))"

lemma pt_frame_refl: "pt_frame d s (mem s)"
  by (simp add: pt_frame_def)

lemma pt_frame_trans:
  assumes 1: "pt_frame d s m1" and 2: "pt_frame d (s\<lparr>mem := m1\<rparr>) m2"
  shows "pt_frame d s m2"
  unfolding pt_frame_def
proof (intro conjI allI impI)
  show "pmm_used s \<subseteq> pmm_used (s\<lparr>mem := m2\<rparr>)"
    using 1 2 by (auto simp: pt_frame_def)
  show "tbl (mem s) d p = Some a" if "idx_path p" "tbl m2 d p = Some a" "a \<in> pmm_used s" for p a
    using 1 2 that unfolding pt_frame_def by auto
  show "m2 (a + of_nat k) = mem s (a + of_nat k)"
    if a: "a \<in> pmm_used s" and n: "\<forall>p. idx_path p \<longrightarrow> tbl (mem s) d p \<noteq> Some a" and k: "k < 0x1000" for a k
  proof -
    have "a \<in> pmm_used (s\<lparr>mem := m1\<rparr>)" using 1 a by (auto simp: pt_frame_def)
    moreover have "\<forall>p. idx_path p \<longrightarrow> tbl m1 d p \<noteq> Some a" using 1 a n by (auto simp: pt_frame_def)
    ultimately have "m2 (a + of_nat k) = m1 (a + of_nat k)" using 2 k by (simp add: pt_frame_def)
    also have "\<dots> = mem s (a + of_nat k)" using 1 a n k by (simp add: pt_frame_def)
    finally show ?thesis .
  qed
qed

lemma entry_write_frame:
  assumes wf: "pmm_wf s" and t: "t \<in> pmm_pages s" and a: "a \<in> pmm_pages s" "a \<noteq> t"
    and i: "i < 512" and k: "k < 0x1000"
  shows "wr64 m (entry_addr t i) e (a + of_nat k) = m (a + of_nat k)"
proof -
  have "sep a 0x1000 (entry_addr t i) 8"
    using region_entry_sep[OF pmm_pages_sep[OF wf a(1) t a(2)] i] by simp
  then show ?thesis
    using agree_off_sep[OF c64.wr_agree _ k] sep_sym by blast
qed

lemma paging_next_spec:
  assumes inv: "pt_inv d s" and p: "idx_path (p @ [i])" "tbl (mem s) d p = Some t"
    and fl: "map_flags flags" and free: "0 < pmm_free_count s"
  shows "\<exists>t' m. paging_next t i flags s = Some (t', s\<lparr>mem := m\<rparr>) \<and> pt_inv d (s\<lparr>mem := m\<rparr>)
    \<and> tbl m d (p @ [i]) = Some t' \<and> (\<forall>ix. valid_idx ix \<longrightarrow> pte m d ix = pte (mem s) d ix)
    \<and> pmm_free_count s \<le> Suc (pmm_free_count (s\<lparr>mem := m\<rparr>)) \<and> pt_frame d s m"
proof -
  let ?pde = "rd64 (mem s) (entry_addr t i)"
  have i: "i < 512" and pp: "idx_path p" using p(1) by (auto simp: idx_path_snoc)
  have wf: "pmm_wf s" using pt_invD(1)[OF inv] .
  have tu: "t \<in> pmm_used s" using pt_invD(2)[OF inv pp p(2)] .
  show ?thesis
  proof (cases "bit ?pde 0")
    case True
    then show ?thesis using inv p(2)
      by (intro exI[of _ "pde_getaddress ?pde"] exI[of _ "mem s"])
         (simp add: paging_next_def not_present_iff tbl_snoc Let_def pt_frame_refl)
  next
    case False
    obtain f m1 where g: "pmm_getpage s = Some (f, s\<lparr>mem := m1\<rparr>)" "f \<in> pmm_pages s" "f \<notin> pmm_used s"
      "pmm_used (s\<lparr>mem := m1\<rparr>) = insert f (pmm_used s)"
      "agree_off (bm_bitmap (pmm_bitmap s)) 0x4000 (mem s) m1"
      by (rule pmm_getpage_effect[OF wf pmm_free_count_pos[OF free]])
    let ?e = "pde_setaddress ?pde f OR flags"
    let ?m = "wr64 (memset m1 f 0 0x1000) (entry_addr t i) ?e"
    have e: "bit ?e 0" "pde_getaddress ?e = f"
      using fl setaddress_present setaddress_getaddress[OF pmm_page_frame[OF wf g(2)]]
      by (auto simp: map_flags_def)
    note mm = paging_alloc_table_mem[OF wf tu i g(2,3,5), where e = ?e]
    have u: "pmm_used (s\<lparr>mem := ?m\<rparr>) = insert f (pmm_used s)" using mm(3) g(4) by simp
    have "pt_inv d (s\<lparr>mem := ?m\<rparr>)"
      using pt_inv_new_table[OF inv p False mm(1,2) e g(3) u] .
    moreover have "tbl ?m d (p @ [i]) = Some f"
      using tbl_new_table[OF inv p False mm(1,2) e p(1)] by simp
    moreover have "\<forall>ix. valid_idx ix \<longrightarrow> pte ?m d ix = pte (mem s) d ix"
      using pte_new_table[OF inv p False mm(1,2) e] by blast
    moreover have "Suc (pmm_free_count (s\<lparr>mem := ?m\<rparr>)) = pmm_free_count s"
      using pmm_free_count_insert[OF g(2,3) u] by simp
    moreover have "pt_frame d s ?m"
      unfolding pt_frame_def
    proof (intro conjI allI impI)
      show "pmm_used s \<subseteq> pmm_used (s\<lparr>mem := ?m\<rparr>)" using u by auto
      show "tbl (mem s) d q = Some a" if "idx_path q" "tbl ?m d q = Some a" "a \<in> pmm_used s" for q a
        using tbl_new_table[OF inv p False mm(1,2) e that(1)] that g(3) by (auto split: if_splits)
      show "?m (a + of_nat k) = mem s (a + of_nat k)"
        if a: "a \<in> pmm_used s" and n: "\<forall>q. idx_path q \<longrightarrow> tbl (mem s) d q \<noteq> Some a" and k: "k < 0x1000" for a k
      proof -
        have ap: "a \<in> pmm_pages s" "t \<in> pmm_pages s" "a \<noteq> t" "a \<noteq> f"
          using a tu n pp p(2) g(3) pmm.used_pages[of s] by auto
        have "?m (a + of_nat k) = memset m1 f 0 0x1000 (a + of_nat k)"
          by (rule entry_write_frame[OF wf ap(2,1,3) i k])
        also have "\<dots> = m1 (a + of_nat k)"
          using agree_off_sep[OF memset_agree[of f "0x1000"] _ k]
            pmm_pages_sep[OF wf g(2) ap(1)] ap(4) by simp
        also have "\<dots> = mem s (a + of_nat k)"
          using agree_off_sep[OF g(5) pmm_bitmap_sep[OF wf ap(1)] k] .
        finally show ?thesis .
      qed
    qed
    moreover have "paging_next t i flags s = Some (f, s\<lparr>mem := ?m\<rparr>)"
      using False g(1) by (simp add: paging_next_def not_present_iff)
    ultimately show ?thesis
      by (intro exI[of _ f] exI[of _ ?m] conjI) simp_all
  qed
qed

section \<open>Mapping and unmapping a page\<close>

lemma paging_leaf_write:
  fixes s :: "'a pmm_scheme" and v :: u64
  assumes inv: "pt_inv d s" and ix: "valid_idx ix"
    and t: "tbl (mem s) d [PDP_i ix, PD_i ix, PT_i ix] = Some t"
  defines "m \<equiv> wr64 (mem s) (entry_addr t (P_i ix)) v"
  shows "idx_path p \<Longrightarrow> tbl m d p = tbl (mem s) d p"
    and "pt_inv d (s\<lparr>mem := m\<rparr>)"
    and "valid_idx jx \<Longrightarrow> pte m d jx = (if jx = ix then v else pte (mem s) d jx)"
    and "pmm_used (s\<lparr>mem := m\<rparr>) = pmm_used s"
    and "pt_frame d s m"
proof -
  let ?p = "[PDP_i ix, PD_i ix, PT_i ix]"
  have wf: "pmm_wf s" using pt_invD(1)[OF inv] .
  have ixp: "idx_path ?p" "P_i ix < 512" using ix by (auto simp: idx_path_def valid_idx_def)
  have tu: "t \<in> pmm_used s" "t \<in> pmm_pages s"
    using pt_invD(2)[OF inv ixp(1) t] pmm.used_pages[of s] by auto
  have rd: "rd64 m (entry_addr a j) = (if a = t \<and> j = P_i ix then v else rd64 (mem s) (entry_addr a j))"
    if "a \<in> pmm_used s" "j < 512" for a j
  proof (cases "a = t")
    case True
    then show ?thesis
      using entry_sep_same[OF ixp(2) that(2)] by (auto simp: m_def mem_simps)
  next
    case False
    then have "sep t 0x1000 a 0x1000" using pmm_pages_sep[OF wf tu(2)] that(1) pmm.used_pages[of s] by auto
    then show ?thesis using entry_sep[OF _ ixp(2) that(2)] False by (simp add: m_def mem_simps)
  qed
  show tb: "tbl m d p = tbl (mem s) d p" if "idx_path p" for p
    using that
  proof (induction p rule: rev_induct)
    case (snoc i q)
    have q: "idx_path q" "i < 512" "length q < 3" using snoc.prems by (auto simp: idx_path_snoc)
    have "rd64 m (entry_addr a i) = rd64 (mem s) (entry_addr a i)" if a: "tbl (mem s) d q = Some a" for a
    proof -
      have "a \<noteq> t" using pt_invD(3)[OF inv q(1) ixp(1), of a] a t q(3) by auto
      then show ?thesis using rd[OF pt_invD(2)[OF inv q(1) a] q(2)] by simp
    qed
    then show ?case using snoc.IH[OF q(1)] by (simp add: tbl_snoc split: option.split)
  qed simp
  have "sep (entry_addr t (P_i ix)) 8 (bm_bitmap (pmm_bitmap s)) 0x4000"
    using region_entry_sep[OF pmm_bitmap_sep[OF wf tu(2)] ixp(2)] sep_sym by auto
  then show u: "pmm_used (s\<lparr>mem := m\<rparr>) = pmm_used s"
    using pmm_used_frame[OF wf c64.wr_agree] by (simp add: m_def)
  show "pt_inv d (s\<lparr>mem := m\<rparr>)"
    using inv tb u unfolding pt_inv_def by simp
  show "pte m d jx = (if jx = ix then v else pte (mem s) d jx)" if jx: "valid_idx jx"
  proof -
    let ?q = "[PDP_i jx, PD_i jx, PT_i jx]"
    have jxp: "idx_path ?q" "P_i jx < 512" using jx by (auto simp: idx_path_def valid_idx_def)
    have eq: "jx = ix \<longleftrightarrow> ?q = ?p \<and> P_i jx = P_i ix" by (cases jx; cases ix) auto
    show ?thesis
    proof (cases "tbl (mem s) d ?q")
      case None
      then have "?q \<noteq> ?p" using t by (metis option.distinct(1))
      then show ?thesis using None tb[OF jxp(1)] eq by (simp only: pte_def) simp
    next
      case (Some a)
      have "a = t \<longleftrightarrow> ?q = ?p"
        using pt_invD(3)[OF inv jxp(1) ixp(1), of a] Some t by (metis option.inject)
      then have "rd64 m (entry_addr a (P_i jx)) = (if jx = ix then v else rd64 (mem s) (entry_addr a (P_i jx)))"
        using rd[OF pt_invD(2)[OF inv jxp(1) Some] jxp(2)] eq by (simp only:)
      then show ?thesis using Some tb[OF jxp(1)] by (simp only: pte_def option.case)
    qed
  qed
  show "pt_frame d s m"
    unfolding pt_frame_def
  proof (intro conjI allI impI)
    show "pmm_used s \<subseteq> pmm_used (s\<lparr>mem := m\<rparr>)" using u by simp
    show "tbl (mem s) d q = Some a" if "idx_path q" "tbl m d q = Some a" for q a
      using tb that by simp
    show "m (a + of_nat k) = mem s (a + of_nat k)"
      if "a \<in> pmm_used s" "\<forall>q. idx_path q \<longrightarrow> tbl (mem s) d q \<noteq> Some a" "k < 0x1000" for a k
      using that t ixp(1) entry_write_frame[OF wf tu(2) _ _ ixp(2), of a k] pmm.used_pages[of s]
      by (auto simp: m_def simp del: tbl.simps)
  qed
qed

lemma paging_map_dir_spec:
  assumes inv: "pt_inv d s" and fl: "map_flags flags" and free: "3 \<le> pmm_free_count s"
  shows "\<exists>m. paging_map_dir d v ph flags s = Some (s\<lparr>mem := m\<rparr>) \<and> pt_inv d (s\<lparr>mem := m\<rparr>)
    \<and> (\<forall>ix. valid_idx ix \<longrightarrow> pte m d ix =
         (if ix = pmidx_init v then pde_setaddress (pte (mem s) d ix) ph OR flags else pte (mem s) d ix))
    \<and> pmm_free_count s \<le> 3 + pmm_free_count (s\<lparr>mem := m\<rparr>) \<and> pt_frame d s m"
proof -
  let ?ix = "pmidx_init v"
  have v: "PDP_i ?ix < 512" "PD_i ?ix < 512" "PT_i ?ix < 512" "P_i ?ix < 512"
    using pmidx_init_valid[of v] by (auto simp: valid_idx_def)
  have "0 < pmm_free_count s" using free by simp
  from paging_next_spec[OF inv, of "[]" "PDP_i ?ix" d, OF _ _ fl this] v(1)
  obtain t1 m1 where 1: "paging_next d (PDP_i ?ix) flags s = Some (t1, s\<lparr>mem := m1\<rparr>)"
    "pt_inv d (s\<lparr>mem := m1\<rparr>)" "tbl m1 d ([] @ [PDP_i ?ix]) = Some t1"
    "\<forall>ix. valid_idx ix \<longrightarrow> pte m1 d ix = pte (mem s) d ix"
    "pmm_free_count s \<le> Suc (pmm_free_count (s\<lparr>mem := m1\<rparr>))" "pt_frame d s m1"
    by (auto simp: idx_path_def simp del: append_Nil)
  have "0 < pmm_free_count (s\<lparr>mem := m1\<rparr>)" using free 1(5) by simp
  from paging_next_spec[OF 1(2), of "[PDP_i ?ix]" "PD_i ?ix" t1, OF _ _ fl this] 1(3) v
  obtain t2 m2 where 2: "paging_next t1 (PD_i ?ix) flags (s\<lparr>mem := m1\<rparr>) = Some (t2, s\<lparr>mem := m2\<rparr>)"
    "pt_inv d (s\<lparr>mem := m2\<rparr>)" "tbl m2 d ([PDP_i ?ix] @ [PD_i ?ix]) = Some t2"
    "\<forall>ix. valid_idx ix \<longrightarrow> pte m2 d ix = pte m1 d ix"
    "pmm_free_count (s\<lparr>mem := m1\<rparr>) \<le> Suc (pmm_free_count (s\<lparr>mem := m2\<rparr>))"
    "pt_frame d (s\<lparr>mem := m1\<rparr>) m2"
    by (auto simp: idx_path_def simp del: tbl.simps)
  have "0 < pmm_free_count (s\<lparr>mem := m2\<rparr>)" using free 1(5) 2(5) by simp
  from paging_next_spec[OF 2(2), of "[PDP_i ?ix, PD_i ?ix]" "PT_i ?ix" t2, OF _ _ fl this] 2(3) v
  obtain t3 m3 where 3: "paging_next t2 (PT_i ?ix) flags (s\<lparr>mem := m2\<rparr>) = Some (t3, s\<lparr>mem := m3\<rparr>)"
    "pt_inv d (s\<lparr>mem := m3\<rparr>)" "tbl m3 d [PDP_i ?ix, PD_i ?ix, PT_i ?ix] = Some t3"
    "\<forall>ix. valid_idx ix \<longrightarrow> pte m3 d ix = pte m2 d ix"
    "pmm_free_count (s\<lparr>mem := m2\<rparr>) \<le> Suc (pmm_free_count (s\<lparr>mem := m3\<rparr>))"
    "pt_frame d (s\<lparr>mem := m2\<rparr>) m3"
    by (auto simp: idx_path_def simp del: tbl.simps)
  let ?e = "pde_setaddress (rd64 m3 (entry_addr t3 (P_i ?ix))) ph OR flags"
  let ?m = "wr64 m3 (entry_addr t3 (P_i ?ix)) ?e"
  have e: "rd64 m3 (entry_addr t3 (P_i ?ix)) = pte m3 d ?ix" using 3(3) by (simp add: pte_def del: tbl.simps)
  have t3: "tbl (mem (s\<lparr>mem := m3\<rparr>)) d [PDP_i ?ix, PD_i ?ix, PT_i ?ix] = Some t3"
    using 3(3) by (simp del: tbl.simps)
  note leaf = paging_leaf_write[where v = ?e, OF 3(2) pmidx_init_valid t3]
  have "paging_map_dir d v ph flags s = Some (s\<lparr>mem := ?m\<rparr>)"
    using 1(1) 2(1) 3(1) by (simp add: paging_map_dir_def Let_def)
  moreover have "pt_inv d (s\<lparr>mem := ?m\<rparr>)" using leaf(2) by simp
  moreover have "\<forall>ix. valid_idx ix \<longrightarrow> pte ?m d ix =
      (if ix = ?ix then pde_setaddress (pte (mem s) d ix) ph OR flags else pte (mem s) d ix)"
    using leaf(3) 1(4) 2(4) 3(4) e by simp
  moreover have "pmm_free_count s \<le> 3 + pmm_free_count (s\<lparr>mem := ?m\<rparr>)"
    using 1(5) 2(5) 3(5) leaf(4) by (simp add: pmm_free_count_def)
  moreover have "pt_frame d s ?m"
    using pt_frame_trans[OF 1(6)] pt_frame_trans[OF 2(6)] pt_frame_trans[OF 3(6)] leaf(5) 2(6) 3(6) by simp
  ultimately show ?thesis by blast
qed

lemma paging_unmap_dir_spec:
  assumes inv: "pt_inv d s"
  shows "\<exists>m. paging_unmap_dir d v s = s\<lparr>mem := m\<rparr> \<and> pt_inv d (s\<lparr>mem := m\<rparr>)
    \<and> (\<forall>ix. valid_idx ix \<longrightarrow> pte m d ix =
         (if ix = pmidx_init v \<and> bit (pte (mem s) d ix) 0 then 0 else pte (mem s) d ix))
    \<and> pmm_used (s\<lparr>mem := m\<rparr>) = pmm_used s \<and> pt_frame d s m"
proof (cases "tbl (mem s) d [PDP_i (pmidx_init v), PD_i (pmidx_init v), PT_i (pmidx_init v)]")
  case None
  then have "paging_unmap_dir d v s = s" "pte (mem s) d (pmidx_init v) = 0"
    by (auto simp: paging_unmap_dir_def pte_def Let_def split: if_splits)
  with inv show ?thesis by (intro exI[of _ "mem s"]) (auto simp: pt_frame_refl)
next
  case (Some t)
  let ?ix = "pmidx_init v"
  have e: "pte (mem s) d ?ix = rd64 (mem s) (entry_addr t (P_i ?ix))"
    using Some by (simp add: pte_def del: tbl.simps)
  have u: "paging_unmap_dir d v s =
      (if bit (pte (mem s) d ?ix) 0 then s\<lparr>mem := wr64 (mem s) (entry_addr t (P_i ?ix)) 0\<rparr> else s)"
    using Some by (auto simp: paging_unmap_dir_def e Let_def not_present_iff split: if_splits)
  show ?thesis
  proof (cases "bit (pte (mem s) d ?ix) 0")
    case True
    note leaf = paging_leaf_write[where v = 0, OF inv pmidx_init_valid Some]
    show ?thesis using u True leaf
      by (intro exI[of _ "wr64 (mem s) (entry_addr t (P_i ?ix)) 0"]) auto
  next
    case False
    with u inv show ?thesis by (intro exI[of _ "mem s"]) (auto simp: pt_frame_refl)
  qed
qed

section \<open>Runs of mappings\<close>

locale page_mapper =
  fixes map1 :: "u64 \<Rightarrow> u64 \<Rightarrow> 's \<Rightarrow> 's option"
    and unmap1 :: "u64 \<Rightarrow> 's \<Rightarrow> 's"
    and view :: "'s \<Rightarrow> page_map_idx \<Rightarrow> u64"
    and newpte :: "u64 \<Rightarrow> u64 \<Rightarrow> u64"
    and ready :: "nat \<Rightarrow> 's \<Rightarrow> bool"
  assumes map1: "ready (n + 3) s \<Longrightarrow> \<exists>s'. map1 v p s = Some s' \<and> ready n s' \<and>
      (\<forall>ix. valid_idx ix \<longrightarrow> view s' ix = (if ix = pmidx_init v then newpte (view s ix) p else view s ix))"
    and unmap1: "ready n s \<Longrightarrow> ready n (unmap1 v s) \<and>
      (\<forall>ix. valid_idx ix \<longrightarrow> view (unmap1 v s) ix =
         (if ix = pmidx_init v \<and> bit (view s ix) 0 then 0 else view s ix))"
begin

fun map_list :: "(u64 \<times> u64) list \<Rightarrow> 's \<Rightarrow> 's option" where
  "map_list [] s = Some s"
| "map_list ((v, p) # vps) s = Option.bind (map1 v p s) (map_list vps)"

lemma map_list_spec:
  assumes "ready (n + 3 * length vps) s" and "distinct (map (pmidx_init \<circ> fst) vps)"
  shows "\<exists>s'. map_list vps s = Some s' \<and> ready n s' \<and>
    (\<forall>(v, p) \<in> set vps. view s' (pmidx_init v) = newpte (view s (pmidx_init v)) p) \<and>
    (\<forall>ix. valid_idx ix \<longrightarrow> ix \<notin> (pmidx_init \<circ> fst) ` set vps \<longrightarrow> view s' ix = view s ix)"
  using assms
proof (induction vps arbitrary: s)
  case (Cons vp vps)
  obtain v p where vp: "vp = (v, p)" by force
  from map1[of "n + 3 * length vps" s v p] Cons.prems(1) obtain s1 where
    s1: "map1 v p s = Some s1" "ready (n + 3 * length vps) s1"
      "\<forall>ix. valid_idx ix \<longrightarrow> view s1 ix = (if ix = pmidx_init v then newpte (view s ix) p else view s ix)"
    by (auto simp: algebra_simps)
  from Cons.IH[OF s1(2)] Cons.prems(2) obtain s' where
    s': "map_list vps s1 = Some s'" "ready n s'"
      "\<forall>(v, p) \<in> set vps. view s' (pmidx_init v) = newpte (view s1 (pmidx_init v)) p"
      "\<forall>ix. valid_idx ix \<longrightarrow> ix \<notin> (pmidx_init \<circ> fst) ` set vps \<longrightarrow> view s' ix = view s1 ix"
    by auto
  have fresh: "pmidx_init v \<notin> (pmidx_init \<circ> fst) ` set vps" using Cons.prems(2) vp by auto
  have old: "view s1 (pmidx_init w) = view s (pmidx_init w)" if "(w, q) \<in> set vps" for w q
  proof -
    have "pmidx_init w \<in> (pmidx_init \<circ> fst) ` set vps" using that by force
    with fresh have "pmidx_init w \<noteq> pmidx_init v" by metis
    then show ?thesis using s1(3) by simp
  qed
  have "view s' (pmidx_init v) = newpte (view s (pmidx_init v)) p"
    using s'(4) fresh s1(3) by simp
  then have "\<forall>(w, q) \<in> set (vp # vps). view s' (pmidx_init w) = newpte (view s (pmidx_init w)) q"
    using s'(3) old vp by auto
  moreover have "\<forall>ix. valid_idx ix \<longrightarrow> ix \<notin> (pmidx_init \<circ> fst) ` set (vp # vps) \<longrightarrow> view s' ix = view s ix"
    using s'(4) s1(3) vp by auto
  ultimately show ?case using s1(1) s'(1,2) vp by simp
qed simp

lemma unmap_fold_spec:
  assumes "ready n s"
  shows "ready n (fold unmap1 vs s) \<and>
    (\<forall>ix. valid_idx ix \<longrightarrow> view (fold unmap1 vs s) ix =
       (if ix \<in> pmidx_init ` set vs \<and> bit (view s ix) 0 then 0 else view s ix))"
  using assms
proof (induction vs arbitrary: s)
  case (Cons v vs)
  have "ready n (unmap1 v s)" using unmap1[OF Cons.prems] by simp
  from Cons.IH[OF this] unmap1[OF Cons.prems, of v] show ?case by auto
qed simp

end

definition pt_ready :: "u64 \<Rightarrow> u64 \<Rightarrow> nat \<Rightarrow> 'a pmm_scheme \<Rightarrow> bool" where
  "pt_ready d flags n s \<longleftrightarrow> pt_inv d s \<and> map_flags flags \<and> n \<le> pmm_free_count s"

interpretation pt: page_mapper
  "\<lambda>v p. paging_map_dir d v p flags" "paging_unmap_dir d"
  "\<lambda>s. pte (mem s) d" "\<lambda>old p. pde_setaddress old p OR flags" "pt_ready d flags" for d flags
proof
  fix n v p and s :: "'a pmm_scheme"
  assume r: "pt_ready d flags (n + 3) s"
  then show "\<exists>s'. paging_map_dir d v p flags s = Some s' \<and> pt_ready d flags n s' \<and>
      (\<forall>ix. valid_idx ix \<longrightarrow> pte (mem s') d ix =
         (if ix = pmidx_init v then pde_setaddress (pte (mem s) d ix) p OR flags else pte (mem s) d ix))"
    using paging_map_dir_spec[of d s flags v p] unfolding pt_ready_def by force
next
  fix n v and s :: "'a pmm_scheme"
  assume r: "pt_ready d flags n s"
  then obtain m where m: "paging_unmap_dir d v s = s\<lparr>mem := m\<rparr>" "pt_inv d (s\<lparr>mem := m\<rparr>)"
    "\<forall>ix. valid_idx ix \<longrightarrow> pte m d ix =
         (if ix = pmidx_init v \<and> bit (pte (mem s) d ix) 0 then 0 else pte (mem s) d ix)"
    "pmm_used (s\<lparr>mem := m\<rparr>) = pmm_used s"
    using paging_unmap_dir_spec[of d s v] by (auto simp: pt_ready_def)
  then show "pt_ready d flags n (paging_unmap_dir d v s) \<and>
      (\<forall>ix. valid_idx ix \<longrightarrow> pte (mem (paging_unmap_dir d v s)) d ix =
         (if ix = pmidx_init v \<and> bit (pte (mem s) d ix) 0 then 0 else pte (mem s) d ix))"
    using r by (simp add: pt_ready_def pmm_free_count_def)
qed

section \<open>Virtual pages and other address spaces\<close>

lemma pmidx_init_bits:
  shows "bit (P_i (pmidx_init v)) n \<longleftrightarrow> n < 9 \<and> bit v (n + 12)"
    and "bit (PT_i (pmidx_init v)) n \<longleftrightarrow> n < 9 \<and> bit v (n + 21)"
    and "bit (PD_i (pmidx_init v)) n \<longleftrightarrow> n < 9 \<and> bit v (n + 30)"
    and "bit (PDP_i (pmidx_init v)) n \<longleftrightarrow> n < 9 \<and> bit v (n + 39)"
proof -
  have m: "(0x1ff :: u64) = mask 9" by (simp add: mask_eq_exp_minus_1)
  show "bit (P_i (pmidx_init v)) n \<longleftrightarrow> n < 9 \<and> bit v (n + 12)"
    and "bit (PT_i (pmidx_init v)) n \<longleftrightarrow> n < 9 \<and> bit v (n + 21)"
    and "bit (PD_i (pmidx_init v)) n \<longleftrightarrow> n < 9 \<and> bit v (n + 30)"
    and "bit (PDP_i (pmidx_init v)) n \<longleftrightarrow> n < 9 \<and> bit v (n + 39)"
    by (auto simp: pmidx_init_def Let_def m bit_and_iff bit_mask_iff bit_drop_bit_eq add.commute)
qed

lemma bit_page_mask: "bit (v AND 0x0000fffffffff000 :: u64) n \<longleftrightarrow> 12 \<le> n \<and> n < 48 \<and> bit v n"
proof -
  have m: "(0x0000fffffffff000 :: u64) = push_bit 12 (mask 36)"
    by (simp add: mask_eq_exp_minus_1 push_bit_eq_mult)
  show ?thesis using bit_imp_le_length[of v n]
    by (subst m) (auto simp: bit_and_iff bit_push_bit_iff bit_mask_iff)
qed

lemma pmidx_init_eq_iff:
  "pmidx_init v = pmidx_init w \<longleftrightarrow> v AND 0x0000fffffffff000 = w AND 0x0000fffffffff000"
proof
  assume e: "pmidx_init v = pmidx_init w"
  have f: "bit v (n + 12) = bit w (n + 12)" "bit v (n + 21) = bit w (n + 21)"
    "bit v (n + 30) = bit w (n + 30)" "bit v (n + 39) = bit w (n + 39)" if "n < 9" for n
    using that pmidx_init_bits[of v n] pmidx_init_bits[of w n] e by auto
  show "v AND 0x0000fffffffff000 = w AND 0x0000fffffffff000"
  proof (rule bit_word_eqI, unfold bit_page_mask)
    fix n :: nat
    consider "n < 12 \<or> 48 \<le> n" | "n - 12 < 9" "12 \<le> n" | "n - 21 < 9" "21 \<le> n"
      | "n - 30 < 9" "30 \<le> n" | "n - 39 < 9" "39 \<le> n" "n < 48" by linarith
    then show "(12 \<le> n \<and> n < 48 \<and> bit v n) = (12 \<le> n \<and> n < 48 \<and> bit w n)"
    proof cases
      case 2 then show ?thesis using f(1)[of "n - 12"] by simp
    next
      case 3 then show ?thesis using f(2)[of "n - 21"] by simp
    next
      case 4 then show ?thesis using f(3)[of "n - 30"] by simp
    next
      case 5 then show ?thesis using f(4)[of "n - 39"] by simp
    qed auto
  qed
next
  assume e: "v AND 0x0000fffffffff000 = w AND 0x0000fffffffff000"
  have f: "bit v n = bit w n" if "12 \<le> n" "n < 48" for n
    using bit_page_mask[of v n] bit_page_mask[of w n] e that by simp
  show "pmidx_init v = pmidx_init w"
    by (rule page_map_idx.equality) (auto intro!: bit_word_eqI simp: pmidx_init_bits f)
qed

definition pt_disjoint :: "u64 \<Rightarrow> u64 \<Rightarrow> memory \<Rightarrow> bool" where
  "pt_disjoint d e m \<longleftrightarrow>
     (\<forall>p q a. idx_path p \<longrightarrow> idx_path q \<longrightarrow> tbl m d p = Some a \<longrightarrow> tbl m e q \<noteq> Some a)"

lemma pt_frame_other:
  assumes fr: "pt_frame d s m" and inv: "pt_inv e s" and dj: "pt_disjoint d e (mem s)"
  shows "idx_path p \<Longrightarrow> tbl m e p = tbl (mem s) e p"
    and "valid_idx ix \<Longrightarrow> pte m e ix = pte (mem s) e ix"
    and "pt_inv e (s\<lparr>mem := m\<rparr>)"
    and "pt_disjoint d e m"
proof -
  have same: "rd64 m (entry_addr a i) = rd64 (mem s) (entry_addr a i)"
    if a: "idx_path q" "tbl (mem s) e q = Some a" and i: "i < 512" for q a i
  proof (rule c64.rd_cong)
    fix k assume "k < (8 :: nat)"
    then have k: "8 * unat i + k < 0x1000" using i by (simp add: word_less_nat_alt)
    have "\<forall>q. idx_path q \<longrightarrow> tbl (mem s) d q \<noteq> Some a" using dj a by (auto simp: pt_disjoint_def)
    with fr pt_invD(2)[OF inv a] k have "m (a + of_nat (8 * unat i + k)) = mem s (a + of_nat (8 * unat i + k))"
      unfolding pt_frame_def by blast
    then show "m (entry_addr a i + of_nat k) = mem s (entry_addr a i + of_nat k)"
      by (simp add: entry_addr_nat add.assoc)
  qed
  show tb: "tbl m e p = tbl (mem s) e p" if "idx_path p" for p
    using that
  proof (induction p rule: rev_induct)
    case (snoc i q)
    then have "idx_path q" "i < 512" by (auto simp: idx_path_snoc)
    then show ?case using snoc.IH same by (simp add: tbl_snoc split: option.split)
  qed simp
  show "pte m e ix = pte (mem s) e ix" if ix: "valid_idx ix" for ix
  proof -
    have "idx_path [PDP_i ix, PD_i ix, PT_i ix]" "P_i ix < 512"
      using ix by (auto simp: idx_path_def valid_idx_def)
    then show ?thesis using tb same by (simp add: pte_def del: tbl.simps split: option.split)
  qed
  have sub: "pmm_used s \<subseteq> pmm_used (s\<lparr>mem := m\<rparr>)" using fr by (simp add: pt_frame_def)
  show "pt_inv e (s\<lparr>mem := m\<rparr>)"
    using inv tb sub unfolding pt_inv_def by simp blast
  show "pt_disjoint d e m"
    unfolding pt_disjoint_def
  proof (intro allI impI notI)
    fix p q a assume pq: "idx_path p" "idx_path q" "tbl m d p = Some a" "tbl m e q = Some a"
    then have eq: "tbl (mem s) e q = Some a" using tb by simp
    then have "a \<in> pmm_used s" using pt_invD(2)[OF inv pq(2)] by simp
    with fr pq have "tbl (mem s) d p = Some a" by (simp add: pt_frame_def)
    with dj pq eq show False by (auto simp: pt_disjoint_def)
  qed
qed

lemma pt_inv_zero:
  assumes wf: "pmm_wf s" and d: "d \<in> pmm_used s" and z: "\<forall>k < 0x1000. mem s (d + of_nat k) = 0"
  shows "pt_inv d s" and "idx_path p \<Longrightarrow> tbl (mem s) d p = Some a \<Longrightarrow> p = [] \<and> a = d"
    and "valid_idx ix \<Longrightarrow> pte (mem s) d ix = 0"
proof -
  have r: "rd64 (mem s) (entry_addr d i) = 0" if "i < 512" for i
  proof -
    have k: "8 * unat i + k < 0x1000" if "k < 8" for k using that \<open>i < 512\<close> by (simp add: word_less_nat_alt)
    have "rd64 (mem s) (entry_addr d i) = rd64 (\<lambda>_. 0) (entry_addr d i)"
    proof (rule c64.rd_cong)
      fix j :: nat assume "j < 8"
      then have "mem s (d + of_nat (8 * unat i + j)) = 0" using z k by blast
      then show "mem s (entry_addr d i + of_nat j) = 0"
        by (simp add: entry_addr_nat add.assoc)
    qed
    then show ?thesis by simp
  qed
  show t: "p = [] \<and> a = d" if "idx_path p" "tbl (mem s) d p = Some a" for p a
    using that r by (cases p) (auto simp: idx_path_def Let_def)
  then show "pt_inv d s" using wf d unfolding pt_inv_def by blast
  show "pte (mem s) d ix = 0" if "valid_idx ix" 
    using that r by (simp add: pte_def valid_idx_def Let_def)
qed

section \<open>Properties\<close>

text \<open>
  A concrete address space: the first page of a small machine is the (zeroed) top level table of
  the current directory, the second one that of another directory; six pages are free.
\<close>

definition demo_paging :: paging where
  "demo_paging = pmm.extend (demo_pmm\<lparr>mem := (\<lambda>_. 0)(0x200000 := 0xc0)\<rparr>)
     \<lparr>pml4 = 0x204000, cr3 = 0, b_info = 0, invlpg_log = []\<rparr>"

lemma demo_paging_fields:
  "mem demo_paging = (\<lambda>_. 0)(0x200000 := 0xc0)" "pml4 demo_paging = 0x204000"
  "pmm_bitmap demo_paging = \<lparr>bm_bitmap = 0x200000, bm_size = 1\<rparr>" "start_of_mem demo_paging = 0x204000"
  by (simp_all add: demo_paging_def pmm.defs demo_pmm_def)

lemma demo_paging_wf: "pmm_wf demo_paging" "pmm_npages demo_paging = 8"
  by (simp_all add: pmm_wf_def pmm_npages_def demo_paging_fields)

lemma demo_paging_used: "pmm_used demo_paging = {0x204000, 0x205000}"
proof -
  have "bit (0xc0 :: u8) (7 - i) \<longleftrightarrow> i = 0 \<or> i = 1" if "i < 8" for i
  proof -
    have "i \<in> {0, 1, 2, 3, 4, 5, 6, 7}" using that by auto
    then show ?thesis by (elim insertE) (simp_all add: bit_numeral_rec numeral_eq_Suc)
  qed
  then have "{i. i < 8 \<and> bm_bit (mem demo_paging) (pmm_bitmap demo_paging) i} = {0, 1}"
    by (auto simp: bm_bit_def demo_paging_fields)
  then show ?thesis by (simp add: pmm_used_def demo_paging_wf page_at_def demo_paging_fields)
qed

lemma demo_paging_zero:
  assumes "d = 0x204000 \<or> d = 0x205000"
  shows "\<forall>k < 0x1000. mem demo_paging (d + of_nat k) = 0"
proof (intro allI impI)
  fix k :: nat assume k: "k < 0x1000"
  then have "unat (of_nat k :: u64) = k" by (intro unat_of_nat64) simp
  then have "d + of_nat k \<noteq> 0x200000" using assms k
    by (auto simp: word_unat_eq_iff unat_word_ariths)
  then show "mem demo_paging (d + of_nat k) = 0" by (simp add: demo_paging_fields)
qed

lemma demo_paging_inv: "pt_inv 0x204000 demo_paging" "pt_inv 0x205000 demo_paging"
  using pt_inv_zero(1)[OF demo_paging_wf(1) _ demo_paging_zero] by (simp_all add: demo_paging_used)

lemma demo_paging_disjoint: "pt_disjoint 0x204000 0x205000 (mem demo_paging)"
proof -
  have "a = d" if "d = 0x204000 \<or> d = 0x205000" "idx_path p" "tbl (mem demo_paging) d p = Some a" for d p a
    using pt_inv_zero(2)[OF demo_paging_wf(1) _ demo_paging_zero that(2,3)] that(1) by (auto simp: demo_paging_used)
  from this[of "0x204000"] this[of "0x205000"] show ?thesis unfolding pt_disjoint_def by fastforce
qed

lemma demo_paging_free: "3 \<le> pmm_free_count demo_paging"
proof -
  have "pmm_used demo_paging \<subseteq> pmm_pages demo_paging" by (rule pmm.used_pages)
  then have "pmm_free_count demo_paging = 8 - card (pmm_used demo_paging)"
    by (simp add: pmm_free_count_def card_Diff_subset demo_paging_used card_pmm_pages demo_paging_wf)
  then show ?thesis by (simp add: demo_paging_used)
qed

text \<open>
  C1.  Mapping a virtual page to a page frame in the current directory, with three free pages
  left, returns and keeps the invariant of the page table tree; afterwards every address of that
  virtual page translates to the frame plus its page offset, the leaf entry carries the requested
  flags, every address of every other virtual page translates as before, and the TLB entry of the
  address is invalidated.
\<close>

theorem paging_map_translates:
  assumes "pt_inv (pml4 s) s" and "map_flags flags" and "3 \<le> pmm_free_count s" and "page_frame ph"
  shows "\<exists>s'. paging_map v ph flags s = Some s' \<and> pml4 s' = pml4 s \<and> pt_inv (pml4 s) s' \<and>
    (\<forall>w. translate (mem s') (pml4 s) w =
       (if w AND 0x0000fffffffff000 = v AND 0x0000fffffffff000 then Some (ph OR (w AND 0xfff))
        else translate (mem s) (pml4 s) w)) \<and>
    pte (mem s') (pml4 s) (pmidx_init v) AND flags = flags \<and>
    invlpg_log s' = invlpg_log s @ [v]"
proof -
  from paging_map_dir_spec[OF assms(1-3), of v ph] obtain m where m:
    "paging_map_dir (pml4 s) v ph flags s = Some (s\<lparr>mem := m\<rparr>)" "pt_inv (pml4 s) (s\<lparr>mem := m\<rparr>)"
    "\<forall>ix. valid_idx ix \<longrightarrow> pte m (pml4 s) ix = (if ix = pmidx_init v
       then pde_setaddress (pte (mem s) (pml4 s) ix) ph OR flags else pte (mem s) (pml4 s) ix)" by blast
  let ?e = "pde_setaddress (pte (mem s) (pml4 s) (pmidx_init v)) ph OR flags"
  have "?e AND flags = flags" by (rule bit_word_eqI) (auto simp: bit_and_iff bit_or_iff)
  moreover have "bit ?e 0" "pde_getaddress ?e = ph"
    using assms(2,4) setaddress_getaddress by (auto simp: map_flags_def bit_or_iff)
  moreover have "pt_inv (pml4 s) (s\<lparr>mem := m, invlpg_log := invlpg_log s @ [v]\<rparr>)"
    using m(2) by (rule pt_inv_cong) simp_all
  ultimately show ?thesis using m
    by (auto simp: paging_map_def translate_def Let_def not_present_iff pmidx_init_eq_iff[symmetric])
qed

theorem paging_map_translates_witness:
  "\<exists>s'. paging_map 0x7000 0x9000 PAGE_NORMAL demo_paging = Some s' \<and>
     translate (mem s') 0x204000 0x7123 = Some 0x9123"
proof -
  have "map_flags PAGE_NORMAL" by (simp add: map_flags_def page_flag_defs)
  moreover have "page_frame 0x9000" by (simp add: page_frame_def)
  ultimately obtain s' where "paging_map 0x7000 0x9000 PAGE_NORMAL demo_paging = Some s'"
    "\<forall>w. translate (mem s') 0x204000 w =
       (if w AND 0x0000fffffffff000 = 0x7000 AND 0x0000fffffffff000 then Some (0x9000 OR (w AND 0xfff))
        else translate (mem demo_paging) 0x204000 w)"
    using paging_map_translates[of demo_paging PAGE_NORMAL "0x9000" "0x7000"]
      demo_paging_inv(1) demo_paging_free by (auto simp: demo_paging_fields(2))
  then show ?thesis by auto
qed

text \<open>
  C3.  Mapping a page in one directory leaves every other address space alone: a directory whose
  tables are disjoint from those of the mapped one keeps its invariant, stays disjoint, and
  translates every address as before.
\<close>

theorem paging_map_isolated:
  assumes "pt_inv d s" and "pt_inv e s" and "pt_disjoint d e (mem s)"
    and "map_flags flags" and "3 \<le> pmm_free_count s"
  shows "\<exists>s'. paging_map_dir d v ph flags s = Some s' \<and> pt_inv d s' \<and> pt_inv e s' \<and>
    pt_disjoint d e (mem s') \<and> (\<forall>w. translate (mem s') e w = translate (mem s) e w)"
proof -
  from paging_map_dir_spec[OF assms(1,4,5), of v ph] obtain m where m:
    "paging_map_dir d v ph flags s = Some (s\<lparr>mem := m\<rparr>)" "pt_inv d (s\<lparr>mem := m\<rparr>)" "pt_frame d s m" by blast
  note o = pt_frame_other[OF m(3) assms(2,3)]
  show ?thesis using m(1,2) o(3,4) o(2)[OF pmidx_init_valid] by (simp add: translate_def)
qed

theorem paging_map_isolated_witness:
  "\<exists>s'. paging_map_dir 0x204000 0x7000 0x9000 PAGE_NORMAL demo_paging = Some s' \<and> pt_inv 0x205000 s'"
proof -
  have "map_flags PAGE_NORMAL" by (simp add: map_flags_def page_flag_defs)
  from paging_map_isolated[OF demo_paging_inv demo_paging_disjoint this demo_paging_free] show ?thesis by blast
qed

text \<open>
  C4.  Unmapping a virtual page keeps the invariant and the set of used pages; no address of the
  page translates afterwards and every address of every other page translates as before.
\<close>

theorem paging_unmap_removes:
  assumes "pt_inv (pml4 s) s"
  shows "pt_inv (pml4 s) (paging_unmap v s) \<and> pmm_used (paging_unmap v s) = pmm_used s \<and>
    (\<forall>w. translate (mem (paging_unmap v s)) (pml4 s) w =
       (if w AND 0x0000fffffffff000 = v AND 0x0000fffffffff000 then None
        else translate (mem s) (pml4 s) w))"
proof -
  from paging_unmap_dir_spec[OF assms, of v] obtain m where m:
    "paging_unmap_dir (pml4 s) v s = s\<lparr>mem := m\<rparr>" "pt_inv (pml4 s) (s\<lparr>mem := m\<rparr>)"
    "\<forall>ix. valid_idx ix \<longrightarrow> pte m (pml4 s) ix = (if ix = pmidx_init v \<and> bit (pte (mem s) (pml4 s) ix) 0 then 0
       else pte (mem s) (pml4 s) ix)" "pmm_used (s\<lparr>mem := m\<rparr>) = pmm_used s" by blast
  have u: "paging_unmap v s = s\<lparr>mem := m, invlpg_log := invlpg_log s @ [v]\<rparr>"
    using m(1) by (simp add: paging_unmap_def)
  have "pt_inv (pml4 s) (paging_unmap v s)" unfolding u using m(2) by (rule pt_inv_cong) simp_all
  moreover have "pmm_used (paging_unmap v s) = pmm_used s"
    using m(4) unfolding u by (simp add: pmm_used_def page_at_def pmm_npages_def)
  ultimately show ?thesis using m(3)
    by (auto simp: u translate_def Let_def not_present_iff pmidx_init_eq_iff[symmetric])
qed

theorem paging_unmap_removes_witness:
  "translate (mem (paging_unmap 0x7000 demo_paging)) 0x204000 0x7123 = None"
  using paging_unmap_removes[of demo_paging "0x7000"] demo_paging_inv(1)
  by (simp add: demo_paging_fields(2))

end
