(* ===== verification/Heap_Llist.thy ===== *)
theory Heap_Llist
  imports Kernel_Memory
begin

text \<open>
  The free lists of the kernel heap, \<^verbatim>\<open>kernel/src/shmall/llist.c\<close>: doubly linked lists of block headers
  threaded through the free memory itself, kept in ascending order of block size.  The model reads
  and writes the list nodes in the byte-addressed memory; \<open>bin_list m b ns\<close> says that the bin at
  \<open>b\<close> holds the nodes \<open>ns\<close>.  The \<^verbatim>\<open>prev\<close> link of the first node is left unspecified, because the C
  code does not maintain it when it removes the head.  Each operation is shown to be the
  corresponding operation on the list, and \<open>links\<close> bounds the memory it touches.
\<close>

section \<open>Nodes and bins\<close>

definition node_hole :: "memory \<Rightarrow> u64 \<Rightarrow> u32" where "node_hole m n = rd32 m n"
definition node_size :: "memory \<Rightarrow> u64 \<Rightarrow> u32" where "node_size m n = rd32 m (n + 4)"
definition node_next :: "memory \<Rightarrow> u64 \<Rightarrow> u64" where "node_next m n = rd64 m (n + 8)"
definition node_prev :: "memory \<Rightarrow> u64 \<Rightarrow> u64" where "node_prev m n = rd64 m (n + 16)"
definition set_hole :: "memory \<Rightarrow> u64 \<Rightarrow> u32 \<Rightarrow> memory" where "set_hole m n v = wr32 m n v"
definition set_size :: "memory \<Rightarrow> u64 \<Rightarrow> u32 \<Rightarrow> memory" where "set_size m n v = wr32 m (n + 4) v"
definition set_next :: "memory \<Rightarrow> u64 \<Rightarrow> u64 \<Rightarrow> memory" where "set_next m n v = wr64 m (n + 8) v"
definition set_prev :: "memory \<Rightarrow> u64 \<Rightarrow> u64 \<Rightarrow> memory" where "set_prev m n v = wr64 m (n + 16) v"
definition bin_head :: "memory \<Rightarrow> u64 \<Rightarrow> u64" where "bin_head m b = rd64 m b"
definition set_head :: "memory \<Rightarrow> u64 \<Rightarrow> u64 \<Rightarrow> memory" where "set_head m b v = wr64 m b v"

lemmas node_defs [layout_simps] = node_hole_def node_size_def node_next_def node_prev_def
  set_hole_def set_size_def set_next_def set_prev_def bin_head_def set_head_def

section \<open>The operations\<close>

partial_function (option) add_node_pos ::
  "memory \<Rightarrow> u64 \<Rightarrow> u64 \<Rightarrow> u64 \<Rightarrow> (u64 \<times> u64) option" where
  "add_node_pos m node current previous =
     (if current \<noteq> 0 \<and> node_size m current \<le> node_size m node
      then add_node_pos m node (node_next m current) current
      else Some (current, previous))"

definition add_node :: "memory \<Rightarrow> u64 \<Rightarrow> u64 \<Rightarrow> memory option" where
  "add_node m bin node =
     (let m = set_next m node 0; m = set_prev m node 0 in
      if bin_head m bin = 0 then Some (set_head m bin node)
      else do {
        (current, previous) \<leftarrow> add_node_pos m node (bin_head m bin) 0;
        if current = 0 then
          (let m = set_next m previous node; m = set_prev m node previous in Some m)
        else if previous \<noteq> 0 then
          (let m = set_next m node current; m = set_next m previous node;
               m = set_prev m node previous; m = set_prev m current node in Some m)
        else
          (let m = set_next m node (bin_head m bin); m = set_prev m (bin_head m bin) node;
               m = set_head m bin node in Some m)
      })"

partial_function (option) remove_node_loop :: "memory \<Rightarrow> u64 \<Rightarrow> u64 \<Rightarrow> memory option" where
  "remove_node_loop m node temp =
     (if temp = 0 then Some m
      else if temp = node then
        (if node_next m temp = 0 then Some (set_next m (node_prev m temp) 0)
         else
           let m = set_next m (node_prev m temp) (node_next m temp);
               m = set_prev m (node_next m temp) (node_prev m temp)
           in Some m)
      else remove_node_loop m node (node_next m temp))"

definition remove_node :: "memory \<Rightarrow> u64 \<Rightarrow> u64 \<Rightarrow> memory option" where
  "remove_node m bin node =
     (if bin_head m bin = 0 then Some m
      else if bin_head m bin = node then Some (set_head m bin (node_next m (bin_head m bin)))
      else remove_node_loop m node (node_next m (bin_head m bin)))"

partial_function (option) best_fit_loop :: "memory \<Rightarrow> u64 \<Rightarrow> u64 \<Rightarrow> u64 option" where
  "best_fit_loop m sz temp =
     (if temp \<noteq> 0 then
        (if sz \<le> ucast (node_size m temp) then Some temp else best_fit_loop m sz (node_next m temp))
      else Some 0)"

definition get_best_fit :: "memory \<Rightarrow> u64 \<Rightarrow> u64 \<Rightarrow> u64 option" where
  "get_best_fit m bin sz =
     (if bin_head m bin = 0 then Some 0 else best_fit_loop m sz (bin_head m bin))"

partial_function (option) last_node_loop :: "memory \<Rightarrow> u64 \<Rightarrow> u64 option" where
  "last_node_loop m temp =
     (if node_next m temp \<noteq> 0 then last_node_loop m (node_next m temp) else Some temp)"

definition get_last_node :: "memory \<Rightarrow> u64 \<Rightarrow> u64 option" where
  "get_last_node m bin = last_node_loop m (bin_head m bin)"

section \<open>Abstraction to lists\<close>

primrec npath :: "memory \<Rightarrow> u64 \<Rightarrow> u64 list \<Rightarrow> u64 \<Rightarrow> bool" where
  "npath m p [] q \<longleftrightarrow> p = q"
| "npath m p (n # ns) q \<longleftrightarrow> p = n \<and> n \<noteq> 0 \<and> npath m (node_next m n) ns q"

primrec prevs :: "memory \<Rightarrow> u64 \<Rightarrow> u64 list \<Rightarrow> bool" where
  "prevs m q [] \<longleftrightarrow> True"
| "prevs m q (n # ns) \<longleftrightarrow> node_prev m n = q \<and> prevs m n ns"

definition nodes_sep :: "u64 set \<Rightarrow> bool" where
  "nodes_sep S \<longleftrightarrow> (\<forall>x\<in>S. \<forall>y\<in>S. x \<noteq> y \<longrightarrow> sep x 24 y 24)"

definition bin_sep :: "u64 \<Rightarrow> u64 set \<Rightarrow> bool" where
  "bin_sep b S \<longleftrightarrow> (\<forall>x\<in>S. sep b 8 x 24)"

definition bin_list :: "memory \<Rightarrow> u64 \<Rightarrow> u64 list \<Rightarrow> bool" where
  "bin_list m b ns \<longleftrightarrow>
     npath m (bin_head m b) ns 0 \<and> (ns \<noteq> [] \<longrightarrow> prevs m (hd ns) (tl ns)) \<and> distinct ns \<and>
     nodes_sep (set ns) \<and> bin_sep b (set ns)"

lemma field_sep:
  assumes "nodes_sep S" and "x \<in> S" and "y \<in> S" and "x \<noteq> y"
    and "i + k \<le> 24" and "j + l \<le> 24" and "0 < k" and "0 < l"
  shows "sep (x + of_nat i) k (y + of_nat j) l"
  using assms by (intro sep_sub[of x 24 y 24]) (auto simp: nodes_sep_def)

lemma bin_field_sep:
  assumes "bin_sep b S" and "x \<in> S" and "i + k \<le> 24" and "0 < k"
  shows "sep b 8 (x + of_nat i) k"
  using sep_sub[of b 8 x 24 0 8 i k] assms by (auto simp: bin_sep_def)

lemma node_field_write:
  assumes "nodes_sep S" and "x \<in> S" and "y \<in> S"
  shows "node_next (set_next m x v) y = (if y = x then v else node_next m y)"
    and "node_prev (set_prev m x v) y = (if y = x then v else node_prev m y)"
    and "node_size (set_size m x w) y = (if y = x then w else node_size m y)"
    and "node_hole (set_hole m x w) y = (if y = x then w else node_hole m y)"
    and "node_next (set_prev m x v) y = node_next m y"
    and "node_prev (set_next m x v) y = node_prev m y"
    and "node_size (set_next m x v) y = node_size m y"
    and "node_size (set_prev m x v) y = node_size m y"
    and "node_next (set_size m x w) y = node_next m y"
    and "node_prev (set_size m x w) y = node_prev m y"
    and "node_next (set_hole m x w) y = node_next m y"
    and "node_prev (set_hole m x w) y = node_prev m y"
    and "node_size (set_hole m x w) y = node_size m y"
    and "node_hole (set_next m x v) y = node_hole m y"
    and "node_hole (set_prev m x v) y = node_hole m y"
    and "node_hole (set_size m x w) y = node_hole m y"
proof -
  note fs = field_sep[OF assms]
  have 1: "x \<noteq> y \<Longrightarrow> sep (x + 8) 8 (y + 8) 8" "x \<noteq> y \<Longrightarrow> sep (x + 16) 8 (y + 16) 8"
    "x \<noteq> y \<Longrightarrow> sep (x + 4) 4 (y + 4) 4" "x \<noteq> y \<Longrightarrow> sep x 4 y 4"
    "x \<noteq> y \<Longrightarrow> sep (x + 16) 8 (y + 8) 8" "x \<noteq> y \<Longrightarrow> sep (x + 8) 8 (y + 16) 8"
    "x \<noteq> y \<Longrightarrow> sep (x + 8) 8 (y + 4) 4" "x \<noteq> y \<Longrightarrow> sep (x + 16) 8 (y + 4) 4"
    "x \<noteq> y \<Longrightarrow> sep (x + 4) 4 (y + 8) 8" "x \<noteq> y \<Longrightarrow> sep (x + 4) 4 (y + 16) 8"
    "x \<noteq> y \<Longrightarrow> sep x 4 (y + 8) 8" "x \<noteq> y \<Longrightarrow> sep x 4 (y + 16) 8"
    "x \<noteq> y \<Longrightarrow> sep x 4 (y + 4) 4" "x \<noteq> y \<Longrightarrow> sep (x + 8) 8 y 4"
    "x \<noteq> y \<Longrightarrow> sep (x + 16) 8 y 4" "x \<noteq> y \<Longrightarrow> sep (x + 4) 4 y 4"
    using fs[of 8 8 8 8] fs[of 16 8 16 8] fs[of 4 4 4 4] fs[of 0 4 0 4] fs[of 16 8 8 8] fs[of 8 8 16 8]
      fs[of 8 8 4 4] fs[of 16 8 4 4] fs[of 4 4 8 8] fs[of 4 4 16 8] fs[of 0 4 8 8] fs[of 0 4 16 8]
      fs[of 0 4 4 4] fs[of 8 8 0 4] fs[of 16 8 0 4] fs[of 4 4 0 4] by simp_all
  have 2: "sep (y + 16) 8 (y + 8) 8" "sep (y + 8) 8 (y + 16) 8" "sep (y + 8) 8 (y + 4) 4"
    "sep (y + 16) 8 (y + 4) 4" "sep (y + 4) 4 (y + 8) 8" "sep (y + 4) 4 (y + 16) 8"
    "sep y 4 (y + 8) 8" "sep y 4 (y + 16) 8" "sep y 4 (y + 4) 4" "sep (y + 8) 8 y 4"
    "sep (y + 16) 8 y 4" "sep (y + 4) 4 y 4"
    by (simp_all add: sep_def)
  show "node_next (set_next m x v) y = (if y = x then v else node_next m y)"
    and "node_prev (set_prev m x v) y = (if y = x then v else node_prev m y)"
    and "node_size (set_size m x w) y = (if y = x then w else node_size m y)"
    and "node_hole (set_hole m x w) y = (if y = x then w else node_hole m y)"
    and "node_next (set_prev m x v) y = node_next m y"
    and "node_prev (set_next m x v) y = node_prev m y"
    and "node_size (set_next m x v) y = node_size m y"
    and "node_size (set_prev m x v) y = node_size m y"
    and "node_next (set_size m x w) y = node_next m y"
    and "node_prev (set_size m x w) y = node_prev m y"
    and "node_next (set_hole m x w) y = node_next m y"
    and "node_prev (set_hole m x w) y = node_prev m y"
    and "node_size (set_hole m x w) y = node_size m y"
    and "node_hole (set_next m x v) y = node_hole m y"
    and "node_hole (set_prev m x v) y = node_hole m y"
    and "node_hole (set_size m x w) y = node_hole m y"
    by (cases "x = y"; simp add: node_defs mem_simps 1 2)+
qed


definition span :: "u64 \<Rightarrow> nat \<Rightarrow> u64 set" where
  "span a n = {x. unat (x - a) < n}"

definition agree_out :: "u64 set \<Rightarrow> memory \<Rightarrow> memory \<Rightarrow> bool" where
  "agree_out R m m' \<longleftrightarrow> (\<forall>x. x \<notin> R \<longrightarrow> m' x = m x)"

definition links :: "u64 \<Rightarrow> u64 set \<Rightarrow> u64 set" where
  "links b S = span b 8 \<union> (\<Union>x\<in>S. span (x + 8) 16)"

lemma agree_out_refl [simp]: "agree_out R m m"
  by (simp add: agree_out_def)

lemma agree_out_trans: "agree_out R m m' \<Longrightarrow> agree_out R m' m'' \<Longrightarrow> agree_out R m m''"
  by (simp add: agree_out_def)

lemma agree_out_mono: "agree_out R m m' \<Longrightarrow> R \<subseteq> R' \<Longrightarrow> agree_out R' m m'"
  by (auto simp: agree_out_def)

lemma agree_off_out: "agree_off a n m m' \<longleftrightarrow> agree_out (span a n) m m'"
  by (auto simp: agree_off_def agree_out_def span_def not_less)

lemma span_sub:
  assumes "unat (a - b) + n \<le> k" and "k < 2 ^ 64"
  shows "span a n \<subseteq> span b k"
proof
  fix x assume "x \<in> span a n"
  then have x: "unat (x - a) < n" by (simp add: span_def)
  have "x - b = (x - a) + (a - b)" by simp
  then have "unat (x - b) = unat (x - a) + unat (a - b)"
    using x assms by (simp only:) (subst unat_plus_if', simp)
  then show "x \<in> span b k" using x assms(1) by (simp add: span_def)
qed

lemma agree_out_set:
  "agree_out (span (x + 8) 16) m (set_next m x v)" "agree_out (span (x + 8) 16) m (set_prev m x v)"
  "agree_out (span b 8) m (set_head m b v)"
proof -
  have "agree_out (span (x + 8) 8) m (set_next m x v)" "agree_out (span (x + 16) 8) m (set_prev m x v)"
    by (simp_all add: set_next_def set_prev_def c64.wr_agree flip: agree_off_out)
  then show "agree_out (span (x + 8) 16) m (set_next m x v)" "agree_out (span (x + 8) 16) m (set_prev m x v)"
    using span_sub[of "x + 8" "x + 8" 8 16] span_sub[of "x + 16" "x + 8" 8 16]
    by (simp_all add: agree_out_mono)
  show "agree_out (span b 8) m (set_head m b v)"
    by (simp add: set_head_def c64.wr_agree flip: agree_off_out)
qed

lemma agree_links:
  "x \<in> S \<Longrightarrow> agree_out (links b S) m m' \<Longrightarrow> agree_out (links b S) m (set_next m' x v)"
  "x \<in> S \<Longrightarrow> agree_out (links b S) m m' \<Longrightarrow> agree_out (links b S) m (set_prev m' x v)"
  "agree_out (links b S) m m' \<Longrightarrow> agree_out (links b S) m (set_head m' b v)"
  by (rule agree_out_trans, assumption, rule agree_out_mono[OF agree_out_set(1)], force simp: links_def)
     (rule agree_out_trans, assumption, rule agree_out_mono[OF agree_out_set(2)], force simp: links_def,
      rule agree_out_trans, assumption, rule agree_out_mono[OF agree_out_set(3)], force simp: links_def)

lemma npath_append: "npath m p (xs @ ys) q \<longleftrightarrow> (\<exists>r. npath m p xs r \<and> npath m r ys q)"
  by (induction xs arbitrary: p) auto

lemma npath_cong:
  "(\<And>x. x \<in> set ns \<Longrightarrow> node_next m' x = node_next m x) \<Longrightarrow> npath m' p ns q = npath m p ns q"
  by (induction ns arbitrary: p) auto

lemma prevs_cong:
  "(\<And>x. x \<in> set ns \<Longrightarrow> node_prev m' x = node_prev m x) \<Longrightarrow> prevs m' q ns = prevs m q ns"
  by (induction ns arbitrary: q) auto

lemma prevs_append: "prevs m q (xs @ ys) \<longleftrightarrow> prevs m q xs \<and> prevs m (last (q # xs)) ys"
  by (induction xs arbitrary: q) auto

lemma npath_nonzero: "npath m p ns q \<Longrightarrow> x \<in> set ns \<Longrightarrow> x \<noteq> 0"
  by (induction ns arbitrary: p) auto

lemma npath_hd: "npath m p ns 0 \<Longrightarrow> p = (if ns = [] then 0 else hd ns)"
  by (cases ns) auto

lemma add_node_pos_path:
  assumes "npath m p ns 0"
  shows "add_node_pos m node p prv = Some
    (case dropWhile (\<lambda>x. node_size m x \<le> node_size m node) ns of [] \<Rightarrow> 0 | y # _ \<Rightarrow> y,
     last (prv # takeWhile (\<lambda>x. node_size m x \<le> node_size m node) ns))"
  using assms
proof (induction ns arbitrary: p prv)
  case Nil
  then show ?case by (simp add: add_node_pos.simps)
next
  case (Cons n ns)
  then show ?case by (subst add_node_pos.simps) auto
qed

lemma bin_head_write:
  assumes "bin_sep b S" and "x \<in> S"
  shows "bin_head (set_next m x v) b = bin_head m b" "bin_head (set_prev m x v) b = bin_head m b"
    "bin_head (set_head m b v) b = v"
    "node_next (set_head m b v) x = node_next m x" "node_prev (set_head m b v) x = node_prev m x"
    "node_size (set_head m b v) x = node_size m x" "node_hole (set_head m b v) x = node_hole m x"
proof -
  have s: "sep b 8 (x + 8) 8" "sep b 8 (x + 16) 8" "sep b 8 (x + 4) 4" "sep b 8 x 4"
    using bin_field_sep[OF assms, of 8 8] bin_field_sep[OF assms, of 16 8]
      bin_field_sep[OF assms, of 4 4] bin_field_sep[OF assms, of 0 4] by simp_all
  show "bin_head (set_next m x v) b = bin_head m b" "bin_head (set_prev m x v) b = bin_head m b"
    "bin_head (set_head m b v) b = v"
    "node_next (set_head m b v) x = node_next m x" "node_prev (set_head m b v) x = node_prev m x"
    "node_size (set_head m b v) x = node_size m x" "node_hole (set_head m b v) x = node_hole m x"
    using s s[unfolded sep_sym[of b]] by (simp_all add: node_defs mem_simps)
qed

abbreviation first :: "u64 list \<Rightarrow> u64" where
  "first ns \<equiv> (case ns of [] \<Rightarrow> 0 | n # _ \<Rightarrow> n)"

lemma npath_first: "npath m p ns 0 \<Longrightarrow> p = first ns"
  by (cases ns) auto

lemma nodes_sep_mono: "nodes_sep S \<Longrightarrow> T \<subseteq> S \<Longrightarrow> nodes_sep T"
  by (auto simp: nodes_sep_def)

lemma bin_sep_mono: "bin_sep b S \<Longrightarrow> T \<subseteq> S \<Longrightarrow> bin_sep b T"
  by (auto simp: bin_sep_def)

lemma bin_list_insert:
  assumes bl: "bin_list m b (xs @ ys)" and node: "node \<notin> set (xs @ ys)" "node \<noteq> 0"
    and sp: "nodes_sep S" "bin_sep b S" "insert node (set (xs @ ys)) \<subseteq> S"
    and N: "\<And>x. x \<in> S \<Longrightarrow> node_next m' x =
      (if x = node then first ys else if xs \<noteq> [] \<and> x = last xs then node else node_next m x)"
    and V: "\<And>x. x \<in> S \<Longrightarrow> node_prev m' x =
      (if x = node then last (0 # xs) else if ys \<noteq> [] \<and> x = hd ys then node else node_prev m x)"
    and H: "bin_head m' b = (if xs = [] then node else bin_head m b)"
  shows "bin_list m' b (xs @ node # ys)"
proof -
  have in_S: "node \<in> S" "\<And>x. x \<in> set xs \<Longrightarrow> x \<in> S" "\<And>x. x \<in> set ys \<Longrightarrow> x \<in> S" using sp(3) by auto
  have d: "distinct (xs @ ys)" and pv: "xs @ ys \<noteq> [] \<Longrightarrow> prevs m (hd (xs @ ys)) (tl (xs @ ys))"
    using bl by (simp_all add: bin_list_def)
  obtain r where r: "npath m (bin_head m b) xs r" "npath m r ys 0"
    using bl by (auto simp: bin_list_def npath_append)
  have "npath m' r ys 0"
    using r(2) d node by (subst npath_cong[of _ m' m]) (auto simp: N in_S disjoint_iff)
  then have tail: "npath m' node (node # ys) 0" using npath_first[OF r(2)] node(2) by (simp add: N in_S)
  have "npath m' (bin_head m' b) xs node"
  proof (cases xs rule: rev_cases)
    case (snoc us p)
    then have u: "npath m (bin_head m b) us p" "p \<noteq> 0" using r(1) by (auto simp: npath_append)
    have "npath m' (bin_head m b) us p"
      using u(1) d node snoc by (subst npath_cong[of _ m' m]) (auto simp: N in_S)
    then show ?thesis using u(2) snoc node by (auto simp: npath_append H N in_S)
  qed (simp add: H)
  then have path: "npath m' (bin_head m' b) (xs @ node # ys) 0" using tail by (auto simp: npath_append)
  have pys: "prevs m' node ys"
  proof (cases ys)
    case (Cons c zs)
    have "prevs m c zs" using pv Cons by (cases xs) (auto simp: prevs_append)
    then have "prevs m' c zs"
      using d node Cons by (subst prevs_cong[of _ m' m]) (auto simp: V in_S)
    then show ?thesis using Cons node by (auto simp: V in_S)
  qed simp
  have "prevs m' (hd (xs @ node # ys)) (tl (xs @ node # ys))"
  proof (cases xs)
    case (Cons x us)
    then have "prevs m x us" using pv by (simp add: prevs_append)
    then have "prevs m' x us"
      using d node Cons by (subst prevs_cong[of _ m' m]) (auto simp: V in_S disjoint_iff intro: hd_in_set)
    then show ?thesis using Cons pys by (auto simp: prevs_append V in_S)
  qed (simp add: pys)
  with path show ?thesis using d node nodes_sep_mono[OF sp(1,3)] bin_sep_mono[OF sp(2,3)]
    by (auto simp: bin_list_def)
qed

lemma bin_list_delete:
  assumes bl: "bin_list m b (xs @ node # ys)"
    and N: "\<And>x. x \<in> set (xs @ ys) \<Longrightarrow> node_next m' x =
      (if xs \<noteq> [] \<and> x = last xs then first ys else node_next m x)"
    and V: "\<And>x. x \<in> set (xs @ ys) \<Longrightarrow> node_prev m' x =
      (if xs \<noteq> [] \<and> ys \<noteq> [] \<and> x = hd ys then last xs else node_prev m x)"
    and H: "bin_head m' b = (if xs = [] then first ys else bin_head m b)"
  shows "bin_list m' b (xs @ ys)"
proof -
  have d: "distinct (xs @ node # ys)" and pv: "prevs m (hd (xs @ node # ys)) (tl (xs @ node # ys))"
    using bl by (simp_all add: bin_list_def)
  have r: "npath m (bin_head m b) xs node" "npath m (node_next m node) ys 0"
    using bl by (auto simp: bin_list_def npath_append)
  have ys: "npath m' (first ys) ys 0"
    using r(2) d npath_first[OF r(2)] by (subst npath_cong[of _ m' m]) (auto simp: N disjoint_iff)
  have "npath m' (bin_head m' b) xs (first ys)"
  proof (cases xs rule: rev_cases)
    case (snoc us p)
    then have u: "npath m (bin_head m b) us p" "p \<noteq> 0" using r(1) by (auto simp: npath_append)
    have "npath m' (bin_head m b) us p"
      using u(1) d snoc by (subst npath_cong[of _ m' m]) (auto simp: N)
    then show ?thesis using u(2) snoc by (simp add: npath_append H N)
  qed (simp add: H)
  then have path: "npath m' (bin_head m' b) (xs @ ys) 0" using ys by (auto simp: npath_append)
  have zs: "prevs m' c zs" if "ys = c # zs" for c zs
  proof -
    have "prevs m c zs" using pv that by (cases xs) (auto simp: prevs_append)
    then show ?thesis
      using d that by (subst prevs_cong[of _ m' m]) (auto simp: V)
  qed
  have "xs @ ys \<noteq> [] \<longrightarrow> prevs m' (hd (xs @ ys)) (tl (xs @ ys))"
  proof (cases xs)
    case Nil
    then show ?thesis using zs by (cases ys) auto
  next
    case (Cons x us)
    then have "prevs m x us" using pv by (simp add: prevs_append)
    then have "prevs m' x us"
      using d Cons by (subst prevs_cong[of _ m' m]) (auto simp: V disjoint_iff intro: hd_in_set)
    then show ?thesis using Cons zs by (cases ys) (auto simp: prevs_append V)
  qed
  then show ?thesis using path bl d by (auto simp: bin_list_def nodes_sep_def bin_sep_def)
qed


section \<open>The operations on lists\<close>

lemma add_node_spec:
  assumes bl: "bin_list m b ns" and node: "node \<notin> set ns" "node \<noteq> 0"
    and S: "nodes_sep S" "bin_sep b S" "insert node (set ns) \<subseteq> S"
    and split: "xs = takeWhile (\<lambda>x. node_size m x \<le> node_size m node) ns"
      "ys = dropWhile (\<lambda>x. node_size m x \<le> node_size m node) ns"
  shows "\<exists>m'. add_node m b node = Some m' \<and> bin_list m' b (xs @ node # ys) \<and> agree_out (links b S) m m'"
proof -
  let ?m0 = "set_prev (set_next m node 0) node 0"
  have ns: "ns = xs @ ys" using split by simp
  have in_S: "node \<in> S" "\<And>x. x \<in> set xs \<Longrightarrow> x \<in> S" "\<And>x. x \<in> set ys \<Longrightarrow> x \<in> S"
    using S(3) ns by auto
  have bl': "bin_list m b (xs @ ys)" "node \<notin> set (xs @ ys)" "insert node (set (xs @ ys)) \<subseteq> S"
    using bl node S(3) ns by simp_all
  note ins = bin_list_insert[OF bl'(1,2) node(2) S(1,2) bl'(3)]
  note fw = node_field_write[OF S(1)] bin_head_write[OF S(2)]
  have m0: "bin_head ?m0 b = bin_head m b"
    "\<And>x. x \<in> S \<Longrightarrow> node_next ?m0 x = (if x = node then 0 else node_next m x)"
    "\<And>x. x \<in> S \<Longrightarrow> node_prev ?m0 x = (if x = node then 0 else node_prev m x)"
    "\<And>x. x \<in> S \<Longrightarrow> node_size ?m0 x = node_size m x"
    using in_S(1) by (simp_all add: fw)
  have path: "npath m (bin_head m b) ns 0" using bl by (simp add: bin_list_def)
  have nz: "x \<noteq> 0" "x \<noteq> node" if "x \<in> set xs \<or> x \<in> set ys" for x
    using npath_nonzero[OF path] node that ns by auto
  have "npath ?m0 (bin_head m b) ns 0"
    using path nz ns in_S by (subst npath_cong[of _ ?m0 m]) (auto simp: m0)
  note pos = add_node_pos_path[OF this, of node 0]
  have "takeWhile (\<lambda>x. node_size ?m0 x \<le> node_size ?m0 node) ns = xs"
    "dropWhile (\<lambda>x. node_size ?m0 x \<le> node_size ?m0 node) ns = ys"
    unfolding split using S(3) by (auto simp: m0 intro!: takeWhile_cong dropWhile_cong)
  then have pos: "add_node_pos ?m0 node (bin_head m b) 0 = Some (first ys, last (0 # xs))"
    using pos by simp
  have a0: "agree_out (links b S) m ?m0" by (intro agree_links in_S(1)) simp_all
  consider (none) "xs = []" "ys = []" | (tail) us p where "ys = []" "xs = us @ [p]"
    | (mid) c zs us p where "ys = c # zs" "xs = us @ [p]" | (head) c zs where "ys = c # zs" "xs = []"
    by (cases xs rule: rev_cases; cases ys) auto
  then show ?thesis
  proof cases
    case none
    then have "bin_head m b = 0" using path ns by simp
    then have r: "add_node m b node = Some (set_head ?m0 b node)" using m0(1) by (simp add: add_node_def Let_def)
    have "bin_list (set_head ?m0 b node) b (xs @ node # ys)"
      by (rule ins) (use none bl'(1) in_S in \<open>simp_all add: fw m0\<close>)
    then show ?thesis using r agree_links(3)[OF a0] by blast
  next
    case tail
    let ?m = "set_prev (set_next ?m0 p node) node p"
    have p: "p \<in> S" "p \<noteq> node" "bin_head m b \<noteq> 0" using in_S nz[of p] tail path ns by (cases us; auto)+
    have r: "add_node m b node = Some ?m" using pos tail p m0(1) by (simp add: add_node_def Let_def)
    have "bin_list ?m b (xs @ node # ys)"
      by (rule ins) (use tail p in_S(1) in \<open>simp_all add: fw m0\<close>)
    then show ?thesis using r a0 p in_S(1) by (intro exI[of _ ?m]) (simp add: agree_links)
  next
    case mid
    let ?m = "set_prev (set_prev (set_next (set_next ?m0 node c) p node) node p) c node"
    have p: "p \<in> S" "p \<noteq> node" "p \<noteq> 0" "c \<in> S" "c \<noteq> node" "c \<noteq> 0" "p \<noteq> c"
      using in_S nz[of p] nz[of c] mid bl by (auto simp: bin_list_def ns)
    have h: "bin_head m b \<noteq> 0" using path mid ns by (cases us) auto
    have r: "add_node m b node = Some ?m" using pos mid h m0(1) p by (simp add: add_node_def Let_def)
    have "bin_list ?m b (xs @ node # ys)"
      by (rule ins) (use mid p in_S(1) in \<open>simp_all add: fw m0\<close>)
    then show ?thesis using r a0 p in_S(1) by (intro exI[of _ ?m]) (simp add: agree_links)
  next
    case head
    let ?m = "set_head (set_prev (set_next ?m0 node c) c node) b node"
    have p: "c \<in> S" "c \<noteq> node" "c \<noteq> 0" using in_S nz[of c] head by auto
    have c: "bin_head m b = c" using path head ns by simp
    have r: "add_node m b node = Some ?m"
      using pos head m0(1) p c in_S(1) by (simp add: add_node_def Let_def fw)
    have "bin_list ?m b (xs @ node # ys)"
      by (rule ins) (use head p in_S(1) in \<open>simp_all add: fw m0\<close>)
    then show ?thesis using r a0 p in_S(1) by (intro exI[of _ ?m]) (simp add: agree_links)
  qed
qed


lemma remove_node_loop_path:
  assumes "npath m p (us @ node # ys) 0" and "node \<notin> set us"
  shows "remove_node_loop m node p = remove_node_loop m node node"
  using assms
proof (induction us arbitrary: p)
  case (Cons u us)
  then show ?case by (auto simp: remove_node_loop.simps[of m node u])
qed simp

lemma remove_node_loop_absent:
  "npath m p ns 0 \<Longrightarrow> node \<notin> set ns \<Longrightarrow> remove_node_loop m node p = Some m"
  by (induction ns arbitrary: p) (subst remove_node_loop.simps, auto)+

lemma remove_node_absent:
  assumes "bin_list m b ns" and "node \<notin> set ns"
  shows "remove_node m b node = Some m"
proof (cases ns)
  case (Cons n ns')
  then have "npath m (node_next m n) ns' 0" "bin_head m b = n" "n \<noteq> 0" "node \<noteq> n" "node \<notin> set ns'"
    using assms by (auto simp: bin_list_def)
  then show ?thesis using remove_node_loop_absent by (simp add: remove_node_def)
qed (use assms in \<open>simp add: bin_list_def remove_node_def\<close>)

lemma remove_node_spec:
  assumes bl: "bin_list m b (xs @ node # ys)"
    and S: "nodes_sep S" "bin_sep b S" "set (xs @ node # ys) \<subseteq> S"
  shows "\<exists>m'. remove_node m b node = Some m' \<and> bin_list m' b (xs @ ys) \<and>
    agree_out (links b (set (xs @ ys))) m m'"
proof -
  note fw = node_field_write[OF S(1)] bin_head_write[OF S(2)]
  have in_S: "node \<in> S" "\<And>x. x \<in> set xs \<Longrightarrow> x \<in> S" "\<And>x. x \<in> set ys \<Longrightarrow> x \<in> S" using S(3) by auto
  have path: "npath m (bin_head m b) (xs @ node # ys) 0" using bl by (simp add: bin_list_def)
  have nz: "x \<noteq> 0" if "x \<in> set (xs @ node # ys)" for x using npath_nonzero[OF path that] .
  have d: "distinct (xs @ node # ys)" using bl by (simp add: bin_list_def)
  have nn: "node_next m node = first ys" using path npath_first by (auto simp: npath_append)
  show ?thesis
  proof (cases xs rule: rev_cases)
    case Nil
    then have h: "bin_head m b = node" "node \<noteq> 0" using path by auto
    then have "remove_node m b node = Some (set_head m b (first ys))" by (simp add: remove_node_def nn)
    moreover have "bin_list (set_head m b (first ys)) b (xs @ ys)"
      by (rule bin_list_delete[OF bl]) (use Nil in_S in \<open>simp_all add: fw bin_head_write(3)[OF S(2) in_S(1)]\<close>)
    ultimately show ?thesis using agree_links(3)[OF agree_out_refl] by blast
  next
    case (snoc us p)
    obtain h vs where hv: "us @ [p] = h # vs" by (cases us) auto
    have "bin_head m b = h" "h \<noteq> 0" "h \<noteq> node" "npath m (node_next m h) (vs @ node # ys) 0" "node \<notin> set vs"
      using path d hv snoc by auto
    then have "remove_node m b node = remove_node_loop m node node"
      using remove_node_loop_path by (simp add: remove_node_def)
    moreover have pv: "node_prev m node = p" 
      using bl hv snoc by (cases vs rule: rev_cases) (auto simp: bin_list_def prevs_append)
    moreover have n: "node \<noteq> 0" "p \<in> S" "p \<noteq> node" using nz in_S snoc d by auto
    ultimately have r: "remove_node m b node =
        Some (if ys = [] then set_next m p 0 else set_prev (set_next m p (hd ys)) (hd ys) p)"
      using nn nz[of "hd ys"] in_S(1)
      by (cases ys) (auto simp: remove_node_loop.simps[of m node node] Let_def fw)
    show ?thesis
    proof (cases ys)
      case Nil
      have "bin_list (set_next m p 0) b (xs @ ys)"
        by (rule bin_list_delete[OF bl]) (use Nil snoc n in_S in \<open>auto simp: fw\<close>)
      then show ?thesis using r Nil snoc by (intro exI[of _ "set_next m p 0"]) (simp add: agree_links)
    next
      case (Cons c zs)
      let ?m = "set_prev (set_next m p c) c p"
      have c: "c \<in> S" "c \<noteq> p" using Cons in_S d snoc by auto
      have "bin_list ?m b (xs @ ys)"
        by (rule bin_list_delete[OF bl]) (use Cons snoc n c in_S d in \<open>auto simp: fw\<close>)
      then show ?thesis using r Cons snoc by (intro exI[of _ ?m]) (simp add: agree_links)
    qed
  qed
qed

lemma best_fit_path:
  "npath m p ns 0 \<Longrightarrow>
   best_fit_loop m sz p = Some (first (dropWhile (\<lambda>x. ucast (node_size m x) < sz) ns))"
proof (induction ns arbitrary: p)
  case (Cons n ns)
  then show ?case by (subst best_fit_loop.simps) (auto simp: not_less)
qed (simp add: best_fit_loop.simps)

lemma get_best_fit_spec:
  assumes "bin_list m b ns"
  shows "get_best_fit m b sz = Some (first (dropWhile (\<lambda>x. ucast (node_size m x) < sz) ns))"
  using assms best_fit_path[of m "bin_head m b" ns sz]
  by (cases ns) (auto simp: get_best_fit_def bin_list_def)

lemma get_last_node_spec:
  assumes "bin_list m b ns" and "ns \<noteq> []"
  shows "get_last_node m b = Some (last ns)"
proof -
  have "npath m p ns 0 \<Longrightarrow> ns \<noteq> [] \<Longrightarrow> last_node_loop m p = Some (last ns)" for p
  proof (induction ns arbitrary: p)
    case (Cons n ns)
    then show ?case by (cases ns) (auto simp: last_node_loop.simps[of m n])
  qed simp
  then show ?thesis using assms by (simp add: get_last_node_def bin_list_def)
qed

section \<open>Properties\<close>

definition size_sorted :: "memory \<Rightarrow> u64 list \<Rightarrow> bool" where
  "size_sorted m ns \<longleftrightarrow> sorted (map (node_size m) ns)"

lemma size_sorted_insert:
  assumes "size_sorted m ns"
  shows "size_sorted m (takeWhile (\<lambda>x. node_size m x \<le> node_size m node) ns @ node #
    dropWhile (\<lambda>x. node_size m x \<le> node_size m node) ns)"
  using assms unfolding size_sorted_def
proof (induction ns)
  case (Cons n ns)
  show ?case
  proof (cases "node_size m n \<le> node_size m node")
    case True
    have "x \<in> set ns \<Longrightarrow> node_size m n \<le> node_size m x" for x using Cons.prems by simp
    then show ?thesis using True Cons by (auto dest: set_takeWhileD set_dropWhileD)
  next
    case False
    then show ?thesis using Cons.prems by auto
  qed
qed simp

lemma agree_links_size:
  assumes "agree_out (links b S) m m'" and "nodes_sep S" and "bin_sep b S" and "x \<in> S"
  shows "node_size m' x = node_size m x"
proof -
  have f: "x + 4 + of_nat i \<notin> links b S" if "i < 4" for i
  proof
    assume "x + 4 + of_nat i \<in> links b S"
    then consider "unat (x + 4 + of_nat i - b) < 8" | y where "y \<in> S" "unat (x + 4 + of_nat i - (y + 8)) < 16"
      by (auto simp: links_def span_def)
    then show False
    proof cases
      case 1
      then show False using sep_notin[of b 8 "x + of_nat 4" 4 i] bin_field_sep[OF assms(3,4), of 4 4] that by simp
    next
      case 2
      show False
      proof (cases "x = y")
        case True
        have "sep (y + 8) 16 (y + 4) 4" by (simp add: sep_def)
        then show False using sep_notin[of "y + 8" 16 "y + 4" 4 i] 2 True that by simp
      next
        case False
        then show False using field_sep[OF assms(2) 2(1) assms(4), of 8 16 4 4]
            sep_notin[of "y + 8" 16 "x + 4" 4 i] 2 that by simp
      qed
    qed
  qed
  have "rd32 m' (x + 4) = rd32 m (x + 4)"
    by (rule c32.rd_cong) (use f assms(1) in \<open>simp add: agree_out_def\<close>)
  then show ?thesis by (simp add: node_size_def)
qed





end
