(* ===== verification/Heap.thy ===== *)
theory Heap
  imports Heap_Llist Paging
begin

text \<open>
  The kernel heap: the block allocator of \<^verbatim>\<open>kernel/src/shmall/heap.c\<close> and its front end
  \<^verbatim>\<open>kernel/src/shmall_wrapper.c\<close>.  A block is a 24-byte header (\<^verbatim>\<open>node_t\<close>), the payload area of \<^verbatim>\<open>size\<close>
  bytes and an 8-byte footer that points back at the header; free blocks are kept in nine bins by
  size.  The user pointer is the address of the header's link fields, eight bytes into the block.
  The search over the bins is a partial function, as are the list walks it calls.
\<close>

section \<open>Blocks, footers and bins\<close>

definition HEAP_INIT_SIZE :: u64 where "HEAP_INIT_SIZE = 0x200000"
definition MIN_ALLOC_SZ :: u32 where "MIN_ALLOC_SZ = 4"
definition MIN_WILDERNESS :: u32 where "MIN_WILDERNESS = 0x1000"
definition MAX_WILDERNESS :: u32 where "MAX_WILDERNESS = 0x1000000"
definition BIN_COUNT :: u32 where "BIN_COUNT = 9"
definition BIN_MAX_IDX :: u32 where "BIN_MAX_IDX = BIN_COUNT - 1"
definition sizeof_node :: u64 where "sizeof_node = 24"
definition sizeof_footer :: u64 where "sizeof_footer = 8"
definition overhead :: u32 where "overhead = ucast (sizeof_footer + sizeof_node)"
definition node_offset :: u64 where "node_offset = 8"

lemmas heap_consts [layout_simps] = HEAP_INIT_SIZE_def MIN_ALLOC_SZ_def MIN_WILDERNESS_def
  MAX_WILDERNESS_def BIN_COUNT_def BIN_MAX_IDX_def sizeof_node_def sizeof_footer_def overhead_def
  node_offset_def

definition heap_start :: "memory \<Rightarrow> u64 \<Rightarrow> u64" where "heap_start m h = rd64 m h"
definition heap_end :: "memory \<Rightarrow> u64 \<Rightarrow> u64" where "heap_end m h = rd64 m (h + 8)"
definition heap_bin :: "memory \<Rightarrow> u64 \<Rightarrow> u32 \<Rightarrow> u64" where "heap_bin m h i = rd64 m (h + 16 + 8 * ucast i)"
definition set_heap_start :: "memory \<Rightarrow> u64 \<Rightarrow> u64 \<Rightarrow> memory" where "set_heap_start m h v = wr64 m h v"
definition set_heap_end :: "memory \<Rightarrow> u64 \<Rightarrow> u64 \<Rightarrow> memory" where "set_heap_end m h v = wr64 m (h + 8) v"
definition set_heap_bin :: "memory \<Rightarrow> u64 \<Rightarrow> u32 \<Rightarrow> u64 \<Rightarrow> memory" where
  "set_heap_bin m h i v = wr64 m (h + 16 + 8 * ucast i) v"

function bin_log :: "u64 \<Rightarrow> u32 \<Rightarrow> u32" where
  "bin_log sz index =
     (let sz = drop_bit 1 sz in if sz \<noteq> 0 then bin_log sz (index + 1) else index)"
  by auto

termination
proof (relation "measure (\<lambda>(sz, _). unat sz)")
  fix sz x :: u64 and index :: u32
  assume "x = drop_bit 1 sz" and "x \<noteq> 0"
  then have "unat x = unat sz div 2" "0 < unat x"
    by (simp add: drop_bit_eq_div unat_div_distrib) (use \<open>x \<noteq> 0\<close> in \<open>simp add: unat_gt_0\<close>)
  then show "((x, index + 1), sz, index) \<in> measure (\<lambda>(sz, _). unat sz)" by simp
qed simp

definition get_bin_index :: "u64 \<Rightarrow> u32" where
  "get_bin_index sz =
     (let sz = (if sz < 4 then 4 else sz);
          index = bin_log sz 0;
          index = index - 2
      in if index > BIN_MAX_IDX then BIN_MAX_IDX else index)"

definition get_foot :: "memory \<Rightarrow> u64 \<Rightarrow> u64" where
  "get_foot m node = node + sizeof_node + ucast (node_size m node)"

definition create_foot :: "memory \<Rightarrow> u64 \<Rightarrow> memory" where
  "create_foot m head = wr64 m (get_foot m head) head"

definition get_wilderness :: "memory \<Rightarrow> u64 \<Rightarrow> u64" where
  "get_wilderness m heap = rd64 m (heap_end m heap - sizeof_footer)"

definition expand :: "memory \<Rightarrow> u64 \<Rightarrow> u64 \<Rightarrow> u32 \<times> memory" where
  "expand m heap sz = (0, m)"

definition contract :: "memory \<Rightarrow> u64 \<Rightarrow> u64 \<Rightarrow> memory" where
  "contract m heap sz = m"

section \<open>The block allocator\<close>

definition init_heap :: "memory \<Rightarrow> u64 \<Rightarrow> u64 \<Rightarrow> memory option" where
  "init_heap m heap start =
     (let init_region = start;
          m = set_hole m init_region 1;
          m = set_size m init_region (ucast (HEAP_INIT_SIZE - sizeof_node - sizeof_footer));
          m = create_foot m init_region
      in do {
        m \<leftarrow> add_node m (heap_bin m heap (get_bin_index (ucast (node_size m init_region)))) init_region;
        let m = set_heap_start m heap start;
        Some (set_heap_end m heap (start + HEAP_INIT_SIZE))
      })"

partial_function (option) heap_find ::
  "memory \<Rightarrow> u64 \<Rightarrow> u64 \<Rightarrow> u32 \<Rightarrow> u64 \<Rightarrow> (u32 \<times> u64) option option" where
  "heap_find m heap sz index found =
     (if found = 0 then
        (if index + 1 \<ge> BIN_COUNT then Some None
         else do {
           found \<leftarrow> get_best_fit m (heap_bin m heap (index + 1)) sz;
           heap_find m heap sz (index + 1) found
         })
      else Some (Some (index, found)))"

definition heap_split :: "memory \<Rightarrow> u64 \<Rightarrow> u64 \<Rightarrow> u64 \<Rightarrow> memory option" where
  "heap_split m heap sz found =
     (if ucast (node_size m found) - sz > ucast (overhead + MIN_ALLOC_SZ) then
        (let split = found + sizeof_node + sizeof_footer + sz;
             m = set_size m split (ucast (ucast (node_size m found) - sz - sizeof_node - sizeof_footer));
             m = set_hole m split 1;
             m = create_foot m split;
             new_idx = get_bin_index (ucast (node_size m split))
         in do {
           m \<leftarrow> add_node m (heap_bin m heap new_idx) split;
           let m = set_size m found (ucast sz);
           Some (create_foot m found)
         })
      else Some m)"

definition heap_alloc :: "memory \<Rightarrow> u64 \<Rightarrow> u64 \<Rightarrow> (u64 \<times> memory) option" where
  "heap_alloc m heap sz = do {
     let index = get_bin_index sz;
     found \<leftarrow> get_best_fit m (heap_bin m heap index) sz;
     r \<leftarrow> heap_find m heap sz index found;
     (case r of
       None \<Rightarrow> Some (0, m)
     | Some (index, found) \<Rightarrow> do {
         m \<leftarrow> heap_split m heap sz found;
         let m = set_hole m found 0;
         m \<leftarrow> remove_node m (heap_bin m heap index) found;
         let wild = get_wilderness m heap;
         if node_size m wild < MIN_WILDERNESS then
           (let (success, m) = expand m heap 0x1000 in
            if success = 0 then Some (0, m)
            else let m = set_prev m found 0; m = set_next m found 0 in Some (found + 8, m))
         else
           (let m = (if node_size m wild > MAX_WILDERNESS then contract m heap 0x1000 else m);
                m = set_prev m found 0;
                m = set_next m found 0
            in Some (found + 8, m))
       })
   }"

definition heap_free :: "memory \<Rightarrow> u64 \<Rightarrow> u64 \<Rightarrow> memory option" where
  "heap_free m heap p =
     (let head = p - node_offset in
      if head = heap_start m heap then
        (let m = set_hole m head 1
         in add_node m (heap_bin m heap (get_bin_index (ucast (node_size m head)))) head)
      else
        (let next = get_foot m head + sizeof_footer;
             f = head - sizeof_footer;
             prev = rd64 m f
         in do {
           (head, m) \<leftarrow>
             (if node_hole m prev \<noteq> 0 then do {
                m \<leftarrow> remove_node m (heap_bin m heap (get_bin_index (ucast (node_size m prev)))) prev;
                let m = set_size m prev (node_size m prev + (overhead + node_size m head));
                let new_foot = get_foot m head;
                Some (prev, wr64 m new_foot prev)
              } else Some (head, m));
           m \<leftarrow>
             (if node_hole m next \<noteq> 0 then do {
                m \<leftarrow> remove_node m (heap_bin m heap (get_bin_index (ucast (node_size m next)))) next;
                let m = set_size m head (node_size m head + (overhead + node_size m next));
                let old_foot = get_foot m next;
                let m = wr64 m old_foot 0;
                let m = set_size m next 0;
                let m = set_hole m next 0;
                let new_foot = get_foot m head;
                Some (wr64 m new_foot head)
              } else Some m);
           let m = set_hole m head 1;
           add_node m (heap_bin m heap (get_bin_index (ucast (node_size m head)))) head
         }))"

section \<open>The kernel's front end\<close>

record kheap = paging +
  heap_ptr :: u64
  region :: u64

definition kmalloc :: "u32 \<Rightarrow> 'a kheap_scheme \<Rightarrow> (u64 \<times> 'a kheap_scheme) option" where
  "kmalloc sz s = do {
     (p, m) \<leftarrow> heap_alloc (mem s) (heap_ptr s) (scast sz);
     Some (p, s\<lparr>mem := m\<rparr>)
   }"

definition kfree :: "u64 \<Rightarrow> 'a kheap_scheme \<Rightarrow> 'a kheap_scheme option" where
  "kfree ptr s = do {
     m \<leftarrow> heap_free (mem s) (heap_ptr s) ptr;
     Some (s\<lparr>mem := m\<rparr>)
   }"

definition heap_init :: "'a kheap_scheme \<Rightarrow> 'a kheap_scheme option" where
  "heap_init s = do {
     (h, s) \<leftarrow> pmm_getpage s;
     let s = s\<lparr>heap_ptr := h\<rparr>;
     let s = s\<lparr>mem := memset (mem s) (heap_ptr s) 0 88\<rparr>;
     (r, s) \<leftarrow> pmm_getpage s;
     let s = s\<lparr>region := r\<rparr>;
     (_, s) \<leftarrow> pmm_getpage_iter 0x1ff s;
     let s = s\<lparr>mem := memset (mem s) (region s) 0 HEAP_INIT_SIZE\<rparr>;
     (b, s) \<leftarrow> pmm_getpage s;
     let s = s\<lparr>mem := set_heap_bin (mem s) (heap_ptr s) 0 b\<rparr>;
     let s = s\<lparr>mem := memset (mem s) (heap_bin (mem s) (heap_ptr s) 0) 0 8\<rparr>;
     let s = fold (\<lambda>i s. s\<lparr>mem := set_heap_bin (mem s) (heap_ptr s) (of_nat i)
                 (heap_bin (mem s) (heap_ptr s) 0 + 8 * (8 * of_nat i))\<rparr>) [1..<unat BIN_COUNT] s;
     m \<leftarrow> init_heap (mem s) (heap_ptr s) (region s);
     Some (s\<lparr>mem := m\<rparr>)
   }"

section \<open>Bins by size\<close>

declare bin_log.simps [simp del]

lemma bin_log_bounds:
  "sz \<noteq> 0 \<Longrightarrow> \<exists>k. bin_log sz i = i + of_nat k \<and> 2 ^ k \<le> unat sz \<and> unat sz < 2 ^ (k + 1)"
proof (induction sz i rule: bin_log.induct)
  case (1 sz i)
  let ?h = "drop_bit 1 sz"
  have h: "unat ?h = unat sz div 2" by (simp add: drop_bit_eq_div unat_div_distrib)
  show ?case
  proof (cases "?h = 0")
    case True
    then have "unat sz div 2 = 0" using h by simp
    then have "unat sz = 1" using "1.prems" by (simp add: unat_gt_0[symmetric] div_eq_0_iff)
    then show ?thesis using True by (intro exI[of _ 0]) (simp add: bin_log.simps[of sz])
  next
    case False
    from "1.IH"[OF refl False] False obtain k where
      k: "bin_log ?h (i + 1) = i + 1 + of_nat k" "2 ^ k \<le> unat sz div 2" "unat sz div 2 < 2 ^ (k + 1)"
      using h by auto
    have "bin_log sz i = bin_log ?h (i + 1)" using False by (subst bin_log.simps) (simp add: Let_def)
    then show ?thesis using k by (intro exI[of _ "Suc k"]) (simp add: algebra_simps, linarith)
  qed
qed

lemma get_bin_index_bounds:
  "\<exists>k \<le> 8. get_bin_index sz = of_nat k \<and> (k \<noteq> 0 \<longrightarrow> 2 ^ (k + 2) \<le> unat sz) \<and> (k \<noteq> 8 \<longrightarrow> unat sz < 2 ^ (k + 3))"
proof -
  let ?s = "if sz < 4 then 4 else sz"
  have s4: "4 \<le> unat ?s" "sz < 4 \<Longrightarrow> unat ?s = 4" "\<not> sz < 4 \<Longrightarrow> ?s = sz" by (auto simp: word_less_nat_alt)
  then have "?s \<noteq> 0" by auto
  from bin_log_bounds[OF this, of 0] obtain k where
    k: "bin_log ?s 0 = of_nat k" "2 ^ k \<le> unat ?s" "unat ?s < 2 ^ (k + 1)" by auto
  have k2: "2 \<le> k"
  proof (rule ccontr)
    assume "\<not> 2 \<le> k"
    then have "k + 1 \<le> 2" by simp
    then have "(2 :: nat) ^ (k + 1) \<le> 2 ^ 2" by (rule power_increasing) simp
    with k(3) s4(1) show False by simp
  qed
  have k63: "k \<le> 63"
  proof (rule ccontr)
    assume "\<not> k \<le> 63"
    then have "(2 :: nat) ^ 64 \<le> 2 ^ k" by (intro power_increasing) simp_all
    with k(2) unsigned_less[of ?s, where 'a = nat] show False by simp
  qed
  have sub: "of_nat k - 2 = (of_nat (k - 2) :: u32)" using k2 by (simp add: of_nat_diff)
  have u: "unat (of_nat (k - 2) :: u32) = k - 2" using k63 by (intro unat_of_nat32) simp
  have cmp: "(of_nat (k - 2) :: u32) > 8 \<longleftrightarrow> k - 2 > 8" using u by (simp add: word_less_nat_alt)
  have g: "get_bin_index sz = of_nat (min 8 (k - 2))"
    unfolding get_bin_index_def Let_def k(1) sub using cmp by (simp add: BIN_MAX_IDX_def BIN_COUNT_def min_def)
  show ?thesis
  proof (intro exI[of _ "min 8 (k - 2)"] conjI impI)
    assume "min 8 (k - 2) \<noteq> 0"
    then have "2 < k" by auto
    then have "(2 :: nat) ^ 3 \<le> 2 ^ k" by (intro power_increasing) simp_all
    then have "\<not> sz < 4" using k(2) s4(2) by auto
    moreover have "(2 :: nat) ^ (min 8 (k - 2) + 2) \<le> 2 ^ k"
      using \<open>2 < k\<close> by (intro power_increasing) (auto simp: min_def)
    ultimately show "2 ^ (min 8 (k - 2) + 2) \<le> unat sz" using k(2) s4(3) by simp
  next
    assume "min 8 (k - 2) \<noteq> 8"
    then have e: "min 8 (k - 2) + 3 = k + 1" using k2 by (auto simp: min_def)
    show "unat sz < 2 ^ (min 8 (k - 2) + 3)"
      unfolding e using k(3) s4(2,3) by (cases "sz < 4") (auto simp: word_less_nat_alt)
  qed (use g in auto)
qed

end
