(* ===== verification/Process_Block.thy ===== *)
theory Process_Block
  imports Heap
begin

text \<open>
  The control block of a process (\<^verbatim>\<open>include/process/process.h\<close>) and the register frame of an interrupt
  (\<^verbatim>\<open>include/utils/regs.h\<close>).  Both are structures in memory; their fields are read and written at the
  offsets the compiler gives them.  The record \<open>procs\<close> adds the globals of \<^verbatim>\<open>process/process.c\<close>, the
  state of the floating point unit as the 512-byte image that \<^verbatim>\<open>fxsave\<close> stores and \<^verbatim>\<open>fxrstor\<close> loads,
  and the interrupt flag that \<^verbatim>\<open>cli\<close> and \<^verbatim>\<open>sti\<close> set.
\<close>

section \<open>Control blocks and register frames\<close>

record procs = kheap +
  proc_queue :: u64
  cur_proc :: u64
  num_pids :: u32
  fpu :: "u8 list"
  int_enabled :: bool

definition reg_r15 :: u64 where "reg_r15 = 0"
definition reg_r14 :: u64 where "reg_r14 = 8"
definition reg_r13 :: u64 where "reg_r13 = 16"
definition reg_r12 :: u64 where "reg_r12 = 24"
definition reg_r11 :: u64 where "reg_r11 = 32"
definition reg_r10 :: u64 where "reg_r10 = 40"
definition reg_r9 :: u64 where "reg_r9 = 48"
definition reg_r8 :: u64 where "reg_r8 = 56"
definition reg_rdi :: u64 where "reg_rdi = 64"
definition reg_rsi :: u64 where "reg_rsi = 72"
definition reg_rbp :: u64 where "reg_rbp = 80"
definition reg_rbx :: u64 where "reg_rbx = 88"
definition reg_rdx :: u64 where "reg_rdx = 96"
definition reg_rcx :: u64 where "reg_rcx = 104"
definition reg_rax :: u64 where "reg_rax = 112"
definition reg_rsp :: u64 where "reg_rsp = 120"
definition reg_rip :: u64 where "reg_rip = 128"
definition reg_cs :: u64 where "reg_cs = 136"
definition reg_rflags :: u64 where "reg_rflags = 144"
definition sizeof_regs :: u64 where "sizeof_regs = 152"

lemmas reg_defs [layout_simps] = reg_r15_def reg_r14_def reg_r13_def reg_r12_def reg_r11_def reg_r10_def
  reg_r9_def reg_r8_def reg_rdi_def reg_rsi_def reg_rbp_def reg_rbx_def reg_rdx_def reg_rcx_def reg_rax_def
  reg_rsp_def reg_rip_def reg_cs_def reg_rflags_def sizeof_regs_def

definition MAX_FILES_OPENABLE :: nat where "MAX_FILES_OPENABLE = 64"

definition proc_pml4 :: "memory \<Rightarrow> u64 \<Rightarrow> u64" where "proc_pml4 m p = rd64 m (p + 152)"
definition proc_fxsave :: "u64 \<Rightarrow> u64" where "proc_fxsave p = p + 160"
definition proc_stack :: "memory \<Rightarrow> u64 \<Rightarrow> u64" where "proc_stack m p = rd64 m (p + 672)"
definition proc_pid :: "memory \<Rightarrow> u64 \<Rightarrow> u32" where "proc_pid m p = rd32 m (p + 680)"
definition proc_elf :: "memory \<Rightarrow> u64 \<Rightarrow> u64" where "proc_elf m p = rd64 m (p + 688)"
definition proc_bitmap :: "memory \<Rightarrow> u64 \<Rightarrow> u64" where "proc_bitmap m p = rd64 m (p + 696)"
definition proc_file :: "memory \<Rightarrow> u64 \<Rightarrow> u64 \<Rightarrow> u64" where "proc_file m p i = rd64 m (p + 704 + 8 * i)"
definition proc_next :: "memory \<Rightarrow> u64 \<Rightarrow> u64" where "proc_next m p = rd64 m (p + 1216)"
definition set_proc_reg :: "memory \<Rightarrow> u64 \<Rightarrow> u64 \<Rightarrow> u64 \<Rightarrow> memory" where "set_proc_reg m p r v = wr64 m (p + r) v"
definition set_proc_pml4 :: "memory \<Rightarrow> u64 \<Rightarrow> u64 \<Rightarrow> memory" where "set_proc_pml4 m p v = wr64 m (p + 152) v"
definition set_proc_stack :: "memory \<Rightarrow> u64 \<Rightarrow> u64 \<Rightarrow> memory" where "set_proc_stack m p v = wr64 m (p + 672) v"
definition set_proc_pid :: "memory \<Rightarrow> u64 \<Rightarrow> u32 \<Rightarrow> memory" where "set_proc_pid m p v = wr32 m (p + 680) v"
definition set_proc_elf :: "memory \<Rightarrow> u64 \<Rightarrow> u64 \<Rightarrow> memory" where "set_proc_elf m p v = wr64 m (p + 688) v"
definition set_proc_file :: "memory \<Rightarrow> u64 \<Rightarrow> u64 \<Rightarrow> u64 \<Rightarrow> memory" where "set_proc_file m p i v = wr64 m (p + 704 + 8 * i) v"
definition set_proc_next :: "memory \<Rightarrow> u64 \<Rightarrow> u64 \<Rightarrow> memory" where "set_proc_next m p v = wr64 m (p + 1216) v"

definition ld_bitmap :: "memory \<Rightarrow> u64 \<Rightarrow> bitmap_t" where
  "ld_bitmap m b = \<lparr>bm_bitmap = rd64 m b, bm_size = rd64 m (b + 8)\<rparr>"

primrec fold_opt :: "('a \<Rightarrow> 's \<Rightarrow> 's option) \<Rightarrow> 'a list \<Rightarrow> 's \<Rightarrow> 's option" where
  "fold_opt f [] s = Some s"
| "fold_opt f (x # xs) s = Option.bind (f x s) (fold_opt f xs)"

end
