(* ===== verification/Vmm.thy ===== *)
theory Vmm
  imports Process_Block
begin

text \<open>
  The virtual memory allocator of a process, \<^verbatim>\<open>kernel/src/mm/vmm/vmm.c\<close>: \<^verbatim>\<open>mmap\<close> looks for a run of free
  virtual pages in the bitmap of the process and maps them one by one, \<^verbatim>\<open>munmap\<close> releases a run.  The
  search for a run has no bound in the code and is a partial function.
\<close>

section \<open>Virtual memory\<close>

definition VMM_ADDR_START :: u64 where "VMM_ADDR_START = 0xFFFFFFFF00000000"
definition VMM_SIZE_PAGES :: u64 where "VMM_SIZE_PAGES = 0x80000"

definition vmm_free_count :: "memory \<Rightarrow> bitmap_t \<Rightarrow> u32 \<Rightarrow> u32 \<Rightarrow> u32" where
  "vmm_free_count m b idx pages =
     fold (\<lambda>i x. if bitmap_get m b (idx + of_nat i) = 0 then x + 1 else x) [0..<nat (sint pages)] 0"

partial_function (option) vmm_find :: "memory \<Rightarrow> bitmap_t \<Rightarrow> u32 \<Rightarrow> u32 \<Rightarrow> u32 option" where
  "vmm_find m b pages idx =
     (if vmm_free_count m b idx pages = pages then Some idx else vmm_find m b pages (idx + 1))"

definition mmap_page :: "u64 \<Rightarrow> u64 \<Rightarrow> u64 \<Rightarrow> u64 \<Rightarrow> u32 \<Rightarrow> nat \<Rightarrow> 'a pmm_scheme \<Rightarrow> 'a pmm_scheme option" where
  "mmap_page proc virtaddr phys_addr flags idx i s =
     (let b = ld_bitmap (mem s) (proc_bitmap (mem s) proc);
          s = s\<lparr>mem := snd (bitmap_set (mem s) b (idx + of_nat i) 1)\<rparr>
      in paging_map_dir (proc_pml4 (mem s) proc) (virtaddr + scast (0x1000 * of_nat i :: u32))
           (phys_addr + scast (0x1000 * of_nat i :: u32)) flags s)"

definition mmap :: "u64 \<Rightarrow> u64 \<Rightarrow> u64 \<Rightarrow> u32 \<Rightarrow> 'a pmm_scheme \<Rightarrow> (u64 \<times> 'a pmm_scheme) option" where
  "mmap proc phys flags pages s =
     (if phys = 0 \<or> pages = 0 \<or> proc = 0 then Some (0, s)
      else do {
        let flags = flags OR PAGE_PRESENT;
        let phys_addr = phys AND 0xFFFFFFFFFFFFF000;
        idx \<leftarrow> vmm_find (mem s) (ld_bitmap (mem s) (proc_bitmap (mem s) proc)) pages 0;
        let virtaddr = VMM_ADDR_START + scast (0x1000 * idx);
        let s = klog Log_info ''VMM'' ''mmap - virtaddr = %lx, physaddr = %lx, flags = %d, idx = %d''
                  [Arg_word virtaddr, Arg_word phys_addr, Arg_word flags, Arg_word (scast idx)] s;
        s \<leftarrow> fold_opt (mmap_page proc virtaddr phys_addr flags idx) [0..<nat (sint pages)] s;
        Some (virtaddr, s)
      })"

definition munmap_page :: "u64 \<Rightarrow> u64 \<Rightarrow> u32 \<Rightarrow> nat \<Rightarrow> 'a pmm_scheme \<Rightarrow> 'a pmm_scheme" where
  "munmap_page proc addr idx i s =
     (let b = ld_bitmap (mem s) (proc_bitmap (mem s) proc);
          s = s\<lparr>mem := snd (bitmap_set (mem s) b (idx + of_nat i) 0)\<rparr>
      in paging_unmap_dir (proc_pml4 (mem s) proc) (addr + scast (0x1000 * of_nat i :: u32)) s)"

definition munmap :: "u64 \<Rightarrow> u64 \<Rightarrow> u32 \<Rightarrow> 'a pmm_scheme \<Rightarrow> u32 \<times> 'a pmm_scheme" where
  "munmap proc addr pages s =
     (if addr = 0 \<or> pages = 0 \<or> proc = 0 then (- 1, s)
      else
        let idx = ucast ((addr - VMM_ADDR_START) div 0x1000) :: u32;
            s = fold (munmap_page proc addr idx) [0..<nat (sint pages)] s;
            s = klog Log_info ''VMM'' ''munmap - virtaddr = %lx, idx = %d''
                  [Arg_word addr, Arg_word (scast idx)] s
        in (0, s))"

section \<open>Writes to data pages\<close>

text \<open>A used page that holds data, not a table of the directory.\<close>

definition data_page :: "u64 \<Rightarrow> u64 \<Rightarrow> 'a pmm_scheme \<Rightarrow> bool" where
  "data_page d a s \<longleftrightarrow> a \<in> pmm_used s \<and> (\<forall>p. idx_path p \<longrightarrow> tbl (mem s) d p \<noteq> Some a)"

lemma page_write:
  assumes inv: "pt_inv d s" and b: "data_page d b s" and w: "agree_off b 0x1000 (mem s) m"
  shows "idx_path p \<Longrightarrow> tbl m d p = tbl (mem s) d p"
    and "valid_idx ix \<Longrightarrow> pte m d ix = pte (mem s) d ix"
    and "pmm_used (s\<lparr>mem := m\<rparr>) = pmm_used s"
    and "pt_inv d (s\<lparr>mem := m\<rparr>)"
proof -
  have wf: "pmm_wf s" and bp: "b \<in> pmm_pages s"
    using pt_invD(1)[OF inv] b pmm.used_pages[of s] by (auto simp: data_page_def)
  have same: "rd64 m (entry_addr a i) = rd64 (mem s) (entry_addr a i)"
    if "idx_path q" "tbl (mem s) d q = Some a" "i < 512" for q a i
  proof -
    have "a \<in> pmm_pages s" "a \<noteq> b"
      using pt_invD(2)[OF inv that(1,2)] pmm.used_pages[of s] b that by (auto simp: data_page_def)
    then have "sep b 0x1000 a 0x1000" using pmm_pages_sep[OF wf bp] by auto
    then show ?thesis using c64.rd_agree[OF w region_entry_sep] that(3) by simp
  qed
  show tb: "tbl m d p = tbl (mem s) d p" if "idx_path p" for p
    using that
  proof (induction p rule: rev_induct)
    case (snoc i q)
    then have "idx_path q" "i < 512" by (auto simp: idx_path_snoc)
    then show ?case using snoc.IH same by (simp add: tbl_snoc split: option.split)
  qed simp
  show "pte m d ix = pte (mem s) d ix" if "valid_idx ix"
  proof -
    have "idx_path [PDP_i ix, PD_i ix, PT_i ix]" "P_i ix < 512"
      using that by (auto simp: idx_path_def valid_idx_def)
    then show ?thesis using tb same by (simp add: pte_def del: tbl.simps split: option.split)
  qed
  have "sep b 0x1000 (bm_bitmap (pmm_bitmap s)) 0x4000" using pmm_bitmap_sep[OF wf bp] by (simp add: sep_sym)
  then show u: "pmm_used (s\<lparr>mem := m\<rparr>) = pmm_used s" by (rule pmm_used_frame[OF wf w])
  then show "pt_inv d (s\<lparr>mem := m\<rparr>)" using inv tb unfolding pt_inv_def by simp
qed

lemma data_page_write:
  assumes "pt_inv d s" and "data_page d b s" and "agree_off b 0x1000 (mem s) m" and "data_page d a s"
  shows "data_page d a (s\<lparr>mem := m\<rparr>)"
  using assms(4) page_write(1,3)[OF assms(1-3)] by (simp add: data_page_def)

definition page_same :: "u64 \<Rightarrow> memory \<Rightarrow> memory \<Rightarrow> bool" where
  "page_same a m m' \<longleftrightarrow> (\<forall>k < 0x1000. m' (a + of_nat k) = m (a + of_nat k))"

lemma data_page_map:
  assumes "pt_frame d s m" and "data_page d a s"
  shows "data_page d a (s\<lparr>mem := m\<rparr>)" and "page_same a (mem s) m"
  using assms by (auto simp: data_page_def pt_frame_def page_same_def)

section \<open>Address spaces of processes\<close>

text \<open>
  A process \<open>p\<close> whose control block fills a data page, with page directory \<open>d\<close>, a bitmap descriptor in
  the data page \<open>q\<close> and the bitmap itself in the data page \<open>b\<close>; the first \<open>n\<close> virtual pages are covered by
  the bitmap.
\<close>

definition vm_bitmap :: "memory \<Rightarrow> u64 \<Rightarrow> bitmap_t" where
  "vm_bitmap m p = ld_bitmap m (proc_bitmap m p)"

definition vm_ok :: "u64 \<Rightarrow> u64 \<Rightarrow> u64 \<Rightarrow> u64 \<Rightarrow> nat \<Rightarrow> 'a pmm_scheme \<Rightarrow> bool" where
  "vm_ok p d q b n s \<longleftrightarrow> pt_inv d s \<and> data_page d p s \<and> data_page d q s \<and> data_page d b s \<and> b \<noteq> p \<and> b \<noteq> q \<and>
     proc_pml4 (mem s) p = d \<and> (\<exists>k. proc_bitmap (mem s) p = q + of_nat k \<and> k + 16 \<le> 0x1000) \<and>
     bm_bitmap (vm_bitmap (mem s) p) = b \<and> n \<le> 0x8000 \<and> n \<le> unat (bm_size (vm_bitmap (mem s) p) * 8)"

lemma rd64_same:
  assumes "page_same a m m'" and "j + 8 \<le> 0x1000"
  shows "rd64 m' (a + of_nat j) = rd64 m (a + of_nat j)"
proof (rule c64.rd_cong)
  fix i :: nat assume "i < 8"
  then have "j + i < 0x1000" using assms(2) by simp
  then have "m' (a + of_nat (j + i)) = m (a + of_nat (j + i))" using assms(1) unfolding page_same_def by blast
  then show "m' (a + of_nat j + of_nat i) = m (a + of_nat j + of_nat i)" by (simp add: add.assoc)
qed

lemma vm_keep:
  assumes v: "vm_ok p d q b n s" and p: "page_same p (mem s) m" and q: "page_same q (mem s) m"
  shows "proc_pml4 m p = proc_pml4 (mem s) p" and "proc_bitmap m p = proc_bitmap (mem s) p"
    and "vm_bitmap m p = vm_bitmap (mem s) p"
proof -
  show "proc_pml4 m p = proc_pml4 (mem s) p"
    using rd64_same[OF p, of 152] by (simp add: proc_pml4_def)
  show pb: "proc_bitmap m p = proc_bitmap (mem s) p"
    using rd64_same[OF p, of 696] by (simp add: proc_bitmap_def)
  obtain k where k: "proc_bitmap (mem s) p = q + of_nat k" "k + 16 \<le> 0x1000" using v by (auto simp: vm_ok_def)
  have "rd64 m (q + of_nat k) = rd64 (mem s) (q + of_nat k)" "rd64 m (q + of_nat (k + 8)) = rd64 (mem s) (q + of_nat (k + 8))"
    using k(2) by (intro rd64_same[OF q]; simp)+
  then show "vm_bitmap m p = vm_bitmap (mem s) p"
    unfolding vm_bitmap_def pb k(1) by (simp add: ld_bitmap_def add_ac)
qed

lemma vm_ok_write:
  assumes v: "vm_ok p d q b n s" and w: "agree_off b 0x1000 (mem s) m"
  shows "vm_ok p d q b n (s\<lparr>mem := m\<rparr>)" and "vm_bitmap m p = vm_bitmap (mem s) p"
proof -
  have inv: "pt_inv d s" "data_page d b s" "data_page d p s" "data_page d q s" "b \<noteq> p" "b \<noteq> q"
    using v by (auto simp: vm_ok_def)
  have pages: "a \<in> pmm_pages s" if "data_page d a s" for a
    using that pmm.used_pages[of s] by (auto simp: data_page_def)
  have at: "page_same a (mem s) m" if "data_page d a s" "a \<noteq> b" for a
  proof -
    have "sep b 0x1000 a 0x1000" using pmm_pages_sep[OF pt_invD(1)[OF inv(1)] pages pages] inv(2) that by auto
    then show ?thesis unfolding page_same_def using agree_off_sep[OF w] by blast
  qed
  note ks = vm_keep[OF v at[OF inv(3) inv(5)[symmetric]] at[OF inv(4) inv(6)[symmetric]]]
  then show "vm_bitmap m p = vm_bitmap (mem s) p" by simp
  show "vm_ok p d q b n (s\<lparr>mem := m\<rparr>)"
    using v ks page_write(4)[OF inv(1,2) w] data_page_write[OF inv(1,2) w] by (simp add: vm_ok_def)
qed

lemma vm_ok_map:
  assumes v: "vm_ok p d q b n s" and inv: "pt_inv d (s\<lparr>mem := m\<rparr>)" and f: "pt_frame d s m"
  shows "vm_ok p d q b n (s\<lparr>mem := m\<rparr>)" and "vm_bitmap m p = vm_bitmap (mem s) p"
    and "i < n \<Longrightarrow> bm_bit m (vm_bitmap (mem s) p) i = bm_bit (mem s) (vm_bitmap (mem s) p) i"
proof -
  have dp: "data_page d p s" "data_page d q s" "data_page d b s" using v by (auto simp: vm_ok_def)
  note ks = vm_keep[OF v data_page_map(2)[OF f dp(1)] data_page_map(2)[OF f dp(2)]]
  show "vm_bitmap m p = vm_bitmap (mem s) p" by (rule ks(3))
  show "vm_ok p d q b n (s\<lparr>mem := m\<rparr>)"
    using v ks inv data_page_map(1)[OF f] by (simp add: vm_ok_def)
  have "bm_bitmap (vm_bitmap (mem s) p) = b" "n \<le> 0x8000" using v by (auto simp: vm_ok_def)
  then show "bm_bit m (vm_bitmap (mem s) p) i = bm_bit (mem s) (vm_bitmap (mem s) p) i" if "i < n"
    using that data_page_map(2)[OF f dp(3)] by (simp add: bm_bit_def page_same_def)
qed

section \<open>Mapping a run of pages\<close>

lemma mmap_page_spec:
  assumes v: "vm_ok p d q b n s" and k: "unat idx + i < n" and fl: "map_flags flags" and free: "3 \<le> pmm_free_count s"
    and i: "i < 0x8000"
  shows "\<exists>m. mmap_page p virt ph flags idx i s = Some (s\<lparr>mem := m\<rparr>) \<and> vm_ok p d q b n (s\<lparr>mem := m\<rparr>) \<and>
    vm_bitmap m p = vm_bitmap (mem s) p \<and>
    (\<forall>j < n. bm_bit m (vm_bitmap (mem s) p) j \<longleftrightarrow> j = unat idx + i \<or> bm_bit (mem s) (vm_bitmap (mem s) p) j) \<and>
    (\<forall>ix. valid_idx ix \<longrightarrow> pte m d ix = (if ix = pmidx_init (virt + 0x1000 * of_nat i)
       then pde_setaddress (pte (mem s) d ix) (ph + 0x1000 * of_nat i) OR flags else pte (mem s) d ix)) \<and>
    pmm_free_count s \<le> 3 + pmm_free_count (s\<lparr>mem := m\<rparr>)"
proof -
  let ?b = "vm_bitmap (mem s) p"
  let ?m = "snd (bitmap_set (mem s) ?b (idx + of_nat i) 1)"
  have n: "n \<le> 0x8000" "n \<le> unat (bm_size ?b * 8)" "bm_bitmap ?b = b" using v by (auto simp: vm_ok_def)
  have idx: "idx + of_nat i = of_nat (unat idx + i)" by simp
  have agree: "agree_off b 0x1000 (mem s) ?m"
    unfolding idx using bitmap_set_agree[of "unat idx + i" "0x1000" ?b "mem s" 1] k n by simp
  note w = vm_ok_write[OF v agree]
  have inv: "pt_inv d s" "data_page d b s" using v by (auto simp: vm_ok_def)
  have inv2: "pt_inv d (s\<lparr>mem := ?m\<rparr>)" using w(1) by (simp add: vm_ok_def)
  have pm: "proc_pml4 ?m p = d" using w(1) by (simp add: vm_ok_def)
  have used: "pmm_used (s\<lparr>mem := ?m\<rparr>) = pmm_used s" by (rule page_write(3)[OF inv agree])
  then have free2: "pmm_free_count (s\<lparr>mem := ?m\<rparr>) = pmm_free_count s" by (simp add: pmm_free_count_def)
  have sc: "scast (0x1000 * of_nat i :: u32) = (0x1000 * of_nat i :: u64)"
    using scast_of_nat32[of "0x1000 * i"] i by simp
  from paging_map_dir_spec[OF inv2 fl, of "virt + 0x1000 * of_nat i" "ph + 0x1000 * of_nat i"] free free2
  obtain m where m: "paging_map_dir d (virt + 0x1000 * of_nat i) (ph + 0x1000 * of_nat i) flags (s\<lparr>mem := ?m\<rparr>) = Some (s\<lparr>mem := m\<rparr>)"
    "pt_inv d (s\<lparr>mem := m\<rparr>)"
    "\<forall>ix. valid_idx ix \<longrightarrow> pte m d ix = (if ix = pmidx_init (virt + 0x1000 * of_nat i)
       then pde_setaddress (pte ?m d ix) (ph + 0x1000 * of_nat i) OR flags else pte ?m d ix)"
    "pmm_free_count s \<le> 3 + pmm_free_count (s\<lparr>mem := m\<rparr>)" "pt_frame d (s\<lparr>mem := ?m\<rparr>) m"
    by auto
  have inv3: "pt_inv d (s\<lparr>mem := ?m, mem := m\<rparr>)" using m(2) by simp
  note f = vm_ok_map[OF w(1) inv3 m(5)]
  have "mmap_page p virt ph flags idx i s = Some (s\<lparr>mem := m\<rparr>)"
    using m(1) pm by (simp add: mmap_page_def sc vm_bitmap_def[symmetric])
  moreover have "bm_bit m ?b j \<longleftrightarrow> j = unat idx + i \<or> bm_bit (mem s) ?b j" if "j < n" for j
  proof -
    have "bm_bit m ?b j = bm_bit ?m ?b j" using f(3)[OF that] w(2) by simp
    also have "\<dots> \<longleftrightarrow> j = unat idx + i \<or> bm_bit (mem s) ?b j"
      unfolding idx using bitmap_set_bit[of "unat idx + i" ?b j "mem s" 1] k n that by auto
    finally show ?thesis .
  qed
  moreover have "pte ?m d ix = pte (mem s) d ix" if "valid_idx ix" for ix
    using page_write(2)[OF inv agree that] .
  ultimately show ?thesis using f(1,2) w(2) m(3,4) by (intro exI[of _ m]) simp
qed

lemma fold_opt_append: "fold_opt f (xs @ ys) s = Option.bind (fold_opt f xs s) (fold_opt f ys)"
  by (induction xs arbitrary: s) (simp_all split: Option.bind_split)

lemma mmap_pages_spec:
  assumes v: "vm_ok p d q b N s" and k: "unat idx + n \<le> N" and fl: "map_flags flags" and free: "3 * n \<le> pmm_free_count s"
    and inj: "inj_on (\<lambda>i. pmidx_init (virt + 0x1000 * of_nat i)) {..<n}"
  shows "\<exists>m. fold_opt (mmap_page p virt ph flags idx) [0..<n] s = Some (s\<lparr>mem := m\<rparr>) \<and> vm_ok p d q b N (s\<lparr>mem := m\<rparr>) \<and>
    vm_bitmap m p = vm_bitmap (mem s) p \<and>
    (\<forall>j < N. bm_bit m (vm_bitmap (mem s) p) j \<longleftrightarrow> unat idx \<le> j \<and> j < unat idx + n \<or> bm_bit (mem s) (vm_bitmap (mem s) p) j) \<and>
    (\<forall>i < n. pte m d (pmidx_init (virt + 0x1000 * of_nat i)) =
       pde_setaddress (pte (mem s) d (pmidx_init (virt + 0x1000 * of_nat i))) (ph + 0x1000 * of_nat i) OR flags) \<and>
    (\<forall>ix. valid_idx ix \<longrightarrow> (\<forall>i < n. ix \<noteq> pmidx_init (virt + 0x1000 * of_nat i)) \<longrightarrow> pte m d ix = pte (mem s) d ix) \<and>
    pmm_free_count s \<le> 3 * n + pmm_free_count (s\<lparr>mem := m\<rparr>)"
  using k free inj
proof (induction n)
  case 0
  then show ?case using v by (intro exI[of _ "mem s"]) auto
next
  case (Suc n)
  let ?V = "\<lambda>i. pmidx_init (virt + 0x1000 * of_nat i)"
  have inj': "inj_on ?V {..<n}" using Suc.prems(3) by (rule inj_on_subset) auto
  from Suc.IH[OF _ _ inj'] Suc.prems(1,2) obtain m where m:
    "fold_opt (mmap_page p virt ph flags idx) [0..<n] s = Some (s\<lparr>mem := m\<rparr>)" "vm_ok p d q b N (s\<lparr>mem := m\<rparr>)"
    "vm_bitmap m p = vm_bitmap (mem s) p"
    "\<forall>j < N. bm_bit m (vm_bitmap (mem s) p) j \<longleftrightarrow> unat idx \<le> j \<and> j < unat idx + n \<or> bm_bit (mem s) (vm_bitmap (mem s) p) j"
    "\<forall>i < n. pte m d (?V i) = pde_setaddress (pte (mem s) d (?V i)) (ph + 0x1000 * of_nat i) OR flags"
    "\<forall>ix. valid_idx ix \<longrightarrow> (\<forall>i < n. ix \<noteq> ?V i) \<longrightarrow> pte m d ix = pte (mem s) d ix"
    "pmm_free_count s \<le> 3 * n + pmm_free_count (s\<lparr>mem := m\<rparr>)" by auto
  have "N \<le> 0x8000" using v by (simp add: vm_ok_def)
  then have "n < 0x8000" "unat idx + n < N" "3 \<le> pmm_free_count (s\<lparr>mem := m\<rparr>)" using Suc.prems(1,2) m(7) by auto
  from mmap_page_spec[OF m(2) this(2) fl this(3,1), of virt ph] obtain m' where m':
    "mmap_page p virt ph flags idx n (s\<lparr>mem := m\<rparr>) = Some (s\<lparr>mem := m'\<rparr>)" "vm_ok p d q b N (s\<lparr>mem := m'\<rparr>)"
    "vm_bitmap m' p = vm_bitmap m p"
    "\<forall>j < N. bm_bit m' (vm_bitmap m p) j \<longleftrightarrow> j = unat idx + n \<or> bm_bit m (vm_bitmap m p) j"
    "\<forall>ix. valid_idx ix \<longrightarrow> pte m' d ix = (if ix = ?V n
       then pde_setaddress (pte m d ix) (ph + 0x1000 * of_nat n) OR flags else pte m d ix)"
    "pmm_free_count (s\<lparr>mem := m\<rparr>) \<le> 3 + pmm_free_count (s\<lparr>mem := m'\<rparr>)" by auto
  have fresh: "?V i \<noteq> ?V n" if "i < n" for i
    using inj_onD[OF Suc.prems(3), of i n] that by auto
  have "\<forall>i < n. ?V n \<noteq> ?V i" using fresh by metis
  then have "pte m d (?V n) = pte (mem s) d (?V n)" using m(6) pmidx_init_valid by blast
  then have "pte m' d (?V i) = pde_setaddress (pte (mem s) d (?V i)) (ph + 0x1000 * of_nat i) OR flags" if "i < Suc n" for i
    using m(5) m'(5) fresh that by (auto simp: less_Suc_eq)
  moreover have "fold_opt (mmap_page p virt ph flags idx) [0..<Suc n] s = Some (s\<lparr>mem := m'\<rparr>)"
    using m(1) m'(1) by (simp add: fold_opt_append)
  moreover have "\<forall>j < N. bm_bit m' (vm_bitmap (mem s) p) j \<longleftrightarrow>
      unat idx \<le> j \<and> j < unat idx + Suc n \<or> bm_bit (mem s) (vm_bitmap (mem s) p) j"
    using m(3,4) m'(4) by auto
  moreover have "\<forall>ix. valid_idx ix \<longrightarrow> (\<forall>i < Suc n. ix \<noteq> ?V i) \<longrightarrow> pte m' d ix = pte (mem s) d ix"
    using m(6) m'(5) by simp
  ultimately show ?case using m(3,7) m'(2,3,6) by (intro exI[of _ m']) simp
qed

lemma vmm_free_count_eq:
  assumes "n < 2 ^ 31"
  shows "vmm_free_count m b idx (of_nat n) = of_nat (length (filter (\<lambda>i. bitmap_get m b (idx + of_nat i) = 0) [0..<n]))"
proof -
  have "fold (\<lambda>i x. if bitmap_get m b (idx + of_nat i) = 0 then x + 1 else x) xs c =
      c + of_nat (length (filter (\<lambda>i. bitmap_get m b (idx + of_nat i) = 0) xs))" for xs and c :: u32
    by (induction xs arbitrary: c) auto
  then show ?thesis using assms by (simp add: vmm_free_count_def sint_of_nat32)
qed

lemma vmm_free_count_full:
  assumes "n < 2 ^ 31"
  shows "vmm_free_count m b idx (of_nat n) = of_nat n \<longleftrightarrow> (\<forall>i < n. bitmap_get m b (idx + of_nat i) = 0)"
proof -
  let ?P = "\<lambda>i. bitmap_get m b (idx + of_nat i) = 0"
  have le: "length (filter ?P [0..<n]) \<le> n" using length_filter_le[of ?P "[0..<n]"] by simp
  have "vmm_free_count m b idx (of_nat n) = of_nat n \<longleftrightarrow> length (filter ?P [0..<n]) = n"
    unfolding vmm_free_count_eq[OF assms] using le assms unat_of_nat32[of n] unat_of_nat32[of "length (filter ?P [0..<n])"]
    by (auto simp: word_unat_eq_iff)
  also have "\<dots> \<longleftrightarrow> (\<forall>i < n. ?P i)"
    using length_filter_less[of _ "[0..<n]" ?P] by (fastforce simp: filter_id_conv dest: sym)
  finally show ?thesis .
qed

text \<open>The search returns the first run of free pages.\<close>

definition free_run :: "memory \<Rightarrow> bitmap_t \<Rightarrow> nat \<Rightarrow> nat \<Rightarrow> bool" where
  "free_run m b k n \<longleftrightarrow> (\<forall>i < n. \<not> bm_bit m b (k + i))"

lemma vmm_find_first:
  assumes "k + n \<le> N" and "N \<le> 0x8000" and "N \<le> unat (bm_size b * 8)"
    and "free_run m b k n" and "\<And>j. j < k \<Longrightarrow> \<not> free_run m b j n" and "j \<le> k"
  shows "vmm_find m b (of_nat n) (of_nat j) = Some (of_nat k)"
proof -
  have full: "vmm_free_count m b (of_nat j) (of_nat n) = of_nat n \<longleftrightarrow> free_run m b j n" if "j \<le> k" for j
  proof -
    have "bitmap_get m b (of_nat j + of_nat i) = 0 \<longleftrightarrow> \<not> bm_bit m b (j + i)" if "i < n" for i
      using bitmap_get_bit[of "j + i" b m] assms(1-3) \<open>j \<le> k\<close> that by simp
    then show ?thesis using vmm_free_count_full[of n m b "of_nat j"] assms(1,2) by (simp add: free_run_def)
  qed
  show ?thesis
    using assms(6)
  proof (induction "k - j" arbitrary: j)
    case 0
    then show ?case using full[of j] assms(4) by (subst vmm_find.simps) simp
  next
    case (Suc x)
    then have "\<not> free_run m b j n" "x = k - Suc j" "Suc j \<le> k" using assms(5) by auto
    moreover have "of_nat j + 1 = (of_nat (Suc j) :: u32)" by simp
    ultimately show ?case using full[of j] Suc.hyps(1)[of "Suc j"] Suc.prems by (subst vmm_find.simps) (simp del: of_nat_Suc)
  qed
qed

lemma vmm_addr_unat:
  assumes "k < 0x80000"
  shows "unat (VMM_ADDR_START + 0x1000 * of_nat k) = 0xFFFFFFFF00000000 + 0x1000 * k"
proof -
  have "unat (0x1000 * of_nat k :: u64) = 0x1000 * k" using assms by (intro unat_page_offset) simp
  then show ?thesis using assms by (simp add: VMM_ADDR_START_def unat_plus_if')
qed

lemma pmidx_init_nat:
  "unat (P_i (pmidx_init v)) = unat v div 2 ^ 12 mod 512"
  "unat (PT_i (pmidx_init v)) = unat v div 2 ^ 12 div 512 mod 512"
  "unat (PD_i (pmidx_init v)) = unat v div 2 ^ 12 div 512 div 512 mod 512"
proof -
  have m: "unat (x AND 0x1ff :: u64) = unat x mod 512" for x
  proof -
    have "x AND 0x1ff = take_bit 9 x" by (simp add: take_bit_eq_mask mask_eq_exp_minus_1)
    then show ?thesis by (simp only: unsigned_take_bit_eq) (simp add: take_bit_eq_mod)
  qed
  have d: "unat (drop_bit 12 x) = unat x div 4096" "unat (drop_bit 21 x) = unat x div 4096 div 512"
    "unat (drop_bit 30 x) = unat x div 4096 div 512 div 512" for x :: u64
    by (simp_all add: drop_bit_eq_div unat_div_distrib flip: div_mult2_eq)
  show "unat (P_i (pmidx_init v)) = unat v div 2 ^ 12 mod 512"
    "unat (PT_i (pmidx_init v)) = unat v div 2 ^ 12 div 512 mod 512"
    "unat (PD_i (pmidx_init v)) = unat v div 2 ^ 12 div 512 div 512 mod 512"
    by (simp_all add: pmidx_init_def Let_def m d)
qed

lemma vmm_addr_inj:
  assumes j: "j < 0x80000" and k: "k < 0x80000"
    and eq: "pmidx_init (VMM_ADDR_START + 0x1000 * of_nat j) = pmidx_init (VMM_ADDR_START + 0x1000 * of_nat k)"
  shows "j = k"
proof -
  have pages: "unat (VMM_ADDR_START + 0x1000 * of_nat i) div 2 ^ 12 = 0xFFFFFFFF00000 + i" if "i < 0x80000" for i
    unfolding vmm_addr_unat[OF that] by simp
  have low: "x mod 2 ^ 27 = x mod 512 + 512 * (x div 512 mod 512 + 512 * (x div 512 div 512 mod 512))" for x :: nat
    using mod_mult2_eq[of x 512 "512 * 512"] mod_mult2_eq[of "x div 512" 512 512] by simp
  let ?x = "0xFFFFFFFF00000 + j" and ?y = "0xFFFFFFFF00000 + k"
  have "?x mod 512 = ?y mod 512" "?x div 512 mod 512 = ?y div 512 mod 512"
    "?x div 512 div 512 mod 512 = ?y div 512 div 512 mod 512"
    using pmidx_init_nat[of "VMM_ADDR_START + 0x1000 * of_nat j"] pmidx_init_nat[of "VMM_ADDR_START + 0x1000 * of_nat k"]
    unfolding eq pages[OF j] pages[OF k] by simp_all
  then have "?x mod 2 ^ 27 = ?y mod 2 ^ 27" by (simp only: low)
  moreover have "(0xFFFFFFFF00000 + i) mod 2 ^ 27 = 0x7F00000 + i" if "i < 0x80000" for i :: nat
  proof -
    have "0xFFFFFFFF00000 + i = (0x7F00000 + i) + 0x1FFFFFF * 2 ^ 27" by simp
    then have "(0xFFFFFFFF00000 + i) mod 2 ^ 27 = (0x7F00000 + i) mod 2 ^ 27" by (simp only: mod_mult_self1)
    then show ?thesis using that by simp
  qed
  ultimately show ?thesis using j k by simp
qed

lemma vm_ok_cong:
  assumes "vm_ok p d q b n s" and "mem s' = mem s" and "pmm_bitmap s' = pmm_bitmap s" and "start_of_mem s' = start_of_mem s"
  shows "vm_ok p d q b n s'" and "pmm_free_count s' = pmm_free_count s"
proof -
  have n: "pmm_npages s' = pmm_npages s" using assms(3) by (simp add: pmm_npages_def)
  have p: "page_at s' = page_at s" using assms(4) by (simp add: page_at_def fun_eq_iff)
  have u: "pmm_used s' = pmm_used s" by (simp only: pmm_used_def n p assms)
  then show "vm_ok p d q b n s'"
    using assms(1) pt_inv_cong[OF _ assms(2-4)] by (simp add: vm_ok_def data_page_def assms(2))
  show "pmm_free_count s' = pmm_free_count s" by (simp only: pmm_free_count_def u pmm_pages_def n p)
qed

lemma data_page_nonzero:
  assumes "pmm_wf s" and "data_page d a s"
  shows "a \<noteq> 0"
proof -
  obtain i where i: "a = page_at s i" "i < pmm_npages s" using assms(2) by (auto simp: data_page_def pmm_used_def)
  from unat_page_at[OF assms(1) i(2)] have "0 < unat a" using assms(1) i(1) by (simp add: pmm_wf_def)
  then show ?thesis by auto
qed

text \<open>
  C20.  With a free run of virtual pages in the bitmap of the process and three free
  page frames per page, \<^verbatim>\<open>mmap\<close> returns the address of the first such run; afterwards the pages of the
  run translate to the requested physical pages in the address space of the process, every other
  address translates as before, exactly the run is marked in the bitmap, and the address space is
  intact.
\<close>

theorem mmap_maps:
  assumes v: "vm_ok p d q b N s" and n: "0 < n" and fit: "k + n \<le> N"
    and run: "free_run (mem s) (vm_bitmap (mem s) p) k n" and first: "\<And>j. j < k \<Longrightarrow> \<not> free_run (mem s) (vm_bitmap (mem s) p) j n"
    and fl: "map_flags (flags OR PAGE_PRESENT)" and free: "3 * n \<le> pmm_free_count s" and phys: "phys \<noteq> 0"
    and frames: "\<And>i. i < n \<Longrightarrow> page_frame ((phys AND 0xFFFFFFFFFFFFF000) + 0x1000 * of_nat i)"
  shows "\<exists>s'. mmap p phys flags (of_nat n) s = Some (VMM_ADDR_START + 0x1000 * of_nat k, s') \<and> vm_ok p d q b N s' \<and>
    (\<forall>j < N. bm_bit (mem s') (vm_bitmap (mem s') p) j \<longleftrightarrow> k \<le> j \<and> j < k + n \<or> bm_bit (mem s) (vm_bitmap (mem s) p) j) \<and>
    (\<forall>i < n. \<forall>w. w AND 0x0000fffffffff000 = (VMM_ADDR_START + 0x1000 * of_nat (k + i)) AND 0x0000fffffffff000 \<longrightarrow>
       translate (mem s') d w = Some ((phys AND 0xFFFFFFFFFFFFF000) + 0x1000 * of_nat i OR (w AND 0xfff))) \<and>
    (\<forall>w. (\<forall>i < n. w AND 0x0000fffffffff000 \<noteq> (VMM_ADDR_START + 0x1000 * of_nat (k + i)) AND 0x0000fffffffff000) \<longrightarrow>
       translate (mem s') d w = translate (mem s) d w)"
proof -
  let ?V = "VMM_ADDR_START + 0x1000 * of_nat k :: u64" and ?f = "flags OR PAGE_PRESENT"
    and ?ph = "phys AND 0xFFFFFFFFFFFFF000"
  let ?s = "klog Log_info ''VMM'' ''mmap - virtaddr = %lx, physaddr = %lx, flags = %d, idx = %d''
              [Arg_word ?V, Arg_word ?ph, Arg_word ?f, Arg_word (scast (of_nat k :: u32))] s"
  have N: "N \<le> 0x8000" "N \<le> unat (bm_size (vm_bitmap (mem s) p) * 8)" using v by (auto simp: vm_ok_def)
  have s': "mem ?s = mem s" "pmm_bitmap ?s = pmm_bitmap s" "start_of_mem ?s = start_of_mem s"
    by (simp_all add: klog_def emit_def)
  note v' = vm_ok_cong[OF v s']
  have addr: "?V + 0x1000 * of_nat i = VMM_ADDR_START + 0x1000 * of_nat (k + i)" for i by (simp add: algebra_simps)
  have inj: "inj_on (\<lambda>i. pmidx_init (?V + 0x1000 * of_nat i)) {..<n}"
  proof (rule inj_onI)
    fix x y assume xy: "x \<in> {..<n}" "y \<in> {..<n}" "pmidx_init (?V + 0x1000 * of_nat x) = pmidx_init (?V + 0x1000 * of_nat y)"
    then have "k + x < 0x80000" "k + y < 0x80000" using fit N(1) by auto
    from vmm_addr_inj[OF this] xy(3) show "x = y" by (simp only: addr) simp
  qed
  have uk: "unat (of_nat k :: u32) = k" using fit N(1) by (intro unat_of_nat32) simp
  have "unat (of_nat k :: u32) + n \<le> N" "3 * n \<le> pmm_free_count ?s" using fit uk free v'(2) by simp_all
  from mmap_pages_spec[OF v'(1) this(1) fl this(2) inj, of ?ph] obtain m where m:
    "fold_opt (mmap_page p ?V ?ph ?f (of_nat k)) [0..<n] ?s = Some (?s\<lparr>mem := m\<rparr>)" "vm_ok p d q b N (?s\<lparr>mem := m\<rparr>)"
    "vm_bitmap m p = vm_bitmap (mem s) p"
    "\<forall>j < N. bm_bit m (vm_bitmap (mem s) p) j \<longleftrightarrow> k \<le> j \<and> j < k + n \<or> bm_bit (mem s) (vm_bitmap (mem s) p) j"
    "\<forall>i < n. pte m d (pmidx_init (?V + 0x1000 * of_nat i)) =
       pde_setaddress (pte (mem s) d (pmidx_init (?V + 0x1000 * of_nat i))) (?ph + 0x1000 * of_nat i) OR ?f"
    "\<forall>ix. valid_idx ix \<longrightarrow> (\<forall>i < n. ix \<noteq> pmidx_init (?V + 0x1000 * of_nat i)) \<longrightarrow> pte m d ix = pte (mem s) d ix"
    unfolding s'(1) uk by blast
  have "p \<noteq> 0" using data_page_nonzero v by (auto simp: vm_ok_def dest: pt_invD(1))
  moreover have "(of_nat n :: u32) \<noteq> 0" using n fit N(1) unat_of_nat32[of n] by auto
  moreover have "vmm_find (mem s) (vm_bitmap (mem s) p) (of_nat n) 0 = Some (of_nat k)"
    using vmm_find_first[OF fit N run first, of 0] by simp
  moreover have "scast (0x1000 * of_nat k :: u32) = (0x1000 * of_nat k :: u64)"
    using scast_of_nat32[of "0x1000 * k"] fit N(1) by simp
  moreover have "nat (sint (of_nat n :: u32)) = n" using sint_of_nat32[of n] fit N(1) by simp
  ultimately have "mmap p phys flags (of_nat n) s = Some (?V, ?s\<lparr>mem := m\<rparr>)"
    using m(1) phys by (simp add: mmap_def Let_def vm_bitmap_def[symmetric])
  moreover have "translate m d w = Some (?ph + 0x1000 * of_nat i OR (w AND 0xfff))"
    if "i < n" "w AND 0x0000fffffffff000 = (?V + 0x1000 * of_nat i) AND 0x0000fffffffff000" for i w
  proof -
    have "pmidx_init w = pmidx_init (?V + 0x1000 * of_nat i)" using that(2) by (simp only: pmidx_init_eq_iff)
    then have "pte m d (pmidx_init w) = pde_setaddress (pte (mem s) d (pmidx_init w)) (?ph + 0x1000 * of_nat i) OR ?f"
      using m(5) that(1) by simp
    then show ?thesis
      using fl setaddress_getaddress[OF frames[OF that(1)]] by (auto simp: translate_def map_flags_def not_present_iff Let_def bit_or_iff)
  qed
  moreover have "translate m d w = translate (mem s) d w"
    if "\<forall>i < n. w AND 0x0000fffffffff000 \<noteq> (?V + 0x1000 * of_nat i) AND 0x0000fffffffff000" for w
    using m(6) that pmidx_init_valid[of w] by (simp add: translate_def flip: pmidx_init_eq_iff)
  ultimately show ?thesis
    using m(2-4) unfolding addr by (intro exI[of _ "?s\<lparr>mem := m\<rparr>"]) simp
qed

text \<open>
  A process on the small machine: page directory, control block (with the bitmap descriptor) and
  bitmap in the first three pages.
\<close>

definition demo_vm :: pmm where
  "demo_vm = demo_pmm\<lparr>mem := wr64 (wr64 (wr64 (wr64 ((\<lambda>_. 0)(0x200000 := 0xe0)) 0x205098 0x204000) 0x2052b8 0x205500)
     0x205500 0x206000) 0x205508 8\<rparr>"

lemma demo_vm_fields:
  "pmm_bitmap demo_vm = \<lparr>bm_bitmap = 0x200000, bm_size = 1\<rparr>" "start_of_mem demo_vm = 0x204000"
  "pmm_wf demo_vm" "pmm_npages demo_vm = 8"
  by (simp_all add: demo_vm_def demo_pmm_wf, simp_all add: demo_pmm_def)

lemma demo_vm_byte:
  assumes "a < 0x205098 \<or> 0x206000 \<le> a"
  shows "mem demo_vm a = (if a = 0x200000 then 0xe0 else 0)"
proof -
  have "8 \<le> unat (a - c)" if "c \<in> {0x205098, 0x2052b8, 0x205500, 0x205508}" for c
    using assms that by (auto simp: unat_sub_if' word_less_nat_alt word_le_nat_alt)
  then show ?thesis using c64.wr_agree by (simp add: demo_vm_def agree_off_def)
qed

lemma demo_vm_used: "pmm_used demo_vm = {0x204000, 0x205000, 0x206000}"
proof -
  have "bit (0xe0 :: u8) (7 - i) \<longleftrightarrow> i = 0 \<or> i = 1 \<or> i = 2" if "i < 8" for i
  proof -
    have "i \<in> {0, 1, 2, 3, 4, 5, 6, 7}" using that by auto
    then show ?thesis by (elim insertE) (simp_all add: bit_numeral_rec numeral_eq_Suc)
  qed
  then have "{i. i < 8 \<and> bm_bit (mem demo_vm) (pmm_bitmap demo_vm) i} = {0, 1, 2}"
    by (auto simp: bm_bit_def demo_vm_fields demo_vm_byte)
  then show ?thesis by (simp add: pmm_used_def demo_vm_fields page_at_def)
qed

lemma demo_vm_zero: "\<forall>k < 0x1000. mem demo_vm (0x204000 + of_nat k) = 0"
proof (intro allI impI)
  fix k :: nat assume k: "k < 0x1000"
  then have "unat (of_nat k :: u64) = k" by (intro unat_of_nat64) simp
  then have "0x204000 + of_nat k < (0x205098 :: u64)" "0x204000 + of_nat k \<noteq> (0x200000 :: u64)" using k
    by (auto simp: word_unat_eq_iff unat_word_ariths word_less_nat_alt)
  then show "mem demo_vm (0x204000 + of_nat k) = 0" by (simp add: demo_vm_byte)
qed

lemma demo_vm_data: "a \<in> {0x205000, 0x206000} \<Longrightarrow> data_page 0x204000 a demo_vm"
proof -
  assume a: "a \<in> {0x205000, 0x206000}"
  have "c = 0x204000" if "idx_path p" "tbl (mem demo_vm) 0x204000 p = Some c" for p c
    using pt_inv_zero(2)[OF demo_vm_fields(3) _ demo_vm_zero that] by (simp add: demo_vm_used)
  then show ?thesis using a unfolding data_page_def demo_vm_used by fastforce
qed

lemma demo_vm_ok: "vm_ok 0x205000 0x204000 0x205000 0x206000 64 demo_vm"
proof -
  have "pt_inv 0x204000 demo_vm" using pt_inv_zero(1)[OF demo_vm_fields(3) _ demo_vm_zero] by (simp add: demo_vm_used)
  moreover have b: "proc_bitmap (mem demo_vm) 0x205000 = 0x205000 + of_nat 0x500"
    by (simp add: demo_vm_def proc_bitmap_def mem_simps sep_def)
  moreover have "vm_bitmap (mem demo_vm) 0x205000 = \<lparr>bm_bitmap = 0x206000, bm_size = 8\<rparr>"
    unfolding vm_bitmap_def b by (simp add: demo_vm_def ld_bitmap_def mem_simps sep_def)
  moreover have "proc_pml4 (mem demo_vm) 0x205000 = 0x204000"
    by (simp add: demo_vm_def proc_pml4_def mem_simps sep_def)
  moreover have "\<exists>k. (0x205000 + of_nat 0x500 :: u64) = 0x205000 + of_nat k \<and> k + 16 \<le> 0x1000" by (intro exI[of _ "0x500"]) simp
  ultimately show ?thesis using demo_vm_data by (simp add: vm_ok_def)
qed

lemma demo_vm_free: "pmm_free_count demo_vm = 5"
proof -
  have "pmm_used demo_vm \<subseteq> pmm_pages demo_vm" by (rule pmm.used_pages)
  then have "pmm_free_count demo_vm = 8 - card (pmm_used demo_vm)"
    by (simp add: pmm_free_count_def card_Diff_subset demo_vm_used card_pmm_pages demo_vm_fields)
  then show ?thesis by (simp add: demo_vm_used)
qed

theorem mmap_maps_witness:
  "\<exists>s'. mmap 0x205000 0x9000 PAGE_READWRITE (of_nat 1) demo_vm = Some (0xFFFFFFFF00000000, s') \<and>
     translate (mem s') 0x204000 0xFFFFFFFF00000123 = Some 0x9123"
proof -
  let ?b = "vm_bitmap (mem demo_vm) 0x205000"
  have b: "bm_bitmap ?b = 0x206000" using demo_vm_ok by (simp add: vm_ok_def)
  have run: "free_run (mem demo_vm) ?b 0 1" using demo_vm_byte[of "0x206000"] b by (simp add: free_run_def bm_bit_def)
  have fl: "map_flags (PAGE_READWRITE OR PAGE_PRESENT)" by (simp add: map_flags_def page_flag_defs)
  have "3 * 1 \<le> pmm_free_count demo_vm" by (simp add: demo_vm_free)
  note th = mmap_maps[OF demo_vm_ok _ _ run _ fl this, of "0x9000"]
  have "\<And>i. i < 1 \<Longrightarrow> page_frame ((0x9000 AND 0xFFFFFFFFFFFFF000) + 0x1000 * of_nat i)" by (simp add: page_frame_def)
  from th[OF _ _ _ _ this] obtain s' where
    "mmap 0x205000 0x9000 PAGE_READWRITE (of_nat 1) demo_vm = Some (VMM_ADDR_START + 0x1000 * of_nat 0, s')"
    "\<forall>i < 1. \<forall>w. w AND 0x0000fffffffff000 = (VMM_ADDR_START + 0x1000 * of_nat (0 + i)) AND 0x0000fffffffff000 \<longrightarrow>
       translate (mem s') 0x204000 w = Some ((0x9000 AND 0xFFFFFFFFFFFFF000) + 0x1000 * of_nat i OR (w AND 0xfff))"
    by auto
  then show ?thesis by (intro exI[of _ s']) (simp add: VMM_ADDR_START_def)
qed

section \<open>Releasing a run of pages\<close>

lemma munmap_page_spec:
  assumes v: "vm_ok p d q b n s" and k: "unat idx + i < n" and i: "i < 0x8000"
  shows "\<exists>m. munmap_page p addr idx i s = s\<lparr>mem := m\<rparr> \<and> vm_ok p d q b n (s\<lparr>mem := m\<rparr>) \<and>
    vm_bitmap m p = vm_bitmap (mem s) p \<and>
    (\<forall>j < n. bm_bit m (vm_bitmap (mem s) p) j \<longleftrightarrow> j \<noteq> unat idx + i \<and> bm_bit (mem s) (vm_bitmap (mem s) p) j) \<and>
    (\<forall>ix. valid_idx ix \<longrightarrow> pte m d ix = (if ix = pmidx_init (addr + 0x1000 * of_nat i) \<and> bit (pte (mem s) d ix) 0
       then 0 else pte (mem s) d ix)) \<and>
    pmm_used (s\<lparr>mem := m\<rparr>) = pmm_used s"
proof -
  let ?b = "vm_bitmap (mem s) p"
  let ?m = "snd (bitmap_set (mem s) ?b (idx + of_nat i) 0)"
  have n: "n \<le> 0x8000" "n \<le> unat (bm_size ?b * 8)" "bm_bitmap ?b = b" using v by (auto simp: vm_ok_def)
  have idx: "idx + of_nat i = of_nat (unat idx + i)" by simp
  have agree: "agree_off b 0x1000 (mem s) ?m"
    unfolding idx using bitmap_set_agree[of "unat idx + i" "0x1000" ?b "mem s" 0] k n by simp
  note w = vm_ok_write[OF v agree]
  have inv: "pt_inv d s" "data_page d b s" using v by (auto simp: vm_ok_def)
  have inv2: "pt_inv d (s\<lparr>mem := ?m\<rparr>)" and pm: "proc_pml4 ?m p = d" using w(1) by (auto simp: vm_ok_def)
  have used: "pmm_used (s\<lparr>mem := ?m\<rparr>) = pmm_used s" by (rule page_write(3)[OF inv agree])
  have sc: "scast (0x1000 * of_nat i :: u32) = (0x1000 * of_nat i :: u64)"
    using scast_of_nat32[of "0x1000 * i"] i by simp
  from paging_unmap_dir_spec[OF inv2, of "addr + 0x1000 * of_nat i"]
  obtain m where m: "paging_unmap_dir d (addr + 0x1000 * of_nat i) (s\<lparr>mem := ?m\<rparr>) = s\<lparr>mem := m\<rparr>"
    "pt_inv d (s\<lparr>mem := m\<rparr>)"
    "\<forall>ix. valid_idx ix \<longrightarrow> pte m d ix = (if ix = pmidx_init (addr + 0x1000 * of_nat i) \<and> bit (pte ?m d ix) 0 then 0 else pte ?m d ix)"
    "pmm_used (s\<lparr>mem := m\<rparr>) = pmm_used s" "pt_frame d (s\<lparr>mem := ?m\<rparr>) m"
    using used by auto
  have inv3: "pt_inv d (s\<lparr>mem := ?m, mem := m\<rparr>)" using m(2) by simp
  note f = vm_ok_map[OF w(1) inv3 m(5)]
  have "munmap_page p addr idx i s = s\<lparr>mem := m\<rparr>"
    using m(1) pm by (simp add: munmap_page_def sc vm_bitmap_def[symmetric])
  moreover have "bm_bit m ?b j \<longleftrightarrow> j \<noteq> unat idx + i \<and> bm_bit (mem s) ?b j" if "j < n" for j
  proof -
    have "bm_bit m ?b j = bm_bit ?m ?b j" using f(3)[OF that] w(2) by simp
    also have "\<dots> \<longleftrightarrow> j \<noteq> unat idx + i \<and> bm_bit (mem s) ?b j"
      unfolding idx using bitmap_set_bit[of "unat idx + i" ?b j "mem s" 0] k n that by auto
    finally show ?thesis .
  qed
  moreover have "pte ?m d ix = pte (mem s) d ix" if "valid_idx ix" for ix
    using page_write(2)[OF inv agree that] .
  ultimately show ?thesis using f(1,2) w(2) m(3,4) by (intro exI[of _ m]) simp
qed

lemma munmap_pages_spec:
  assumes v: "vm_ok p d q b N s" and k: "unat idx + n \<le> N"
  shows "\<exists>m. fold (munmap_page p addr idx) [0..<n] s = s\<lparr>mem := m\<rparr> \<and> vm_ok p d q b N (s\<lparr>mem := m\<rparr>) \<and>
    vm_bitmap m p = vm_bitmap (mem s) p \<and>
    (\<forall>j < N. bm_bit m (vm_bitmap (mem s) p) j \<longleftrightarrow> \<not> (unat idx \<le> j \<and> j < unat idx + n) \<and> bm_bit (mem s) (vm_bitmap (mem s) p) j) \<and>
    (\<forall>ix. valid_idx ix \<longrightarrow> pte m d ix = (if (\<exists>i < n. ix = pmidx_init (addr + 0x1000 * of_nat i)) \<and> bit (pte (mem s) d ix) 0
       then 0 else pte (mem s) d ix)) \<and>
    pmm_used (s\<lparr>mem := m\<rparr>) = pmm_used s"
  using k
proof (induction n)
  case 0
  then show ?case using v by (intro exI[of _ "mem s"]) auto
next
  case (Suc n)
  from Suc.IH Suc.prems obtain m where m:
    "fold (munmap_page p addr idx) [0..<n] s = s\<lparr>mem := m\<rparr>" "vm_ok p d q b N (s\<lparr>mem := m\<rparr>)"
    "vm_bitmap m p = vm_bitmap (mem s) p"
    "\<forall>j < N. bm_bit m (vm_bitmap (mem s) p) j \<longleftrightarrow> \<not> (unat idx \<le> j \<and> j < unat idx + n) \<and> bm_bit (mem s) (vm_bitmap (mem s) p) j"
    "\<forall>ix. valid_idx ix \<longrightarrow> pte m d ix = (if (\<exists>i < n. ix = pmidx_init (addr + 0x1000 * of_nat i)) \<and> bit (pte (mem s) d ix) 0
       then 0 else pte (mem s) d ix)" "pmm_used (s\<lparr>mem := m\<rparr>) = pmm_used s" by auto
  have "N \<le> 0x8000" using v by (simp add: vm_ok_def)
  then have "n < 0x8000" "unat idx + n < N" using Suc.prems by auto
  from munmap_page_spec[OF m(2) this(2,1), of addr] obtain m' where m':
    "munmap_page p addr idx n (s\<lparr>mem := m\<rparr>) = s\<lparr>mem := m'\<rparr>" "vm_ok p d q b N (s\<lparr>mem := m'\<rparr>)"
    "vm_bitmap m' p = vm_bitmap m p"
    "\<forall>j < N. bm_bit m' (vm_bitmap m p) j \<longleftrightarrow> j \<noteq> unat idx + n \<and> bm_bit m (vm_bitmap m p) j"
    "\<forall>ix. valid_idx ix \<longrightarrow> pte m' d ix = (if ix = pmidx_init (addr + 0x1000 * of_nat n) \<and> bit (pte m d ix) 0
       then 0 else pte m d ix)" "pmm_used (s\<lparr>mem := m'\<rparr>) = pmm_used (s\<lparr>mem := m\<rparr>)" by auto
  have "fold (munmap_page p addr idx) [0..<Suc n] s = s\<lparr>mem := m'\<rparr>" using m(1) m'(1) by simp
  moreover have "\<forall>j < N. bm_bit m' (vm_bitmap (mem s) p) j \<longleftrightarrow>
      \<not> (unat idx \<le> j \<and> j < unat idx + Suc n) \<and> bm_bit (mem s) (vm_bitmap (mem s) p) j"
    using m(3,4) m'(4) by auto
  moreover have "\<forall>ix. valid_idx ix \<longrightarrow> pte m' d ix = (if (\<exists>i < Suc n. ix = pmidx_init (addr + 0x1000 * of_nat i)) \<and>
      bit (pte (mem s) d ix) 0 then 0 else pte (mem s) d ix)"
    using m(5) m'(5) by (auto simp: less_Suc_eq)
  ultimately show ?case using m(3,6) m'(2,3,6) by (intro exI[of _ m']) simp
qed

lemma vm_index:
  assumes "k < 0x80000"
  shows "ucast ((VMM_ADDR_START + 0x1000 * of_nat k - VMM_ADDR_START) div 0x1000) = (of_nat k :: u32)"
proof -
  have "unat (0x1000 * of_nat k :: u64) = 0x1000 * k" using assms by (intro unat_page_offset) simp
  then have "(0x1000 * of_nat k) div 0x1000 = (of_nat k :: u64)"
    using assms unat_of_nat64[of k] by (simp add: word_unat_eq_iff unat_div_distrib)
  then show ?thesis using ucast_of_nat64_32[of k] assms by simp
qed

text \<open>
  C21.  \<^verbatim>\<open>munmap\<close> of a run of virtual pages reports success, clears exactly the bits
  of the run in the bitmap of the process, removes exactly the translations of its pages and frees or
  allocates no page frame.
\<close>

theorem munmap_releases:
  assumes v: "vm_ok p d q b N s" and n: "0 < n" and fit: "k + n \<le> N"
  shows "\<exists>s'. munmap p (VMM_ADDR_START + 0x1000 * of_nat k) (of_nat n) s = (0, s') \<and> vm_ok p d q b N s' \<and>
    (\<forall>j < N. bm_bit (mem s') (vm_bitmap (mem s') p) j \<longleftrightarrow>
       \<not> (k \<le> j \<and> j < k + n) \<and> bm_bit (mem s) (vm_bitmap (mem s) p) j) \<and>
    (\<forall>w. translate (mem s') d w =
       (if \<exists>i < n. w AND 0x0000fffffffff000 = (VMM_ADDR_START + 0x1000 * of_nat (k + i)) AND 0x0000fffffffff000
        then None else translate (mem s) d w)) \<and>
    pmm_used s' = pmm_used s"
proof -
  let ?V = "VMM_ADDR_START + 0x1000 * of_nat k :: u64"
  have N: "N \<le> 0x8000" using v by (simp add: vm_ok_def)
  have uk: "unat (of_nat k :: u32) = k" using fit N by (intro unat_of_nat32) simp
  have addr: "?V + 0x1000 * of_nat i = VMM_ADDR_START + 0x1000 * of_nat (k + i)" for i by (simp add: algebra_simps)
  have "unat (of_nat k :: u32) + n \<le> N" using fit uk by simp
  from munmap_pages_spec[OF v this, of ?V] obtain m where m:
    "fold (munmap_page p ?V (of_nat k)) [0..<n] s = s\<lparr>mem := m\<rparr>" "vm_ok p d q b N (s\<lparr>mem := m\<rparr>)"
    "vm_bitmap m p = vm_bitmap (mem s) p"
    "\<forall>j < N. bm_bit m (vm_bitmap (mem s) p) j \<longleftrightarrow> \<not> (k \<le> j \<and> j < k + n) \<and> bm_bit (mem s) (vm_bitmap (mem s) p) j"
    "\<forall>ix. valid_idx ix \<longrightarrow> pte m d ix = (if (\<exists>i < n. ix = pmidx_init (?V + 0x1000 * of_nat i)) \<and> bit (pte (mem s) d ix) 0
       then 0 else pte (mem s) d ix)" "pmm_used (s\<lparr>mem := m\<rparr>) = pmm_used s" unfolding uk by blast
  let ?s = "klog Log_info ''VMM'' ''munmap - virtaddr = %lx, idx = %d'' [Arg_word ?V, Arg_word (scast (of_nat k :: u32))] (s\<lparr>mem := m\<rparr>)"
  have s': "mem ?s = m" "pmm_bitmap ?s = pmm_bitmap s" "start_of_mem ?s = start_of_mem s"
    by (simp_all add: klog_def emit_def)
  have v': "vm_ok p d q b N ?s" by (rule vm_ok_cong(1)[OF m(2)]) (simp_all add: s')
  have used: "pmm_used ?s = pmm_used s"
    using m(6) by (simp add: pmm_used_def s' pmm_npages_def page_at_def)
  have "p \<noteq> 0" using data_page_nonzero v by (auto simp: vm_ok_def dest: pt_invD(1))
  moreover have "?V \<noteq> 0" using vmm_addr_unat[of k] fit N by auto
  moreover have "(of_nat n :: u32) \<noteq> 0" using n fit N unat_of_nat32[of n] by auto
  moreover have "nat (sint (of_nat n :: u32)) = n" using sint_of_nat32[of n] fit N by simp
  moreover have "ucast ((?V - VMM_ADDR_START) div 0x1000) = (of_nat k :: u32)" using fit N by (intro vm_index) simp
  ultimately have "munmap p ?V (of_nat n) s = (0, ?s)" using m(1) by (simp add: munmap_def Let_def)
  moreover have "translate m d w =
      (if \<exists>i < n. w AND 0x0000fffffffff000 = (?V + 0x1000 * of_nat i) AND 0x0000fffffffff000
       then None else translate (mem s) d w)" for w
    using m(5) pmidx_init_valid[of w] by (auto simp: translate_def Let_def not_present_iff simp flip: pmidx_init_eq_iff)
  ultimately show ?thesis
    using v' m(3,4) used unfolding addr by (intro exI[of _ ?s]) (simp add: s')
qed

theorem munmap_releases_witness:
  "\<exists>s'. munmap 0x205000 (VMM_ADDR_START + 0x1000 * of_nat 3) (of_nat 2) demo_vm = (0, s') \<and>
     translate (mem s') 0x204000 0xFFFFFFFF00004123 = None"
proof -
  from munmap_releases[OF demo_vm_ok, of 2 3] obtain s' where
    s': "munmap 0x205000 (VMM_ADDR_START + 0x1000 * of_nat 3) (of_nat 2) demo_vm = (0, s')"
    "\<forall>w. translate (mem s') 0x204000 w =
       (if \<exists>i < 2. w AND 0x0000fffffffff000 = (VMM_ADDR_START + 0x1000 * of_nat (3 + i)) AND 0x0000fffffffff000
        then None else translate (mem demo_vm) 0x204000 w)" by auto
  have "\<exists>i < 2. (0xFFFFFFFF00004123 :: u64) AND 0x0000fffffffff000 = (VMM_ADDR_START + 0x1000 * of_nat (3 + i)) AND 0x0000fffffffff000"
    by (intro exI[of _ 1]) (simp add: VMM_ADDR_START_def)
  then show ?thesis using s' by auto
qed

end
