(* ===== verification/Elf.thy ===== *)
theory Elf
  imports Process_Block
begin

text \<open>
  The program loader, \<^verbatim>\<open>kernel/src/loader/elf.c\<close>, with the fields of the ELF headers it reads
  (\<^verbatim>\<open>include/loader/elf.h\<close>).
\<close>

section \<open>The ELF loader\<close>

definition ELF_VIRT_ENTRY :: u64 where "ELF_VIRT_ENTRY = 0xFFFFFFFF80000000"
definition SHT_NOBITS :: u32 where "SHT_NOBITS = 8"

definition e_ident :: "memory \<Rightarrow> u64 \<Rightarrow> u64 \<Rightarrow> u8" where "e_ident m h i = rd8 m (h + i)"
definition e_entry :: "memory \<Rightarrow> u64 \<Rightarrow> u64" where "e_entry m h = rd64 m (h + 24)"
definition e_shoff :: "memory \<Rightarrow> u64 \<Rightarrow> u64" where "e_shoff m h = rd64 m (h + 40)"
definition e_shentsize :: "memory \<Rightarrow> u64 \<Rightarrow> u16" where "e_shentsize m h = rd16 m (h + 58)"
definition e_shnum :: "memory \<Rightarrow> u64 \<Rightarrow> u16" where "e_shnum m h = rd16 m (h + 60)"
definition sh_type :: "memory \<Rightarrow> u64 \<Rightarrow> u32" where "sh_type m h = rd32 m (h + 4)"
definition sh_addr :: "memory \<Rightarrow> u64 \<Rightarrow> u64" where "sh_addr m h = rd64 m (h + 16)"
definition sh_offset :: "memory \<Rightarrow> u64 \<Rightarrow> u64" where "sh_offset m h = rd64 m (h + 24)"
definition sh_size :: "memory \<Rightarrow> u64 \<Rightarrow> u64" where "sh_size m h = rd64 m (h + 32)"

definition elf_check :: "memory \<Rightarrow> u64 \<Rightarrow> u32" where
  "elf_check m ehdr =
     (if e_ident m ehdr 0 \<noteq> 0x7f \<or> e_ident m ehdr 1 \<noteq> 0x45 \<or> e_ident m ehdr 2 \<noteq> 0x4c \<or> e_ident m ehdr 3 \<noteq> 0x46
      then 1 else 0)"

text \<open>The section sizes are summed with the header's stride; a zero stride makes the C loop empty.\<close>

definition elf_prog_size :: "memory \<Rightarrow> u64 \<Rightarrow> u64" where
  "elf_prog_size m ehdr =
     fold (\<lambda>k prog_size. prog_size + sh_size m (ehdr + (e_shoff m ehdr + of_nat k * ucast (e_shentsize m ehdr))))
       [0..<(if e_shentsize m ehdr = 0 then 0 else unat (e_shnum m ehdr))] 0"

definition elf_load_section :: "u64 \<Rightarrow> u64 \<Rightarrow> u64 \<Rightarrow> u64 \<Rightarrow> 'a pmm_scheme \<Rightarrow> 'a pmm_scheme option" where
  "elf_load_section ehdr prog page_table shdr s =
     (if sh_addr (mem s) shdr \<noteq> 0 then do {
        let program = rd64 (mem s) (prog + 8);
        s \<leftarrow> paging_map_dir page_table (sh_addr (mem s) shdr)
               (program + (sh_addr (mem s) shdr - ELF_VIRT_ENTRY)) PAGE_NORMAL s;
        let dst = rd64 (mem s) (prog + 8) + (sh_addr (mem s) shdr - ELF_VIRT_ENTRY);
        Some (if sh_type (mem s) shdr = SHT_NOBITS
              then s\<lparr>mem := memset (mem s) dst 0 (sh_size (mem s) shdr)\<rparr>
              else s\<lparr>mem := memcpy (mem s) dst (ehdr + sh_offset (mem s) shdr) (sh_size (mem s) shdr)\<rparr>)
      } else Some s)"

text \<open>The loop reads the number of sections from the header again before every section.\<close>

partial_function (option) elf_load_loop ::
  "u64 \<Rightarrow> u64 \<Rightarrow> u64 \<Rightarrow> u64 \<Rightarrow> u64 \<Rightarrow> 'a pmm_scheme \<Rightarrow> 'a pmm_scheme option" where
  "elf_load_loop ehdr prog page_table shdr_base i s =
     (if i < ucast (e_shnum (mem s) ehdr) then do {
        s \<leftarrow> elf_load_section ehdr prog page_table (shdr_base + 64 * i) s;
        elf_load_loop ehdr prog page_table shdr_base (i + 1) s
      } else Some s)"

definition load_elf :: "u64 \<Rightarrow> u64 \<Rightarrow> 'a procs_scheme \<Rightarrow> (u64 \<times> 'a procs_scheme) option" where
  "load_elf data page_table s =
     (let s = s\<lparr>int_enabled := False\<rparr>; ehdr = data in
      if elf_check (mem s) ehdr \<noteq> 0 then
        Some (0, klog Log_error ''ELF'' (''Incorrect header'' @ [CHR 0x0A]) [] s)
      else do {
        let prog_size = elf_prog_size (mem s) ehdr;
        let prog_size_pages = (ucast (prog_size div 0x1000 + 1) :: u32);
        (prog, s) \<leftarrow> kmalloc 24 s;
        let s = s\<lparr>mem := wr64 (mem s) prog (e_entry (mem s) ehdr)\<rparr>;
        (program, s) \<leftarrow> pmm_getpages prog_size_pages s;
        let s = s\<lparr>mem := wr64 (mem s) (prog + 8) program\<rparr>;
        s \<leftarrow> elf_load_loop ehdr prog page_table (ehdr + e_shoff (mem s) ehdr) 0 s;
        let s = s\<lparr>int_enabled := True\<rparr>;
        Some (prog, s)
      })"

end
