(* ===== verification/Process.thy ===== *)
theory Process
  imports Vmm Elf
begin

text \<open>
  The scheduler and process creation of \<^verbatim>\<open>kernel/src/process/process.c\<close>.  Processes form a ring through
  the \<^verbatim>\<open>next\<close> fields of their control blocks; \<^verbatim>\<open>schedule\<close> saves the interrupted context in the current
  block and loads that of the next one.
\<close>

section \<open>Scheduling\<close>

text \<open>The registers in the order in which \<^verbatim>\<open>schedule\<close> copies them.\<close>

definition regs_order :: "u64 list" where
  "regs_order = [reg_rax, reg_rcx, reg_rdx, reg_rbx, reg_rbp, reg_rsp, reg_rsi, reg_rdi, reg_rflags, reg_rip,
     reg_r8, reg_r9, reg_r10, reg_r11, reg_r12, reg_r13, reg_r14, reg_r15, reg_cs]"

definition copy_regs :: "u64 \<Rightarrow> u64 \<Rightarrow> memory \<Rightarrow> memory" where
  "copy_regs dst src m = fold (\<lambda>r m. wr64 m (dst + r) (rd64 m (src + r))) regs_order m"

definition fxsave :: "u64 \<Rightarrow> u8 list \<Rightarrow> memory \<Rightarrow> memory" where
  "fxsave a img m = fold (\<lambda>i m. wr8 m (a + of_nat i) (img ! i)) [0..<512] m"

definition fxrstor :: "u64 \<Rightarrow> memory \<Rightarrow> u8 list" where
  "fxrstor a m = map (\<lambda>i. rd8 m (a + of_nat i)) [0..<512]"

definition schedule :: "u64 \<Rightarrow> 'a procs_scheme \<Rightarrow> 'a procs_scheme" where
  "schedule regs s =
     (if proc_queue s = 0 then s
      else if cur_proc s = 0 then klog Log_info ''PROC'' ''Current process is NULL.'' [] s
      else if proc_next (mem s) (cur_proc s) = 0 then klog Log_info ''PROC'' ''Next process is NULL.'' [] s
      else
        let s = s\<lparr>mem := copy_regs (cur_proc s) regs (mem s)\<rparr>;
            s = s\<lparr>mem := fxsave (proc_fxsave (cur_proc s)) (fpu s) (mem s)\<rparr>;
            s = s\<lparr>cur_proc := proc_next (mem s) (cur_proc s)\<rparr>;
            s = s\<lparr>mem := copy_regs regs (cur_proc s) (mem s)\<rparr>
        in s\<lparr>fpu := fxrstor (proc_fxsave (cur_proc s)) (mem s)\<rparr>)"

definition timer_handler :: "u64 \<Rightarrow> 'a procs_scheme \<Rightarrow> 'a procs_scheme" where
  "timer_handler regs s = schedule regs s"

section \<open>Process creation\<close>

definition clear_files :: "u64 \<Rightarrow> memory \<Rightarrow> memory" where
  "clear_files p m = fold (\<lambda>i m. set_proc_file m p (of_nat i) 0) [0..<MAX_FILES_OPENABLE] m"

definition proc_new_bitmap :: "u64 \<Rightarrow> 'a pmm_scheme \<Rightarrow> 'a pmm_scheme option" where
  "proc_new_bitmap p s = do {
     (page, s) \<leftarrow> pmm_getpage s;
     let s = s\<lparr>mem := wr64 (mem s) (proc_bitmap (mem s) p) page\<rparr>;
     let s = s\<lparr>mem := memset (mem s) (rd64 (mem s) (proc_bitmap (mem s) p)) 0 0x1000\<rparr>;
     Some (s\<lparr>mem := wr64 (mem s) (proc_bitmap (mem s) p + 8) (VMM_SIZE_PAGES div 8)\<rparr>)
   }"

definition proc_enqueue :: "u64 \<Rightarrow> 'a procs_scheme \<Rightarrow> 'a procs_scheme" where
  "proc_enqueue p s =
     (let tmp_next = proc_next (mem s) (proc_queue s);
          s = s\<lparr>mem := set_proc_next (mem s) p tmp_next\<rparr>
      in s\<lparr>mem := set_proc_next (mem s) (proc_queue s) p\<rparr>)"

definition make_proc :: "u64 \<Rightarrow> u32 \<Rightarrow> 'a procs_scheme \<Rightarrow> 'a procs_scheme option" where
  "make_proc entry size_pages s = do {
     (p, s) \<leftarrow> pmm_getpage s;
     let s = s\<lparr>mem := memset (mem s) p 0 sizeof_regs\<rparr>;
     let s = s\<lparr>mem := set_proc_reg (mem s) p reg_rflags 0x202\<rparr>;
     let s = s\<lparr>mem := set_proc_reg (mem s) p reg_rip entry\<rparr>;
     let s = s\<lparr>mem := set_proc_reg (mem s) p reg_cs 0x08\<rparr>;
     (stack, s) \<leftarrow> pmm_getpage s;
     let s = s\<lparr>mem := set_proc_stack (mem s) p stack\<rparr>;
     let s = s\<lparr>mem := set_proc_reg (mem s) p reg_rsp (proc_stack (mem s) p + 0x1000)\<rparr>;
     let s = s\<lparr>mem := set_proc_reg (mem s) p reg_rbp (rd64 (mem s) (p + reg_rsp))\<rparr>;
     (tb, s) \<leftarrow> create_page_table s;
     let s = s\<lparr>mem := set_proc_pml4 (mem s) p tb\<rparr>;
     let s = s\<lparr>mem := set_proc_pid (mem s) p (num_pids s), num_pids := num_pids s + 1\<rparr>;
     s \<leftarrow> proc_new_bitmap p s;
     let s = s\<lparr>mem := memset (mem s) (proc_fxsave p) 0 512\<rparr>;
     let s = s\<lparr>mem := clear_files p (mem s)\<rparr>;
     Some (proc_enqueue p s)
   }"

definition make_proc_from_elf :: "u64 \<Rightarrow> 'a procs_scheme \<Rightarrow> 'a procs_scheme option" where
  "make_proc_from_elf elf_data s = do {
     (p, s) \<leftarrow> pmm_getpage s;
     let s = s\<lparr>mem := memset (mem s) p 0 sizeof_regs\<rparr>;
     let s = s\<lparr>mem := set_proc_reg (mem s) p reg_rflags 0x202\<rparr>;
     let s = s\<lparr>mem := set_proc_reg (mem s) p reg_cs 0x08\<rparr>;
     (stack, s) \<leftarrow> pmm_getpage s;
     let s = s\<lparr>mem := set_proc_stack (mem s) p stack\<rparr>;
     let s = s\<lparr>mem := set_proc_reg (mem s) p reg_rsp (proc_stack (mem s) p + 0x1000)\<rparr>;
     let s = s\<lparr>mem := set_proc_reg (mem s) p reg_rbp (rd64 (mem s) (p + reg_rsp))\<rparr>;
     (tb, s) \<leftarrow> create_page_table s;
     let s = s\<lparr>mem := set_proc_pml4 (mem s) p tb\<rparr>;
     s \<leftarrow> paging_map_dir (proc_pml4 (mem s) p) (proc_stack (mem s) p) (proc_stack (mem s) p) PAGE_NORMAL s;
     (prog, s) \<leftarrow> load_elf elf_data (proc_pml4 (mem s) p) s;
     let s = s\<lparr>mem := set_proc_elf (mem s) p prog\<rparr>;
     let s = s\<lparr>mem := set_proc_reg (mem s) p reg_rip (rd64 (mem s) (proc_elf (mem s) p))\<rparr>;
     let s = s\<lparr>mem := set_proc_pid (mem s) p (num_pids s), num_pids := num_pids s + 1\<rparr>;
     let s = s\<lparr>mem := memset (mem s) (proc_fxsave p) 0 512\<rparr>;
     s \<leftarrow> proc_new_bitmap p s;
     let s = s\<lparr>mem := clear_files p (mem s)\<rparr>;
     Some (proc_enqueue p s)
   }"

text \<open>
  The test \<^verbatim>\<open>!proc_queue && !proc_queue->pml4\<close> reads the control block at address 0 when there is no
  queue.
\<close>

definition process_set_pml4_to_kernel :: "'a procs_scheme \<Rightarrow> 'a procs_scheme" where
  "process_set_pml4_to_kernel s =
     (if proc_queue s = 0 \<and> proc_pml4 (mem s) (proc_queue s) = 0 then s
      else paging_change_dir (proc_pml4 (mem s) (proc_queue s)) s)"

definition process_set_pml4_to_cur_proc :: "'a procs_scheme \<Rightarrow> 'a procs_scheme" where
  "process_set_pml4_to_cur_proc s =
     (if cur_proc s = 0 then s else paging_change_dir (proc_pml4 (mem s) (cur_proc s)) s)"

definition get_cur_proc :: "'a procs_scheme \<Rightarrow> u64" where
  "get_cur_proc s = cur_proc s"

text \<open>The address of the idle loop is a linker symbol, passed as an argument.\<close>

definition process_init :: "u64 \<Rightarrow> 'a procs_scheme \<Rightarrow> 'a procs_scheme option" where
  "process_init idle_entry s = do {
     (q, s) \<leftarrow> pmm_getpage s;
     let s = s\<lparr>proc_queue := q\<rparr>;
     let s = s\<lparr>cur_proc := proc_queue s\<rparr>;
     let s = s\<lparr>mem := set_proc_pid (mem s) (cur_proc s) (num_pids s), num_pids := num_pids s + 1\<rparr>;
     let s = s\<lparr>mem := set_proc_pml4 (mem s) (cur_proc s) (paging_get_pml4 s)\<rparr>;
     let s = s\<lparr>mem := set_proc_next (mem s) (cur_proc s) (cur_proc s)\<rparr>;
     s \<leftarrow> make_proc idle_entry 0 s;
     Some (klog Log_ok ''PROC'' ''Initialized processes'' [] s)
   }"

end
