(* ===== verification/Scheduler.thy ===== *)
theory Scheduler
  imports Process
begin

text \<open>
  Context switches.  The locale \<open>scheduler\<close> states what a round-robin scheduler promises its processes:
  a step saves the running context, moves to the next process of the ring and runs its saved context.
  The context a process sees is then untouched by everything but its own execution, and every process
  of the ring runs again within one round.  The locale is interpreted on \<^verbatim>\<open>schedule\<close> of
  \<^verbatim>\<open>kernel/src/process/process.c\<close> over the control blocks in memory.
\<close>

section \<open>Round-robin schedulers\<close>

datatype 'c sched_event = Tick | Work 'c

primrec do_event :: "('s \<Rightarrow> 's) \<Rightarrow> ('c \<Rightarrow> 's \<Rightarrow> 's) \<Rightarrow> 'c sched_event \<Rightarrow> 's \<Rightarrow> 's" where
  "do_event step work Tick s = step s"
| "do_event step work (Work c) s = work c s"

primrec event_valid :: "('c \<Rightarrow> bool) \<Rightarrow> 'c sched_event \<Rightarrow> bool" where
  "event_valid valid Tick = True"
| "event_valid valid (Work c) = valid c"

text \<open>The context process \<open>p\<close> has after the events when only its own execution changes it.\<close>

primrec own_work ::
  "('s \<Rightarrow> 's) \<Rightarrow> ('c \<Rightarrow> 's \<Rightarrow> 's) \<Rightarrow> ('s \<Rightarrow> 'p) \<Rightarrow> 'p \<Rightarrow> 'c sched_event list \<Rightarrow> 's \<Rightarrow> 'c \<Rightarrow> 'c" where
  "own_work step work cur p [] s c = c"
| "own_work step work cur p (e # es) s c =
     own_work step work cur p es (do_event step work e s)
       (case e of Work d \<Rightarrow> if p = cur s then d else c | Tick \<Rightarrow> c)"

definition view_of :: "('s \<Rightarrow> 'p) \<Rightarrow> ('s \<Rightarrow> 'c) \<Rightarrow> ('s \<Rightarrow> 'p \<Rightarrow> 'c) \<Rightarrow> 's \<Rightarrow> 'p \<Rightarrow> 'c" where
  "view_of cur running saved s p = (if p = cur s then running s else saved s p)"

locale scheduler =
  fixes step :: "'s \<Rightarrow> 's"
    and work :: "'c \<Rightarrow> 's \<Rightarrow> 's"
    and cur :: "'s \<Rightarrow> 'p"
    and running :: "'s \<Rightarrow> 'c"
    and saved :: "'s \<Rightarrow> 'p \<Rightarrow> 'c"
    and ring :: "'p list"
    and ok :: "'s \<Rightarrow> bool"
    and valid :: "'c \<Rightarrow> bool"
  assumes cur_in: "ok s \<Longrightarrow> cur s \<in> set ring"
    and ok_step: "ok s \<Longrightarrow> ok (step s)"
    and ok_work: "ok s \<Longrightarrow> valid c \<Longrightarrow> ok (work c s)"
    and cur_step: "ok s \<Longrightarrow> i < length ring \<Longrightarrow> cur s = ring ! i \<Longrightarrow> cur (step s) = ring ! (Suc i mod length ring)"
    and saved_step: "ok s \<Longrightarrow> p \<in> set ring \<Longrightarrow> saved (step s) p = (if p = cur s then running s else saved s p)"
    and running_step: "ok s \<Longrightarrow> running (step s) = saved (step s) (cur (step s))"
    and cur_work: "ok s \<Longrightarrow> valid c \<Longrightarrow> cur (work c s) = cur s"
    and saved_work: "ok s \<Longrightarrow> valid c \<Longrightarrow> p \<in> set ring \<Longrightarrow> saved (work c s) p = saved s p"
    and running_work: "ok s \<Longrightarrow> valid c \<Longrightarrow> running (work c s) = c"
begin

abbreviation event :: "'c sched_event \<Rightarrow> 's \<Rightarrow> 's" where "event \<equiv> do_event step work"
abbreviation valid_event :: "'c sched_event \<Rightarrow> bool" where "valid_event \<equiv> event_valid valid"
abbreviation view :: "'s \<Rightarrow> 'p \<Rightarrow> 'c" where "view \<equiv> view_of cur running saved"

lemma ok_event: "ok s \<Longrightarrow> valid_event e \<Longrightarrow> ok (event e s)"
  by (cases e) (auto intro: ok_step ok_work)

lemma ok_events: "ok s \<Longrightarrow> list_all valid_event es \<Longrightarrow> ok (fold event es s)"
  by (induction es arbitrary: s) (auto intro: ok_event)

lemma view_step: "ok s \<Longrightarrow> p \<in> set ring \<Longrightarrow> view (step s) p = view s p"
  using saved_step[of s p] running_step[of s] by (auto simp: view_of_def)

lemma view_work: "ok s \<Longrightarrow> valid c \<Longrightarrow> p \<in> set ring \<Longrightarrow> view (work c s) p = (if p = cur s then c else view s p)"
  by (simp add: view_of_def cur_work running_work saved_work)

lemma view_events:
  "ok s \<Longrightarrow> list_all valid_event es \<Longrightarrow> p \<in> set ring \<Longrightarrow> view (fold event es s) p = own_work step work cur p es s (view s p)"
proof (induction es arbitrary: s)
  case (Cons e es)
  have "view (event e s) p = (case e of Work d \<Rightarrow> if p = cur s then d else view s p | Tick \<Rightarrow> view s p)"
    using Cons.prems by (cases e) (simp_all add: view_step view_work)
  then show ?case using Cons ok_event[of s e] by simp
qed simp

lemma cur_steps:
  assumes "ok s" and "i < length ring" and "cur s = ring ! i"
  shows "ok ((step ^^ n) s) \<and> cur ((step ^^ n) s) = ring ! ((i + n) mod length ring)"
proof (induction n)
  case (Suc n)
  have "0 < length ring" using assms(2) by linarith
  then have "(i + n) mod length ring < length ring" by simp
  then have "cur (step ((step ^^ n) s)) = ring ! (Suc ((i + n) mod length ring) mod length ring)"
    using Suc cur_step by blast
  then show ?case using Suc ok_step by (simp add: mod_Suc_eq)
qed (use assms in auto)

lemma view_steps: "ok s \<Longrightarrow> p \<in> set ring \<Longrightarrow> view ((step ^^ n) s) p = view s p"
proof (induction n)
  case (Suc n)
  obtain i where "i < length ring" "cur s = ring ! i" using cur_in[OF Suc.prems(1)] by (metis in_set_conv_nth)
  then have "ok ((step ^^ n) s)" using cur_steps Suc.prems(1) by blast
  then show ?case using Suc view_step by simp
qed simp

lemma scheduled_again:
  assumes "ok s" and "p \<in> set ring"
  shows "\<exists>n < length ring. cur ((step ^^ Suc n) s) = p"
proof -
  obtain i where i: "i < length ring" "cur s = ring ! i" using cur_in[OF assms(1)] by (metis in_set_conv_nth)
  obtain j where j: "j < length ring" "p = ring ! j" using assms(2) by (metis in_set_conv_nth)
  define n where "n = (if i < j then j - i - 1 else j + length ring - i - 1)"
  have "n < length ring" "i + Suc n = (if i < j then j else j + length ring)" using i(1) j(1) by (auto simp: n_def)
  then have "n < length ring" "(i + Suc n) mod length ring = j" using j(1) by auto
  then show ?thesis using cur_steps[OF assms(1) i, of "Suc n"] j(2) by auto
qed

end

section \<open>Context switches\<close>

lemma rd64_byte:
  assumes "k < 8"
  shows "ucast (drop_bit (8 * k) (rd64 m a)) = m (a + of_nat k)"
proof (rule bit_word_eqI)
  fix i assume "i < LENGTH(8)"
  then have i: "i < 8" by simp
  have "(8 * k + i) div 8 = k" "(8 * k + i) mod 8 = i" using i by simp_all
  then show "bit (ucast (drop_bit (8 * k) (rd64 m a)) :: u8) i = bit (m (a + of_nat k)) i"
    using i assms by (simp add: bit_unsigned_iff bit_drop_bit_eq rd64_def bit_rdn add.commute)
qed

lemma word_window:
  fixes r x :: u64
  assumes "unat r + 8 < 2 ^ 64"
  shows "unat (x - r) < 8 \<longleftrightarrow> unat r \<le> unat x \<and> unat x < unat r + 8"
  using assms unsigned_less[of x, where 'a = nat] by (auto simp: unat_sub_if')

lemma word_window_offset:
  fixes r x :: u64
  assumes "unat r + 8 < 2 ^ 64" "unat (x - r) < 8"
  shows "r + of_nat (unat (x - r)) = x" "unat r + unat (x - r) = unat x"
  using assms word_window[of r x] by (simp_all add: unat_sub_if')

lemma copy_word_apply:
  assumes "unat r + 8 < 2 ^ 64"
  shows "wr64 m (dst + r) (rd64 m (src + r)) b =
    (if unat r \<le> unat (b - dst) \<and> unat (b - dst) < unat r + 8 then m (src + (b - dst)) else m b)"
proof (cases "unat (b - dst - r) < 8")
  case True
  have "wr64 m (dst + r) (rd64 m (src + r)) b = m (src + r + of_nat (unat (b - dst - r)))"
    using rd64_byte[OF True, of m "src + r"] True by (simp add: wr64_def wrn_apply diff_diff_add)
  also have "src + r + of_nat (unat (b - dst - r)) = src + (b - dst)"
    by (simp only: add.assoc word_window_offset(1)[OF assms True])
  finally show ?thesis using True word_window[OF assms, of "b - dst"] by simp
next
  case False
  then have "wr64 m (dst + r) (rd64 m (src + r)) b = m b" by (simp add: wr64_def wrn_apply diff_diff_add)
  then show ?thesis using False word_window[OF assms, of "b - dst"] by (simp only: if_False simp_thms)
qed

lemma copy_words:
  assumes s: "sep dst n src n" and r: "\<forall>r\<in>set rs. unat r + 8 \<le> n"
  shows "fold (\<lambda>r m. wr64 m (dst + r) (rd64 m (src + r))) rs m b =
    (if \<exists>r\<in>set rs. unat r \<le> unat (b - dst) \<and> unat (b - dst) < unat r + 8 then m (src + (b - dst)) else m b)"
  using r
proof (induction rs arbitrary: b rule: rev_induct)
  case (snoc r rs)
  let ?m = "fold (\<lambda>r m. wr64 m (dst + r) (rd64 m (src + r))) rs m"
  let ?hit = "\<lambda>b r. unat r \<le> unat (b - dst) \<and> unat (b - dst) < unat r + 8"
  have n: "unat r + 8 \<le> n" and rs: "\<forall>r\<in>set rs. unat r + 8 \<le> n" using snoc.prems by simp_all
  have IH: "?m b = (if \<exists>r\<in>set rs. ?hit b r then m (src + (b - dst)) else m b)" for b
    by (rule snoc.IH[OF rs])
  have n64: "n < 2 ^ 64" using s unsigned_less[of "src - dst", where 'a = nat] by (simp add: sep_def)
  have src: "?m (src + of_nat j) = m (src + of_nat j)" if "j < n" for j
  proof -
    have "\<not> ?hit (src + of_nat j) r" if "r \<in> set rs" for r
      using sep_notin[OF s \<open>j < n\<close>] rs that by fastforce
    then have "\<not> (\<exists>r\<in>set rs. ?hit (src + of_nat j) r)" by blast
    then show ?thesis by (subst IH) (rule if_not_P)
  qed
  have hit: "?m (src + (b - dst)) = m (src + (b - dst))" if "?hit b r"
    using src[of "unat (b - dst)"] that n by simp
  have "fold (\<lambda>r m. wr64 m (dst + r) (rd64 m (src + r))) (rs @ [r]) m b = wr64 ?m (dst + r) (rd64 ?m (src + r)) b" by simp
  also have "\<dots> = (if ?hit b r then ?m (src + (b - dst)) else ?m b)"
    by (rule copy_word_apply) (use n n64 in linarith)
  also have "\<dots> = (if \<exists>r\<in>set (rs @ [r]). ?hit b r then m (src + (b - dst)) else m b)"
  proof (cases "?hit b r")
    case True
    then have "\<exists>r\<in>set (rs @ [r]). ?hit b r" by auto
    with True show ?thesis using hit[OF True] by (simp only: if_True if_P)
  next
    case False
    then have "(\<exists>r\<in>set (rs @ [r]). ?hit b r) = (\<exists>r\<in>set rs. ?hit b r)" by auto
    with False show ?thesis by (simp only: if_False IH[of b])
  qed
  finally show ?case .
qed simp

lemma regs_order_bound: "r \<in> set regs_order \<Longrightarrow> unat r + 8 \<le> 152"
  by (auto simp: regs_order_def layout_simps)

lemma regs_order_all: "k < 19 \<Longrightarrow> (of_nat (8 * k) :: u64) \<in> set regs_order"
proof -
  have all: "list_all (\<lambda>k. (of_nat (8 * k) :: u64) \<in> set regs_order) [0,1,2,3,4,5,6,7,8,9,10,11,12,13,14,15,16,17,18]"
    by (simp add: regs_order_def layout_simps)
  assume "k < 19"
  moreover have "[0..<19] = [0,1,2,3,4,5,6,7,8,9,10,11,12,13,14,15,16,17,18::nat]" by (simp add: upt_rec)
  ultimately have "k \<in> set [0,1,2,3,4,5,6,7,8,9,10,11,12,13,14,15,16,17,18]" by (metis atLeast_upt lessThan_iff)
  then show ?thesis using all by (simp only: list_all_iff)
qed

lemma regs_order_cover: "j < 152 \<longleftrightarrow> (\<exists>r\<in>set regs_order. unat r \<le> j \<and> j < unat r + 8)"
proof
  assume j: "j < 152"
  have k: "j div 8 < 19" using j by (simp add: less_mult_imp_div_less)
  have u: "unat (of_nat (8 * (j div 8)) :: u64) = 8 * (j div 8)" using k by (intro unat_of_nat64) simp
  have b: "8 * (j div 8) \<le> j" "j < 8 * (j div 8) + 8" by simp_all
  show "\<exists>r\<in>set regs_order. unat r \<le> j \<and> j < unat r + 8"
    by (rule bexI[OF _ regs_order_all[OF k]]) (simp only: u b)
next
  assume "\<exists>r\<in>set regs_order. unat r \<le> j \<and> j < unat r + 8"
  then obtain r where "r \<in> set regs_order" and "j < unat r + 8" by blast
  then show "j < 152" using regs_order_bound[of r] by linarith
qed

lemma copy_regs_apply:
  assumes "sep dst 152 src 152"
  shows "copy_regs dst src m b = (if unat (b - dst) < 152 then m (src + (b - dst)) else m b)"
proof -
  have "\<forall>r\<in>set regs_order. unat r + 8 \<le> 152" using regs_order_bound by blast
  from copy_words[OF assms this] show ?thesis
    using regs_order_cover[of "unat (b - dst)"] by (simp add: copy_regs_def)
qed

lemma fxsave_apply: "fxsave a img m b = (if unat (b - a) < 512 then img ! unat (b - a) else m b)"
proof -
  have "n \<le> 512 \<Longrightarrow> fold (\<lambda>i m. wr8 m (a + of_nat i) (img ! i)) [0..<n] m b =
      (if unat (b - a) < n then img ! unat (b - a) else m b)" for n
  proof (induction n)
    case (Suc n)
    then show ?case using offset_eq_iff[of n b a] by (auto simp: wr8_def)
  qed simp
  then show ?thesis by (simp add: fxsave_def)
qed

type_synonym ctx = "u64 list \<times> u8 list"

definition saved_ctx :: "memory \<Rightarrow> u64 \<Rightarrow> ctx" where
  "saved_ctx m p = (map (\<lambda>r. rd64 m (p + r)) regs_order, fxrstor (proc_fxsave p) m)"

definition running_ctx :: "u64 \<Rightarrow> 'a procs_scheme \<Rightarrow> ctx" where
  "running_ctx regs s = (map (\<lambda>r. rd64 (mem s) (regs + r)) regs_order, fpu s)"

lemma rd64_bytes:
  assumes "\<And>i. i < 8 \<Longrightarrow> m' (a + of_nat i) = m (b + of_nat i)"
  shows "rd64 m' a = rd64 m b"
  using assms by (intro bit_word_eqI) (auto simp: rd64_def bit_rdn)

lemma rd64_shift:
  assumes "\<And>j. j < n \<Longrightarrow> m' (a + of_nat j) = m (b + of_nat j)" and "unat r + 8 \<le> n"
  shows "rd64 m' (a + r) = rd64 m (b + r)"
proof (rule rd64_bytes)
  fix i :: nat assume "i < 8"
  have e: "x + r + of_nat i = x + of_nat (unat r + i)" for x :: u64 by simp
  show "m' (a + r + of_nat i) = m (b + r + of_nat i)"
    unfolding e using assms(2) \<open>i < 8\<close> by (intro assms(1)) simp
qed

lemma regs_shift:
  assumes "\<And>j. j < 152 \<Longrightarrow> m' (a + of_nat j) = m (b + of_nat j)"
  shows "map (\<lambda>r. rd64 m' (a + r)) regs_order = map (\<lambda>r. rd64 m (b + r)) regs_order"
  using regs_order_bound rd64_shift[where a = a and b = b and m = m and m' = m' and n = 152, OF assms]
  by (intro map_cong) auto

lemma fxrstor_shift:
  assumes "\<And>j. j < 512 \<Longrightarrow> m' (a + of_nat j) = m (b + of_nat j)"
  shows "fxrstor a m' = fxrstor b m"
  using assms by (simp add: fxrstor_def rd8_def)

section \<open>The control blocks\<close>

definition blocks_ok :: "u64 \<Rightarrow> u64 list \<Rightarrow> bool" where
  "blocks_ok regs ring \<longleftrightarrow> distinct ring \<and> 0 \<notin> set ring \<and>
     (\<forall>p \<in> set ring. sep regs 152 p 1232 \<and> (\<forall>q \<in> set ring. p \<noteq> q \<longrightarrow> sep p 1232 q 1232))"

definition sched_ok :: "u64 \<Rightarrow> u64 list \<Rightarrow> 'a procs_scheme \<Rightarrow> bool" where
  "sched_ok regs ring s \<longleftrightarrow> proc_queue s \<noteq> 0 \<and> cur_proc s \<in> set ring \<and> length (fpu s) = 512 \<and>
     (\<forall>i < length ring. proc_next (mem s) (ring ! i) = ring ! (Suc i mod length ring))"

lemma block_sep: "blocks_ok regs ring \<Longrightarrow> p \<in> set ring \<Longrightarrow> q \<in> set ring \<Longrightarrow> p \<noteq> q \<Longrightarrow> sep p 1232 q 1232"
  by (simp add: blocks_ok_def)

lemma frame_sep: "blocks_ok regs ring \<Longrightarrow> p \<in> set ring \<Longrightarrow> sep regs 152 p 1232"
  by (simp add: blocks_ok_def)

text \<open>The memory after saving the context of the block \<open>c\<close> and after loading that of the block \<open>n\<close>.\<close>

definition save_mem :: "u64 \<Rightarrow> u64 \<Rightarrow> u8 list \<Rightarrow> memory \<Rightarrow> memory" where
  "save_mem regs c img m = fxsave (proc_fxsave c) img (copy_regs c regs m)"

definition load_mem :: "u64 \<Rightarrow> u64 \<Rightarrow> memory \<Rightarrow> memory" where
  "load_mem regs n m = copy_regs regs n m"

lemma sep_shorter: "sep a n b k \<Longrightarrow> n' \<le> n \<Longrightarrow> k' \<le> k \<Longrightarrow> sep a n' b k'"
  by (simp add: sep_def)

lemma unat_offset: "j < 2 ^ 64 \<Longrightarrow> unat (a + of_nat j - a :: u64) = j"
  by (simp add: unat_of_nat64)

lemma save_mem_cur:
  assumes "sep regs 152 c 1232" and "j < 1232"
  shows "save_mem regs c img m (c + of_nat j) =
    (if j < 152 then m (regs + of_nat j) else if 160 \<le> j \<and> j < 672 then img ! (j - 160) else m (c + of_nat j))"
proof -
  have s: "sep c 152 regs 152" using sep_shorter[OF assms(1)] by (simp add: sep_sym)
  have e: "c + of_nat j - (c + 160) = (of_nat j - 160 :: u64)" by (simp add: algebra_simps)
  have "unat (of_nat j - 160 :: u64) < 512 \<longleftrightarrow> 160 \<le> j \<and> j < 672"
    using assms(2) by (auto simp: unat_sub_if' unat_of_nat64)
  moreover have "160 \<le> j \<Longrightarrow> unat (of_nat j - 160 :: u64) = j - 160"
    using assms(2) by (simp add: unat_sub_if' unat_of_nat64)
  ultimately show ?thesis
    using assms(2) by (simp add: save_mem_def fxsave_apply proc_fxsave_def e copy_regs_apply[OF s] unat_of_nat64)
qed

lemma window_out: "\<not> unat (w :: u64) < 1232 \<Longrightarrow> \<not> unat (w - 160) < 512"
  by (auto simp: unat_sub_if')

lemma save_mem_sep:
  assumes "sep regs 152 c 1232" and "sep c 1232 b k" and "j < k"
  shows "save_mem regs c img m (b + of_nat j) = m (b + of_nat j)"
proof -
  have s: "sep c 152 regs 152" using sep_shorter[OF assms(1)] by (simp add: sep_sym)
  have 1: "\<not> unat (b + of_nat j - c) < 1232" by (rule sep_notin[OF assms(2,3)])
  have e: "b + of_nat j - (c + 160) = b + of_nat j - c - 160" by (simp add: algebra_simps)
  have "\<not> unat (b + of_nat j - (c + 160)) < 512" unfolding e by (rule window_out[OF 1])
  with 1 show ?thesis by (simp add: save_mem_def fxsave_apply proc_fxsave_def copy_regs_apply[OF s])
qed

lemma load_mem_frame:
  assumes "sep regs 152 n 1232" and "j < 152"
  shows "load_mem regs n m (regs + of_nat j) = m (n + of_nat j)"
  using copy_regs_apply[OF sep_shorter[OF assms(1), of 152 152], of m "regs + of_nat j"] assms(2)
  by (simp add: load_mem_def unat_of_nat64)

lemma load_mem_block:
  assumes "sep regs 152 n 1232" and "sep regs 152 p 1232" and "j < 1232"
  shows "load_mem regs n m (p + of_nat j) = m (p + of_nat j)"
  using copy_regs_apply[OF sep_shorter[OF assms(1), of 152 152], of m "p + of_nat j"] sep_notin[OF assms(2,3)]
  by (simp add: load_mem_def)

lemma sched_next_in:
  assumes "sched_ok regs ring s" and "p \<in> set ring"
  shows "proc_next (mem s) p \<in> set ring"
proof -
  obtain i where i: "i < length ring" "p = ring ! i" using assms(2) by (metis in_set_conv_nth)
  then have "0 < length ring" by linarith
  then have "Suc i mod length ring < length ring" by simp
  then show ?thesis using assms(1) i by (simp add: sched_ok_def)
qed

lemma schedule_eq:
  assumes "blocks_ok regs ring" and "sched_ok regs ring s"
  shows "schedule regs s = s\<lparr>cur_proc := proc_next (mem s) (cur_proc s),
      mem := load_mem regs (proc_next (mem s) (cur_proc s)) (save_mem regs (cur_proc s) (fpu s) (mem s)),
      fpu := fxrstor (proc_fxsave (proc_next (mem s) (cur_proc s)))
        (load_mem regs (proc_next (mem s) (cur_proc s)) (save_mem regs (cur_proc s) (fpu s) (mem s)))\<rparr>"
proof -
  let ?c = "cur_proc s"
  have c: "?c \<in> set ring" using assms(2) by (simp add: sched_ok_def)
  have "proc_next (mem s) ?c \<in> set ring" by (rule sched_next_in[OF assms(2) c])
  then have n0: "proc_next (mem s) ?c \<noteq> 0" using assms(1) by (auto simp: blocks_ok_def)
  have c0: "?c \<noteq> 0" using assms(1) c by (auto simp: blocks_ok_def)
  have "proc_next (save_mem regs ?c (fpu s) (mem s)) ?c = proc_next (mem s) ?c"
    unfolding proc_next_def
  proof (rule rd64_bytes)
    fix k :: nat assume "k < 8"
    then show "save_mem regs ?c (fpu s) (mem s) (?c + 1216 + of_nat k) = mem s (?c + 1216 + of_nat k)"
      using save_mem_cur[OF frame_sep[OF assms(1) c], of "1216 + k" "fpu s" "mem s"] by (simp add: add.assoc)
  qed
  then have "proc_next (fxsave (proc_fxsave ?c) (fpu s) (copy_regs ?c regs (mem s))) ?c = proc_next (mem s) ?c"
    by (simp add: save_mem_def)
  then show ?thesis
    using assms(2) n0 c0 by (simp add: schedule_def sched_ok_def Let_def save_mem_def load_mem_def)
qed

text \<open>The memory after a switch, on the control blocks and on the interrupt frame.\<close>

lemma switch_block:
  assumes b: "blocks_ok regs ring" and c: "c \<in> set ring" and n: "n \<in> set ring" and p: "p \<in> set ring" and j: "j < 1232"
  shows "load_mem regs n (save_mem regs c img m) (p + of_nat j) =
    (if p = c \<and> j < 152 then m (regs + of_nat j) else if p = c \<and> 160 \<le> j \<and> j < 672 then img ! (j - 160)
     else m (p + of_nat j))"
proof (cases "p = c")
  case True
  then show ?thesis
    using load_mem_block[OF frame_sep[OF b n] frame_sep[OF b p] j] save_mem_cur[OF frame_sep[OF b c] j] by simp
next
  case False
  then have "sep c 1232 p 1232" using block_sep[OF b c p] by auto
  from save_mem_sep[OF frame_sep[OF b c] this j] False show ?thesis
    using load_mem_block[OF frame_sep[OF b n] frame_sep[OF b p] j] by simp
qed

lemma switch_frame:
  assumes b: "blocks_ok regs ring" and c: "c \<in> set ring" and n: "n \<in> set ring" and j: "j < 152"
  shows "load_mem regs n (save_mem regs c img m) (regs + of_nat j) = load_mem regs n (save_mem regs c img m) (n + of_nat j)"
  using load_mem_frame[OF frame_sep[OF b n] j] load_mem_block[OF frame_sep[OF b n] frame_sep[OF b n]] j by simp

lemma switch_saved:
  assumes b: "blocks_ok regs ring" and c: "c \<in> set ring" and n: "n \<in> set ring" and p: "p \<in> set ring" and l: "length img = 512"
  shows "saved_ctx (load_mem regs n (save_mem regs c img m)) p =
    (if p = c then (map (\<lambda>r. rd64 m (regs + r)) regs_order, img) else saved_ctx m p)"
proof -
  let ?m = "load_mem regs n (save_mem regs c img m)"
  note at = switch_block[OF b c n p, of _ img m]
  have fx: "?m (p + 160 + of_nat j) = (if p = c then img ! j else m (p + 160 + of_nat j))" if "j < 512" for j
    using at[of "160 + j"] that by (auto simp: add.assoc)
  show ?thesis
  proof (cases "p = c")
    case True
    have r: "map (\<lambda>r. rd64 ?m (p + r)) regs_order = map (\<lambda>r. rd64 m (regs + r)) regs_order"
      by (rule regs_shift) (use at True in simp)
    have "fxrstor (p + 160) ?m = img"
      using fx l True by (intro nth_equalityI) (simp_all add: fxrstor_def rd8_def)
    with True r show ?thesis by (simp add: saved_ctx_def proc_fxsave_def)
  next
    case False
    have r: "map (\<lambda>r. rd64 ?m (p + r)) regs_order = map (\<lambda>r. rd64 m (p + r)) regs_order"
      by (rule regs_shift) (use at False in simp)
    have "fxrstor (p + 160) ?m = fxrstor (p + 160) m"
      by (rule fxrstor_shift) (use fx False in simp)
    with False r show ?thesis by (simp add: saved_ctx_def proc_fxsave_def)
  qed
qed

lemma switch_next:
  assumes b: "blocks_ok regs ring" and c: "c \<in> set ring" and n: "n \<in> set ring" and p: "p \<in> set ring"
  shows "proc_next (load_mem regs n (save_mem regs c img m)) p = proc_next m p"
  unfolding proc_next_def
proof (rule rd64_bytes)
  fix k :: nat assume "k < 8"
  then show "load_mem regs n (save_mem regs c img m) (p + 1216 + of_nat k) = m (p + 1216 + of_nat k)"
    using switch_block[OF b c n p, of "1216 + k" img m] by (simp add: add.assoc)
qed

section \<open>The kernel's scheduler is a round-robin scheduler\<close>

text \<open>A program that runs leaves new register contents in the interrupt frame and in the FPU.\<close>

definition store_regs :: "u64 \<Rightarrow> u64 list \<Rightarrow> memory \<Rightarrow> memory" where
  "store_regs regs vs m = fold (\<lambda>(r, v) m. wr64 m (regs + r) v) (zip regs_order vs) m"

definition run_program :: "u64 \<Rightarrow> ctx \<Rightarrow> 'a procs_scheme \<Rightarrow> 'a procs_scheme" where
  "run_program regs c s = s\<lparr>mem := store_regs regs (fst c) (mem s), fpu := snd c\<rparr>"

definition ctx_ok :: "ctx \<Rightarrow> bool" where
  "ctx_ok c \<longleftrightarrow> length (fst c) = length regs_order \<and> length (snd c) = 512"

lemma store_words_out:
  assumes "\<forall>r \<in> fst ` set rvs. unat r + 8 \<le> 152" and "152 \<le> unat (b - regs)"
  shows "fold (\<lambda>(r, v) m. wr64 m (regs + r) v) rvs m b = m b"
  using assms(1)
proof (induction rvs arbitrary: m)
  case (Cons rv rvs)
  obtain r v where rv: "rv = (r, v)" by force
  have "unat (b - regs) = unat r + unat (b - (regs + r))"
    using Cons.prems assms(2) rv unat_sub[of r "b - regs"] by (simp add: word_le_nat_alt diff_diff_add)
  then have "8 \<le> unat (b - (regs + r))" using Cons.prems assms(2) rv by simp
  then have "wr64 m (regs + r) v b = m b" using c64.wr_agree[of "regs + r" m v] by (simp add: agree_off_def)
  then show ?case using Cons rv by simp
qed simp

lemma store_regs_out:
  assumes "152 \<le> unat (b - regs)"
  shows "store_regs regs vs m b = m b"
proof -
  have "\<forall>r \<in> fst ` set (zip regs_order vs). unat r + 8 \<le> 152"
    using regs_order_bound by (fastforce dest: set_zip_leftD)
  from store_words_out[OF this assms] show ?thesis by (simp add: store_regs_def)
qed

lemma store_words_in:
  assumes "distinct (map fst rvs)" and "\<forall>r \<in> fst ` set rvs. \<forall>r' \<in> fst ` set rvs. r \<noteq> r' \<longrightarrow> sep r 8 r' 8"
    and "(r, v) \<in> set rvs"
  shows "rd64 (fold (\<lambda>(r, v) m. wr64 m (regs + r) v) rvs m) (regs + r) = v"
  using assms
proof (induction rvs arbitrary: m rule: rev_induct)
  case (snoc rv rvs)
  obtain r' v' where rv: "rv = (r', v')" by force
  show ?case
  proof (cases "(r, v) \<in> set rvs")
    case True
    then have "r \<noteq> r'" using snoc.prems(1) rv by force
    then have "sep r' 8 r 8" using snoc.prems(2) True rv by force
    then have "sep (regs + r') 8 (regs + r) 8" by (simp add: sep_def)
    with snoc True rv show ?thesis by (simp add: mem_simps)
  next
    case False
    then show ?thesis using snoc.prems(3) rv by (simp add: mem_simps)
  qed
qed simp

lemma regs_order_distinct: "distinct regs_order"
  by (simp add: regs_order_def layout_simps)

lemma regs_order_mod: "r \<in> set regs_order \<Longrightarrow> unat r mod 8 = 0"
  by (auto simp: regs_order_def layout_simps)

lemma regs_order_sep:
  assumes "r \<in> set regs_order" and "r' \<in> set regs_order" and "r \<noteq> r'"
  shows "sep r 8 r' 8"
proof -
  have b: "unat r + 8 \<le> 152" "unat r' + 8 \<le> 152" by (rule regs_order_bound; fact)+
  have "unat r mod 8 = 0" "unat r' mod 8 = 0" by (rule regs_order_mod; fact)+
  moreover have "unat r \<noteq> unat r'" using assms(3) by (simp add: word_unat_eq_iff)
  ultimately have "unat r + 8 \<le> unat r' \<or> unat r' + 8 \<le> unat r" by presburger
  then show ?thesis using b by (auto simp: sep_def unat_sub_if')
qed

lemma store_regs_in:
  assumes "length vs = length regs_order"
  shows "map (\<lambda>r. rd64 (store_regs regs vs m) (regs + r)) regs_order = vs"
proof (rule nth_equalityI)
  fix i assume "i < length (map (\<lambda>r. rd64 (store_regs regs vs m) (regs + r)) regs_order)"
  then have i: "i < length regs_order" by simp
  then have "(regs_order ! i, vs ! i) \<in> set (zip regs_order vs)" using assms by (auto simp: in_set_zip)
  moreover have "fst ` set (zip regs_order vs) = set regs_order" using assms by (metis list.set_map map_fst_zip)
  ultimately have "rd64 (store_regs regs vs m) (regs + regs_order ! i) = vs ! i"
    unfolding store_regs_def
    by (intro store_words_in) (use assms regs_order_distinct regs_order_sep in auto)
  then show "map (\<lambda>r. rd64 (store_regs regs vs m) (regs + r)) regs_order ! i = vs ! i" using i by simp
qed (use assms in simp)

lemma store_regs_block:
  assumes "sep regs 152 p 1232" and "j < 1232"
  shows "store_regs regs vs m (p + of_nat j) = m (p + of_nat j)"
  using sep_notin[OF assms] by (intro store_regs_out) simp

lemma sched_cur: "sched_ok regs ring s \<Longrightarrow> cur_proc s \<in> set ring"
  by (simp add: sched_ok_def)

lemmas switch_in = sched_cur sched_next_in[OF _ sched_cur]

lemma schedule_ok:
  assumes b: "blocks_ok regs ring" and s: "sched_ok regs ring s"
  shows "sched_ok regs ring (schedule regs s)"
proof -
  have "proc_next (mem (schedule regs s)) p = proc_next (mem s) p" if "p \<in> set ring" for p
    using switch_next[OF b switch_in(1)[OF s] switch_in(2)[OF s s] that] by (simp add: schedule_eq[OF b s])
  then have "\<forall>i < length ring. proc_next (mem (schedule regs s)) (ring ! i) = ring ! (Suc i mod length ring)"
    using s by (simp add: sched_ok_def)
  moreover have "cur_proc (schedule regs s) \<in> set ring" "proc_queue (schedule regs s) = proc_queue s"
    "length (fpu (schedule regs s)) = 512"
    using switch_in(2)[OF s s] by (simp_all add: schedule_eq[OF b s] fxrstor_def)
  ultimately show ?thesis using s by (simp add: sched_ok_def)
qed

lemma schedule_cur:
  assumes "blocks_ok regs ring" and "sched_ok regs ring s" and "i < length ring" and "cur_proc s = ring ! i"
  shows "cur_proc (schedule regs s) = ring ! (Suc i mod length ring)"
  using assms(2-4) by (simp add: schedule_eq[OF assms(1,2)] sched_ok_def)

lemma schedule_saved:
  assumes b: "blocks_ok regs ring" and s: "sched_ok regs ring s" and p: "p \<in> set ring"
  shows "saved_ctx (mem (schedule regs s)) p = (if p = cur_proc s then running_ctx regs s else saved_ctx (mem s) p)"
proof -
  have "length (fpu s) = 512" using s by (simp add: sched_ok_def)
  from switch_saved[OF b switch_in(1)[OF s] switch_in(2)[OF s s] p this] show ?thesis
    by (simp add: schedule_eq[OF b s] running_ctx_def)
qed

lemma schedule_running:
  assumes b: "blocks_ok regs ring" and s: "sched_ok regs ring s"
  shows "running_ctx regs (schedule regs s) = saved_ctx (mem (schedule regs s)) (cur_proc (schedule regs s))"
proof -
  let ?n = "proc_next (mem s) (cur_proc s)"
  let ?m = "load_mem regs ?n (save_mem regs (cur_proc s) (fpu s) (mem s))"
  have "map (\<lambda>r. rd64 ?m (regs + r)) regs_order = map (\<lambda>r. rd64 ?m (?n + r)) regs_order"
    by (rule regs_shift) (rule switch_frame[OF b switch_in(1)[OF s] switch_in(2)[OF s s]])
  then show ?thesis by (simp add: schedule_eq[OF b s] running_ctx_def saved_ctx_def)
qed

lemma run_program_saved:
  assumes b: "blocks_ok regs ring" and p: "p \<in> set ring"
  shows "saved_ctx (mem (run_program regs c s)) p = saved_ctx (mem s) p"
proof -
  note at = store_regs_block[OF frame_sep[OF b p], of _ "fst c" "mem s"]
  have "fxrstor (p + 160) (store_regs regs (fst c) (mem s)) = fxrstor (p + 160) (mem s)"
    by (rule fxrstor_shift) (use at[of "160 + _"] in \<open>simp add: add.assoc\<close>)
  moreover have "map (\<lambda>r. rd64 (store_regs regs (fst c) (mem s)) (p + r)) regs_order =
      map (\<lambda>r. rd64 (mem s) (p + r)) regs_order"
    by (rule regs_shift) (use at in simp)
  ultimately show ?thesis by (simp add: saved_ctx_def run_program_def proc_fxsave_def)
qed

lemma run_program_ok:
  assumes b: "blocks_ok regs ring" and s: "sched_ok regs ring s" and c: "ctx_ok c"
  shows "sched_ok regs ring (run_program regs c s)"
proof -
  have "proc_next (store_regs regs (fst c) (mem s)) p = proc_next (mem s) p" if "p \<in> set ring" for p
    unfolding proc_next_def
    by (rule rd64_bytes) (use store_regs_block[OF frame_sep[OF b that], of "1216 + _"] in \<open>simp add: add.assoc\<close>)
  then show ?thesis using s c by (simp add: sched_ok_def run_program_def ctx_ok_def)
qed

definition proc_event :: "u64 \<Rightarrow> ctx sched_event \<Rightarrow> 'a procs_scheme \<Rightarrow> 'a procs_scheme" where
  "proc_event regs = do_event (schedule regs) (run_program regs)"

definition proc_view :: "u64 \<Rightarrow> 'a procs_scheme \<Rightarrow> u64 \<Rightarrow> ctx" where
  "proc_view regs = view_of cur_proc (running_ctx regs) (\<lambda>s. saved_ctx (mem s))"

definition ring_ok :: "u64 \<Rightarrow> u64 list \<Rightarrow> 'a procs_scheme \<Rightarrow> bool" where
  "ring_ok regs ring s \<longleftrightarrow> blocks_ok regs ring \<and> sched_ok regs ring s"

lemma run_program_fields:
  "cur_proc (run_program regs c s) = cur_proc s"
  "ctx_ok c \<Longrightarrow> running_ctx regs (run_program regs c s) = c"
  by (simp_all add: run_program_def running_ctx_def ctx_ok_def store_regs_in)

interpretation sched: scheduler "schedule regs" "run_program regs" cur_proc "running_ctx regs"
  "\<lambda>s. saved_ctx (mem s)" ring "ring_ok regs ring" ctx_ok for regs ring
  by unfold_locales (auto simp: ring_ok_def schedule_cur schedule_saved schedule_running run_program_saved
      run_program_fields intro: schedule_ok run_program_ok sched_cur)

definition demo_ring :: "u64 list" where
  "demo_ring = [0x1000, 0x3000]"

definition demo_procs :: procs where
  "demo_procs = \<lparr>mem = wr64 (wr64 (\<lambda>_. 0) 0x14C0 0x3000) 0x34C0 0x1000, console = [], kern_start = 0, kern_end = 0,
     pmm_bitmap = \<lparr>bm_bitmap = 0, bm_size = 0\<rparr>, start_of_mem = 0, memorySizeBytes = 0,
     pml4 = 0, cr3 = 0, b_info = 0, invlpg_log = [], heap_ptr = 0, region = 0,
     proc_queue = 0x1000, cur_proc = 0x1000, num_pids = 2, fpu = replicate 512 0, int_enabled = True\<rparr>"

lemma demo_ring_ok: "ring_ok 0x8000 demo_ring demo_procs"
proof -
  have next_eq: "proc_next (mem demo_procs) 0x1000 = 0x3000" "proc_next (mem demo_procs) 0x3000 = 0x1000"
    by (simp_all add: demo_procs_def proc_next_def mem_simps sep_def)
  have "proc_next (mem demo_procs) (demo_ring ! i) = demo_ring ! (Suc i mod length demo_ring)" if "i < length demo_ring" for i
  proof -
    have "i = 0 \<or> i = 1" using that by (auto simp: demo_ring_def)
    then show ?thesis using next_eq by (auto simp: demo_ring_def)
  qed
  moreover have "blocks_ok 0x8000 demo_ring" by (simp add: blocks_ok_def demo_ring_def sep_def)
  ultimately show ?thesis by (simp add: ring_ok_def sched_ok_def demo_procs_def demo_ring_def)
qed





end
