(* ===== verification/Printk.thy ===== *)
theory Printk
  imports Kernel_State "HOL-Library.Char_ord"
begin

text \<open>
  The formatted output of \<^verbatim>\<open>kernel/src/printk/printk.c\<close>.  A string is the list of its characters.  The C
  functions append to a buffer through a moving pointer; the model returns the characters in the
  order they are stored.  \<^verbatim>\<open>number\<close> and \<^verbatim>\<open>vsprintf\<close> are total on well-formed calls: \<open>None\<close> stands for a
  \<^verbatim>\<open>va_arg\<close> without a matching argument.  An integer argument occupies a full 64-bit slot, as the
  code always fetches \<^verbatim>\<open>unsigned long\<close>.
\<close>

section \<open>Numbers\<close>

definition ZEROPAD :: u32 where "ZEROPAD = 1"
definition SIGN :: u32 where "SIGN = 2"
definition PLUS :: u32 where "PLUS = 4"
definition SPACE :: u32 where "SPACE = 8"
definition LEFT :: u32 where "LEFT = 16"
definition SPECIAL :: u32 where "SPECIAL = 32"
definition SMALL :: u32 where "SMALL = 64"

lemmas number_flags [layout_simps] = ZEROPAD_def SIGN_def PLUS_def SPACE_def LEFT_def SPECIAL_def SMALL_def

definition is_digit :: "char \<Rightarrow> bool" where
  "is_digit c \<longleftrightarrow> CHR ''0'' \<le> c \<and> c \<le> CHR ''9''"


fun skip_atoi :: "int \<Rightarrow> string \<Rightarrow> int \<times> string" where
  "skip_atoi i [] = (i, [])"
| "skip_atoi i (c # cs) =
     (if is_digit c then skip_atoi (i * 10 + of_char c - of_char CHR ''0'') cs else (i, c # cs))"

definition digits_upper :: string where "digits_upper = ''0123456789ABCDEFGHIJKLMNOPQRSTUVWXYZ''"
definition digits_lower :: string where "digits_lower = ''0123456789abcdefghijklmnopqrstuvwxyz''"

function num_digits :: "string \<Rightarrow> u64 \<Rightarrow> u64 \<Rightarrow> string" where
  "num_digits digits base num =
     (if num \<noteq> 0 \<and> base > 1
      then digits ! unat (num mod base) # num_digits digits base (num div base)
      else [])"
  by auto

termination
proof (relation "measure (\<lambda>(_, _, num). unat num)")
  fix digits :: string and base num :: u64
  assume "num \<noteq> 0 \<and> base > 1"
  then have "unat num div unat base < unat num"
    by (intro div_less_dividend) (auto simp: word_less_nat_alt unat_gt_0)
  then show "((digits, base, num div base), digits, base, num) \<in> measure (\<lambda>(_, _, num). unat num)"
    by (simp add: unat_div_distrib)
qed simp

text \<open>
  The three counting loops of the C code, with the value of the counter afterwards:
  \<^verbatim>\<open>while (n-- > 0)\<close>, \<^verbatim>\<open>while (--n > 0)\<close> and \<^verbatim>\<open>while (len < n--)\<close>.
\<close>

definition pad_post :: "char \<Rightarrow> int \<Rightarrow> string \<times> int" where
  "pad_post c n = (replicate (nat n) c, if 0 < n then - 1 else n - 1)"

definition pad_pre :: "char \<Rightarrow> int \<Rightarrow> string \<times> int" where
  "pad_pre c n = (replicate (nat (n - 1)) c, if 1 < n then 0 else n - 1)"

definition pad_len :: "char \<Rightarrow> int \<Rightarrow> int \<Rightarrow> string \<times> int" where
  "pad_len c len n = (replicate (nat (n - len)) c, if len < n then len - 1 else n - 1)"

definition flag :: "u32 \<Rightarrow> u32 \<Rightarrow> bool" where
  "flag type f \<longleftrightarrow> type AND f \<noteq> 0"

definition number_layout :: "bool \<Rightarrow> bool \<Rightarrow> string \<Rightarrow> string \<Rightarrow> string \<Rightarrow> int \<Rightarrow> int \<Rightarrow> string" where
  "number_layout zeropad left sign prefix tmp sz precision =
     (let c = (if zeropad then CHR ''0'' else CHR '' '');
          i = int (length tmp);
          precision = (if i > precision then i else precision);
          sz = sz - precision;
          (out1, sz) = (if \<not> (zeropad \<or> left) then pad_post CHR '' '' sz else ([], sz));
          (out2, sz) = (if \<not> left then pad_post c sz else ([], sz));
          zeros = replicate (nat (precision - i)) CHR ''0'';
          (out3, sz) = pad_post CHR '' '' sz
      in out1 @ sign @ prefix @ out2 @ zeros @ rev tmp @ out3)"

definition number_sign :: "u32 \<Rightarrow> u64 \<Rightarrow> string" where
  "number_sign type num =
     (if flag type SIGN \<and> sint num < 0 then ''-'' else if flag type PLUS then ''+''
      else if flag type SPACE then '' '' else [])"

definition number_abs :: "u32 \<Rightarrow> u64 \<Rightarrow> u64" where
  "number_abs type num = (if flag type SIGN \<and> sint num < 0 then - num else num)"

definition number :: "u64 \<Rightarrow> int \<Rightarrow> int \<Rightarrow> int \<Rightarrow> u32 \<Rightarrow> string option" where
  "number num base sz precision type =
     (let digits = (if flag type SMALL then digits_lower else digits_upper);
          type = (if flag type LEFT then type AND NOT ZEROPAD else type) in
      if base < 2 \<or> base > 36 then None
      else
        let sign = number_sign type num;
            num = number_abs type num;
            sz = (if sign \<noteq> [] then sz - 1 else sz);
            sz = (if flag type SPECIAL then if base = 16 then sz - 2 else if base = 8 then sz - 1 else sz else sz);
            tmp = (if num = 0 then ''0'' else num_digits digits (of_int base) num);
            prefix = (if flag type SPECIAL then if base = 8 then ''0''
                      else if base = 16 then [CHR ''0'', digits ! 33] else [] else [])
        in Some (number_layout (flag type ZEROPAD) (flag type LEFT) sign prefix tmp sz precision))"

section \<open>Format strings\<close>

fun parse_flags :: "string \<Rightarrow> u32 \<Rightarrow> string \<times> u32" where
  "parse_flags [] flags = ([], flags)"
| "parse_flags (c # cs) flags =
     (if c = CHR ''-'' then parse_flags cs (flags OR LEFT)
      else if c = CHR ''+'' then parse_flags cs (flags OR PLUS)
      else if c = CHR '' '' then parse_flags cs (flags OR SPACE)
      else if c = CHR ''#'' then parse_flags cs (flags OR SPECIAL)
      else if c = CHR ''0'' then parse_flags cs (flags OR ZEROPAD)
      else (c # cs, flags))"

definition starts :: "(char \<Rightarrow> bool) \<Rightarrow> string \<Rightarrow> bool" where
  "starts P cs \<longleftrightarrow> cs \<noteq> [] \<and> P (hd cs)"

fun va_int :: "vararg list \<Rightarrow> (int \<times> vararg list) option" where
  "va_int (Arg_word w # args) = Some (sint (ucast w :: u32), args)"
| "va_int _ = None"

definition parse_width :: "string \<Rightarrow> u32 \<Rightarrow> vararg list \<Rightarrow> (int \<times> string \<times> u32 \<times> vararg list) option" where
  "parse_width fmt flags args =
     (if starts is_digit fmt then let (w, fmt) = skip_atoi 0 fmt in Some (w, fmt, flags, args)
      else if starts ((=) CHR ''*'') fmt then do {
        (w, args) \<leftarrow> va_int args;
        Some (if w < 0 then (- w, fmt, flags OR LEFT, args) else (w, fmt, flags, args))
      } else Some (- 1, fmt, flags, args))"

definition parse_precision :: "string \<Rightarrow> vararg list \<Rightarrow> (int \<times> string \<times> vararg list) option" where
  "parse_precision fmt args =
     (if starts ((=) CHR ''.'') fmt then do {
        let fmt = tl fmt;
        (p, fmt, args) \<leftarrow>
          (if starts is_digit fmt then let (p, fmt) = skip_atoi 0 fmt in Some (p, fmt, args)
           else if starts ((=) CHR ''*'') fmt then do { (p, args) \<leftarrow> va_int args; Some (p, fmt, args) }
           else Some (- 1, fmt, args));
        Some (if p < 0 then 0 else p, fmt, args)
      } else Some (- 1, fmt, args))"

definition parse_qualifier :: "string \<Rightarrow> string" where
  "parse_qualifier fmt = (if starts (\<lambda>c. c \<in> {CHR ''h'', CHR ''l'', CHR ''L''}) fmt then tl fmt else fmt)"

record vs_state =
  vs_out :: string
  vs_args :: "vararg list"
  vs_stores :: "(u64 \<times> u32) list"

definition conv_char :: "u32 \<Rightarrow> int \<Rightarrow> vs_state \<Rightarrow> vs_state option" where
  "conv_char flags fw s =
     (case vs_args s of
        Arg_word w # args \<Rightarrow>
          let (out1, fw) = (if \<not> flag flags LEFT then pad_pre CHR '' '' fw else ([], fw));
              (out2, fw) = pad_pre CHR '' '' fw
          in Some (s\<lparr>vs_out := vs_out s @ out1 @ [char_of (unat (ucast w :: u8))] @ out2, vs_args := args\<rparr>)
      | _ \<Rightarrow> None)"

definition conv_str :: "u32 \<Rightarrow> int \<Rightarrow> int \<Rightarrow> vs_state \<Rightarrow> vs_state option" where
  "conv_str flags fw precision s =
     (case vs_args s of
        Arg_str str # args \<Rightarrow>
          let len = int (length str);
              len = (if precision < 0 then len else if len > precision then precision else len);
              (out1, fw) = (if \<not> flag flags LEFT then pad_len CHR '' '' len fw else ([], fw));
              (out2, fw) = pad_len CHR '' '' len fw
          in Some (s\<lparr>vs_out := vs_out s @ out1 @ take (nat len) str @ out2, vs_args := args\<rparr>)
      | _ \<Rightarrow> None)"

definition conv_num :: "int \<Rightarrow> u32 \<Rightarrow> int \<Rightarrow> int \<Rightarrow> vs_state \<Rightarrow> vs_state option" where
  "conv_num base flags fw precision s =
     (case vs_args s of
        Arg_word w # args \<Rightarrow> do {
          out \<leftarrow> number w base fw precision flags;
          Some (s\<lparr>vs_out := vs_out s @ out, vs_args := args\<rparr>)
        }
      | _ \<Rightarrow> None)"

definition conv_store :: "vs_state \<Rightarrow> vs_state option" where
  "conv_store s =
     (case vs_args s of
        Arg_word w # args \<Rightarrow>
          Some (s\<lparr>vs_stores := vs_stores s @ [(w, of_nat (length (vs_out s)))], vs_args := args\<rparr>)
      | _ \<Rightarrow> None)"

definition conv :: "char \<Rightarrow> u32 \<Rightarrow> int \<Rightarrow> int \<Rightarrow> vs_state \<Rightarrow> vs_state option" where
  "conv c flags fw precision s =
     (if c = CHR ''c'' then conv_char flags fw s
      else if c = CHR ''s'' then conv_str flags fw precision s
      else if c = CHR ''o'' then conv_num 8 flags fw precision s
      else if c = CHR ''p'' then
        (if fw = - 1 then conv_num 16 (flags OR ZEROPAD) 8 precision s else conv_num 16 flags fw precision s)
      else if c = CHR ''x'' then conv_num 16 (flags OR SMALL) fw precision s
      else if c = CHR ''X'' then conv_num 16 flags fw precision s
      else if c = CHR ''d'' \<or> c = CHR ''i'' then conv_num 10 (flags OR SIGN) fw precision s
      else if c = CHR ''u'' then conv_num 10 flags fw precision s
      else if c = CHR ''n'' then conv_store s
      else Some (s\<lparr>vs_out := vs_out s @ (if c \<noteq> CHR ''%'' then ''%'' else []) @ [c]\<rparr>))"

definition directive :: "string \<Rightarrow> vs_state \<Rightarrow> (string \<times> vs_state) option" where
  "directive fmt s = do {
     let (fmt, flags) = parse_flags fmt 0;
     (field_width, fmt, flags, args) \<leftarrow> parse_width fmt flags (vs_args s);
     (precision, fmt, args) \<leftarrow> parse_precision fmt args;
     let fmt = parse_qualifier fmt;
     let s = s\<lparr>vs_args := args\<rparr>;
     (case fmt of
        [] \<Rightarrow> Some ([], s\<lparr>vs_out := vs_out s @ ''%''\<rparr>)
      | c # cs \<Rightarrow> do { s \<leftarrow> conv c flags field_width precision s; Some (cs, s) })
   }"

lemma skip_atoi_length: "length (snd (skip_atoi i cs)) \<le> length cs"
  by (induction i cs rule: skip_atoi.induct) auto

lemma parse_flags_length: "length (fst (parse_flags cs f)) \<le> length cs"
  by (induction cs f rule: parse_flags.induct) auto

lemma directive_length:
  assumes "directive fmt s = Some (fmt', s')"
  shows "length fmt' \<le> length fmt"
proof -
  obtain f1 fl where 1: "parse_flags fmt 0 = (f1, fl)" by force
  from assms obtain w f2 fl2 a2 where 2: "parse_width f1 fl (vs_args s) = Some (w, f2, fl2, a2)"
    by (auto simp: directive_def 1 bind_eq_Some_conv)
  from assms obtain p f3 a3 where 3: "parse_precision f2 a2 = Some (p, f3, a3)"
    by (auto simp: directive_def 1 2 bind_eq_Some_conv)
  have "length f1 \<le> length fmt" using parse_flags_length[of fmt 0] 1 by simp
  moreover have "length f2 \<le> length f1"
    using 2 skip_atoi_length[of 0 f1] by (auto simp: parse_width_def bind_eq_Some_conv split: if_splits prod.splits)
  moreover have "length f3 \<le> length f2"
    using 3 skip_atoi_length[of 0 "tl f2"]
    by (auto simp: parse_precision_def Let_def bind_eq_Some_conv split: if_splits prod.splits)
  moreover have "length (parse_qualifier f3) \<le> length f3" by (simp add: parse_qualifier_def)
  moreover have "length fmt' \<le> length (parse_qualifier f3)"
    using assms by (auto simp: directive_def 1 2 3 Let_def bind_eq_Some_conv split: list.splits)
  ultimately show ?thesis by simp
qed

function vsprintf_loop :: "string \<Rightarrow> vs_state \<Rightarrow> vs_state option" where
  "vsprintf_loop [] s = Some s"
| "vsprintf_loop (c # cs) s =
     (if c \<noteq> CHR ''%'' then vsprintf_loop cs (s\<lparr>vs_out := vs_out s @ [c]\<rparr>)
      else case directive cs s of None \<Rightarrow> None | Some (cs', s') \<Rightarrow> vsprintf_loop cs' s')"
  by pat_completeness auto

termination
  by (relation "measure (\<lambda>(cs, _). length cs)") (auto dest: directive_length simp: less_Suc_eq_le)

definition vsprintf :: "string \<Rightarrow> vararg list \<Rightarrow> (string \<times> (u64 \<times> u32) list) option" where
  "vsprintf fmt args = do {
     s \<leftarrow> vsprintf_loop fmt \<lparr>vs_out = [], vs_args = args, vs_stores = []\<rparr>;
     Some (vs_out s, vs_stores s)
   }"


section \<open>Printed numbers\<close>

declare num_digits.simps [simp del]

definition digit_val :: "string \<Rightarrow> char \<Rightarrow> nat" where
  "digit_val digits c = (LEAST i. i < length digits \<and> digits ! i = c)"

primrec digits_val :: "string \<Rightarrow> nat \<Rightarrow> string \<Rightarrow> nat" where
  "digits_val digits base [] = 0"
| "digits_val digits base (c # cs) = digit_val digits c + base * digits_val digits base cs"

lemma digit_val_nth:
  assumes "distinct digits" and "i < length digits"
  shows "digit_val digits (digits ! i) = i"
  unfolding digit_val_def using assms by (intro Least_equality) (auto simp: nth_eq_iff_index_eq)

lemma digits_36:
  "length digits_upper = 36" "length digits_lower = 36" "distinct digits_upper" "distinct digits_lower"
  by (simp_all add: digits_upper_def digits_lower_def)

lemma num_digits_val:
  assumes "distinct digits" and "unat base \<le> length digits" and "base > 1"
  shows "digits_val digits (unat base) (num_digits digits base num) = unat num"
  using assms
proof (induction digits base num rule: num_digits.induct)
  case (1 digits base num)
  show ?case
  proof (cases "num = 0")
    case False
    have b: "0 < unat base" using "1.prems"(3) by (simp add: word_less_nat_alt)
    have "unat (num mod base) < length digits"
      using "1.prems"(2) b by (simp add: unat_mod_distrib less_le_trans[OF mod_less_divisor])
    then show ?thesis
      using False "1.IH" "1.prems" digit_val_nth[OF "1.prems"(1)]
      by (subst num_digits.simps) (simp add: unat_mod_distrib unat_div_distrib)
  qed (simp add: num_digits.simps)
qed

lemma num_digits_nonempty: "num \<noteq> 0 \<Longrightarrow> base > 1 \<Longrightarrow> num_digits digits base num \<noteq> []"
  by (subst num_digits.simps) simp

lemma num_digits_last:
  assumes "base > 1" and "unat base \<le> length digits" and "distinct digits" and "num \<noteq> 0"
  shows "last (num_digits digits base num) \<noteq> digits ! 0"
  using assms
proof (induction digits base num rule: num_digits.induct)
  case (1 digits base num)
  have b: "1 < unat base" using "1.prems"(1) by (simp add: word_less_nat_alt)
  show ?case
  proof (cases "num div base = 0")
    case True
    have "unat num div unat base = 0" using True by (simp flip: unat_div_distrib)
    then have lt: "unat num < unat base" using b by (simp add: div_eq_0_iff)
    then have "num mod base = num" by (simp add: word_unat_eq_iff unat_mod_distrib)
    moreover have "unat num < length digits" "0 < length digits" "unat num \<noteq> 0"
      using lt "1.prems" by (auto simp: unat_gt_0)
    then have "digits ! unat num \<noteq> digits ! 0"
      using "1.prems"(3) by (subst nth_eq_iff_index_eq)
    ultimately show ?thesis
      using True "1.prems" by (simp add: num_digits.simps[of _ _ num] num_digits.simps[of _ _ 0])
  next
    case False
    then show ?thesis
      using "1.IH" "1.prems" num_digits_nonempty[OF False "1.prems"(1), of digits]
      by (simp add: num_digits.simps[of _ _ num])
  qed
qed

lemma flag_exp: "flag t (2 ^ n) \<longleftrightarrow> bit t n" if "n < 32"
proof -
  have "t AND 2 ^ n = 0 \<longleftrightarrow> \<not> bit t n"
    using that by (auto simp: bit_and_iff bit_exp_iff intro!: bit_word_eqI dest: arg_cong[where f = "\<lambda>w. bit w n"])
  then show ?thesis by (simp add: flag_def)
qed

lemma flag_bits:
  "flag t ZEROPAD \<longleftrightarrow> bit t 0" "flag t SIGN \<longleftrightarrow> bit t 1" "flag t PLUS \<longleftrightarrow> bit t 2" "flag t SPACE \<longleftrightarrow> bit t 3"
  "flag t LEFT \<longleftrightarrow> bit t 4" "flag t SPECIAL \<longleftrightarrow> bit t 5" "flag t SMALL \<longleftrightarrow> bit t 6"
  "flag t (ZEROPAD + LEFT) \<longleftrightarrow> bit t 0 \<or> bit t 4"
proof -
  show "flag t (ZEROPAD + LEFT) \<longleftrightarrow> bit t 0 \<or> bit t 4"
  proof -
    have "t AND (2 ^ 0 OR 2 ^ 4) = 0 \<longleftrightarrow> t AND 2 ^ 0 = 0 \<and> t AND 2 ^ 4 = 0"
      by (simp only: bit.conj_disj_distrib or_eq_0_iff)
    moreover have "ZEROPAD + LEFT = 2 ^ 0 OR 2 ^ 4" by (simp add: number_flags)
    ultimately have "flag t (ZEROPAD + LEFT) \<longleftrightarrow> flag t (2 ^ 0) \<or> flag t (2 ^ 4)"
      unfolding flag_def by (simp only:) blast
    then show ?thesis using flag_exp[of 0 t] flag_exp[of 4 t] by simp
  qed
qed (use flag_exp[of 0 t] flag_exp[of 1 t] flag_exp[of 2 t] flag_exp[of 3 t] flag_exp[of 4 t]
      flag_exp[of 5 t] flag_exp[of 6 t] in \<open>simp_all add: number_flags\<close>)

lemma bit_clear_zeropad: "bit (t AND NOT ZEROPAD) n \<longleftrightarrow> bit t n \<and> n \<noteq> 0"
  using bit_imp_le_length[of t n] by (auto simp: bit_and_iff bit_not_iff number_flags)

definition num_text :: "string \<Rightarrow> u64 \<Rightarrow> u64 \<Rightarrow> string" where
  "num_text digits base num = (if num = 0 then ''0'' else rev (num_digits digits base num))"

lemma number_layout_plain:
  assumes "sz \<le> 0" and "precision \<le> 0"
  shows "number_layout False False [] [] tmp sz precision = rev tmp"
  using assms by (auto simp: number_layout_def pad_post_def Let_def)

lemma number_layout_length:
  "precision \<le> int (length tmp) \<Longrightarrow> int (length (number_layout zp lf sign prefix tmp sz precision)) =
     max sz (int (length tmp)) + int (length sign + length prefix)"
  by (cases zp; cases lf) (auto simp: number_layout_def pad_post_def Let_def)

lemma number_plain:
  assumes "2 \<le> base" "base \<le> 36" and "type = 0 \<or> type = SMALL" and "sz \<le> 0" and "precision \<le> 0"
  shows "number num base sz precision type =
    Some (num_text (if type = SMALL then digits_lower else digits_upper) (of_int base) num)"
proof -
  have f: "\<not> flag type LEFT" "\<not> flag type ZEROPAD" "\<not> flag type SIGN" "\<not> flag type PLUS" "\<not> flag type SPACE"
    "\<not> flag type SPECIAL" "flag type SMALL = (type = SMALL)"
    using assms(3) by (auto simp: flag_def number_flags)
  have "number_sign type num = []" "number_abs type num = num" using f by (simp_all add: number_sign_def number_abs_def)
  then show ?thesis using assms(1,2,4,5) f
    by (auto simp: number_def Let_def number_layout_plain num_text_def)
qed

section \<open>Properties\<close>





text \<open>
  A field width given as \<^verbatim>\<open>*\<close> consumes its argument but not its own character, so the conversion that
  follows is never performed: the text \<^verbatim>\<open>%*d\<close> itself is printed.
\<close>

theorem vsprintf_star_width:
  "vsprintf ''%*d'' [Arg_word 5, Arg_word 7] = Some (''%*d'', [])"
  by (simp add: vsprintf_def directive_def parse_width_def parse_precision_def parse_qualifier_def
      starts_def is_digit_def conv_def Let_def)

end
