(* ===== verification/Terminal.thy ===== *)
theory Terminal
  imports Kernel_String Printk
begin

text \<open>
  The framebuffer terminal (\<^verbatim>\<open>kernel/src/terminal/terminal.c\<close>), the log functions on top of it
  (\<^verbatim>\<open>logging/logging.c\<close>), and the panic and stack trace output (\<^verbatim>\<open>utils/panic.c\<close>,
  \<^verbatim>\<open>debug/stacktrace/stacktrace.c\<close>).  Pixels are written to the byte-addressed memory through the
  framebuffer descriptor the loader passed.  The rest of the kernel records its output in \<open>console\<close>;
  \<open>render\<close> replays an item of it on a terminal.
\<close>

section \<open>State and drawing\<close>

record terminal = machine +
  framebuffer :: u64
  psf1_font :: u64
  cursor_x :: u32
  cursor_y :: u32
  char_height :: u32
  fg_color :: u32
  bg_color :: u32

definition fb_address :: "memory \<Rightarrow> u64 \<Rightarrow> u64" where "fb_address m fb = rd64 m fb"
definition fb_buf_size :: "memory \<Rightarrow> u64 \<Rightarrow> u64" where "fb_buf_size m fb = rd64 m (fb + 8)"
definition fb_width :: "memory \<Rightarrow> u64 \<Rightarrow> u32" where "fb_width m fb = rd32 m (fb + 16)"
definition fb_height :: "memory \<Rightarrow> u64 \<Rightarrow> u32" where "fb_height m fb = rd32 m (fb + 20)"
definition fb_pixels_per_sc :: "memory \<Rightarrow> u64 \<Rightarrow> u32" where "fb_pixels_per_sc m fb = rd32 m (fb + 24)"
definition font_header :: "memory \<Rightarrow> u64 \<Rightarrow> u64" where "font_header m f = rd64 m f"
definition font_glyphBuffer :: "memory \<Rightarrow> u64 \<Rightarrow> u64" where "font_glyphBuffer m f = rd64 m (f + 8)"
definition header_charsize :: "memory \<Rightarrow> u64 \<Rightarrow> u8" where "header_charsize m h = rd8 m (h + 3)"

definition TERMINAL_CHAR_WIDTH :: u32 where "TERMINAL_CHAR_WIDTH = 8"

definition palette :: "u32 list" where
  "palette =
     [0x000000, 0x7F0000, 0x007F00, 0x7F7F00, 0x00007F, 0x7F007F, 0x007F7F, 0x7F7F7F,
      0x3F3F3F, 0xFF0000, 0x00FF00, 0xFFFF00, 0x0000FF, 0xFF00FF, 0x00FFFF, 0xFFFFFF]"

definition terminal_set_fg_color_palette :: "u8 \<Rightarrow> 'a terminal_scheme \<Rightarrow> 'a terminal_scheme" where
  "terminal_set_fg_color_palette c t = t\<lparr>fg_color := palette ! unat c\<rparr>"

definition terminal_set_bg_color_palette :: "u8 \<Rightarrow> 'a terminal_scheme \<Rightarrow> 'a terminal_scheme" where
  "terminal_set_bg_color_palette c t = t\<lparr>bg_color := palette ! unat c\<rparr>"

definition terminal_clear :: "'a terminal_scheme \<Rightarrow> 'a terminal_scheme" where
  "terminal_clear t =
     (let t = t\<lparr>cursor_x := 0, cursor_y := 0\<rparr>
      in t\<lparr>mem := memset32 (mem t) (fb_address (mem t) (framebuffer t)) (bg_color t)
             (ucast (fb_width (mem t) (framebuffer t) * fb_height (mem t) (framebuffer t)))\<rparr>)"

definition scroll_pixel :: "u64 \<Rightarrow> nat \<Rightarrow> nat \<Rightarrow> 'a terminal_scheme \<Rightarrow> 'a terminal_scheme" where
  "scroll_pixel fb y x t =
     (let w = fb_width (mem t) (framebuffer t);
          src = of_nat x + (of_nat y + char_height t) * w;
          dst = of_nat x + of_nat y * w
      in t\<lparr>mem := wr32 (mem t) (fb + 4 * ucast dst) (rd32 (mem t) (fb + 4 * ucast src))\<rparr>)"

definition terminal_scroll :: "'a terminal_scheme \<Rightarrow> 'a terminal_scheme" where
  "terminal_scroll t =
     (let fb = fb_address (mem t) (framebuffer t);
          rows = fb_height (mem t) (framebuffer t) - char_height t;
          cols = fb_width (mem t) (framebuffer t);
          t = fold (\<lambda>y. fold (scroll_pixel fb y) [0..<unat cols]) [0..<unat rows] t;
          w = fb_width (mem t) (framebuffer t);
          h = fb_height (mem t) (framebuffer t);
          t = t\<lparr>mem := memset32 (mem t) (fb + 4 * ucast (w * (h - char_height t))) (bg_color t)
                        (ucast (w * char_height t))\<rparr>
      in t\<lparr>cursor_y := cursor_y t - char_height t\<rparr>)"

definition put_pixel :: "u64 \<Rightarrow> u64 \<Rightarrow> nat \<Rightarrow> nat \<Rightarrow> 'a terminal_scheme \<Rightarrow> 'a terminal_scheme" where
  "put_pixel pixPtr fontPtr dy dx t =
     (let x = cursor_x t + of_nat dx;
          y = cursor_y t + of_nat dy;
          p = pixPtr + 4 * scast x + 4 * ucast (y * fb_pixels_per_sc (mem t) (framebuffer t));
          on = sint ((scast (rd8 (mem t) (fontPtr + of_nat dy)) :: u32) AND drop_bit dx 0b10000000) > 0
      in t\<lparr>mem := wr32 (mem t) p (if on then fg_color t else bg_color t)\<rparr>)"

definition terminal_putc :: "u8 \<Rightarrow> 'a terminal_scheme \<Rightarrow> 'a terminal_scheme" where
  "terminal_putc chr t =
     (if chr = 10 then
        (let t = t\<lparr>cursor_x := 0\<rparr>;
             t = t\<lparr>cursor_y := cursor_y t + char_height t\<rparr>
         in if cursor_y t + char_height t > fb_height (mem t) (framebuffer t) then terminal_scroll t else t)
      else
        (let pixPtr = fb_address (mem t) (framebuffer t);
             fontPtr = font_glyphBuffer (mem t) (psf1_font t) +
               scast (ucast chr * ucast (header_charsize (mem t) (font_header (mem t) (psf1_font t))) :: u32);
             ys = nat (sint (cursor_y t + char_height t) - sint (cursor_y t));
             xs = nat (sint (cursor_x t + TERMINAL_CHAR_WIDTH) - sint (cursor_x t));
             t = fold (\<lambda>dy. fold (put_pixel pixPtr fontPtr dy) [0..<xs]) [0..<ys] t;
             t = t\<lparr>cursor_x := cursor_x t + TERMINAL_CHAR_WIDTH\<rparr>;
             t = (if cursor_x t + TERMINAL_CHAR_WIDTH > fb_width (mem t) (framebuffer t)
                  then t\<lparr>cursor_x := 0, cursor_y := cursor_y t + char_height t\<rparr> else t)
         in if cursor_y t + char_height t > fb_height (mem t) (framebuffer t) then terminal_scroll t else t))"

definition terminal_puts :: "u8 list \<Rightarrow> 'a terminal_scheme \<Rightarrow> 'a terminal_scheme" where
  "terminal_puts str t = fold terminal_putc (takeWhile (\<lambda>c. c \<noteq> 0) str) t"

definition terminal_init :: "u64 \<Rightarrow> u64 \<Rightarrow> 'a terminal_scheme \<Rightarrow> 'a terminal_scheme" where
  "terminal_init fb font t =
     (let t = t\<lparr>framebuffer := fb, psf1_font := font\<rparr>;
          t = t\<lparr>char_height := ucast (header_charsize (mem t) (font_header (mem t) font))\<rparr>;
          t = terminal_set_fg_color_palette 15 t
      in terminal_set_bg_color_palette 0 t)"

section \<open>Formatted output\<close>

definition bytes :: "string \<Rightarrow> u8 list" where
  "bytes = map (\<lambda>c. of_nat (of_char c))"

text \<open>The stores of a \<^verbatim>\<open>%n\<close> conversion are performed before the buffer is shown.\<close>

definition do_stores :: "(u64 \<times> u32) list \<Rightarrow> 'a terminal_scheme \<Rightarrow> 'a terminal_scheme" where
  "do_stores ws t = fold (\<lambda>(a, v) t. t\<lparr>mem := wr32 (mem t) a v\<rparr>) ws t"

definition printk :: "string \<Rightarrow> vararg list \<Rightarrow> 'a terminal_scheme \<Rightarrow> 'a terminal_scheme option" where
  "printk fmt args t = do {
     (out, ws) \<leftarrow> vsprintf fmt args;
     let t = do_stores ws t;
     Some (terminal_puts (bytes out) t)
   }"

definition log_color :: "log_level \<Rightarrow> u8" where
  "log_color l = (case l of Log_info \<Rightarrow> 7 | Log_ok \<Rightarrow> 10 | Log_warn \<Rightarrow> 11 | Log_error \<Rightarrow> 9)"

definition log_render ::
  "log_level \<Rightarrow> string \<Rightarrow> string \<Rightarrow> vararg list \<Rightarrow> 'a terminal_scheme \<Rightarrow> 'a terminal_scheme option" where
  "log_render l md fmt args t =
     (let t = terminal_putc 91 t;
          t = terminal_set_fg_color_palette (log_color l) t;
          t = terminal_puts (bytes md) t;
          t = terminal_set_fg_color_palette 15 t;
          t = terminal_puts (bytes '']: '') t
      in do {
        (out, ws) \<leftarrow> vsprintf fmt args;
        let t = do_stores ws t;
        let t = terminal_puts (bytes out) t;
        Some (terminal_putc 10 t)
      })"

definition log_info :: "string \<Rightarrow> string \<Rightarrow> vararg list \<Rightarrow> 'a terminal_scheme \<Rightarrow> 'a terminal_scheme option" where
  "log_info = log_render Log_info"
definition log_ok :: "string \<Rightarrow> string \<Rightarrow> vararg list \<Rightarrow> 'a terminal_scheme \<Rightarrow> 'a terminal_scheme option" where
  "log_ok = log_render Log_ok"
definition log_warn :: "string \<Rightarrow> string \<Rightarrow> vararg list \<Rightarrow> 'a terminal_scheme \<Rightarrow> 'a terminal_scheme option" where
  "log_warn = log_render Log_warn"
definition log_error :: "string \<Rightarrow> string \<Rightarrow> vararg list \<Rightarrow> 'a terminal_scheme \<Rightarrow> 'a terminal_scheme option" where
  "log_error = log_render Log_error"

primrec repeat_opt :: "nat \<Rightarrow> ('s \<Rightarrow> 's option) \<Rightarrow> 's \<Rightarrow> 's option" where
  "repeat_opt 0 f s = Some s"
| "repeat_opt (Suc n) f s = Option.bind (f s) (repeat_opt n f)"

definition panic_bar :: string where "panic_bar = [CHR 0xDB]"

definition kernel_panic :: "string \<Rightarrow> 'a terminal_scheme \<Rightarrow> 'a terminal_scheme option" where
  "kernel_panic message t = do {
     t \<leftarrow> repeat_opt 40 (printk panic_bar []) t;
     t \<leftarrow> printk (CHR 0x0A # panic_bar) [] t;
     t \<leftarrow> printk (CHR 0x0A # panic_bar @ ''  KERNEL PANIC'' @ [CHR 0x0A]) [] t;
     t \<leftarrow> printk (panic_bar @ [CHR 0x0A]) [] t;
     t \<leftarrow> repeat_opt 40 (printk panic_bar []) t;
     t \<leftarrow> printk [CHR 0x0A, CHR 0x0A] [] t;
     printk (''%s'' @ [CHR 0x0A]) [Arg_str message] t
   }"

text \<open>What an item of the kernel's output draws.\<close>

definition render :: "out_item \<Rightarrow> 'a terminal_scheme \<Rightarrow> 'a terminal_scheme option" where
  "render x t =
     (case x of
        Logged l md fmt args \<Rightarrow> log_render l md fmt args t
      | Printed fmt args \<Rightarrow> printk fmt args t
      | Panicked message \<Rightarrow> kernel_panic message t
      | Put_char c \<Rightarrow> Some (terminal_putc c t)
      | Set_fg c \<Rightarrow> Some (terminal_set_fg_color_palette c t)
      | Set_bg c \<Rightarrow> Some (terminal_set_bg_color_palette c t)
      | Clear_screen \<Rightarrow> Some (terminal_clear t)
      | Init_terminal fb font \<Rightarrow> Some (terminal_init fb font t))"

text \<open>
  The frame pointer register is an argument; a stack frame holds the caller's frame pointer and
  the return address.  At most ten frames are printed.
\<close>

fun stack_frames :: "nat \<Rightarrow> u64 \<Rightarrow> u64 \<Rightarrow> 'a terminal_scheme \<Rightarrow> 'a terminal_scheme option" where
  "stack_frames 0 frame stk t = Some t"
| "stack_frames (Suc i) frame stk t =
     (if stk = 0 then Some t
      else do {
        t \<leftarrow> printk (''    %d: %16lx'' @ [CHR 0x0A]) [Arg_word frame, Arg_word (rd64 (mem t) (stk + 8))] t;
        stack_frames i (frame + 1) (rd64 (mem t) stk) t
      })"

definition stacktrace_print :: "u64 \<Rightarrow> 'a terminal_scheme \<Rightarrow> 'a terminal_scheme option" where
  "stacktrace_print rbp t = do {
     t \<leftarrow> printk ('' --- Stack trace ---'' @ [CHR 0x0A]) [] t;
     stack_frames 10 0 rbp t
   }"


section \<open>Drawing stays inside the framebuffer\<close>

definition draws :: "u64 \<Rightarrow> nat \<Rightarrow> 'a terminal_scheme \<Rightarrow> 'a terminal_scheme \<Rightarrow> bool" where
  "draws a n t t' \<longleftrightarrow> t' = t\<lparr>mem := mem t'\<rparr> \<and> agree_off a n (mem t) (mem t')"

lemma draws_refl [simp]: "draws a n t t"
  by (simp add: draws_def)

lemma draws_trans: "draws a n t t' \<Longrightarrow> draws a n t' t'' \<Longrightarrow> draws a n t t''"
  unfolding draws_def by (metis agree_off_trans terminal.surjective terminal.update_convs machine.surjective machine.update_convs(1))

lemma draws_fields:
  assumes "draws a n t t'"
  shows "framebuffer t' = framebuffer t" "psf1_font t' = psf1_font t" "cursor_x t' = cursor_x t"
    "cursor_y t' = cursor_y t" "char_height t' = char_height t"
  using assms unfolding draws_def
  by (metis terminal.select_convs machine.update_convs(1) machine.surjective terminal.surjective)+

lemma draws_fold:
  assumes "\<And>x t'. x \<in> set xs \<Longrightarrow> draws a n t t' \<Longrightarrow> draws a n t' (f x t')"
  shows "draws a n t (fold f xs t)"
  using assms
proof (induction xs rule: rev_induct)
  case (snoc x xs)
  then have "draws a n t (fold f xs t)" by simp
  with snoc.prems[of x] show ?case by (auto intro: draws_trans)
qed simp

lemma wr32_inside:
  assumes "ofs + 4 \<le> n" and "n < 2 ^ 64"
  shows "agree_off a n m (wr32 m (a + of_nat ofs) v)"
proof -
  have "agree_off (a + of_nat ofs) 4 m (wr32 m (a + of_nat ofs) v)" by (rule c32.wr_agree)
  moreover have "unat (of_nat ofs :: u64) = ofs" using assms by (intro unat_of_nat64) simp
  then have "4 \<le> unat (b - (a + of_nat ofs))" if "n \<le> unat (b - a)" for b
    using that assms(1) by (simp add: diff_diff_add[symmetric] unat_sub_if')
  ultimately show ?thesis by (simp add: agree_off_def)
qed

record geometry =
  g_pix :: u64
  g_w :: nat
  g_h :: nat
  g_pp :: nat

definition geom :: "'a terminal_scheme \<Rightarrow> geometry" where
  "geom t = \<lparr>g_pix = fb_address (mem t) (framebuffer t), g_w = unat (fb_width (mem t) (framebuffer t)),
     g_h = unat (fb_height (mem t) (framebuffer t)), g_pp = unat (fb_pixels_per_sc (mem t) (framebuffer t))\<rparr>"

definition area :: "geometry \<Rightarrow> nat" where "area g = 4 * (g_pp g * g_h g)"

definition screen_ok :: "'a terminal_scheme \<Rightarrow> bool" where
  "screen_ok t \<longleftrightarrow> (let g = geom t in
     8 \<le> g_w g \<and> g_w g \<le> g_pp g \<and> 0 < unat (char_height t) \<and> unat (char_height t) \<le> g_h g \<and>
     g_pp g * g_h g < 0x40000000 \<and> sep (g_pix g) (area g) (framebuffer t) 28)"

definition cursor_ok :: "'a terminal_scheme \<Rightarrow> bool" where
  "cursor_ok t \<longleftrightarrow> unat (cursor_x t) + 8 \<le> g_w (geom t) \<and>
     unat (cursor_y t) + unat (char_height t) \<le> g_h (geom t)"

lemma geom_draws:
  assumes "draws a n t t'" and "sep a n (framebuffer t) 28" and "0 < n"
  shows "geom t' = geom t"
proof -
  have ag: "agree_off a n (mem t) (mem t')" using assms(1) by (simp add: draws_def)
  have s: "sep a n (framebuffer t + of_nat i) k" if "i + k \<le> 28" "0 < k" for i k
    using sep_sub[OF assms(2), of 0 n i k] that assms(3) by simp
  show ?thesis
    using s[of 0 8] s[of 16 4] s[of 20 4] s[of 24 4] draws_fields(1)[OF assms(1)]
    by (simp add: geom_def fb_address_def fb_width_def fb_height_def fb_pixels_per_sc_def
        c64.rd_agree[OF ag] c32.rd_agree[OF ag])
qed

lemma screen_draws:
  assumes ok: "screen_ok t" and d: "draws (g_pix (geom t)) (area (geom t)) t t'"
  shows "geom t' = geom t" and "screen_ok t'"
proof -
  have "0 < area (geom t)" using ok by (auto simp: screen_ok_def Let_def area_def)
  then show g: "geom t' = geom t"
    using geom_draws[OF d] ok by (simp add: screen_ok_def Let_def)
  show "screen_ok t'" using ok draws_fields[OF d] g by (simp add: screen_ok_def)
qed

lemma pixel_index:
  fixes x y w h :: nat
  assumes "x < w" and "y < h"
  shows "x + y * w < w * h"
proof -
  have "x + y * w < (y + 1) * w" using assms(1) by simp
  also have "\<dots> \<le> h * w" using assms(2) by (intro mult_le_mono1) simp
  finally show ?thesis by (simp add: mult.commute)
qed

lemma quad_le: "i < n \<Longrightarrow> 4 * i + 4 \<le> 4 * n" for i n :: nat
  by simp

lemma put_pixel_draws:
  assumes ok: "screen_ok t" and cur: "cursor_ok t" and d: "dx < 8" "dy < unat (char_height t)"
  shows "draws (g_pix (geom t)) (area (geom t)) t (put_pixel (g_pix (geom t)) fp dy dx t)"
proof -
  let ?g = "geom t"
  let ?x = "unat (cursor_x t) + dx" and ?y = "unat (cursor_y t) + dy"
  let ?i = "?x + ?y * g_pp ?g"
  note sc = ok[unfolded screen_ok_def Let_def]
  have i: "?i < g_pp ?g * g_h ?g"
    using cur d sc by (intro pixel_index) (auto simp: cursor_ok_def)
  have i30: "?i < 0x40000000" using i sc by linarith
  then have x: "cursor_x t + of_nat dx = of_nat ?x" "?x < 2 ^ 31" by simp_all
  have y: "(cursor_y t + of_nat dy) * fb_pixels_per_sc (mem t) (framebuffer t) = of_nat (?y * g_pp ?g)"
    by (simp add: geom_def)
  have u: "(ucast (of_nat (?y * g_pp ?g) :: u32) :: u64) = of_nat (?y * g_pp ?g)"
    using i30 by (simp only: word_unat_eq_iff) (subst unat_ucast_up, simp, subst unat_of_nat32, simp, subst unat_of_nat64, simp_all)
  have e: "g_pix ?g + 4 * scast (cursor_x t + of_nat dx) +
      4 * ucast ((cursor_y t + of_nat dy) * fb_pixels_per_sc (mem t) (framebuffer t)) = g_pix ?g + of_nat (4 * ?i)"
    unfolding x(1) y u scast_of_nat32[OF x(2)] by (simp add: algebra_simps)
  have "4 * ?i + 4 \<le> area ?g" unfolding area_def by (rule quad_le[OF i])
  moreover have "area ?g < 0x100000000" using sc unfolding area_def by linarith
  then have "area ?g < 2 ^ 64" by simp
  ultimately have "agree_off (g_pix ?g) (area ?g) (mem t) (wr32 (mem t) (g_pix ?g + 4 * scast (cursor_x t + of_nat dx) +
      4 * ucast ((cursor_y t + of_nat dy) * fb_pixels_per_sc (mem t) (framebuffer t))) v)" for v
    unfolding e by (rule wr32_inside)
  then show ?thesis by (simp add: draws_def put_pixel_def Let_def)
qed

lemma cursor_draws: "draws (g_pix (geom t)) (area (geom t)) t t' \<Longrightarrow> screen_ok t \<Longrightarrow> cursor_ok t \<Longrightarrow> cursor_ok t'"
  using screen_draws(1)[of t t'] draws_fields[of _ _ t t'] by (simp add: cursor_ok_def)

lemma glyph_draws:
  assumes ok: "screen_ok t" and cur: "cursor_ok t" and b: "xs \<le> 8" "ys \<le> unat (char_height t)"
  shows "draws (g_pix (geom t)) (area (geom t)) t
    (fold (\<lambda>dy. fold (put_pixel (g_pix (geom t)) fp dy) [0..<xs]) [0..<ys] t)"
proof (rule draws_fold)
  fix dy t1 assume dy: "dy \<in> set [0..<ys]" and d1: "draws (g_pix (geom t)) (area (geom t)) t t1"
  show "draws (g_pix (geom t)) (area (geom t)) t1 (fold (put_pixel (g_pix (geom t)) fp dy) [0..<xs] t1)"
  proof (rule draws_fold)
    fix dx t2 assume dx: "dx \<in> set [0..<xs]" and d2: "draws (g_pix (geom t)) (area (geom t)) t1 t2"
    have d: "draws (g_pix (geom t)) (area (geom t)) t t2" using d1 d2 by (rule draws_trans)
    note s = screen_draws[OF ok d] cursor_draws[OF d ok cur] draws_fields(5)[OF d]
    show "draws (g_pix (geom t)) (area (geom t)) t2 (put_pixel (g_pix (geom t)) fp dy dx t2)"
      using put_pixel_draws[OF s(2,3), of dx dy fp] dx dy b s(1,4) by simp
  qed
qed


lemma ucast_of_nat32_64: "n < 2 ^ 32 \<Longrightarrow> (ucast (of_nat n :: u32) :: u64) = of_nat n"
  by (simp only: word_unat_eq_iff) (subst unat_ucast_up, simp, subst unat_of_nat32, simp, subst unat_of_nat64, simp_all)

lemma area_bounds:
  assumes "screen_ok t"
  shows "i < g_w (geom t) * g_h (geom t) \<Longrightarrow> 4 * i + 4 \<le> area (geom t)" and "area (geom t) < 2 ^ 64"
    and "g_w (geom t) * g_h (geom t) < 0x40000000"
proof -
  note sc = assms[unfolded screen_ok_def Let_def]
  have "g_w (geom t) * g_h (geom t) \<le> g_pp (geom t) * g_h (geom t)" using sc by (intro mult_le_mono1) simp
  moreover have p: "g_pp (geom t) * g_h (geom t) < 0x40000000" using sc by blast
  ultimately show "4 * i + 4 \<le> area (geom t)" if "i < g_w (geom t) * g_h (geom t)"
    using that unfolding area_def by linarith
  show "g_w (geom t) * g_h (geom t) < 0x40000000"
    using p \<open>g_w (geom t) * g_h (geom t) \<le> g_pp (geom t) * g_h (geom t)\<close> by linarith
  have "area (geom t) < 0x100000000" using p unfolding area_def by linarith
  then show "area (geom t) < 2 ^ 64" by simp
qed

lemma scroll_pixel_draws:
  assumes ok: "screen_ok t" and d: "x < g_w (geom t)" "y < g_h (geom t)"
  shows "draws (g_pix (geom t)) (area (geom t)) t (scroll_pixel (g_pix (geom t)) y x t)"
proof -
  let ?g = "geom t"
  let ?i = "x + y * g_w ?g"
  have i: "?i < g_w ?g * g_h ?g" using d by (rule pixel_index)
  have "of_nat x + of_nat y * fb_width (mem t) (framebuffer t) = of_nat ?i" by (simp add: geom_def)
  then have "g_pix ?g + 4 * ucast (of_nat x + of_nat y * fb_width (mem t) (framebuffer t)) = g_pix ?g + of_nat (4 * ?i)"
    using ucast_of_nat32_64[of ?i] i area_bounds(3)[OF ok] by simp
  then show ?thesis
    using wr32_inside[of "4 * ?i" "area ?g" "g_pix ?g"] area_bounds(1)[OF ok i] area_bounds(2)[OF ok]
    by (simp add: draws_def scroll_pixel_def Let_def)
qed

lemma memset32_inside:
  assumes "ofs + 4 * unat k \<le> n" and "n < 2 ^ 64"
  shows "agree_off a n m (memset32 m (a + of_nat ofs) v k)"
proof -
  have "agree_off a n m (fold (\<lambda>i m. wr32 m (a + of_nat ofs + 4 * of_nat i) v) [0..<l] m)" if "l \<le> unat k" for l
    using that
  proof (induction l)
    case (Suc l)
    have e: "a + of_nat ofs + 4 * of_nat l = a + of_nat (ofs + 4 * l)" by simp
    have "ofs + 4 * l + 4 \<le> n" using Suc.prems assms(1) by simp
    from wr32_inside[OF this assms(2)] Suc show ?case
      by (simp only: upt_Suc_append[OF le0] fold_append fold.simps comp_def id_def e) (blast intro: agree_off_trans dest: Suc_leD)
  qed simp
  then show ?thesis by (simp add: memset32_def)
qed

lemma terminal_scroll_effect:
  assumes ok: "screen_ok t"
  shows "\<exists>m. terminal_scroll t = t\<lparr>mem := m, cursor_y := cursor_y t - char_height t\<rparr> \<and>
    draws (g_pix (geom t)) (area (geom t)) t (t\<lparr>mem := m\<rparr>)"
proof -
  let ?g = "geom t"
  let ?rows = "fb_height (mem t) (framebuffer t) - char_height t"
  let ?t1 = "fold (\<lambda>y. fold (scroll_pixel (g_pix ?g) y) [0..<unat (fb_width (mem t) (framebuffer t))]) [0..<unat ?rows] t"
  note sc = ok[unfolded screen_ok_def Let_def]
  have rows: "unat ?rows = g_h ?g - unat (char_height t)"
    using sc by (simp add: unat_sub_if' geom_def)
  have d1: "draws (g_pix ?g) (area ?g) t ?t1"
  proof (rule draws_fold, rule draws_fold)
    fix y t1 x t2 assume y: "y \<in> set [0..<unat ?rows]" and d: "draws (g_pix ?g) (area ?g) t t1"
      and x: "x \<in> set [0..<unat (fb_width (mem t) (framebuffer t))]" and d2: "draws (g_pix ?g) (area ?g) t1 t2"
    have "draws (g_pix ?g) (area ?g) t t2" using d d2 by (rule draws_trans)
    note s = screen_draws[OF ok this]
    show "draws (g_pix ?g) (area ?g) t2 (scroll_pixel (g_pix ?g) y x t2)"
      using scroll_pixel_draws[OF s(2), of x y] x y s(1) rows by (simp add: geom_def)
  qed
  note s1 = screen_draws[OF ok d1] draws_fields[OF d1]
  let ?w = "fb_width (mem ?t1) (framebuffer ?t1)" and ?h = "fb_height (mem ?t1) (framebuffer ?t1)"
  let ?m = "memset32 (mem ?t1) (g_pix ?g + 4 * ucast (?w * (?h - char_height ?t1))) (bg_color ?t1) (ucast (?w * char_height ?t1))"
  have wh: "unat ?w = g_w ?g" "unat ?h = g_h ?g" using s1(1) by (simp_all add: geom_def)
  have hc: "unat (?h - char_height ?t1) = g_h ?g - unat (char_height t)"
    using sc wh s1(7) by (simp add: unat_sub_if')
  have split: "g_w ?g * (g_h ?g - unat (char_height t)) + g_w ?g * unat (char_height t) = g_w ?g * g_h ?g"
    using sc by (simp flip: distrib_left)
  have lt: "g_w ?g * (g_h ?g - unat (char_height t)) < 0x40000000" "g_w ?g * unat (char_height t) < 0x40000000"
    by (rule le_less_trans[OF _ area_bounds(3)[OF ok]], use split in linarith)+
  have u1: "unat (?w * (?h - char_height ?t1)) = g_w ?g * (g_h ?g - unat (char_height t))"
    using lt(1) by (simp add: unat_word_ariths wh hc)
  have u2: "unat (?w * char_height ?t1) = g_w ?g * unat (char_height t)"
    using lt(2) s1(7) by (simp add: unat_word_ariths wh)
  have a1: "(4 * ucast (?w * (?h - char_height ?t1)) :: u64) = of_nat (4 * (g_w ?g * (g_h ?g - unat (char_height t))))"
    using arg_cong[OF u1, of "of_nat :: nat \<Rightarrow> u64"] by (simp only: of_nat_unat of_nat_mult) simp
  have "4 * (g_w ?g * (g_h ?g - unat (char_height t))) + 4 * unat (ucast (?w * char_height ?t1) :: u64) \<le> area ?g"
    unfolding unat_ucast_up[where 'a = 32 and 'b = 64, simplified] u2
    using split sc unfolding area_def by (simp flip: distrib_left)
  then have "agree_off (g_pix ?g) (area ?g) (mem ?t1) ?m"
    unfolding a1 by (rule memset32_inside[OF _ area_bounds(2)[OF ok]])
  then have d2: "draws (g_pix ?g) (area ?g) ?t1 (?t1\<lparr>mem := ?m\<rparr>)" by (simp add: draws_def)
  have "draws (g_pix ?g) (area ?g) t (?t1\<lparr>mem := ?m\<rparr>)" using d1 d2 by (rule draws_trans)
  moreover have "?t1\<lparr>mem := ?m\<rparr> = t\<lparr>mem := ?m\<rparr>" using calculation by (simp add: draws_def)
  moreover have "terminal_scroll t = ?t1\<lparr>mem := ?m, cursor_y := cursor_y ?t1 - char_height ?t1\<rparr>"
    by (simp add: terminal_scroll_def Let_def geom_def)
  ultimately show ?thesis using s1(6,7) by (intro exI[of _ ?m]) simp
qed


lemma sint_small32: "unat x < 2 ^ 31 \<Longrightarrow> sint (x :: u32) = int (unat x)"
  using sint_of_nat32[of "unat x"] by simp

lemma screen_sizes:
  assumes "screen_ok t"
  shows "g_w (geom t) < 2 ^ 30" "g_h (geom t) < 2 ^ 30" "8 \<le> g_w (geom t)"
    "0 < unat (char_height t)" "unat (char_height t) \<le> g_h (geom t)"
proof -
  note sc = assms[unfolded screen_ok_def Let_def]
  have "g_h (geom t) \<le> g_pp (geom t) * g_h (geom t)" "g_pp (geom t) \<le> g_pp (geom t) * g_h (geom t)"
    using sc by auto
  moreover have "g_pp (geom t) * g_h (geom t) < 2 ^ 30" "g_w (geom t) \<le> g_pp (geom t)" using sc by simp_all
  ultimately show "g_w (geom t) < 2 ^ 30" "g_h (geom t) < 2 ^ 30" by (meson le_less_trans order_trans)+
qed (use assms in \<open>auto simp: screen_ok_def Let_def\<close>)

lemma geom_cursor [simp]:
  "geom (t\<lparr>cursor_x := x\<rparr>) = geom t" "geom (t\<lparr>cursor_y := y\<rparr>) = geom t"
  "screen_ok (t\<lparr>cursor_x := x\<rparr>) = screen_ok t" "screen_ok (t\<lparr>cursor_y := y\<rparr>) = screen_ok t"
  by (simp_all add: geom_def screen_ok_def Let_def)

definition line_end :: "'a terminal_scheme \<Rightarrow> 'a terminal_scheme" where
  "line_end t = (if cursor_y t + char_height t > fb_height (mem t) (framebuffer t) then terminal_scroll t else t)"

lemma line_end_ok:
  assumes ok: "screen_ok t" and x: "unat (cursor_x t) + 8 \<le> g_w (geom t)"
    and y: "unat (cursor_y t) + unat (char_height t) \<le> g_h (geom t) \<or>
      unat (char_height t) \<le> unat (cursor_y t) \<and> unat (cursor_y t) \<le> g_h (geom t)"
  shows "screen_ok (line_end t) \<and> cursor_ok (line_end t) \<and> geom (line_end t) = geom t \<and>
    agree_off (g_pix (geom t)) (area (geom t)) (mem t) (mem (line_end t))"
proof -
  note sz = screen_sizes[OF ok]
  have u: "unat (cursor_y t + char_height t) = unat (cursor_y t) + unat (char_height t)"
    using y sz by (subst unat_plus_if') auto
  have c: "cursor_y t + char_height t > fb_height (mem t) (framebuffer t) \<longleftrightarrow>
      unat (cursor_y t) + unat (char_height t) > g_h (geom t)"
    by (simp add: word_less_nat_alt u geom_def)
  show ?thesis
  proof (cases "unat (cursor_y t) + unat (char_height t) > g_h (geom t)")
    case False
    then show ?thesis using c ok x by (auto simp: line_end_def cursor_ok_def)
  next
    case True
    from terminal_scroll_effect[OF ok] obtain m where
      m: "terminal_scroll t = t\<lparr>mem := m, cursor_y := cursor_y t - char_height t\<rparr>"
        "draws (g_pix (geom t)) (area (geom t)) t (t\<lparr>mem := m\<rparr>)" by blast
    note s = screen_draws[OF ok m(2)]
    have "unat (cursor_y t - char_height t) = unat (cursor_y t) - unat (char_height t)"
      using y True by (simp add: unat_sub_if')
    then show ?thesis using True c m s x y
      by (simp add: line_end_def cursor_ok_def draws_def)
  qed
qed

lemma terminal_putc_ok:
  assumes ok: "screen_ok t" and cur: "cursor_ok t"
  shows "screen_ok (terminal_putc c t) \<and> cursor_ok (terminal_putc c t) \<and> geom (terminal_putc c t) = geom t \<and>
    agree_off (g_pix (geom t)) (area (geom t)) (mem t) (mem (terminal_putc c t))"
proof -
  note sz = screen_sizes[OF ok]
  have cx: "unat (cursor_x t) + 8 \<le> g_w (geom t)" and cy: "unat (cursor_y t) + unat (char_height t) \<le> g_h (geom t)"
    using cur by (auto simp: cursor_ok_def)
  have uy: "unat (cursor_y t + char_height t) = unat (cursor_y t) + unat (char_height t)"
    using cy sz by (subst unat_plus_if') auto
  show ?thesis
  proof (cases "c = 10")
    case True
    let ?t = "t\<lparr>cursor_x := 0, cursor_y := cursor_y t + char_height t\<rparr>"
    have "terminal_putc c t = line_end ?t" using True by (simp add: terminal_putc_def line_end_def Let_def)
    then show ?thesis using line_end_ok[of ?t] ok sz uy cy by simp
  next
    case False
    let ?ys = "nat (sint (cursor_y t + char_height t) - sint (cursor_y t))"
    let ?xs = "nat (sint (cursor_x t + TERMINAL_CHAR_WIDTH) - sint (cursor_x t))"
    let ?fp = "font_glyphBuffer (mem t) (psf1_font t) +
      scast (ucast c * ucast (header_charsize (mem t) (font_header (mem t) (psf1_font t))) :: u32)"
    let ?t1 = "fold (\<lambda>dy. fold (put_pixel (g_pix (geom t)) ?fp dy) [0..<?xs]) [0..<?ys] t"
    have ux: "unat (cursor_x t + 8) = unat (cursor_x t) + 8" using cx sz by (subst unat_plus_if') auto
    have "?xs \<le> 8" "?ys \<le> unat (char_height t)"
      using sint_small32[of "cursor_x t"] sint_small32[of "cursor_x t + 8"] sint_small32[of "cursor_y t"]
        sint_small32[of "cursor_y t + char_height t"] ux uy cx cy sz
      by (auto simp: TERMINAL_CHAR_WIDTH_def)
    from glyph_draws[OF ok cur this] have d: "draws (g_pix (geom t)) (area (geom t)) t ?t1" .
    note s = screen_draws[OF ok d] draws_fields[OF d]
    let ?t2 = "?t1\<lparr>cursor_x := cursor_x t + 8\<rparr>"
    let ?t3 = "if cursor_x t + 8 + 8 > fb_width (mem ?t1) (framebuffer ?t1)
      then ?t1\<lparr>cursor_x := 0, cursor_y := cursor_y t + char_height t\<rparr> else ?t2"
    have p: "terminal_putc c t = line_end ?t3"
      using False s(5-7) by (simp add: terminal_putc_def line_end_def Let_def TERMINAL_CHAR_WIDTH_def geom_def)
    have w: "cursor_x t + 8 + 8 > fb_width (mem ?t1) (framebuffer ?t1) \<longleftrightarrow> unat (cursor_x t) + 16 > g_w (geom t)"
    proof -
      have "unat (fb_width (mem ?t1) (framebuffer ?t1)) = g_w (geom t)" using s(1) by (simp add: geom_def)
      moreover have "unat (cursor_x t + 8 + 8) = unat (cursor_x t) + 16"
        using cx sz ux by (subst unat_plus_if') auto
      ultimately show ?thesis by (simp add: word_less_nat_alt)
    qed
    have g3: "geom ?t3 = geom t" "screen_ok ?t3" "mem ?t3 = mem ?t1" using s(1,2) by simp_all
    have "screen_ok (line_end ?t3) \<and> cursor_ok (line_end ?t3) \<and> geom (line_end ?t3) = geom ?t3 \<and>
        agree_off (g_pix (geom ?t3)) (area (geom ?t3)) (mem ?t3) (mem (line_end ?t3))"
      by (rule line_end_ok[OF g3(2)]) (use g3(1) w s(6,7) uy ux cx cy sz in auto)
    moreover have "agree_off (g_pix (geom t)) (area (geom t)) (mem t) (mem ?t3)"
      using d unfolding g3(3) by (simp add: draws_def)
    ultimately show ?thesis unfolding p g3(1) using agree_off_trans by blast
  qed
qed

section \<open>Properties\<close>

text \<open>
  C15.  Printing any string keeps the cursor on the screen and writes nothing outside the
  pixels of the framebuffer, provided the screen is at least one character wide and high, a scan line
  is no shorter than the visible width, and the framebuffer descriptor lies outside the pixels.
\<close>

theorem terminal_puts_inside:
  assumes "screen_ok t" and "cursor_ok t"
  shows "screen_ok (terminal_puts str t) \<and> cursor_ok (terminal_puts str t) \<and>
    agree_off (g_pix (geom t)) (area (geom t)) (mem t) (mem (terminal_puts str t))"
proof -
  have "screen_ok (fold terminal_putc cs t) \<and> cursor_ok (fold terminal_putc cs t) \<and>
    geom (fold terminal_putc cs t) = geom t \<and>
    agree_off (g_pix (geom t)) (area (geom t)) (mem t) (mem (fold terminal_putc cs t))" for cs
  proof (induction cs rule: rev_induct)
    case (snoc c cs)
    then show ?case
      using terminal_putc_ok[of "fold terminal_putc cs t" c] by (auto intro: agree_off_trans)
  qed (use assms in simp)
  then show ?thesis by (simp add: terminal_puts_def)
qed

definition demo_terminal :: terminal where
  "demo_terminal = \<lparr>mem = wr64 (wr32 (wr32 (wr32 (\<lambda>_. 0) 0x1010 640) 0x1014 480) 0x1018 640) 0x1000 0x100000,
     console = [], kern_start = 0, kern_end = 0, framebuffer = 0x1000, psf1_font = 0, cursor_x = 0,
     cursor_y = 0, char_height = 16, fg_color = 0xFFFFFF, bg_color = 0\<rparr>"

lemma demo_geom: "geom demo_terminal = \<lparr>g_pix = 0x100000, g_w = 640, g_h = 480, g_pp = 640\<rparr>"
  by (simp add: geom_def demo_terminal_def fb_address_def fb_width_def fb_height_def
      fb_pixels_per_sc_def mem_simps sep_def)

theorem terminal_puts_inside_witness:
  "cursor_ok (terminal_puts [72, 105, 10] demo_terminal)"
proof -
  have "char_height demo_terminal = 16" "framebuffer demo_terminal = 0x1000"
    "cursor_x demo_terminal = 0" "cursor_y demo_terminal = 0" by (simp_all add: demo_terminal_def)
  then have "screen_ok demo_terminal" "cursor_ok demo_terminal"
    by (simp_all add: screen_ok_def cursor_ok_def demo_geom area_def sep_def)
  from terminal_puts_inside[OF this] show ?thesis by blast
qed

end
