(* ===== verification/Descriptor_Tables.thy ===== *)
theory Descriptor_Tables
  imports Terminal
begin

text \<open>
  The interrupt and global descriptor tables: \<^verbatim>\<open>kernel/src/idt/idt.c\<close>, the handler registration and the
  exception reports of \<^verbatim>\<open>idt/int_handlers.c\<close>, and \<^verbatim>\<open>gdt/gdt.c\<close>.  The assembly entry stubs are
  addresses supplied by the linker and appear as the parameter \<open>int_stubs\<close>.  The tables are kept
  as records of their bit fields, one per descriptor.
\<close>

section \<open>Interrupt descriptor table\<close>

record idt_entry =
  offset0 :: u16
  selector :: u16
  ist :: u8
  type_attr :: u8
  offset1 :: u16
  offset2 :: u32
  ignore :: u32

record idt_state =
  idt_entries :: "u8 \<Rightarrow> idt_entry"
  idtr_limit :: u16
  idtr_offset :: u64
  lidt_done :: bool
  interrupts_on :: bool

definition IDT_TA_InterruptGate :: u8 where "IDT_TA_InterruptGate = 0b10001110"

definition idt_entry_set_offset :: "idt_entry \<Rightarrow> u64 \<Rightarrow> idt_entry" where
  "idt_entry_set_offset entry offset =
     entry\<lparr>offset0 := ucast (offset AND 0x000000000000ffff),
           offset1 := ucast (drop_bit 16 (offset AND 0x00000000ffff0000)),
           offset2 := ucast (drop_bit 32 (offset AND 0xffffffff00000000))\<rparr>"

definition idt_entry_get_offset :: "idt_entry \<Rightarrow> u64" where
  "idt_entry_get_offset entry =
     (let offset = 0;
          offset = offset OR ucast (offset0 entry);
          offset = offset OR push_bit 16 (ucast (offset1 entry))
      in offset OR push_bit 32 (ucast (offset2 entry)))"

definition idt_set_gate :: "u64 \<Rightarrow> u8 \<Rightarrow> u8 \<Rightarrow> u8 \<Rightarrow> 'a idt_state_scheme \<Rightarrow> 'a idt_state_scheme" where
  "idt_set_gate handler entryOffset type sel s =
     (let e = idt_entry_set_offset (idt_entries s entryOffset) handler;
          e = e\<lparr>type_attr := type\<rparr>;
          e = e\<lparr>selector := ucast sel\<rparr>
      in s\<lparr>idt_entries := (idt_entries s)(entryOffset := e)\<rparr>)"

record int_stubs =
  stub_exceptions :: "u64 list"
  stub_timer_irq :: u64
  stub_kbd_ps2_irq :: u64
  stub_syscall_req :: u64

definition int_handlers_init :: "int_stubs \<Rightarrow> 'a idt_state_scheme \<Rightarrow> 'a idt_state_scheme" where
  "int_handlers_init st s =
     (let s = fold (\<lambda>i. idt_set_gate (stub_exceptions st ! i) (of_nat i) IDT_TA_InterruptGate 0x08) [0..<32] s;
          s = idt_set_gate (stub_timer_irq st) 0x20 IDT_TA_InterruptGate 0x08 s;
          s = idt_set_gate (stub_kbd_ps2_irq st) 0x21 IDT_TA_InterruptGate 0x08 s
      in idt_set_gate (stub_syscall_req st) 0x80 IDT_TA_InterruptGate 0x08 s)"

definition idt_init :: "int_stubs \<Rightarrow> u64 \<Rightarrow> idt_state \<times> 'a machine_scheme \<Rightarrow> idt_state \<times> 'a machine_scheme" where
  "idt_init st table = (\<lambda>(i, s).
     let i = i\<lparr>idtr_limit := 0x0FFF\<rparr>;
         i = i\<lparr>idtr_offset := table\<rparr>;
         i = int_handlers_init st i;
         i = i\<lparr>lidt_done := True\<rparr>;
         i = i\<lparr>interrupts_on := True\<rparr>
     in (i, klog Log_ok ''IDT'' ''IDT initialized'' [] s))"

section \<open>Exceptions\<close>

definition exception_messages :: "string list" where
  "exception_messages =
     [''Division By Zero'',
      ''Debug'',
      ''Non-Maskable Interrupt'',
      ''Breakpoint'',
      ''Overflow'',
      ''Bound Range Exceeded'',
      ''Invalid Opcode'',
      ''Device Not Available (No Math Coprocessor)'',
      ''Double Fault'',
      ''Coprocessor Segment Overrun (deprecated)'',
      ''Invalid TSS'',
      ''Segment Not Present'',
      ''Stack-Segment Fault'',
      ''General Protection Fault'',
      ''Page Fault'',
      ''Reserved (15)'',
      ''x87 Floating-Point Exception'',
      ''Alignment Check'',
      ''Machine Check'',
      ''SIMD Floating-Point Exception'',
      ''Virtualization Exception'',
      ''Control Protection Exception'',
      ''Reserved (22)'',
      ''Reserved (23)'',
      ''Reserved (24)'',
      ''Reserved (25)'',
      ''Reserved (26)'',
      ''Reserved (27)'',
      ''Hypervisor Injection Exception'',
      ''VMM Communication Exception'',
      ''Security Exception'',
      ''Reserved (31)'']"

definition exception_verses :: "string list" where
  "exception_verses =
     [''Proverbs 16:18'',
      ''Luke 12:2'',
      ''1 Thessalonians 5:2'',
      ''Psalm 46:10'',
      ''Ecclesiastes 1:8'',
      ''Job 38:11'',
      ''Matthew 7:23'',
      ''Luke 14:28'',
      ''Lamentations 3:47'',
      ''Ecclesiastes 1:9'',
      ''James 1:8'',
      ''Matthew 25:8'',
      ''Psalm 55:22'',
      ''Proverbs 4:23'',
      ''John 14:2'',
      '''',
      ''James 1:5'',
      ''1 Corinthians 14:40'',
      ''1 Corinthians 3:13'',
      ''Ecclesiastes 3:1'',
      ''1 Corinthians 13:12'',
      ''Ephesians 6:11'',
      '''',
      '''',
      '''',
      '''',
      '''',
      '''',
      ''Psalm 101:7'',
      ''Colossians 4:6'',
      ''Psalm 4:8'',
      '''']"

record regs_err =
  e_r15 :: u64  e_r14 :: u64  e_r13 :: u64  e_r12 :: u64
  e_r11 :: u64  e_r10 :: u64  e_r9 :: u64   e_r8 :: u64
  e_rdi :: u64  e_rsi :: u64  e_rbp :: u64  e_rbx :: u64
  e_rdx :: u64  e_rcx :: u64  e_rax :: u64  e_rsp :: u64
  e_erc :: u64  e_rip :: u64  e_cs :: u64   e_rflags :: u64

abbreviation nl :: string where "nl \<equiv> [CHR 0x0A]"

definition print_regs :: "regs_err \<Rightarrow> 'a terminal_scheme \<Rightarrow> 'a terminal_scheme option" where
  "print_regs r t = do {
     t \<leftarrow> printk ('' --- Registers --- '' @ nl) [] t;
     t \<leftarrow> printk (''    RAX: %16lx, RCX: %16lx, RDX: %16lx, RBX: %16lx'' @ nl)
            [Arg_word (e_rax r), Arg_word (e_rcx r), Arg_word (e_rdx r), Arg_word (e_rbx r)] t;
     t \<leftarrow> printk (''    RBP: %16lx, RSI: %16lx, RDI: %16lx'' @ nl)
            [Arg_word (e_rbp r), Arg_word (e_rsi r), Arg_word (e_rdi r)] t;
     t \<leftarrow> printk (''    R8:  %16lx, R9:  %16lx, R10: %16lx, R11: %16lx'' @ nl)
            [Arg_word (e_r8 r), Arg_word (e_r9 r), Arg_word (e_r10 r), Arg_word (e_r11 r)] t;
     t \<leftarrow> printk (''    R12: %16lx, R13: %16lx, R14: %16lx, R15: %16lx'' @ nl)
            [Arg_word (e_r12 r), Arg_word (e_r13 r), Arg_word (e_r14 r), Arg_word (e_r15 r)] t;
     printk (''    RIP: %16lx, ERR: %x'' @ nl) [Arg_word (e_rip r), Arg_word (e_erc r)] t
   }"

text \<open>
  The handler reports the exception and then stops the machine; the result is the terminal at
  that point.  The frame pointer and \<^verbatim>\<open>cr2\<close> are machine registers.
\<close>

definition exception_handler ::
  "u64 \<Rightarrow> u64 \<Rightarrow> regs_err \<Rightarrow> u64 \<Rightarrow> 'a terminal_scheme \<Rightarrow> 'a terminal_scheme option" where
  "exception_handler rbp cr2 r exception t = do {
     t \<leftarrow> kernel_panic (exception_messages ! unat exception) t;
     t \<leftarrow> print_regs r t;
     t \<leftarrow> stacktrace_print rbp t;
     t \<leftarrow> (if exception = 14 then printk ''page fault: Failed address: %lx'' [Arg_word cr2] t else Some t);
     printk (nl @ ''%s'' @ nl) [Arg_str (exception_verses ! unat exception)] t
   }"

section \<open>Global descriptor table\<close>

record gdt_entry =
  limit0 :: u16
  base0 :: u16
  base1 :: u8
  access :: u8
  limit1_flags :: u8
  base2 :: u8

record gdt =
  gdt_null :: gdt_entry
  kernel_code :: gdt_entry
  kernel_data :: gdt_entry
  user_null :: gdt_entry
  user_data :: gdt_entry
  user_code :: gdt_entry
  ovmf_data :: gdt_entry
  ovmf_code :: gdt_entry
  tss_low :: gdt_entry
  tss_high :: gdt_entry

definition mk_entry :: "u16 \<Rightarrow> u16 \<Rightarrow> u8 \<Rightarrow> u8 \<Rightarrow> u8 \<Rightarrow> u8 \<Rightarrow> gdt_entry" where
  "mk_entry a b c d e f = \<lparr>limit0 = a, base0 = b, base1 = c, access = d, limit1_flags = e, base2 = f\<rparr>"

definition default_gdt :: gdt where
  "default_gdt = \<lparr>
     gdt_null = mk_entry 0 0 0 0x00 0x00 0,
     kernel_code = mk_entry 0 0 0 0x9A 0xA0 0,
     kernel_data = mk_entry 0 0 0 0x92 0xA0 0,
     user_null = mk_entry 0 0 0 0x00 0x00 0,
     user_data = mk_entry 0 0 0 0x92 0xA0 0,
     user_code = mk_entry 0 0 0 0x9A 0xA0 0,
     ovmf_data = mk_entry 0 0 0 0x92 0xa0 0,
     ovmf_code = mk_entry 0 0 0 0x9a 0xa0 0,
     tss_low = mk_entry 0 0 0 0x89 0xa0 0,
     tss_high = mk_entry 0 0 0 0x00 0x00 0\<rparr>"

record gdt_state =
  gdt_tab :: gdt
  gdt_desc_size :: u16
  gdt_desc_offset :: u64
  gdt_loaded :: bool

text \<open>The size of \<^verbatim>\<open>tss_t\<close> as the compiler lays it out, which pads the structure.\<close>

definition sizeof_tss :: u64 where "sizeof_tss = 112"
definition sizeof_gdt :: u64 where "sizeof_gdt = 80"

definition gdt_init :: "u64 \<Rightarrow> u64 \<Rightarrow> gdt_state \<times> 'a machine_scheme \<Rightarrow> gdt_state \<times> 'a machine_scheme" where
  "gdt_init tss_addr gdt_addr = (\<lambda>(d, s).
      let tss_base = tss_addr;
          g = gdt_tab d;
          lo = (tss_low g)\<lparr>base0 := ucast (tss_base AND 0xffff),
                 base1 := ucast (drop_bit 16 tss_base AND 0xff),
                 base2 := ucast (drop_bit 24 tss_base AND 0xff),
                 limit0 := ucast sizeof_tss\<rparr>;
          hi = (tss_high g)\<lparr>limit0 := ucast (drop_bit 32 tss_base AND 0xffff),
                 base0 := ucast (drop_bit 48 tss_base AND 0xffff)\<rparr>;
          d = d\<lparr>gdt_tab := g\<lparr>tss_low := lo, tss_high := hi\<rparr>\<rparr>;
          d = d\<lparr>gdt_desc_size := ucast (sizeof_gdt - 1)\<rparr>;
          d = d\<lparr>gdt_desc_offset := gdt_addr\<rparr>;
          d = d\<lparr>gdt_loaded := True\<rparr>
      in (d, klog Log_ok ''GDT'' ''GDT and TSS initialized'' [] s))"

text \<open>The base address a processor assembles from a 16-byte system descriptor.\<close>

definition system_base :: "gdt_entry \<Rightarrow> gdt_entry \<Rightarrow> u64" where
  "system_base lo hi =
     ucast (base0 lo) OR push_bit 16 (ucast (base1 lo)) OR push_bit 24 (ucast (base2 lo)) OR
     push_bit 32 (ucast (limit0 hi)) OR push_bit 48 (ucast (base0 hi))"

section \<open>Properties\<close>

lemma bit_low_mask:
  "bit (x AND 0xffffffff :: u64) n \<longleftrightarrow> n < 32 \<and> bit x n"
  "bit (x AND 0xffff :: u64) n \<longleftrightarrow> n < 16 \<and> bit x n"
  "bit (x AND 0xff :: u64) n \<longleftrightarrow> n < 8 \<and> bit x n"
  "bit (x AND 0x00000000ffff0000 :: u64) n \<longleftrightarrow> 16 \<le> n \<and> n < 32 \<and> bit x n"
  "bit (x AND 0xffffffff00000000 :: u64) n \<longleftrightarrow> 32 \<le> n \<and> bit x n"
proof -
  have m: "(0xffffffff :: u64) = mask 32" "(0xffff :: u64) = mask 16" "(0xff :: u64) = mask 8" "(0xffff0000 :: u64) = push_bit 16 (mask 16)"
    "(0xffffffff00000000 :: u64) = push_bit 32 (mask 32)"
    by (simp_all add: mask_eq_exp_minus_1 push_bit_eq_mult)
  show "bit (x AND 0xffffffff :: u64) n \<longleftrightarrow> n < 32 \<and> bit x n" "bit (x AND 0xffff :: u64) n \<longleftrightarrow> n < 16 \<and> bit x n" "bit (x AND 0xff :: u64) n \<longleftrightarrow> n < 8 \<and> bit x n"
    by (subst m; auto simp: bit_and_iff bit_mask_iff)+
  show "bit (x AND 0x00000000ffff0000 :: u64) n \<longleftrightarrow> 16 \<le> n \<and> n < 32 \<and> bit x n"
    "bit (x AND 0xffffffff00000000 :: u64) n \<longleftrightarrow> 32 \<le> n \<and> bit x n"
    using bit_imp_le_length[of x n] by (subst m; auto simp: bit_and_iff bit_push_bit_iff bit_mask_iff)+
qed

lemma idt_offset_round_trip: "idt_entry_get_offset (idt_entry_set_offset e x) = x"
proof (rule bit_word_eqI)
  fix n assume n: "n < LENGTH(64)"
  have "bit (idt_entry_get_offset (idt_entry_set_offset e x)) n \<longleftrightarrow>
      bit x n \<and> (n < 16 \<or> 16 \<le> n \<and> n - 16 < 16 \<or> 32 \<le> n \<and> n - 32 < 32)"
    using n by (auto simp: idt_entry_get_offset_def idt_entry_set_offset_def Let_def bit_or_iff bit_push_bit_iff
       bit_unsigned_iff bit_drop_bit_eq bit_low_mask)
  also have "\<dots> \<longleftrightarrow> bit x n" using n by (simp, linarith)
  finally show "bit (idt_entry_get_offset (idt_entry_set_offset e x)) n = bit x n" .
qed

text \<open>The gate that \<^verbatim>\<open>idt_set_gate\<close> writes for the kernel's handlers.\<close>

definition idt_gate :: "u64 \<Rightarrow> idt_entry \<Rightarrow> idt_entry" where
  "idt_gate h e = (idt_entry_set_offset e h)\<lparr>type_attr := IDT_TA_InterruptGate, selector := 0x08\<rparr>"

lemma idt_gate_simps: "type_attr (idt_gate h e) = IDT_TA_InterruptGate" "selector (idt_gate h e) = 0x08"
  by (simp_all add: idt_gate_def)

lemma idt_set_gate_entries:
  "idt_entries (idt_set_gate h v IDT_TA_InterruptGate 0x08 i) = (idt_entries i)(v := idt_gate h (idt_entries i v))"
  by (simp add: idt_set_gate_def idt_gate_def Let_def)

lemma exception_gates:
  assumes "n \<le> 32"
  shows "idt_entries (fold (\<lambda>k. idt_set_gate (stub_exceptions st ! k) (of_nat k) IDT_TA_InterruptGate 0x08) [0..<n] i) w =
    (if unat w < n then idt_gate (stub_exceptions st ! unat w) (idt_entries i w) else idt_entries i w)"
  using assms
proof (induction n)
  case (Suc n)
  have "unat (of_nat n :: u8) = n" using Suc.prems by (simp add: unat_of_nat take_bit_nat_eq_self)
  then have "w = of_nat n \<longleftrightarrow> unat w = n" by (metis word_unat_eq_iff)
  then show ?case using Suc by (auto simp: idt_set_gate_entries less_Suc_eq)
qed simp

definition gate_target :: "int_stubs \<Rightarrow> u8 \<Rightarrow> u64 option" where
  "gate_target st v =
     (if unat v < 32 then Some (stub_exceptions st ! unat v)
      else if v = 0x20 then Some (stub_timer_irq st) else if v = 0x21 then Some (stub_kbd_ps2_irq st)
      else if v = 0x80 then Some (stub_syscall_req st) else None)"

text \<open>
  C16.  After \<^verbatim>\<open>idt_init\<close> every exception vector, the timer, keyboard and system call
  vectors lead to their entry stub through a present interrupt gate of the kernel code segment,
  every other gate is as before, and interrupts are enabled.
\<close>

theorem idt_init_gates:
  "(case gate_target st v of
      Some h \<Rightarrow> idt_entry_get_offset (idt_entries (fst (idt_init st table (i, s))) v) = h \<and>
        type_attr (idt_entries (fst (idt_init st table (i, s))) v) = IDT_TA_InterruptGate \<and>
        selector (idt_entries (fst (idt_init st table (i, s))) v) = 0x08
    | None \<Rightarrow> idt_entries (fst (idt_init st table (i, s))) v = idt_entries i v) \<and>
   interrupts_on (fst (idt_init st table (i, s)))"
proof -
  have get: "idt_entry_get_offset (idt_gate h e) = h" for h e
    using idt_offset_round_trip[of e h] by (simp add: idt_gate_def idt_entry_get_offset_def Let_def)
  have ne: "(0x20 :: u8) \<noteq> 0x21" "(0x20 :: u8) \<noteq> 0x80" "(0x21 :: u8) \<noteq> 0x80" by simp_all
  have out: "unat v < 32 \<Longrightarrow> v \<noteq> 0x20 \<and> v \<noteq> 0x21 \<and> v \<noteq> 0x80" by auto
  let ?i = "i\<lparr>idtr_limit := 0x0FFF, idtr_offset := table\<rparr>"
  have "idt_entries (fst (idt_init st table (i, s))) v =
      (case gate_target st v of Some h \<Rightarrow> idt_gate h (idt_entries i v) | None \<Rightarrow> idt_entries i v)"
    unfolding gate_target_def idt_init_def int_handlers_init_def Let_def
    using exception_gates[of 32 st ?i v] out ne by (auto simp: idt_set_gate_entries)
  moreover have "interrupts_on (fst (idt_init st table (i, s)))" by (simp add: idt_init_def Let_def)
  ultimately show ?thesis
    using get by (simp add: idt_gate_simps split: option.split)
qed

text \<open>
  C17.  The task state segment descriptor built by \<^verbatim>\<open>gdt_init\<close> encodes exactly the address of
  the task state segment in the format the processor decodes, whatever its 64-bit value, and the
  other descriptors stay as they are.
\<close>

theorem gdt_tss_base:
  "let g = gdt_tab (fst (gdt_init tss_addr gdt_addr (d, s))) in
     system_base (tss_low g) (tss_high g) = tss_addr \<and> access (tss_low g) = access (tss_low (gdt_tab d)) \<and>
     kernel_code g = kernel_code (gdt_tab d) \<and> kernel_data g = kernel_data (gdt_tab d)"
proof -
  define g where "g = gdt_tab (fst (gdt_init tss_addr gdt_addr (d, s)))"
  have "system_base (tss_low g) (tss_high g) = tss_addr"
  proof (rule bit_word_eqI)
    fix n assume n: "n < LENGTH(64)"
    have "bit (system_base (tss_low g) (tss_high g)) n \<longleftrightarrow> bit tss_addr n \<and> (n < 16 \<or> 16 \<le> n \<and> n - 16 < 8 \<or>
        24 \<le> n \<and> n - 24 < 8 \<or> 32 \<le> n \<and> n - 32 < 16 \<or> 48 \<le> n \<and> n - 48 < 16)"
      using n by (auto simp: g_def gdt_init_def system_base_def Let_def bit_or_iff bit_push_bit_iff bit_unsigned_iff
         bit_drop_bit_eq bit_low_mask)
    also have "\<dots> \<longleftrightarrow> bit tss_addr n" using n by (simp, linarith)
    finally show "bit (system_base (tss_low g) (tss_high g)) n = bit tss_addr n" .
  qed
  then show ?thesis unfolding Let_def g_def[symmetric] by (simp add: g_def gdt_init_def Let_def)
qed

end
