(* ===== verification/Kernel_Io.thy ===== *)
theory Kernel_Io
  imports Scheduler Descriptor_Tables
begin

text \<open>
  Access to devices: the port and model specific register instructions of \<^verbatim>\<open>kernel/src/io/io.c\<close> and the
  volatile accesses to memory mapped registers.  The hardware is a parameter: a \<open>device_env\<close> answers
  every access as a function of the whole history of accesses and may, at every access, change the
  memory (DMA).  The record \<open>hw\<close> adds the history and the processor's descriptor tables to the state.

  Registers reached through a pair of an index and a data window (the I/O APIC, PCI configuration
  mechanism 1, the port window of the network card) share the locale \<open>indexed_regs\<close>.
\<close>

section \<open>Devices\<close>

datatype io_event =
    Port_out8 u16 u8 | Port_out16 u16 u16 | Port_out32 u16 u32
  | Port_in8 u16 | Port_in16 u16 | Port_in32 u16
  | Msr_write u32 u32 u32 | Msr_read u32
  | Mmio_write16 u64 u16 | Mmio_write32 u64 u32 | Mmio_write64 u64 u64
  | Mmio_read8 u64 | Mmio_read16 u64 | Mmio_read32 u64 | Mmio_read64 u64
  | Mem_poll u64

record device_env =
  answer :: "io_event list \<Rightarrow> u64"
  dma :: "io_event list \<Rightarrow> memory \<Rightarrow> memory"

record hw = procs +
  io_log :: "io_event list"
  k_gdt :: gdt_state
  k_idt :: idt_state

definition access_io :: "device_env \<Rightarrow> io_event \<Rightarrow> 'a hw_scheme \<Rightarrow> u64 \<times> 'a hw_scheme" where
  "access_io D e s =
     (let h = io_log s @ [e] in (answer D h, s\<lparr>io_log := h, mem := dma D h (mem s)\<rparr>))"

definition outb :: "device_env \<Rightarrow> u16 \<Rightarrow> u8 \<Rightarrow> 'a hw_scheme \<Rightarrow> 'a hw_scheme" where
  "outb D port val s = snd (access_io D (Port_out8 port val) s)"
definition inb :: "device_env \<Rightarrow> u16 \<Rightarrow> 'a hw_scheme \<Rightarrow> u8 \<times> 'a hw_scheme" where
  "inb D port s = map_prod ucast id (access_io D (Port_in8 port) s)"
definition outw :: "device_env \<Rightarrow> u16 \<Rightarrow> u16 \<Rightarrow> 'a hw_scheme \<Rightarrow> 'a hw_scheme" where
  "outw D port val s = snd (access_io D (Port_out16 port val) s)"
definition inw :: "device_env \<Rightarrow> u16 \<Rightarrow> 'a hw_scheme \<Rightarrow> u16 \<times> 'a hw_scheme" where
  "inw D port s = map_prod ucast id (access_io D (Port_in16 port) s)"
definition outl :: "device_env \<Rightarrow> u16 \<Rightarrow> u32 \<Rightarrow> 'a hw_scheme \<Rightarrow> 'a hw_scheme" where
  "outl D port val s = snd (access_io D (Port_out32 port val) s)"
definition inl :: "device_env \<Rightarrow> u16 \<Rightarrow> 'a hw_scheme \<Rightarrow> u32 \<times> 'a hw_scheme" where
  "inl D port s = map_prod ucast id (access_io D (Port_in32 port) s)"

text \<open>\<^verbatim>\<open>rdmsr\<close> leaves the low and the high half of the register in two 32-bit registers.\<close>

definition read_msr :: "device_env \<Rightarrow> u32 \<Rightarrow> 'a hw_scheme \<Rightarrow> u64 \<times> 'a hw_scheme" where
  "read_msr D msr s =
     (let (v, s) = access_io D (Msr_read msr) s;
          low = ucast v :: u32;
          high = ucast (drop_bit 32 v) :: u32
      in (push_bit 32 (ucast high) OR ucast low, s))"

definition write_msr :: "device_env \<Rightarrow> u32 \<Rightarrow> u64 \<Rightarrow> 'a hw_scheme \<Rightarrow> 'a hw_scheme" where
  "write_msr D msr v s =
     (let low = ucast v :: u32; high = ucast (drop_bit 32 v) :: u32
      in snd (access_io D (Msr_write msr low high) s))"

definition mmio_rd8 :: "device_env \<Rightarrow> u64 \<Rightarrow> 'a hw_scheme \<Rightarrow> u8 \<times> 'a hw_scheme" where
  "mmio_rd8 D a s = map_prod ucast id (access_io D (Mmio_read8 a) s)"
definition mmio_rd16 :: "device_env \<Rightarrow> u64 \<Rightarrow> 'a hw_scheme \<Rightarrow> u16 \<times> 'a hw_scheme" where
  "mmio_rd16 D a s = map_prod ucast id (access_io D (Mmio_read16 a) s)"
definition mmio_rd32 :: "device_env \<Rightarrow> u64 \<Rightarrow> 'a hw_scheme \<Rightarrow> u32 \<times> 'a hw_scheme" where
  "mmio_rd32 D a s = map_prod ucast id (access_io D (Mmio_read32 a) s)"
definition mmio_rd64 :: "device_env \<Rightarrow> u64 \<Rightarrow> 'a hw_scheme \<Rightarrow> u64 \<times> 'a hw_scheme" where
  "mmio_rd64 D a s = access_io D (Mmio_read64 a) s"
definition mmio_wr16 :: "device_env \<Rightarrow> u64 \<Rightarrow> u16 \<Rightarrow> 'a hw_scheme \<Rightarrow> 'a hw_scheme" where
  "mmio_wr16 D a v s = snd (access_io D (Mmio_write16 a v) s)"
definition mmio_wr32 :: "device_env \<Rightarrow> u64 \<Rightarrow> u32 \<Rightarrow> 'a hw_scheme \<Rightarrow> 'a hw_scheme" where
  "mmio_wr32 D a v s = snd (access_io D (Mmio_write32 a v) s)"
definition mmio_wr64 :: "device_env \<Rightarrow> u64 \<Rightarrow> u64 \<Rightarrow> 'a hw_scheme \<Rightarrow> 'a hw_scheme" where
  "mmio_wr64 D a v s = snd (access_io D (Mmio_write64 a v) s)"

text \<open>A compound assignment to a register reads it and writes it back.\<close>

definition mmio_upd32 :: "device_env \<Rightarrow> u64 \<Rightarrow> (u32 \<Rightarrow> u32) \<Rightarrow> 'a hw_scheme \<Rightarrow> 'a hw_scheme" where
  "mmio_upd32 D a f s = (let (v, s) = mmio_rd32 D a s in mmio_wr32 D a (f v) s)"
definition mmio_upd16 :: "device_env \<Rightarrow> u64 \<Rightarrow> (u16 \<Rightarrow> u16) \<Rightarrow> 'a hw_scheme \<Rightarrow> 'a hw_scheme" where
  "mmio_upd16 D a f s = (let (v, s) = mmio_rd16 D a s in mmio_wr16 D a (f v) s)"

text \<open>Looking at memory that a device may write in the meantime.\<close>

definition poll_mem :: "device_env \<Rightarrow> u64 \<Rightarrow> 'a hw_scheme \<Rightarrow> 'a hw_scheme" where
  "poll_mem D a s = snd (access_io D (Mem_poll a) s)"

definition set_gate :: "u64 \<Rightarrow> u8 \<Rightarrow> 'a hw_scheme \<Rightarrow> 'a hw_scheme" where
  "set_gate handler vec s = s\<lparr>k_idt := idt_set_gate handler vec IDT_TA_InterruptGate 0x08 (k_idt s)\<rparr>"

lemmas io_defs = outb_def inb_def outw_def inw_def outl_def inl_def mmio_rd8_def mmio_rd16_def mmio_rd32_def
  mmio_rd64_def mmio_wr16_def mmio_wr32_def mmio_wr64_def poll_mem_def access_io_def

section \<open>Index and data windows\<close>

text \<open>
  A bank of 32-bit registers behind two windows: \<open>sel i\<close> selects register \<open>i\<close>, \<open>put v\<close> writes the selected
  register, \<open>get\<close> reads it.  The content of a register after a history is the value last put into it.
\<close>

definition bank_step ::
  "(io_event \<Rightarrow> 'i option) \<Rightarrow> (io_event \<Rightarrow> u32 option) \<Rightarrow> io_event \<Rightarrow> 'i option \<times> ('i \<Rightarrow> u32) \<Rightarrow> 'i option \<times> ('i \<Rightarrow> u32)" where
  "bank_step is_sel is_put e = (\<lambda>(i, r).
     case is_sel e of Some j \<Rightarrow> (Some j, r)
     | None \<Rightarrow> (case (is_put e, i) of (Some v, Some j) \<Rightarrow> (i, r(j := v)) | _ \<Rightarrow> (i, r)))"

definition bank :: "(io_event \<Rightarrow> 'i option) \<Rightarrow> (io_event \<Rightarrow> u32 option) \<Rightarrow> ('i \<Rightarrow> u32) \<Rightarrow> io_event list \<Rightarrow> 'i option \<times> ('i \<Rightarrow> u32)" where
  "bank is_sel is_put r0 h = fold (bank_step is_sel is_put) h (None, r0)"

text \<open>A device that answers a read of the data window with the selected register.\<close>

definition serves_bank ::
  "(io_event \<Rightarrow> 'i option) \<Rightarrow> (io_event \<Rightarrow> u32 option) \<Rightarrow> io_event \<Rightarrow> ('i \<Rightarrow> u32) \<Rightarrow> device_env \<Rightarrow> bool" where
  "serves_bank is_sel is_put get r0 D \<longleftrightarrow>
     (\<forall>h i r. bank is_sel is_put r0 h = (Some i, r) \<longrightarrow> ucast (answer D (h @ [get])) = r i)"

definition bank_device ::
  "(io_event \<Rightarrow> 'i option) \<Rightarrow> (io_event \<Rightarrow> u32 option) \<Rightarrow> ('i \<Rightarrow> u32) \<Rightarrow> device_env" where
  "bank_device is_sel is_put r0 = \<lparr>answer = (\<lambda>h. case bank is_sel is_put r0 (butlast h) of
     (Some i, r) \<Rightarrow> ucast (r i) | _ \<Rightarrow> 0), dma = (\<lambda>_ m. m)\<rparr>"

lemma ucast_up_down: "ucast (ucast (x :: u32) :: u64) = x"
  by (rule bit_word_eqI) (simp add: bit_unsigned_iff)

locale indexed_regs =
  fixes is_sel :: "io_event \<Rightarrow> 'i option"
    and is_put :: "io_event \<Rightarrow> u32 option"
    and sel :: "'i \<Rightarrow> io_event"
    and put :: "u32 \<Rightarrow> io_event"
    and get :: io_event
  assumes is_sel_sel: "is_sel (sel i) = Some i"
    and is_sel_put: "is_sel (put v) = None"
    and is_sel_get: "is_sel get = None"
    and is_put_put: "is_put (put v) = Some v"
    and is_put_get: "is_put get = None"
begin

definition reg :: "('i \<Rightarrow> u32) \<Rightarrow> io_event list \<Rightarrow> 'i \<Rightarrow> u32" where
  "reg r0 h = snd (bank is_sel is_put r0 h)"

lemma bank_snoc: "bank is_sel is_put r0 (h @ [e]) = bank_step is_sel is_put e (bank is_sel is_put r0 h)"
  by (simp add: bank_def)

lemma bank_sel: "bank is_sel is_put r0 (h @ [sel i]) = (Some i, reg r0 h)"
  by (simp add: bank_snoc bank_step_def is_sel_sel reg_def split: prod.split)

lemma reg_write: "reg r0 (h @ [sel i, put v]) = (reg r0 h)(i := v)"
proof -
  have "bank is_sel is_put r0 ((h @ [sel i]) @ [put v]) = (Some i, (reg r0 h)(i := v))"
    by (simp only: bank_snoc[of r0 "h @ [sel i]"] bank_sel) (simp add: bank_step_def is_sel_put is_put_put)
  then show ?thesis by (simp add: reg_def)
qed

lemma bank_read: "bank is_sel is_put r0 (h @ [sel i, get]) = (Some i, reg r0 h)"
proof -
  have "bank is_sel is_put r0 ((h @ [sel i]) @ [get]) = (Some i, reg r0 h)"
    by (simp only: bank_snoc[of r0 "h @ [sel i]"] bank_sel) (simp add: bank_step_def is_sel_get is_put_get)
  then show ?thesis by simp
qed

lemma reg_read: "reg r0 (h @ [sel i, get]) = reg r0 h"
  by (simp add: reg_def[of r0 "h @ [sel i, get]"] bank_read)

text \<open>Reading a register, changing the value and writing it back to the still selected register.\<close>

lemma reg_modify: "reg r0 (h @ [sel i, get, put v]) = (reg r0 h)(i := v)"
proof -
  have "bank is_sel is_put r0 ((h @ [sel i, get]) @ [put v]) = (Some i, (reg r0 h)(i := v))"
    by (simp only: bank_snoc[of r0 "h @ [sel i, get]"] bank_read) (simp add: bank_step_def is_sel_put is_put_put)
  then show ?thesis by (simp add: reg_def)
qed

lemma read_back:
  assumes "serves_bank is_sel is_put get r0 D"
  shows "ucast (answer D (h @ [sel i, get])) = reg r0 h i"
proof -
  have "ucast (answer D ((h @ [sel i]) @ [get])) = reg r0 h i"
    using assms bank_sel unfolding serves_bank_def by blast
  then show ?thesis by simp
qed

lemma bank_device_serves: "serves_bank is_sel is_put get r0 (bank_device is_sel is_put r0)"
  by (auto simp: serves_bank_def bank_device_def ucast_up_down split: prod.splits option.splits)

end

section \<open>A machine without devices\<close>

definition demo_hw :: hw where
  "demo_hw = procs.extend demo_procs
     \<lparr>io_log = [],
      k_gdt = \<lparr>gdt_tab = default_gdt, gdt_desc_size = 0, gdt_desc_offset = 0, gdt_loaded = False\<rparr>,
      k_idt = \<lparr>idt_entries = (\<lambda>_. \<lparr>offset0 = 0, selector = 0, ist = 0, type_attr = 0, offset1 = 0, offset2 = 0, ignore = 0\<rparr>),
        idtr_limit = 0, idtr_offset = 0, lidt_done = False, interrupts_on = False\<rparr>\<rparr>"

end
