(* ===== verification/Acpi.thy ===== *)
theory Acpi
  imports Kernel_Io
begin

text \<open>
  The ACPI tables: the search functions of \<^verbatim>\<open>kernel/src/acpi/acpi.c\<close> over the root table in memory, and the
  table layouts of \<^verbatim>\<open>include/acpi/acpi.h\<close>.  A signature is the list of the bytes of the C string.
\<close>

section \<open>Tables\<close>

record acpi = hw +
  rsdp :: u64
  rsdt :: u64
  xsdt :: u64

definition rsdp_revision :: "memory \<Rightarrow> u64 \<Rightarrow> u8" where "rsdp_revision m p = rd8 m (p + 15)"
definition rsdp_rsdt_addr :: "memory \<Rightarrow> u64 \<Rightarrow> u32" where "rsdp_rsdt_addr m p = rd32 m (p + 16)"
definition rsdp_xsdt_addr :: "memory \<Rightarrow> u64 \<Rightarrow> u64" where "rsdp_xsdt_addr m p = rd64 m (p + 24)"
definition sizeof_sdt_hdr :: u64 where "sizeof_sdt_hdr = 36"
definition sdt_signature :: "memory \<Rightarrow> u64 \<Rightarrow> u8 list" where "sdt_signature m h = map (\<lambda>i. rd8 m (h + of_nat i)) [0..<4]"
definition sdt_len :: "memory \<Rightarrow> u64 \<Rightarrow> u32" where "sdt_len m h = rd32 m (h + 4)"
definition rsdt_table_ptr :: "memory \<Rightarrow> u64 \<Rightarrow> nat \<Rightarrow> u64" where "rsdt_table_ptr m r i = ucast (rd32 m (r + 36 + 4 * of_nat i))"
definition xsdt_table_ptr :: "memory \<Rightarrow> u64 \<Rightarrow> nat \<Rightarrow> u64" where "xsdt_table_ptr m x i = rd64 m (x + 36 + 8 * of_nat i)"
definition madt_lapic_addr :: "memory \<Rightarrow> u64 \<Rightarrow> u32" where "madt_lapic_addr m p = rd32 m (p + 36)"
definition sizeof_madt :: u64 where "sizeof_madt = 44"

text \<open>The number of entries is computed in 64 bits and truncated to \<^verbatim>\<open>int\<close>.\<close>

definition acpi_entries :: "'a acpi_scheme \<Rightarrow> u32" where
  "acpi_entries s =
     (if xsdt s \<noteq> 0 then ucast ((ucast (sdt_len (mem s) (xsdt s)) - sizeof_sdt_hdr) div 8)
      else ucast ((ucast (sdt_len (mem s) (rsdt s)) - sizeof_sdt_hdr) div 4))"

definition acpi_table :: "'a acpi_scheme \<Rightarrow> nat \<Rightarrow> u64" where
  "acpi_table s i = (if xsdt s \<noteq> 0 then xsdt_table_ptr (mem s) (xsdt s) i else rsdt_table_ptr (mem s) (rsdt s) i)"

fun acpi_find_loop :: "'a acpi_scheme \<Rightarrow> u8 list \<Rightarrow> nat list \<Rightarrow> u64" where
  "acpi_find_loop s signature [] = 0"
| "acpi_find_loop s signature (i # is) =
     (let hdr = acpi_table s i in
      if sdt_signature (mem s) hdr = signature then hdr else acpi_find_loop s signature is)"

definition acpi_find_table :: "u8 list \<Rightarrow> 'a acpi_scheme \<Rightarrow> u64" where
  "acpi_find_table signature s =
     (if length signature \<noteq> 4 then 0
      else acpi_find_loop s signature [0..<nat (sint (acpi_entries s))])"

fun acpi_find_nth_loop :: "'a acpi_scheme \<Rightarrow> u8 list \<Rightarrow> u32 \<Rightarrow> nat list \<Rightarrow> u64" where
  "acpi_find_nth_loop s signature idx [] = 0"
| "acpi_find_nth_loop s signature idx (i # is) =
     (let hdr = acpi_table s i in
      if sdt_signature (mem s) hdr = signature then
        (if idx = 0 then hdr else acpi_find_nth_loop s signature (idx - 1) is)
      else acpi_find_nth_loop s signature idx is)"

definition acpi_find_nth_table :: "u8 list \<Rightarrow> u32 \<Rightarrow> 'a acpi_scheme \<Rightarrow> u64" where
  "acpi_find_nth_table signature idx s =
     (if length signature \<noteq> 4 then 0
      else acpi_find_nth_loop s signature idx [0..<nat (sint (acpi_entries s))])"

definition sci_handler :: "'a machine_scheme \<Rightarrow> 'a machine_scheme" where
  "sci_handler s = klog Log_info ''ACPI'' (''SCI interrupt happened!... What now?'' @ [CHR 0x0A]) [] s"

section \<open>Properties\<close>

text \<open>The tables with a given signature, in the order of the root table.\<close>

definition acpi_tables :: "u8 list \<Rightarrow> 'a acpi_scheme \<Rightarrow> u64 list" where
  "acpi_tables signature s =
     filter (\<lambda>h. sdt_signature (mem s) h = signature) (map (acpi_table s) [0..<nat (sint (acpi_entries s))])"

lemma acpi_find_nth_loop_eq:
  "acpi_find_nth_loop s sg idx is =
     (let ts = filter (\<lambda>h. sdt_signature (mem s) h = sg) (map (acpi_table s) is) in
      if unat idx < length ts then ts ! unat idx else 0)"
proof (induction "is" arbitrary: idx)
  case (Cons i "is")
  have "unat (idx - 1) = unat idx - 1" "0 < unat idx" if "idx \<noteq> 0"
    using that by (simp_all add: unat_minus_one unat_gt_0)
  then show ?case using Cons by (auto simp: Let_def nth_Cons' unat_eq_0)
qed simp

lemma acpi_find_loop_nth: "acpi_find_loop s sg is = acpi_find_nth_loop s sg 0 is"
  by (induction "is") (auto simp: Let_def)

text \<open>
  C27.  For a four-byte signature \<^verbatim>\<open>acpi_find_nth_table\<close> returns the table of the given
  rank among the tables of the root table that carry the signature, and \<^verbatim>\<open>NULL\<close> when there are not that
  many; \<^verbatim>\<open>acpi_find_table\<close> is the search for rank 0.
\<close>

theorem acpi_find_nth_spec:
  assumes "length sg = 4"
  shows "acpi_find_nth_table sg idx s =
      (if unat idx < length (acpi_tables sg s) then acpi_tables sg s ! unat idx else 0) \<and>
    acpi_find_table sg s = acpi_find_nth_table sg 0 s"
  using assms
  by (simp add: acpi_find_nth_table_def acpi_find_table_def acpi_find_loop_nth)
     (simp add: acpi_find_nth_loop_eq acpi_tables_def Let_def)

text \<open>A root table with two tables of the signature APIC.\<close>

definition demo_acpi :: acpi where
  "demo_acpi = hw.extend (demo_hw\<lparr>mem := wr8 (wr8 (wr8 (wr8 (wr8 (wr8 (wr8 (wr8 (wr32 (wr32 (wr32 (\<lambda>_. 0) 0x1004 44) 0x1024 0x2000) 0x1028 0x3000)
       0x2000 0x41) 0x2001 0x50) 0x2002 0x49) 0x2003 0x43) 0x3000 0x41) 0x3001 0x50) 0x3002 0x49) 0x3003 0x43\<rparr>)
     \<lparr>rsdp = 0, rsdt = 0x1000, xsdt = 0\<rparr>"

theorem acpi_find_nth_spec_witness:
  "acpi_find_nth_table [0x41, 0x50, 0x49, 0x43] 1 demo_acpi = 0x3000"
proof -
  have m: "mem demo_acpi = wr8 (wr8 (wr8 (wr8 (wr8 (wr8 (wr8 (wr8 (wr32 (wr32 (wr32 (\<lambda>_. 0) 0x1004 44) 0x1024 0x2000) 0x1028 0x3000)
       0x2000 0x41) 0x2001 0x50) 0x2002 0x49) 0x2003 0x43) 0x3000 0x41) 0x3001 0x50) 0x3002 0x49) 0x3003 0x43" "rsdt demo_acpi = 0x1000" "xsdt demo_acpi = 0"
    by (simp_all add: demo_acpi_def hw.defs)
  have e: "acpi_entries demo_acpi = 2"
    by (simp add: acpi_entries_def sdt_len_def m mem_simps sep_def sizeof_sdt_hdr_def)
  have t: "acpi_table demo_acpi 0 = 0x2000" "acpi_table demo_acpi 1 = 0x3000"
    by (simp_all add: acpi_table_def rsdt_table_ptr_def m mem_simps sep_def)
  have "sdt_signature (mem demo_acpi) 0x2000 = [0x41, 0x50, 0x49, 0x43]" "sdt_signature (mem demo_acpi) 0x3000 = [0x41, 0x50, 0x49, 0x43]"
    by (simp_all add: sdt_signature_def upt_rec m rd8_def wr8_def)
  then have "acpi_tables [0x41, 0x50, 0x49, 0x43] demo_acpi = [0x2000, 0x3000]"
    using t by (simp add: acpi_tables_def e upt_rec)
  then show ?thesis using acpi_find_nth_spec[of "[0x41, 0x50, 0x49, 0x43]" 1 demo_acpi] by simp
qed

end
