(* ===== verification/Apic.thy ===== *)
theory Apic
  imports Acpi
begin

text \<open>
  The interrupt controllers, \<^verbatim>\<open>kernel/src/apic/lapic.c\<close> and \<^verbatim>\<open>kernel/src/apic/ioapic.c\<close>, and the start of the
  ACPI subsystem, \<^verbatim>\<open>acpi_init\<close> of \<^verbatim>\<open>kernel/src/acpi/acpi.c\<close>, which programs them.  \<^verbatim>\<open>cli; hlt\<close> and endless
  loops do not return: the result is \<open>None\<close>.
\<close>

section \<open>The local APIC\<close>

record apic = acpi +
  lapic_address :: u64
  ioapic_madt :: u64
  ioapic_address :: u64

definition LAPIC_MSR :: u32 where "LAPIC_MSR = 0x1B"
definition LAPIC_TPR :: u32 where "LAPIC_TPR = 0x80"
definition LAPIC_EOI :: u32 where "LAPIC_EOI = 0xB0"
definition LAPIC_SINT :: u32 where "LAPIC_SINT = 0x00F0"
definition LAPIC_SINT_NO_BROADCAST_EOI :: u32 where "LAPIC_SINT_NO_BROADCAST_EOI = 0x1000"
definition LAPIC_SINT_EN :: u32 where "LAPIC_SINT_EN = 0x100"
definition LAPIC_LVT_MASK :: u32 where "LAPIC_LVT_MASK = 0x10000"
definition LAPIC_LVT_ER :: u32 where "LAPIC_LVT_ER = 0x370"
definition LAPIC_ESR :: u32 where "LAPIC_ESR = 0x280"
definition LAPIC_LVT_LINT0 :: u32 where "LAPIC_LVT_LINT0 = 0x350"
definition LAPIC_LVT_LINT1 :: u32 where "LAPIC_LVT_LINT1 = 0x360"

definition write_lapic_register :: "device_env \<Rightarrow> u32 \<Rightarrow> u32 \<Rightarrow> 'a apic_scheme \<Rightarrow> 'a apic_scheme" where
  "write_lapic_register D offset val s = mmio_wr32 D (lapic_address s + ucast offset) val s"

definition read_lapic_register :: "device_env \<Rightarrow> u32 \<Rightarrow> 'a apic_scheme \<Rightarrow> u32 \<times> 'a apic_scheme" where
  "read_lapic_register D offset s = mmio_rd32 D (lapic_address s + ucast offset) s"

definition get_lapic_id :: u32 where "get_lapic_id = 0"

definition get_lapic_addr :: "'a apic_scheme \<Rightarrow> u32" where
  "get_lapic_addr s = ucast (lapic_address s)"

definition lapic_eoi :: "device_env \<Rightarrow> 'a apic_scheme \<Rightarrow> 'a apic_scheme" where
  "lapic_eoi D s = write_lapic_register D LAPIC_EOI 0 s"

definition lapic_enable :: "device_env \<Rightarrow> 'a apic_scheme \<Rightarrow> 'a apic_scheme" where
  "lapic_enable D s =
     (let (v, s) = read_msr D LAPIC_MSR s;
          s = write_msr D LAPIC_MSR ((v OR 0x800) AND 0xFFFFFFFFFFFFFBFF) s;
          (sint_reg, s) = read_lapic_register D LAPIC_SINT s;
          s = write_lapic_register D LAPIC_SINT
                (sint_reg OR (LAPIC_SINT_EN OR 0xFF) OR LAPIC_SINT_NO_BROADCAST_EOI) s;
          s = write_lapic_register D LAPIC_ESR 0 s;
          s = write_lapic_register D LAPIC_ESR 0 s;
          s = write_lapic_register D LAPIC_LVT_ER (0xFE OR 0x100) s;
          s = write_lapic_register D LAPIC_LVT_LINT0 (0xFD OR LAPIC_LVT_MASK) s;
          s = write_lapic_register D LAPIC_LVT_LINT1 (0xFD OR LAPIC_LVT_MASK) s;
          s = write_lapic_register D LAPIC_TPR 0 s
      in write_lapic_register D LAPIC_EOI 0 s)"

definition sig_APIC :: "u8 list" where "sig_APIC = [0x41, 0x50, 0x49, 0x43]"

definition lapic_init :: "device_env \<Rightarrow> 'a apic_scheme \<Rightarrow> 'a apic_scheme option" where
  "lapic_init D s =
     (let madt = acpi_find_table sig_APIC s in
      if madt = 0 then None
      else do {
        let s = s\<lparr>lapic_address := ucast (madt_lapic_addr (mem s) madt)\<rparr>;
        s \<leftarrow> paging_map (lapic_address s AND 0xFFFFFFFFFFFFF000) (lapic_address s AND 0xFFFFFFFFFFFFF000)
               (PAGE_NORMAL OR PAGE_CACHE_DISABLED) s;
        let s = lapic_enable D s;
        Some (klog Log_ok ''LAPIC'' ''LAPIC initialized'' [] s)
      })"

section \<open>The I/O APIC\<close>

definition IOAPIC_AR :: u64 where "IOAPIC_AR = 0x00"
definition IOAPIC_DR :: u64 where "IOAPIC_DR = 0x10"
definition IOAPIC_ENTRY_MASK :: u64 where "IOAPIC_ENTRY_MASK = 0x10000"

definition vlr_entry_type :: "memory \<Rightarrow> u64 \<Rightarrow> u8" where "vlr_entry_type m p = rd8 m p"
definition vlr_rec_length :: "memory \<Rightarrow> u64 \<Rightarrow> u8" where "vlr_rec_length m p = rd8 m (p + 1)"
definition ioapic_entry_addr :: "memory \<Rightarrow> u64 \<Rightarrow> u32" where "ioapic_entry_addr m p = rd32 m (p + 4)"
definition override_source :: "memory \<Rightarrow> u64 \<Rightarrow> u8" where "override_source m p = rd8 m (p + 3)"
definition override_interrupt :: "memory \<Rightarrow> u64 \<Rightarrow> u32" where "override_interrupt m p = rd32 m (p + 4)"

definition write_ioapic_register :: "device_env \<Rightarrow> u8 \<Rightarrow> u32 \<Rightarrow> 'a apic_scheme \<Rightarrow> 'a apic_scheme" where
  "write_ioapic_register D offset val s =
     (let s = mmio_wr32 D (ioapic_address s + IOAPIC_AR) (ucast offset) s
      in mmio_wr32 D (ioapic_address s + IOAPIC_DR) val s)"

definition read_ioapic_register :: "device_env \<Rightarrow> u8 \<Rightarrow> 'a apic_scheme \<Rightarrow> u32 \<times> 'a apic_scheme" where
  "read_ioapic_register D offset s =
     (let s = mmio_wr32 D (ioapic_address s + IOAPIC_AR) (ucast offset) s
      in mmio_rd32 D (ioapic_address s + IOAPIC_DR) s)"

partial_function (option) remap_loop :: "memory \<Rightarrow> u32 \<Rightarrow> u64 \<Rightarrow> u64 \<Rightarrow> u32 option" where
  "remap_loop m irq end_p p =
     (if p < end_p then
        (if vlr_rec_length m p < 2 then Some irq
         else if vlr_entry_type m p = 2 \<and> ucast (override_source m p) = irq then Some (override_interrupt m p)
         else remap_loop m irq end_p (p + ucast (vlr_rec_length m p)))
      else Some irq)"

definition ioapic_remap_irq :: "u32 \<Rightarrow> 'a apic_scheme \<Rightarrow> u32 option" where
  "ioapic_remap_irq irq s =
     (let madt = ioapic_madt s in
      if madt = 0 then Some irq
      else remap_loop (mem s) irq (madt + ucast (sdt_len (mem s) madt)) (madt + sizeof_madt))"

definition ioapic_set_entry :: "device_env \<Rightarrow> u8 \<Rightarrow> u64 \<Rightarrow> 'a apic_scheme \<Rightarrow> 'a apic_scheme" where
  "ioapic_set_entry D index data s =
     (let s = write_ioapic_register D (0x10 + index * 2) (ucast data) s
      in write_ioapic_register D (0x10 + index * 2 + 1) (ucast (drop_bit 32 data)) s)"

text \<open>The scan of the MADT keeps the last I/O APIC record; a record of length 0 is never passed.\<close>

partial_function (option) ioapic_scan :: "u64 \<Rightarrow> u64 \<Rightarrow> u64 \<Rightarrow> 'a apic_scheme \<Rightarrow> (u64 \<times> 'a apic_scheme) option" where
  "ioapic_scan madt_end entry found s =
     (if entry < madt_end then
        (let (found, s) =
           (if vlr_entry_type (mem s) entry = 1
            then (entry, klog Log_info ''IOAPIC'' ''IOAPIC address found: %lx''
                    [Arg_word (ucast (ioapic_entry_addr (mem s) entry))] s)
            else (found, s))
         in ioapic_scan madt_end (entry + ucast (vlr_rec_length (mem s) entry)) found s)
      else Some (found, s))"

definition ioapic_mask_all :: "device_env \<Rightarrow> nat \<Rightarrow> 'a apic_scheme \<Rightarrow> 'a apic_scheme" where
  "ioapic_mask_all D n s = fold (\<lambda>i. ioapic_set_entry D (of_nat i) IOAPIC_ENTRY_MASK) [0..<n] s"

definition ioapic_init :: "device_env \<Rightarrow> 'a apic_scheme \<Rightarrow> 'a apic_scheme option" where
  "ioapic_init D s =
     (let s = s\<lparr>ioapic_madt := acpi_find_table sig_APIC s\<rparr> in
      if ioapic_madt s = 0 then None
      else do {
        (entry, s) \<leftarrow> ioapic_scan (ioapic_madt s + ucast (sdt_len (mem s) (ioapic_madt s)))
                        (ioapic_madt s + sizeof_madt) 0 s;
        let s = s\<lparr>ioapic_address := ucast (ioapic_entry_addr (mem s) entry)\<rparr>;
        s \<leftarrow> paging_map (ioapic_address s AND 0xFFFFFFFFFFFFF000) (ioapic_address s AND 0xFFFFFFFFFFFFF000)
               PAGE_NORMAL s;
        let (reg1, s) = read_ioapic_register D 0x01 s;
        let max_entries = (drop_bit 16 reg1 AND 0xff) + 1;
        let s = ioapic_mask_all D (unat max_entries) s;
        Some (klog Log_ok ''IOAPIC'' ''IOAPIC initialized'' [] s)
      })"

section \<open>Starting ACPI\<close>

definition bi_rsdp :: "memory \<Rightarrow> u64 \<Rightarrow> u64" where "bi_rsdp m b = rd64 m (b + 40)"
definition fadt_sci_irq :: "memory \<Rightarrow> u64 \<Rightarrow> u16" where "fadt_sci_irq m p = rd16 m (p + 46)"
definition sig_FACP :: "u8 list" where "sig_FACP = [0x46, 0x41, 0x43, 0x50]"

definition acpi_map_table :: "nat \<Rightarrow> 'a acpi_scheme \<Rightarrow> 'a acpi_scheme option" where
  "acpi_map_table i s =
     (let hdr = rsdt_table_ptr (mem s) (rsdt s) i
      in paging_map (hdr AND 0xFFFFFFFFFFFFF000) (hdr AND 0xFFFFFFFFFFFFF000) PAGE_NORMAL s)"

text \<open>
  The interpreter of the AML code, \<^verbatim>\<open>lai_set_acpi_revision\<close> and \<^verbatim>\<open>lai_create_namespace\<close>, is the parameter
  \<open>lai\<close>; the entry stub of the SCI handler is an address.
\<close>

definition acpi_init ::
  "device_env \<Rightarrow> (u8 \<Rightarrow> 'a apic_scheme \<Rightarrow> 'a apic_scheme option) \<Rightarrow> u64 \<Rightarrow> u64 \<Rightarrow> 'a apic_scheme \<Rightarrow> 'a apic_scheme option" where
  "acpi_init D lai sci_irq boot_info s = do {
     let s = s\<lparr>rsdp := bi_rsdp (mem s) boot_info\<rparr>;
     s \<leftarrow> (if rsdp_revision (mem s) (rsdp s) > 0 then do {
             let s = s\<lparr>xsdt := rsdp_xsdt_addr (mem s) (rsdp s)\<rparr>;
             s \<leftarrow> paging_map (xsdt s) (xsdt s) PAGE_NORMAL s;
             Some (klog Log_info ''ACPI'' ''Mapped XSDT to memory'' [] s)
           } else do {
             let s = s\<lparr>rsdt := ucast (rsdp_rsdt_addr (mem s) (rsdp s))\<rparr>;
             s \<leftarrow> paging_map (rsdt s) (rsdt s) PAGE_NORMAL s;
             Some (klog Log_info ''ACPI'' ''Mapped RSDT to memory'' [] s)
           });
     s \<leftarrow> fold_opt acpi_map_table [0..<nat (sint (acpi_entries s))] s;
     let s = klog Log_info ''ACPI'' ''Mapped every table to memory'' [] s;
     let fadt = acpi_find_table sig_FACP s;
     if fadt = 0 then None
     else do {
       let s = set_gate sci_irq 0x40 s;
       line \<leftarrow> ioapic_remap_irq (ucast (fadt_sci_irq (mem s) fadt)) s;
       let s = ioapic_set_entry D (ucast line) 0x40 s;
       s \<leftarrow> lai (rsdp_revision (mem s) (rsdp s)) s;
       Some (klog Log_ok ''ACPI'' ''ACPI initialized'' [] s)
     }
   }"

section \<open>Interrupt source overrides\<close>

lemma unat_add_byte: "unat (p :: u64) + unat (l :: u8) < 2 ^ 64 \<Longrightarrow> unat (p + ucast l) = unat p + unat l"
  by (simp add: unat_word_ariths unat_ucast_up)

text \<open>The records of a MADT between two addresses, up to the first one too short to be a record.\<close>

function madt_records :: "memory \<Rightarrow> u64 \<Rightarrow> u64 \<Rightarrow> u64 list" where
  "madt_records m end_p p =
     (if p < end_p \<and> 2 \<le> vlr_rec_length m p \<and> unat p + unat (vlr_rec_length m p) < 2 ^ 64
      then p # madt_records m end_p (p + ucast (vlr_rec_length m p)) else [])"
  by pat_completeness auto

termination
proof (relation "measure (\<lambda>(m, e, p). unat e - unat p)")
  show "wf (measure (\<lambda>(m, e, p). unat e - unat p))" by simp
  fix m :: memory and e p :: u64
  assume a: "p < e \<and> 2 \<le> vlr_rec_length m p \<and> unat p + unat (vlr_rec_length m p) < 2 ^ 64"
  then have "unat (p + ucast (vlr_rec_length m p)) = unat p + unat (vlr_rec_length m p)"
    by (simp add: unat_add_byte)
  moreover have "unat p < unat e" "2 \<le> unat (vlr_rec_length m p)"
    using a by (simp_all add: word_less_nat_alt word_le_nat_alt)
  ultimately show "((m, e, p + ucast (vlr_rec_length m p)), (m, e, p)) \<in> measure (\<lambda>(m, e, p). unat e - unat p)"
    by simp
qed

declare madt_records.simps [simp del]

definition overrides :: "memory \<Rightarrow> u32 \<Rightarrow> u64 \<Rightarrow> bool" where
  "overrides m irq p \<longleftrightarrow> vlr_entry_type m p = 2 \<and> ucast (override_source m p) = irq"

lemma remap_loop_find:
  assumes "unat end_p + 255 < 2 ^ 64"
  shows "remap_loop m irq end_p p =
    Some (case find (overrides m irq) (madt_records m end_p p) of Some q \<Rightarrow> override_interrupt m q | None \<Rightarrow> irq)"
  using assms
proof (induction m end_p p rule: madt_records.induct)
  case (1 m end_p p)
  have len: "unat (vlr_rec_length m p) \<le> 255"
    using unsigned_less[of "vlr_rec_length m p", where ?'a = nat] by simp
  show ?case
  proof (cases "p < end_p \<and> 2 \<le> vlr_rec_length m p")
    case True
    then have "unat p + unat (vlr_rec_length m p) < 2 ^ 64"
      using len 1(2) by (simp add: word_less_nat_alt)
    with True have c: "p < end_p \<and> 2 \<le> vlr_rec_length m p \<and> unat p + unat (vlr_rec_length m p) < 2 ^ 64"
      by blast
    have n: "\<not> vlr_rec_length m p < 2" using c by (simp add: not_less)
    show ?thesis
      using 1(1)[OF c 1(2)] c n
      by (subst remap_loop.simps, subst madt_records.simps) (simp add: overrides_def[of m irq p])
  next
    case False
    then show ?thesis
      by (subst remap_loop.simps, subst madt_records.simps) (auto simp: not_less)
  qed
qed

text \<open>
  C26 The search for an interrupt source override always ends when the table lies below the top
  of the address space, whatever bytes the table holds: it yields the interrupt of the first override
  record of the source line, and the line itself when there is none.
\<close>

theorem ioapic_remap_irq_terminates:
  assumes "unat (ioapic_madt s) + unat (sdt_len (mem s) (ioapic_madt s)) + 255 < 2 ^ 64"
  shows "ioapic_remap_irq irq s = Some
    (case find (overrides (mem s) irq)
            (if ioapic_madt s = 0 then []
             else madt_records (mem s) (ioapic_madt s + ucast (sdt_len (mem s) (ioapic_madt s))) (ioapic_madt s + sizeof_madt))
     of Some q \<Rightarrow> override_interrupt (mem s) q | None \<Rightarrow> irq)"
proof -
  have "unat (ioapic_madt s + ucast (sdt_len (mem s) (ioapic_madt s)))
      \<le> unat (ioapic_madt s) + unat (sdt_len (mem s) (ioapic_madt s))"
    by (simp add: unat_word_ariths unat_ucast_up)
  then show ?thesis
    using assms by (simp add: ioapic_remap_irq_def Let_def remap_loop_find)
qed

definition demo_apic :: apic where
  "demo_apic = acpi.extend (hw.extend demo_hw \<lparr>rsdp = 0, rsdt = 0, xsdt = 0\<rparr>)
     \<lparr>lapic_address = 0xFEE00000, ioapic_madt = 0x1000, ioapic_address = 0xFEC00000\<rparr>
     \<lparr>mem := wr8 (wr8 (wr8 (wr32 (wr32 (\<lambda>_. 0) 0x1004 54) 0x1030 20) 0x102C 2) 0x102D 10) 0x102F 9\<rparr>"

theorem ioapic_remap_irq_terminates_witness:
  "ioapic_remap_irq 9 demo_apic = Some 20 \<and> ioapic_remap_irq 3 demo_apic = Some 3"
proof -
  let ?m = "wr8 (wr8 (wr8 (wr32 (wr32 (\<lambda>_. 0) 0x1004 54) 0x1030 20) 0x102C 2) 0x102D 10) 0x102F 9"
  have m: "mem demo_apic = ?m" and a: "ioapic_madt demo_apic = 0x1000"
    by (simp_all add: demo_apic_def acpi.defs hw.defs)
  have l: "sdt_len ?m 0x1000 = 54"
    by (simp add: sdt_len_def mem_simps sep_def)
  have v: "vlr_rec_length ?m 0x102C = 10"
    by (simp add: vlr_rec_length_def rd8_def wr8_def)
  have r: "madt_records ?m 0x1036 0x102C = [0x102C]"
    by (simp add: madt_records.simps[of ?m "0x1036" "0x102C"] madt_records.simps[of ?m "0x1036" "0x1036"] v)
  have o: "vlr_entry_type ?m 0x102C = 2" "override_source ?m 0x102C = 9"
    by (simp_all add: vlr_entry_type_def override_source_def rd8_def wr8_def)
  have i: "override_interrupt ?m 0x102C = 20"
    by (simp add: override_interrupt_def mem_simps sep_def unsigned_minus_1_eq_mask mask_eq_exp_minus_1)
  have h: "unat (ioapic_madt demo_apic) + unat (sdt_len (mem demo_apic) (ioapic_madt demo_apic)) + 255 < 2 ^ 64"
    unfolding m a l by simp
  show ?thesis
    using ioapic_remap_irq_terminates[OF h, of 9] ioapic_remap_irq_terminates[OF h, of 3]
    unfolding m a l by (simp add: sizeof_madt_def r overrides_def o i)
qed

section \<open>The redirection table\<close>

definition ioapic_sel :: "u64 \<Rightarrow> io_event \<Rightarrow> u8 option" where
  "ioapic_sel base e = (case e of Mmio_write32 a v \<Rightarrow> if a = base then Some (ucast v) else None | _ \<Rightarrow> None)"
definition ioapic_put :: "u64 \<Rightarrow> io_event \<Rightarrow> u32 option" where
  "ioapic_put base e = (case e of Mmio_write32 a v \<Rightarrow> if a = base + IOAPIC_DR then Some v else None | _ \<Rightarrow> None)"
definition ioapic_get :: "u64 \<Rightarrow> io_event" where
  "ioapic_get base = Mmio_read32 (base + IOAPIC_DR)"

text \<open>The registers of the I/O APIC at \<open>base\<close> after a history of accesses.\<close>

definition ioapic_reg :: "u64 \<Rightarrow> (u8 \<Rightarrow> u32) \<Rightarrow> io_event list \<Rightarrow> u8 \<Rightarrow> u32" where
  "ioapic_reg base r0 h = snd (bank (ioapic_sel base) (ioapic_put base) r0 h)"

lemma ucast_u8_u32_u8: "ucast (ucast (x :: u8) :: u32) = x"
  by (rule bit_word_eqI) (simp add: bit_unsigned_iff)

interpretation ioapic: indexed_regs "ioapic_sel base" "ioapic_put base"
  "\<lambda>i. Mmio_write32 base (ucast i)" "Mmio_write32 (base + IOAPIC_DR)" "ioapic_get base" for base
  by unfold_locales (simp_all add: ioapic_sel_def ioapic_put_def ioapic_get_def IOAPIC_DR_def ucast_u8_u32_u8)

lemma ioapic_reg_eq: "ioapic_reg base = ioapic.reg base"
  by (intro ext) (simp add: ioapic_reg_def ioapic.reg_def)

lemma write_ioapic_register_simps [simp]:
  "ioapic_address (write_ioapic_register D i v s) = ioapic_address s"
  "ioapic_reg (ioapic_address s) r0 (io_log (write_ioapic_register D i v s)) =
     (ioapic_reg (ioapic_address s) r0 (io_log s))(i := v)"
  by (simp_all add: write_ioapic_register_def io_defs Let_def IOAPIC_AR_def ioapic_reg_eq ioapic.reg_write)

lemma ioapic_set_entry_simps [simp]:
  "ioapic_address (ioapic_set_entry D i v s) = ioapic_address s"
  "ioapic_reg (ioapic_address s) r0 (io_log (ioapic_set_entry D i v s)) =
     (ioapic_reg (ioapic_address s) r0 (io_log s))
       (0x10 + i * 2 := ucast v, 0x10 + i * 2 + 1 := ucast (drop_bit 32 v))"
proof -
  let ?s = "write_ioapic_register D (0x10 + i * 2) (ucast v) s"
  show "ioapic_address (ioapic_set_entry D i v s) = ioapic_address s"
    by (simp add: ioapic_set_entry_def Let_def)
  show "ioapic_reg (ioapic_address s) r0 (io_log (ioapic_set_entry D i v s)) =
     (ioapic_reg (ioapic_address s) r0 (io_log s))
       (0x10 + i * 2 := ucast v, 0x10 + i * 2 + 1 := ucast (drop_bit 32 v))"
    using write_ioapic_register_simps(2)[of ?s r0 D "0x10 + i * 2 + 1" "ucast (drop_bit 32 v)"]
    by (simp add: ioapic_set_entry_def Let_def)
qed

text \<open>An entry of the redirection table is a pair of registers; 120 entries fit.\<close>

definition ioapic_entry :: "(u8 \<Rightarrow> u32) \<Rightarrow> nat \<Rightarrow> u64" where
  "ioapic_entry r i = push_bit 32 (ucast (r (0x10 + of_nat i * 2 + 1))) OR ucast (r (0x10 + of_nat i * 2))"

lemma unat_entry_index: "i < 120 \<Longrightarrow> unat (0x10 + of_nat i * 2 :: u8) = 16 + 2 * i"
  "i < 120 \<Longrightarrow> unat (0x10 + of_nat i * 2 + 1 :: u8) = 17 + 2 * i"
  by (simp_all add: unat_word_ariths unat_of_nat)

lemma entry_index_eq:
  assumes "i < 120" "j < 120"
  shows "(0x10 + of_nat i * 2 :: u8) = 0x10 + of_nat j * 2 \<longleftrightarrow> i = j"
    "(0x10 + of_nat i * 2 + 1 :: u8) = 0x10 + of_nat j * 2 + 1 \<longleftrightarrow> i = j"
    "(0x10 + of_nat i * 2 :: u8) \<noteq> 0x10 + of_nat j * 2 + 1"
    "(0x10 + of_nat i * 2 + 1 :: u8) \<noteq> 0x10 + of_nat j * 2"
  using unat_entry_index[OF assms(1)] unat_entry_index[OF assms(2)]
  by (auto simp: word_unat_eq_iff; presburger)+

lemma halves: "push_bit 32 (ucast (ucast (drop_bit 32 v) :: u32)) OR ucast (ucast (v :: u64) :: u32) = v"
  by (rule bit_word_eqI) (auto simp: bit_simps)

lemma ioapic_entry_upd:
  assumes "i < 120" "j < 120"
  shows "ioapic_entry (r(0x10 + of_nat i * 2 := ucast v, 0x10 + of_nat i * 2 + 1 := ucast (drop_bit 32 v))) j =
    (if j = i then v else ioapic_entry r j)"
proof (cases "j = i")
  case True
  then show ?thesis
    using entry_index_eq[OF assms(1,1)] by (simp add: ioapic_entry_def halves)
next
  case False
  then show ?thesis
    using entry_index_eq[OF assms(2,1)] by (simp add: ioapic_entry_def)
qed

lemma ioapic_mask_all_simps:
  assumes "n \<le> 120"
  shows "ioapic_address (ioapic_mask_all D n s) = ioapic_address s \<and> (\<forall>j<120.
    ioapic_entry (ioapic_reg (ioapic_address s) r0 (io_log (ioapic_mask_all D n s))) j =
      (if j < n then IOAPIC_ENTRY_MASK else ioapic_entry (ioapic_reg (ioapic_address s) r0 (io_log s)) j))"
  using assms
proof (induction n)
  case 0
  then show ?case by (simp add: ioapic_mask_all_def)
next
  case (Suc n)
  let ?t = "ioapic_mask_all D n s"
  have step: "ioapic_mask_all D (Suc n) s = ioapic_set_entry D (of_nat n) IOAPIC_ENTRY_MASK ?t"
    by (simp add: ioapic_mask_all_def)
  show ?case
    using Suc ioapic_set_entry_simps(1)[of D "of_nat n" IOAPIC_ENTRY_MASK ?t] ioapic_set_entry_simps(2)[of ?t r0 D "of_nat n" IOAPIC_ENTRY_MASK]
      ioapic_entry_upd[of n]
    by (auto simp only: step split: if_splits)
qed

definition read_ioapic_entry :: "device_env \<Rightarrow> nat \<Rightarrow> 'a apic_scheme \<Rightarrow> u64" where
  "read_ioapic_entry D i s =
     (let (lo, s) = read_ioapic_register D (0x10 + of_nat i * 2) s;
          (hi, s) = read_ioapic_register D (0x10 + of_nat i * 2 + 1) s
      in push_bit 32 (ucast hi) OR ucast lo)"

lemma read_ioapic_register_log:
  "ioapic_address (snd (read_ioapic_register D i s)) = ioapic_address s"
  "ioapic_reg (ioapic_address s) r0 (io_log (snd (read_ioapic_register D i s))) = ioapic_reg (ioapic_address s) r0 (io_log s)"
  by (simp_all add: read_ioapic_register_def io_defs Let_def IOAPIC_AR_def ioapic_reg_eq ioapic.reg_read[unfolded ioapic_get_def])

lemma read_ioapic_register_val:
  assumes "serves_bank (ioapic_sel (ioapic_address s)) (ioapic_put (ioapic_address s)) (ioapic_get (ioapic_address s)) r0 D"
  shows "fst (read_ioapic_register D i s) = ioapic_reg (ioapic_address s) r0 (io_log s) i"
  using ioapic.read_back[OF assms, of "io_log s" i]
  by (simp add: read_ioapic_register_def io_defs Let_def IOAPIC_AR_def ioapic_reg_eq ioapic_get_def)

lemma read_ioapic_entry_val:
  assumes "serves_bank (ioapic_sel (ioapic_address s)) (ioapic_put (ioapic_address s)) (ioapic_get (ioapic_address s)) r0 D"
  shows "read_ioapic_entry D i s = ioapic_entry (ioapic_reg (ioapic_address s) r0 (io_log s)) i"
proof -
  let ?t = "snd (read_ioapic_register D (0x10 + of_nat i * 2) s)"
  show ?thesis
    using assms read_ioapic_register_val[of ?t r0 D "0x10 + of_nat i * 2 + 1"] read_ioapic_register_val[of s r0 D "0x10 + of_nat i * 2"]
      read_ioapic_register_log(1)[of D "0x10 + of_nat i * 2" s] read_ioapic_register_log(2)[of s r0 D "0x10 + of_nat i * 2"]
    by (simp add: read_ioapic_entry_def Let_def split_beta ioapic_entry_def)
qed



end
