(* ===== verification/Hpet.thy ===== *)
theory Hpet
  imports Apic
begin

text \<open>
  The high precision event timer, \<^verbatim>\<open>kernel/src/timers/hpet/hpet.c\<close>.  The quotient of \<^verbatim>\<open>HPET_ONE_FS\<close> and the clock
  period is a division of doubles in the code.  The period has 32 bits, so the rounded quotient of
  \<open>10\<^sup>1\<^sup>5\<close> and it never reaches the next integer and its conversion to \<^verbatim>\<open>uint64_t\<close> is the integer quotient;
  a period of 0 makes that conversion undefined, the result \<open>None\<close>.
\<close>

record hpet = apic +
  hpet_table :: u64
  ticks_per_10us :: u64

definition HPET_ONE_FS :: u64 where "HPET_ONE_FS = 1000000000000000"
definition HPET_GENERAL_CAPABILITIES_REG :: u64 where "HPET_GENERAL_CAPABILITIES_REG = 0x000"
definition HPET_GENERAL_CONFIGURATION_REG :: u64 where "HPET_GENERAL_CONFIGURATION_REG = 0x010"
definition HPET_MAIN_COUNTER :: u64 where "HPET_MAIN_COUNTER = 0x0F0"
definition HPET_TIMER0_CONFIGURATION_CAP_REG :: u64 where "HPET_TIMER0_CONFIGURATION_CAP_REG = 0x100"
definition HPET_TIMER0_COMPARATOR_REG :: u64 where "HPET_TIMER0_COMPARATOR_REG = 0x108"
definition HPET_GEN_CFG_EN_CNF :: u64 where "HPET_GEN_CFG_EN_CNF = 1"
definition HPET_GEN_CFG_LEG_RT :: u64 where "HPET_GEN_CFG_LEG_RT = 2"
definition HPET_TIM_CFG_CAP_INT :: u64 where "HPET_TIM_CFG_CAP_INT = 4"
definition HPET_TIM_CFG_CAP_PERIODIC :: u64 where "HPET_TIM_CFG_CAP_PERIODIC = 8"

definition hpet_base_address :: "memory \<Rightarrow> u64 \<Rightarrow> u64" where
  "hpet_base_address m t = rd64 m (t + 44)"

definition hpet_write :: "device_env \<Rightarrow> u64 \<Rightarrow> u64 \<Rightarrow> 'a hpet_scheme \<Rightarrow> 'a hpet_scheme" where
  "hpet_write D reg val s = mmio_wr64 D (hpet_base_address (mem s) (hpet_table s) + reg) val s"

definition hpet_read :: "device_env \<Rightarrow> u64 \<Rightarrow> 'a hpet_scheme \<Rightarrow> u64 \<times> 'a hpet_scheme" where
  "hpet_read D reg s = mmio_rd64 D (hpet_base_address (mem s) (hpet_table s) + reg) s"

partial_function (option) hpet_wait :: "device_env \<Rightarrow> u64 \<Rightarrow> u64 \<Rightarrow> 'a hpet_scheme \<Rightarrow> 'a hpet_scheme option" where
  "hpet_wait D now ticks_to_wait s =
     (let (v, s) = hpet_read D HPET_MAIN_COUNTER s
      in if v - now < ticks_to_wait then hpet_wait D now ticks_to_wait s else Some s)"

definition hpet_usleep :: "device_env \<Rightarrow> u64 \<Rightarrow> 'a hpet_scheme \<Rightarrow> 'a hpet_scheme option" where
  "hpet_usleep D us s =
     (let us = (if us < 10 then 10 else us);
          ticks_to_wait = (us div 10) * ticks_per_10us s;
          (now, s) = hpet_read D HPET_MAIN_COUNTER s
      in hpet_wait D now ticks_to_wait s)"

definition hpet_get_ticks :: "device_env \<Rightarrow> 'a hpet_scheme \<Rightarrow> u64 \<times> 'a hpet_scheme" where
  "hpet_get_ticks D s = hpet_read D HPET_MAIN_COUNTER s"

definition sig_HPET :: "u8 list" where "sig_HPET = [0x48, 0x50, 0x45, 0x54]"

definition hpet_init :: "device_env \<Rightarrow> 'a hpet_scheme \<Rightarrow> (u32 \<times> 'a hpet_scheme) option" where
  "hpet_init D s =
     (let s = s\<lparr>hpet_table := acpi_find_table sig_HPET s\<rparr> in
      if hpet_table s = 0 then Some (1, klog Log_warn ''HPET'' ''HPET not found.'' [] s)
      else do {
        let s = klog Log_info ''HPET'' ''Found HPET ACPI table'' [] s;
        let page = hpet_base_address (mem s) (hpet_table s) AND 0xFFFFFFFFFFFFF000;
        s \<leftarrow> paging_map page page (PAGE_NORMAL OR PAGE_CACHE_DISABLED) s;
        let s = klog Log_info ''HPET'' ''Mapped HPET address to virtual memory'' [] s;
        let (caps, s) = hpet_read D HPET_GENERAL_CAPABILITIES_REG s;
        let clk_period_fs = (ucast (drop_bit 32 caps AND 0xFFFFFFFF) :: u32);
        if clk_period_fs = 0 then None
        else do {
          let hpet_freq_hz = HPET_ONE_FS div ucast clk_period_fs;
          let s = s\<lparr>ticks_per_10us := hpet_freq_hz div 100000\<rparr>;
          let s = klog Log_info ''HPET'' ''Calculated the amount of ticks per 10us'' [] s;
          let s = hpet_write D HPET_GENERAL_CONFIGURATION_REG HPET_GEN_CFG_LEG_RT s;
          let s = hpet_write D HPET_MAIN_COUNTER 0 s;
          let s = klog Log_info ''HPET'' ''Disabled and reset the HPET'' [] s;
          let s = hpet_write D HPET_TIMER0_CONFIGURATION_CAP_REG
                    (HPET_TIM_CFG_CAP_INT OR HPET_TIM_CFG_CAP_PERIODIC) s;
          let s = hpet_write D HPET_TIMER0_COMPARATOR_REG (ticks_per_10us s) s;
          let s = klog Log_info ''HPET'' ''Configured Timer 0'' [] s;
          let s = hpet_write D HPET_GENERAL_CONFIGURATION_REG (HPET_GEN_CFG_EN_CNF OR HPET_GEN_CFG_LEG_RT) s;
          let s = klog Log_info ''HPET'' ''Enabled HPET'' [] s;
          line \<leftarrow> ioapic_remap_irq 0 s;
          let s = ioapic_set_entry D (ucast line) 0x20 s;
          Some (0, klog Log_ok ''HPET'' ''HPET initialized'' [] s)
        }
      })"

section \<open>Waiting\<close>

text \<open>
  A counter at \<open>a\<close> that runs: from one read to the next it advances by at least one tick and at most \<open>b\<close>,
  and the device writes no memory meanwhile.
\<close>

definition counter_runs :: "device_env \<Rightarrow> u64 \<Rightarrow> nat \<Rightarrow> bool" where
  "counter_runs D a b \<longleftrightarrow> (\<forall>h m. dma D (h @ [Mmio_read64 a]) m = m \<and>
     (let d = unat (answer D (h @ [Mmio_read64 a, Mmio_read64 a]) - answer D (h @ [Mmio_read64 a]))
      in 1 \<le> d \<and> d \<le> b))"

definition counter_at :: "'a hpet_scheme \<Rightarrow> u64" where
  "counter_at s = hpet_base_address (mem s) (hpet_table s) + HPET_MAIN_COUNTER"

lemma hpet_read_counter:
  assumes "counter_runs D (counter_at s) b"
  shows "hpet_read D HPET_MAIN_COUNTER s =
    (answer D (io_log s @ [Mmio_read64 (counter_at s)]), s\<lparr>io_log := io_log s @ [Mmio_read64 (counter_at s)]\<rparr>)"
  using assms by (simp add: hpet_read_def io_defs Let_def counter_runs_def flip: counter_at_def)

lemma counter_at_log [simp]: "counter_at (s\<lparr>io_log := h\<rparr>) = counter_at s"
  by (simp add: counter_at_def)

text \<open>The value last read from the counter.\<close>

definition last_count :: "device_env \<Rightarrow> 'a hpet_scheme \<Rightarrow> u64" where
  "last_count D s = answer D (io_log s)"

lemma unat_advance:
  assumes "unat (v - now :: u64) < w" "w + b < 2 ^ 64" "unat (v' - v) \<le> b"
  shows "unat (v' - now) = unat (v - now) + unat (v' - v)"
proof -
  have "unat ((v - now) + (v' - v)) = unat (v - now) + unat (v' - v)"
    using assms by (simp only: unat_word_ariths) simp
  then show ?thesis by simp
qed

lemma hpet_wait_returns:
  assumes runs: "counter_runs D (counter_at s) b" and w: "unat w + b < 2 ^ 64"
    and log: "io_log s = h @ [Mmio_read64 (counter_at s)]"
    and cur: "unat (last_count D s - now) < unat w"
  shows "\<exists>k. hpet_wait D now w s = Some (s\<lparr>io_log := io_log s @ replicate (Suc k) (Mmio_read64 (counter_at s))\<rparr>) \<and>
    unat w \<le> unat (answer D (io_log s @ replicate (Suc k) (Mmio_read64 (counter_at s))) - now)"
  using assms
proof (induction "unat w - unat (last_count D s - now)" arbitrary: s h rule: less_induct)
  case less
  let ?e = "Mmio_read64 (counter_at s)"
  let ?s = "s\<lparr>io_log := io_log s @ [?e]\<rparr>"
  have d: "1 \<le> unat (last_count D ?s - last_count D s)" "unat (last_count D ?s - last_count D s) \<le> b"
    using less.prems(1) unfolding counter_runs_def last_count_def less.prems(3)
    by (auto simp: less.prems(3) Let_def dest: spec[of _ h])
  have adv: "unat (last_count D ?s - now) = unat (last_count D s - now) + unat (last_count D ?s - last_count D s)"
    by (rule unat_advance[OF less.prems(4,2) d(2)])
  have step: "hpet_wait D now w s = (if last_count D ?s - now < w then hpet_wait D now w ?s else Some ?s)"
    by (subst hpet_wait.simps) (simp add: hpet_read_counter[OF less.prems(1)] last_count_def)
  show ?case
  proof (cases "unat (last_count D ?s - now) < unat w")
    case True
    have "\<exists>k. hpet_wait D now w ?s = Some (?s\<lparr>io_log := io_log ?s @ replicate (Suc k) (Mmio_read64 (counter_at ?s))\<rparr>) \<and>
      unat w \<le> unat (answer D (io_log ?s @ replicate (Suc k) (Mmio_read64 (counter_at ?s))) - now)"
      by (rule less.hyps[of ?s "io_log s"]) (use less.prems True adv d in \<open>simp_all add: less.prems(2)\<close>)
    then obtain k where k: "hpet_wait D now w ?s = Some (s\<lparr>io_log := io_log s @ replicate (Suc (Suc k)) ?e\<rparr>)"
      "unat w \<le> unat (answer D (io_log s @ replicate (Suc (Suc k)) ?e) - now)"
      by auto
    then show ?thesis
      using True by (intro exI[of _ "Suc k"]) (simp add: step word_less_nat_alt)
  next
    case False
    then show ?thesis
      by (intro exI[of _ 0]) (simp add: step word_less_nat_alt last_count_def)
  qed
qed

lemma hpet_wait_zero:
  assumes "counter_runs D (counter_at s) b"
  shows "hpet_wait D now 0 s = Some (s\<lparr>io_log := io_log s @ [Mmio_read64 (counter_at s)]\<rparr>)"
  by (subst hpet_wait.simps) (simp add: hpet_read_counter[OF assms])


text \<open>A counter that advances three ticks with every access and starts close to its end.\<close>

definition demo_counter :: device_env where
  "demo_counter = \<lparr>answer = (\<lambda>h. of_nat (3 * length h) - 10), dma = (\<lambda>_ m. m)\<rparr>"

definition demo_hpet :: hpet where
  "demo_hpet = apic.extend demo_apic \<lparr>hpet_table = 0, ticks_per_10us = 4\<rparr>"


end
