(* ===== verification/Lai_Host.thy ===== *)
theory Lai_Host
  imports Hpet
begin

text \<open>
  The services the ACPI interpreter expects from the kernel, \<^verbatim>\<open>kernel/src/lai_wrapper.c\<close>: memory, port and
  timer access, and PCI configuration space through the index port \<open>0xCF8\<close> and the data port \<open>0xCFC\<close>.
  \<^verbatim>\<open>laihost_panic\<close> ends in an endless loop and so yields \<open>None\<close>; \<^verbatim>\<open>laihost_map\<close> returns no value in the code, only
  its effect is modelled.  The loop index of \<^verbatim>\<open>laihost_map\<close> and \<^verbatim>\<open>laihost_unmap\<close> is an \<^verbatim>\<open>int\<close>: its product with
  the page size is a 32-bit value, extended with its sign.
\<close>

section \<open>Memory, output and ports\<close>

definition laihost_malloc :: "u64 \<Rightarrow> 'a kheap_scheme \<Rightarrow> (u64 \<times> 'a kheap_scheme) option" where
  "laihost_malloc sz s = kmalloc (ucast sz) s"

definition laihost_free :: "u64 \<Rightarrow> u64 \<Rightarrow> 'a kheap_scheme \<Rightarrow> 'a kheap_scheme option" where
  "laihost_free ptr sz s = kfree ptr s"

definition laihost_realloc :: "u64 \<Rightarrow> u64 \<Rightarrow> u64 \<Rightarrow> 'a kheap_scheme \<Rightarrow> (u64 \<times> 'a kheap_scheme) option" where
  "laihost_realloc ptr newsize oldsize s = do {
     s \<leftarrow> (if ptr \<noteq> 0 then kfree ptr s else Some s);
     kmalloc (ucast newsize) s
   }"

definition laihost_log :: "u32 \<Rightarrow> string \<Rightarrow> 'a machine_scheme \<Rightarrow> 'a machine_scheme" where
  "laihost_log type str s = klog Log_info ''LAI'' ''%s'' [Arg_str str] s"

definition laihost_panic :: "string \<Rightarrow> 'a machine_scheme \<Rightarrow> 'a machine_scheme option" where
  "laihost_panic msg s =
     (let s = emit (Panicked msg) s;
          s = emit (Printed (''from LAI'' @ [CHR 0x0A]) []) s
      in None)"

definition laihost_scan :: "u8 list \<Rightarrow> u64 \<Rightarrow> 'a acpi_scheme \<Rightarrow> u64" where
  "laihost_scan signature idx s = acpi_find_nth_table signature (ucast idx) s"

definition laihost_page :: "u64 \<Rightarrow> nat \<Rightarrow> u64" where
  "laihost_page addr i = (addr + scast (of_nat i * 0x1000 :: u32)) AND 0xFFFFFFFFFFFFF000"

definition laihost_map :: "u64 \<Rightarrow> u64 \<Rightarrow> 'a paging_scheme \<Rightarrow> 'a paging_scheme option" where
  "laihost_map addr count s =
     fold_opt (\<lambda>i. paging_map (laihost_page addr i) (laihost_page addr i) PAGE_NORMAL) [0..<unat count] s"

definition laihost_unmap :: "u64 \<Rightarrow> u64 \<Rightarrow> 'a paging_scheme \<Rightarrow> 'a paging_scheme" where
  "laihost_unmap addr count s = fold (\<lambda>i. paging_unmap (laihost_page addr i)) [0..<unat count] s"

definition laihost_outb :: "device_env \<Rightarrow> u16 \<Rightarrow> u8 \<Rightarrow> 'a hw_scheme \<Rightarrow> 'a hw_scheme" where
  "laihost_outb D p i s = outb D p i s"
definition laihost_outw :: "device_env \<Rightarrow> u16 \<Rightarrow> u16 \<Rightarrow> 'a hw_scheme \<Rightarrow> 'a hw_scheme" where
  "laihost_outw D p i s = outw D p i s"
definition laihost_outd :: "device_env \<Rightarrow> u16 \<Rightarrow> u32 \<Rightarrow> 'a hw_scheme \<Rightarrow> 'a hw_scheme" where
  "laihost_outd D p i s = outl D p i s"
definition laihost_inb :: "device_env \<Rightarrow> u16 \<Rightarrow> 'a hw_scheme \<Rightarrow> u8 \<times> 'a hw_scheme" where
  "laihost_inb D p s = inb D p s"
definition laihost_inw :: "device_env \<Rightarrow> u16 \<Rightarrow> 'a hw_scheme \<Rightarrow> u16 \<times> 'a hw_scheme" where
  "laihost_inw D p s = inw D p s"
definition laihost_ind :: "device_env \<Rightarrow> u16 \<Rightarrow> 'a hw_scheme \<Rightarrow> u32 \<times> 'a hw_scheme" where
  "laihost_ind D p s = inl D p s"

definition laihost_sleep :: "device_env \<Rightarrow> u64 \<Rightarrow> 'a hpet_scheme \<Rightarrow> 'a hpet_scheme option" where
  "laihost_sleep D ms s = hpet_usleep D (ms * 1000) s"

definition laihost_timer :: "device_env \<Rightarrow> 'a hpet_scheme \<Rightarrow> u64 \<times> 'a hpet_scheme" where
  "laihost_timer D s = (let (t, s) = hpet_get_ticks D s in (t div 10, s))"

section \<open>PCI configuration space\<close>

definition CONFIG_ADDRESS :: u16 where "CONFIG_ADDRESS = 0xCF8"
definition CONFIG_DATA :: u16 where "CONFIG_DATA = 0xCFC"

definition pci_config_address :: "u8 \<Rightarrow> u8 \<Rightarrow> u8 \<Rightarrow> u16 \<Rightarrow> u32" where
  "pci_config_address bus slot fn offset =
     push_bit 16 (ucast bus) OR push_bit 11 (ucast slot) OR push_bit 8 (ucast fn) OR ucast (offset AND 0xFC) OR 0x80000000"

definition laihost_pci_readb :: "device_env \<Rightarrow> u16 \<Rightarrow> u8 \<Rightarrow> u8 \<Rightarrow> u8 \<Rightarrow> u16 \<Rightarrow> 'a hw_scheme \<Rightarrow> u8 \<times> 'a hw_scheme" where
  "laihost_pci_readb D seg bus slot fn offset s =
     (if offset \<ge> 256 then (0xFF, s)
      else let s = outl D CONFIG_ADDRESS (pci_config_address bus slot fn offset) s;
               (data, s) = inl D CONFIG_DATA s
           in (ucast (drop_bit (unat ((offset AND 3) * 8)) data AND 0xFF), s))"

definition laihost_pci_readw :: "device_env \<Rightarrow> u16 \<Rightarrow> u8 \<Rightarrow> u8 \<Rightarrow> u8 \<Rightarrow> u16 \<Rightarrow> 'a hw_scheme \<Rightarrow> u16 \<times> 'a hw_scheme" where
  "laihost_pci_readw D seg bus slot fn offset s =
     (if offset \<ge> 256 \<or> offset AND 1 \<noteq> 0 then (0xFFFF, s)
      else let s = outl D CONFIG_ADDRESS (pci_config_address bus slot fn offset) s;
               (data, s) = inl D CONFIG_DATA s
           in (ucast (drop_bit (unat ((offset AND 2) * 8)) data AND 0xFFFF), s))"

definition laihost_pci_readd :: "device_env \<Rightarrow> u16 \<Rightarrow> u8 \<Rightarrow> u8 \<Rightarrow> u8 \<Rightarrow> u16 \<Rightarrow> 'a hw_scheme \<Rightarrow> u32 \<times> 'a hw_scheme" where
  "laihost_pci_readd D seg bus slot fn offset s =
     (if offset \<ge> 256 \<or> offset AND 3 \<noteq> 0 then (0xFFFFFFFF, s)
      else let s = outl D CONFIG_ADDRESS (pci_config_address bus slot fn offset) s
           in inl D CONFIG_DATA s)"

definition laihost_pci_writeb :: "device_env \<Rightarrow> u16 \<Rightarrow> u8 \<Rightarrow> u8 \<Rightarrow> u8 \<Rightarrow> u16 \<Rightarrow> u8 \<Rightarrow> 'a hw_scheme \<Rightarrow> 'a hw_scheme" where
  "laihost_pci_writeb D seg bus slot fn offset val s =
     (if offset \<ge> 256 then s
      else let s = outl D CONFIG_ADDRESS (pci_config_address bus slot fn offset) s;
               (data, s) = inl D CONFIG_DATA s;
               data = data AND NOT (push_bit (unat ((offset AND 3) * 8)) 0xFF);
               data = data OR push_bit (unat ((offset AND 3) * 8)) (ucast val)
           in outl D CONFIG_DATA data s)"

definition laihost_pci_writew :: "device_env \<Rightarrow> u16 \<Rightarrow> u8 \<Rightarrow> u8 \<Rightarrow> u8 \<Rightarrow> u16 \<Rightarrow> u16 \<Rightarrow> 'a hw_scheme \<Rightarrow> 'a hw_scheme" where
  "laihost_pci_writew D seg bus slot fn offset val s =
     (if offset \<ge> 256 \<or> offset AND 1 \<noteq> 0 then s
      else let s = outl D CONFIG_ADDRESS (pci_config_address bus slot fn offset) s;
               (data, s) = inl D CONFIG_DATA s;
               data = data AND NOT (push_bit (unat ((offset AND 2) * 8)) 0xFFFF);
               data = data OR push_bit (unat ((offset AND 2) * 8)) (ucast val)
           in outl D CONFIG_DATA data s)"

definition laihost_pci_writed :: "device_env \<Rightarrow> u16 \<Rightarrow> u8 \<Rightarrow> u8 \<Rightarrow> u8 \<Rightarrow> u16 \<Rightarrow> u32 \<Rightarrow> 'a hw_scheme \<Rightarrow> 'a hw_scheme" where
  "laihost_pci_writed D seg bus slot fn offset val s =
     (if offset \<ge> 256 \<or> offset AND 3 \<noteq> 0 then s
      else let s = outl D CONFIG_ADDRESS (pci_config_address bus slot fn offset) s
           in outl D CONFIG_DATA val s)"

section \<open>Configuration space is a store of bytes\<close>

definition pci_sel :: "io_event \<Rightarrow> u32 option" where
  "pci_sel e = (case e of Port_out32 p v \<Rightarrow> if p = CONFIG_ADDRESS then Some v else None | _ \<Rightarrow> None)"
definition pci_put :: "io_event \<Rightarrow> u32 option" where
  "pci_put e = (case e of Port_out32 p v \<Rightarrow> if p = CONFIG_DATA then Some v else None | _ \<Rightarrow> None)"

interpretation pci: indexed_regs pci_sel pci_put "Port_out32 CONFIG_ADDRESS" "Port_out32 CONFIG_DATA" "Port_in32 CONFIG_DATA"
  by unfold_locales (simp_all add: pci_sel_def pci_put_def CONFIG_ADDRESS_def CONFIG_DATA_def)

text \<open>The byte at an offset of the configuration space of a function.\<close>

definition byte_shift :: "u16 \<Rightarrow> nat" where "byte_shift offset = unat ((offset AND 3) * 8)"

definition pci_byte :: "(u32 \<Rightarrow> u32) \<Rightarrow> u8 \<Rightarrow> u8 \<Rightarrow> u8 \<Rightarrow> u16 \<Rightarrow> u8" where
  "pci_byte r bus slot fn offset = ucast (drop_bit (byte_shift offset) (r (pci_config_address bus slot fn offset)))"

lemma and_3_cases: "(x :: u16) AND 3 = 0 \<or> x AND 3 = 1 \<or> x AND 3 = 2 \<or> x AND 3 = 3"
proof -
  have "x AND 3 = take_bit 2 x" by (simp add: take_bit_eq_mask mask_eq_exp_minus_1)
  then have "unat (x AND 3) < 4" by (simp add: unsigned_take_bit_eq take_bit_nat_less_exp[of 2, simplified])
  then have "unat (x AND 3) \<in> {0, 1, 2, 3}" by auto
  then show ?thesis by (simp add: word_unat_eq_iff)
qed

lemma byte_shift_cases: "byte_shift x \<in> {0, 8, 16, 24}"
  using and_3_cases[of x] by (auto simp: byte_shift_def)

lemma byte_shift_eq: "byte_shift x = byte_shift y \<longleftrightarrow> x AND 3 = y AND 3"
  using and_3_cases[of x] and_3_cases[of y] by (auto simp: byte_shift_def)

lemma ff_mask: "(0xFF :: u32) = mask 8" "(0xFF :: u16) = mask 8" "(0xFC :: u16) = push_bit 2 (mask 6)"
  by (simp_all add: mask_eq_exp_minus_1)

lemma byte_put_get:
  assumes "i \<in> {0, 8, 16, 24}" "j \<in> {0, 8, 16, 24}"
  shows "(ucast (drop_bit j ((d AND NOT (push_bit i 0xFF)) OR push_bit i (ucast (v :: u8)) :: u32)) :: u8) =
    (if i = j then v else ucast (drop_bit j d))"
  unfolding ff_mask
  by (rule bit_word_eqI) (use assms in \<open>auto simp: bit_simps dest: bit_imp_le_length\<close>)

lemma ucast_and_ff: "(ucast ((x :: u32) AND 0xFF) :: u8) = ucast x"
  unfolding ff_mask by (rule bit_word_eqI) (simp add: bit_simps)

lemma config_address_eq:
  "pci_config_address b d f x = pci_config_address b d f y \<longleftrightarrow> x AND 0xFC = y AND 0xFC"
proof
  assume a: "pci_config_address b d f x = pci_config_address b d f y"
  have e: "(0x80000000 :: u32) = push_bit 31 1" by simp
  have "bit (pci_config_address b d f z) n = bit (z AND 0xFC) n" if "n < 8" for z n
    using that unfolding pci_config_address_def e by (auto simp: bit_simps simp del: push_bit_of_1)
  then have "bit (x AND 0xFC) n = bit (y AND 0xFC) n" if "n < 8" for n
    using a that by metis
  moreover have "bit (z AND 0xFC :: u16) n \<Longrightarrow> n < 8" for z n
    unfolding ff_mask by (auto simp: bit_simps)
  ultimately show "x AND 0xFC = y AND 0xFC"
    by (intro bit_word_eqI) blast
qed (simp add: pci_config_address_def)

lemma offset_split:
  assumes "x < 256" "y < 256"
  shows "x AND 0xFC = y AND 0xFC \<and> x AND 3 = y AND 3 \<longleftrightarrow> x = (y :: u16)"
proof -
  have "z AND 0xFC OR z AND 3 = z" if "z < 256" for z :: u16
  proof -
    have "take_bit 8 z = z"
      using that by (simp add: word_unat_eq_iff word_less_nat_alt unsigned_take_bit_eq take_bit_nat_eq_self)
    then have "z AND 0xFF = z" by (simp only: ff_mask take_bit_eq_mask)
    moreover have "z AND 0xFC OR z AND 3 = z AND (0xFC OR 3)" by (simp only: bit.conj_disj_distrib)
    ultimately show ?thesis by simp
  qed
  then show ?thesis using assms by metis
qed

lemma pci_byte_upd:
  assumes "x < 256" "y < 256"
  shows "pci_byte (r(pci_config_address b d f x :=
      (r (pci_config_address b d f x) AND NOT (push_bit (byte_shift x) 0xFF)) OR push_bit (byte_shift x) (ucast v))) b d f y =
    (if y = x then v else pci_byte r b d f y)"
proof (cases "pci_config_address b d f x = pci_config_address b d f y")
  case True
  have "pci_byte (r(pci_config_address b d f x :=
      (r (pci_config_address b d f x) AND NOT (push_bit (byte_shift x) 0xFF)) OR push_bit (byte_shift x) (ucast v))) b d f y =
    (if byte_shift x = byte_shift y then v else pci_byte r b d f y)"
    unfolding pci_byte_def True fun_upd_same by (rule byte_put_get[OF byte_shift_cases byte_shift_cases])
  moreover have "byte_shift x = byte_shift y \<longleftrightarrow> y = x"
    using True offset_split[OF assms] by (auto simp: byte_shift_eq config_address_eq)
  ultimately show ?thesis by simp
next
  case False
  then have "y \<noteq> x" by auto
  with False show ?thesis unfolding pci_byte_def by (simp add: eq_commute)
qed

lemma readb_pci_byte:
  assumes "serves_bank pci_sel pci_put (Port_in32 CONFIG_DATA) r0 D" "offset < 256"
  shows "fst (laihost_pci_readb D seg bus slot fn offset s) = pci_byte (pci.reg r0 (io_log s)) bus slot fn offset"
  using pci.read_back[OF assms(1), of "io_log s"] assms(2)
  by (simp add: laihost_pci_readb_def io_defs Let_def pci_byte_def byte_shift_def ucast_and_ff not_le)

lemma writeb_reg:
  assumes "serves_bank pci_sel pci_put (Port_in32 CONFIG_DATA) r0 D" "offset < 256"
  shows "pci.reg r0 (io_log (laihost_pci_writeb D seg bus slot fn offset val s)) =
    (let a = pci_config_address bus slot fn offset; r = pci.reg r0 (io_log s)
     in r(a := (r a AND NOT (push_bit (byte_shift offset) 0xFF)) OR push_bit (byte_shift offset) (ucast val)))"
proof -
  let ?a = "pci_config_address bus slot fn offset"
  let ?h = "io_log s @ [Port_out32 CONFIG_ADDRESS ?a, Port_in32 CONFIG_DATA]"
  have d: "ucast (answer D ?h) = pci.reg r0 (io_log s) ?a"
    by (rule pci.read_back[OF assms(1)])
  show ?thesis
    using assms(2) by (simp add: laihost_pci_writeb_def io_defs Let_def not_le d pci.reg_modify byte_shift_def)
qed



end
