(* ===== verification/Pci.thy ===== *)
theory Pci
  imports Lai_Host
begin

text \<open>
  The helpers of \<^verbatim>\<open>kernel/src/pci/pci.c\<close> that the drivers use: interrupt vectors, the capability list and
  message signalled interrupts.  The configuration space of a function is memory mapped; its fields are
  read and written as device registers.  The enumeration is in the theory of the drivers' clients.
\<close>

section \<open>Headers\<close>

definition pci_vendor_id :: "device_env \<Rightarrow> u64 \<Rightarrow> 'a hw_scheme \<Rightarrow> u16 \<times> 'a hw_scheme" where
  "pci_vendor_id D hdr = mmio_rd16 D hdr"
definition pci_device_id :: "device_env \<Rightarrow> u64 \<Rightarrow> 'a hw_scheme \<Rightarrow> u16 \<times> 'a hw_scheme" where
  "pci_device_id D hdr = mmio_rd16 D (hdr + 2)"
definition pci_command_or :: "device_env \<Rightarrow> u64 \<Rightarrow> u16 \<Rightarrow> 'a hw_scheme \<Rightarrow> 'a hw_scheme" where
  "pci_command_or D hdr bits = mmio_upd16 D (hdr + 4) (\<lambda>c. c OR bits)"
definition pci_prog_if :: "device_env \<Rightarrow> u64 \<Rightarrow> 'a hw_scheme \<Rightarrow> u8 \<times> 'a hw_scheme" where
  "pci_prog_if D hdr = mmio_rd8 D (hdr + 9)"
definition pci_subclass :: "device_env \<Rightarrow> u64 \<Rightarrow> 'a hw_scheme \<Rightarrow> u8 \<times> 'a hw_scheme" where
  "pci_subclass D hdr = mmio_rd8 D (hdr + 10)"
definition pci_class :: "device_env \<Rightarrow> u64 \<Rightarrow> 'a hw_scheme \<Rightarrow> u8 \<times> 'a hw_scheme" where
  "pci_class D hdr = mmio_rd8 D (hdr + 11)"
definition pci_bar0 :: "device_env \<Rightarrow> u64 \<Rightarrow> 'a hw_scheme \<Rightarrow> u32 \<times> 'a hw_scheme" where
  "pci_bar0 D hdr = mmio_rd32 D (hdr + 16)"
definition pci_bar5 :: "device_env \<Rightarrow> u64 \<Rightarrow> 'a hw_scheme \<Rightarrow> u32 \<times> 'a hw_scheme" where
  "pci_bar5 D hdr = mmio_rd32 D (hdr + 36)"
definition pci_capabilities_ptr :: "device_env \<Rightarrow> u64 \<Rightarrow> 'a hw_scheme \<Rightarrow> u8 \<times> 'a hw_scheme" where
  "pci_capabilities_ptr D hdr = mmio_rd8 D (hdr + 52)"

record pci = hpet +
  currentIntHandlerNum :: u32
  current_bus :: u64
  current_device :: u64
  current_func :: u64

section \<open>Interrupts\<close>

definition pci_alloc_int_handler :: "'a pci_scheme \<Rightarrow> u8 \<times> 'a pci_scheme" where
  "pci_alloc_int_handler s =
     (ucast (currentIntHandlerNum s), s\<lparr>currentIntHandlerNum := currentIntHandlerNum s + 1\<rparr>)"

text \<open>A capability list that runs in a circle is followed forever.\<close>

partial_function (option) pci_find_cap_loop ::
  "device_env \<Rightarrow> u64 \<Rightarrow> u8 \<Rightarrow> u8 \<Rightarrow> 'a hw_scheme \<Rightarrow> (u32 \<times> 'a hw_scheme) option" where
  "pci_find_cap_loop D hdr capID ptr s =
     (if ptr \<noteq> 0 then
        (let capHeaderAddr = hdr + ucast ptr;
             (c0, s) = mmio_rd8 D capHeaderAddr s
         in if c0 = capID then Some (ucast capHeaderAddr, s)
            else let (c1, s) = mmio_rd8 D (capHeaderAddr + 1) s
                 in pci_find_cap_loop D hdr capID c1 s)
      else Some (0, s))"

definition pci_find_capability :: "device_env \<Rightarrow> u64 \<Rightarrow> u8 \<Rightarrow> 'a hw_scheme \<Rightarrow> (u32 \<times> 'a hw_scheme) option" where
  "pci_find_capability D hdr capID s =
     (let (ptr, s) = pci_capabilities_ptr D hdr s in pci_find_cap_loop D hdr capID ptr s)"

definition pci_enable_msi :: "device_env \<Rightarrow> u64 \<Rightarrow> u8 \<Rightarrow> 'a pci_scheme \<Rightarrow> 'a pci_scheme option" where
  "pci_enable_msi D hdr vec s = do {
     (msiCapAddr, s) \<leftarrow> pci_find_capability D hdr 0x05 s;
     if msiCapAddr = 0
     then Some (emit (Printed (''MSI capability not found for device @ %lx'' @ [CHR 0x0A]) [Arg_word hdr]) s)
     else do {
       let msiControl = (ucast (msiCapAddr + 2) :: u64);
       let (msiControlValue, s) = mmio_rd16 D msiControl s;
       let is64Bit = (msiControlValue AND 0x80 \<noteq> 0);
       let s = mmio_upd16 D msiControl (\<lambda>v. v OR 1) s;
       let s = mmio_wr32 D (ucast (msiCapAddr + 4)) (get_lapic_addr s OR push_bit 12 get_lapic_id) s;
       let s = mmio_wr16 D (ucast (msiCapAddr + 8)) (ucast vec) s;
       Some (if is64Bit
         then let s = mmio_wr32 D (ucast (msiCapAddr + 8)) 0 s
              in mmio_wr16 D (ucast (msiCapAddr + 12)) (ucast vec) s
         else s)
     }
   }"

section \<open>The capability list\<close>

text \<open>
  The configuration space as the bytes the device answers, the same at every time: \<open>cap_chain c p xs\<close> holds
  when the list that starts at \<open>p\<close> has its capabilities at the offsets \<open>xs\<close>.
\<close>

fun cap_chain :: "(u8 \<Rightarrow> u8) \<Rightarrow> u8 \<Rightarrow> u8 list \<Rightarrow> bool" where
  "cap_chain c p [] \<longleftrightarrow> p = 0"
| "cap_chain c p (x # xs) \<longleftrightarrow> p = x \<and> x \<noteq> 0 \<and> x \<noteq> 0xFF \<and> cap_chain c (c (x + 1)) xs"

definition config_bytes :: "device_env \<Rightarrow> u64 \<Rightarrow> (u8 \<Rightarrow> u8) \<Rightarrow> bool" where
  "config_bytes D hdr c \<longleftrightarrow>
     (\<forall>h i. ucast (answer D (h @ [Mmio_read8 (hdr + ucast i)])) = c i)"

lemma ucast_Suc: "x \<noteq> 0xFF \<Longrightarrow> ucast (x + 1 :: u8) = (ucast x + 1 :: u64)"
proof -
  assume "x \<noteq> 0xFF"
  moreover have "unat x < 256" using unsigned_less[of x, where ?'a = nat] by simp
  ultimately have "unat x < 255" by (auto simp: word_unat_eq_iff)
  then show ?thesis by (simp add: word_unat_eq_iff unat_word_ariths unat_ucast_up)
qed

lemma pci_find_cap_loop_chain:
  assumes "config_bytes D hdr c" "cap_chain c p xs"
  shows "\<exists>s'. pci_find_cap_loop D hdr capID p s =
    Some (case find (\<lambda>x. c x = capID) xs of Some x \<Rightarrow> ucast (hdr + ucast x) | None \<Rightarrow> 0, s')"
  using assms(2)
proof (induction xs arbitrary: p s)
  case Nil
  then show ?case by (subst pci_find_cap_loop.simps) simp
next
  case (Cons x xs)
  have p: "p = x" "x \<noteq> 0" "x \<noteq> 0xFF" "cap_chain c (c (x + 1)) xs"
    using Cons.prems by auto
  have r: "ucast (answer D (h @ [Mmio_read8 (hdr + ucast x)])) = c x"
    "ucast (answer D (h @ [Mmio_read8 (hdr + ucast x), Mmio_read8 (hdr + ucast x + 1)])) = c (x + 1)" for h
    using assms(1)[unfolded config_bytes_def, rule_format, of h x]
      assms(1)[unfolded config_bytes_def, rule_format, of "h @ [Mmio_read8 (hdr + ucast x)]" "x + 1"]
    by (simp_all add: ucast_Suc[OF p(3)] add.assoc)
  show ?case
    using Cons.IH[OF p(4)] p(1,2) r
    by (subst pci_find_cap_loop.simps) (simp add: mmio_rd8_def access_io_def Let_def)
qed

text \<open>
  C28 When the capability list of a function ends, \<^verbatim>\<open>pci_find_capability\<close> returns, with the low 32 bits
  of the address of the first capability of the list that has the requested id, and 0 when there is none.
\<close>

theorem pci_find_capability_first:
  assumes "config_bytes D hdr c" "cap_chain c (c 52) xs"
  shows "\<exists>s'. pci_find_capability D hdr capID s =
    Some (case find (\<lambda>x. c x = capID) xs of Some x \<Rightarrow> ucast (hdr + ucast x) | None \<Rightarrow> 0, s')"
proof -
  have "ucast (answer D (h @ [Mmio_read8 (hdr + ucast (52 :: u8))])) = c 52" for h
    using assms(1) by (simp only: config_bytes_def)
  then have "ucast (answer D (h @ [Mmio_read8 (hdr + 52)])) = c 52" for h
    by simp
  then have "pci_find_capability D hdr capID s =
    pci_find_cap_loop D hdr capID (c 52) (snd (pci_capabilities_ptr D hdr s))"
    by (simp add: pci_find_capability_def pci_capabilities_ptr_def mmio_rd8_def access_io_def Let_def)
  then show ?thesis
    using pci_find_cap_loop_chain[OF assms] by simp
qed

text \<open>A function with the capabilities 1 at \<open>0x50\<close> and 5 at \<open>0x60\<close>.\<close>

definition demo_config :: "u8 \<Rightarrow> u8" where
  "demo_config i = (if i = 52 then 0x50 else if i = 0x50 then 1 else if i = 0x51 then 0x60 else if i = 0x60 then 5 else 0)"

definition demo_function :: device_env where
  "demo_function = \<lparr>answer = (\<lambda>h. case last h of Mmio_read8 a \<Rightarrow> ucast (demo_config (ucast (a - 0xB0000000))) | _ \<Rightarrow> 0), dma = (\<lambda>_ m. m)\<rparr>"

lemma ucast_u8_u64_u8: "ucast (ucast (x :: u8) :: u64) = x"
  by (rule bit_word_eqI) (simp add: bit_unsigned_iff)

theorem pci_find_capability_first_witness:
  "\<exists>s'. pci_find_capability demo_function 0xB0000000 5 demo_hw = Some (0xB0000060, s')"
proof -
  have c: "config_bytes demo_function 0xB0000000 demo_config"
    by (simp add: config_bytes_def demo_function_def ucast_u8_u64_u8)
  have l: "cap_chain demo_config (demo_config 52) [0x50, 0x60]"
    by (simp add: demo_config_def)
  show ?thesis
    using pci_find_capability_first[OF c l, of 5 demo_hw] by (simp add: demo_config_def)
qed

end
