(* ===== verification/Edu.thy ===== *)
theory Edu
  imports Pci
begin

text \<open>
  The driver of QEMU's educational device, \<^verbatim>\<open>kernel/src/drivers/edu_qemu/edu.c\<close>.  The wait for an interrupt
  takes the moments at which the processor enters the handler as the parameter \<open>intr\<close>.
\<close>

record edu = pci +
  edu_memory :: u64
  edu_interrupt :: u32

definition EDU_LIVENESS_REG :: u32 where "EDU_LIVENESS_REG = 0x04"
definition EDU_FACTORIAL_REG :: u32 where "EDU_FACTORIAL_REG = 0x08"
definition EDU_STATUS_REG :: u32 where "EDU_STATUS_REG = 0x20"
definition EDU_INT_STATUS_REG :: u32 where "EDU_INT_STATUS_REG = 0x24"
definition EDU_INT_RAISE_REG :: u32 where "EDU_INT_RAISE_REG = 0x60"
definition EDU_INT_ACK_REG :: u32 where "EDU_INT_ACK_REG = 0x64"
definition EDU_STATUS_COMPUTING :: u32 where "EDU_STATUS_COMPUTING = 0x01"

definition dev_edu_read :: "device_env \<Rightarrow> u32 \<Rightarrow> 'a edu_scheme \<Rightarrow> u32 \<times> 'a edu_scheme" where
  "dev_edu_read D reg_offset s = mmio_rd32 D (edu_memory s + ucast reg_offset) s"

definition dev_edu_write :: "device_env \<Rightarrow> u32 \<Rightarrow> u32 \<Rightarrow> 'a edu_scheme \<Rightarrow> 'a edu_scheme" where
  "dev_edu_write D reg_offset data s = mmio_wr32 D (edu_memory s + ucast reg_offset) data s"

definition dev_edu_read64 :: "device_env \<Rightarrow> u32 \<Rightarrow> 'a edu_scheme \<Rightarrow> u64 \<times> 'a edu_scheme" where
  "dev_edu_read64 D reg_offset s = mmio_rd64 D (edu_memory s + ucast reg_offset) s"

definition dev_edu_write64 :: "device_env \<Rightarrow> u32 \<Rightarrow> u64 \<Rightarrow> 'a edu_scheme \<Rightarrow> 'a edu_scheme" where
  "dev_edu_write64 D reg_offset data s = mmio_wr64 D (edu_memory s + ucast reg_offset) data s"

definition edu_irq_handler :: "device_env \<Rightarrow> 'a edu_scheme \<Rightarrow> 'a edu_scheme" where
  "edu_irq_handler D s =
     (let (status, s) = dev_edu_read D EDU_INT_STATUS_REG s;
          s = klog Log_info ''EDU'' ''irq status: %d'' [Arg_word (ucast status)] s;
          s = dev_edu_write D EDU_INT_ACK_REG status s
      in s\<lparr>edu_interrupt := 1\<rparr>)"

partial_function (option) edu_compute_wait :: "device_env \<Rightarrow> 'a edu_scheme \<Rightarrow> 'a edu_scheme option" where
  "edu_compute_wait D s =
     (let (v, s) = dev_edu_read D EDU_STATUS_REG s
      in if v AND EDU_STATUS_COMPUTING \<noteq> 0 then edu_compute_wait D s else Some s)"

definition dev_edu_factorial :: "device_env \<Rightarrow> u32 \<Rightarrow> 'a edu_scheme \<Rightarrow> (u32 \<times> 'a edu_scheme) option" where
  "dev_edu_factorial D n s = do {
     let s = dev_edu_write64 D EDU_INT_RAISE_REG (edu_memory s + ucast EDU_STATUS_REG) s;
     let s = dev_edu_write D EDU_FACTORIAL_REG n s;
     s \<leftarrow> edu_compute_wait D s;
     Some (dev_edu_read D EDU_FACTORIAL_REG s)
   }"

definition dev_edu_is_live :: "device_env \<Rightarrow> 'a edu_scheme \<Rightarrow> u32 \<times> 'a edu_scheme" where
  "dev_edu_is_live D s =
     (let s = dev_edu_write D EDU_LIVENESS_REG 2 s;
          (alive_value, s) = dev_edu_read D EDU_LIVENESS_REG s
      in (if alive_value = NOT 2 then 1 else 0, s))"

definition dev_edu_do_intr :: "device_env \<Rightarrow> u32 \<Rightarrow> 'a edu_scheme \<Rightarrow> 'a edu_scheme" where
  "dev_edu_do_intr D val s = dev_edu_write D EDU_INT_RAISE_REG val s"

partial_function (option) dev_edu_wait_intr ::
  "device_env \<Rightarrow> (out_item list \<Rightarrow> bool) \<Rightarrow> 'a edu_scheme \<Rightarrow> 'a edu_scheme option" where
  "dev_edu_wait_intr D intr s =
     (let s = (if intr (console s) then edu_irq_handler D s else s)
      in if edu_interrupt s = 0 then dev_edu_wait_intr D intr (klog Log_info ''EDU'' ''lol '' [] s)
         else Some (s\<lparr>edu_interrupt := 0\<rparr>))"

definition dev_edu_init :: "device_env \<Rightarrow> u64 \<Rightarrow> u64 \<Rightarrow> 'a edu_scheme \<Rightarrow> 'a edu_scheme option" where
  "dev_edu_init D edu_irq hdr s = do {
     let (bar0, s) = pci_bar0 D hdr s;
     s \<leftarrow> paging_map (ucast bar0 AND 0xFFFFFFFFFFFFF000) (ucast bar0 AND 0xFFFFFFFFFFFFF000) PAGE_NORMAL s;
     let (bar0, s) = pci_bar0 D hdr s;
     let s = s\<lparr>edu_memory := ucast bar0\<rparr>;
     let s = klog Log_info ''EDU'' ''Testing the EDU...'' [] s;
     let (live, s) = dev_edu_is_live D s;
     if live = 0 then Some (klog Log_error ''EDU'' ''EDU is not alive'' [] s)
     else do {
       let s = klog Log_info ''EDU'' ''EDU is alive'' [] s;
       (f, s) \<leftarrow> dev_edu_factorial D 5 s;
       if f \<noteq> 120 then Some (klog Log_error ''EDU'' ''EDU doesn't know how to calculate factorial'' [] s)
       else do {
         let s = set_gate edu_irq 0xA0 s;
         Some (klog Log_ok ''EDU'' ''EDU is initialized'' [] s)
       }
     }
   }"

end
