(* ===== verification/E1000.thy ===== *)
theory E1000
  imports Edu
begin

text \<open>
  The network card, \<^verbatim>\<open>kernel/src/drivers/ethernet/e1000/e1000.c\<close>, up to sending: register access through
  memory or through a pair of ports, the EEPROM, the descriptor rings.  The rings live in memory the card
  writes; every look at the status of a descriptor is an access the card may precede with writes.  The
  reception, the interrupt handler and the initialisation use the network stack and follow in its theory.
\<close>

section \<open>Registers and descriptors\<close>

definition REG_CTRL :: u16 where "REG_CTRL = 0x0000"
definition REG_EEPROM :: u16 where "REG_EEPROM = 0x0014"
definition REG_IMASK :: u16 where "REG_IMASK = 0x00D0"
definition REG_RCTRL :: u16 where "REG_RCTRL = 0x0100"
definition REG_RXDESCLO :: u16 where "REG_RXDESCLO = 0x2800"
definition REG_RXDESCHI :: u16 where "REG_RXDESCHI = 0x2804"
definition REG_RXDESCLEN :: u16 where "REG_RXDESCLEN = 0x2808"
definition REG_RXDESCHEAD :: u16 where "REG_RXDESCHEAD = 0x2810"
definition REG_RXDESCTAIL :: u16 where "REG_RXDESCTAIL = 0x2818"
definition REG_TCTRL :: u16 where "REG_TCTRL = 0x0400"
definition REG_TXDESCLO :: u16 where "REG_TXDESCLO = 0x3800"
definition REG_TXDESCHI :: u16 where "REG_TXDESCHI = 0x3804"
definition REG_TXDESCLEN :: u16 where "REG_TXDESCLEN = 0x3808"
definition REG_TXDESCHEAD :: u16 where "REG_TXDESCHEAD = 0x3810"
definition REG_TXDESCTAIL :: u16 where "REG_TXDESCTAIL = 0x3818"
definition ECTRL_SLU :: u32 where "ECTRL_SLU = 0x40"
definition RCTL_EN :: u32 where "RCTL_EN = push_bit 1 1"
definition RCTL_SBP :: u32 where "RCTL_SBP = push_bit 2 1"
definition RCTL_UPE :: u32 where "RCTL_UPE = push_bit 3 1"
definition RCTL_MPE :: u32 where "RCTL_MPE = push_bit 4 1"
definition RCTL_LBM_NONE :: u32 where "RCTL_LBM_NONE = push_bit 6 0"
definition RTCL_RDMTS_HALF :: u32 where "RTCL_RDMTS_HALF = push_bit 8 0"
definition RCTL_BAM :: u32 where "RCTL_BAM = push_bit 15 1"
definition RCTL_SECRC :: u32 where "RCTL_SECRC = push_bit 26 1"
definition RCTL_BSIZE_8192 :: u32 where "RCTL_BSIZE_8192 = push_bit 16 2 OR push_bit 25 1"
definition CMD_EOP :: u8 where "CMD_EOP = push_bit 0 1"
definition CMD_IFCS :: u8 where "CMD_IFCS = push_bit 1 1"
definition CMD_RS :: u8 where "CMD_RS = push_bit 3 1"
definition TCTL_EN :: u32 where "TCTL_EN = push_bit 1 1"
definition TCTL_PSP :: u32 where "TCTL_PSP = push_bit 3 1"
definition TCTL_CT_SHIFT :: nat where "TCTL_CT_SHIFT = 4"
definition TCTL_COLD_SHIFT :: nat where "TCTL_COLD_SHIFT = 12"
definition TCTL_RTLC :: u32 where "TCTL_RTLC = push_bit 24 1"
definition TSTA_DD :: u8 where "TSTA_DD = push_bit 0 1"
definition E1000_NUM_RX_DESC :: nat where "E1000_NUM_RX_DESC = 32"
definition E1000_NUM_TX_DESC :: nat where "E1000_NUM_TX_DESC = 8"

definition rx_addr :: "memory \<Rightarrow> u64 \<Rightarrow> u64" where "rx_addr m d = rd64 m d"
definition set_rx_addr :: "memory \<Rightarrow> u64 \<Rightarrow> u64 \<Rightarrow> memory" where "set_rx_addr m d v = wr64 m d v"
definition rx_length :: "memory \<Rightarrow> u64 \<Rightarrow> u16" where "rx_length m d = rd16 m (d + 8)"
definition rx_status :: "memory \<Rightarrow> u64 \<Rightarrow> u8" where "rx_status m d = rd8 m (d + 12)"
definition set_rx_status :: "memory \<Rightarrow> u64 \<Rightarrow> u8 \<Rightarrow> memory" where "set_rx_status m d v = wr8 m (d + 12) v"
definition tx_addr :: "memory \<Rightarrow> u64 \<Rightarrow> u64" where "tx_addr m d = rd64 m d"
definition set_tx_addr :: "memory \<Rightarrow> u64 \<Rightarrow> u64 \<Rightarrow> memory" where "set_tx_addr m d v = wr64 m d v"
definition tx_length :: "memory \<Rightarrow> u64 \<Rightarrow> u16" where "tx_length m d = rd16 m (d + 8)"
definition set_tx_length :: "memory \<Rightarrow> u64 \<Rightarrow> u16 \<Rightarrow> memory" where "set_tx_length m d v = wr16 m (d + 8) v"
definition tx_cmd :: "memory \<Rightarrow> u64 \<Rightarrow> u8" where "tx_cmd m d = rd8 m (d + 11)"
definition set_tx_cmd :: "memory \<Rightarrow> u64 \<Rightarrow> u8 \<Rightarrow> memory" where "set_tx_cmd m d v = wr8 m (d + 11) v"
definition tx_status :: "memory \<Rightarrow> u64 \<Rightarrow> u8" where "tx_status m d = rd8 m (d + 12)"
definition set_tx_status :: "memory \<Rightarrow> u64 \<Rightarrow> u8 \<Rightarrow> memory" where "set_tx_status m d v = wr8 m (d + 12) v"

record e1000 = edu +
  e1000_io_base :: u16
  e1000_mem_base :: u64
  e1000_io_type :: u32
  e1000_mac_addr :: "u8 list"
  e1000_device :: u64
  rx_descs :: "u64 list"
  tx_descs :: "u64 list"
  rx_cur :: u16
  tx_cur :: u16
  e1000_is_init :: u32

section \<open>Register access\<close>

definition dev_e1000_read :: "device_env \<Rightarrow> u16 \<Rightarrow> 'a e1000_scheme \<Rightarrow> u32 \<times> 'a e1000_scheme" where
  "dev_e1000_read D reg s =
     (if e1000_io_type s = 0 then mmio_rd32 D (e1000_mem_base s + ucast reg) s
      else if e1000_io_type s = 1
      then let s = outl D (e1000_io_base s) (ucast reg) s in inl D (e1000_io_base s + 4) s
      else (0, klog Log_error ''E1000'' ''IO type not initialized (dev_e1000_read)'' [] s))"

definition dev_e1000_write :: "device_env \<Rightarrow> u16 \<Rightarrow> u32 \<Rightarrow> 'a e1000_scheme \<Rightarrow> 'a e1000_scheme" where
  "dev_e1000_write D reg val s =
     (if e1000_io_type s = 0 then mmio_wr32 D (e1000_mem_base s + ucast reg) val s
      else if e1000_io_type s = 1
      then let s = outl D (e1000_io_base s) (ucast reg) s in outl D (e1000_io_base s + 4) val s
      else klog Log_error ''E1000'' ''IO type not initialized (dev_e1000_write)'' [] s)"

section \<open>EEPROM and MAC address\<close>

fun eeprom_probe :: "device_env \<Rightarrow> nat \<Rightarrow> 'a e1000_scheme \<Rightarrow> u32 \<times> 'a e1000_scheme" where
  "eeprom_probe D 0 s = (0, s)"
| "eeprom_probe D (Suc n) s =
     (let (val, s) = dev_e1000_read D REG_EEPROM s
      in if val AND 0x10 \<noteq> 0 then (1, s) else eeprom_probe D n s)"

definition dev_e1000_detect_eeprom :: "device_env \<Rightarrow> 'a e1000_scheme \<Rightarrow> u32 \<times> 'a e1000_scheme" where
  "dev_e1000_detect_eeprom D s = eeprom_probe D 1000 (dev_e1000_write D REG_EEPROM 0x1 s)"

partial_function (option) eeprom_wait :: "device_env \<Rightarrow> u32 \<Rightarrow> 'a e1000_scheme \<Rightarrow> (u32 \<times> 'a e1000_scheme) option" where
  "eeprom_wait D done_bit s =
     (let (temp, s) = dev_e1000_read D REG_EEPROM s
      in if temp AND done_bit \<noteq> 0 then Some (temp, s) else eeprom_wait D done_bit s)"

definition dev_e1000_eeprom_read :: "device_env \<Rightarrow> u8 \<Rightarrow> 'a e1000_scheme \<Rightarrow> (u32 \<times> 'a e1000_scheme) option" where
  "dev_e1000_eeprom_read D addr s = do {
     let (present, s) = dev_e1000_detect_eeprom D s;
     (temp, s) \<leftarrow>
       (if present \<noteq> 0
        then eeprom_wait D (push_bit 4 1) (dev_e1000_write D REG_EEPROM (1 OR push_bit 8 (ucast addr)) s)
        else eeprom_wait D (push_bit 1 1) (dev_e1000_write D REG_EEPROM (1 OR push_bit 2 (ucast addr)) s));
     let data = (ucast (drop_bit 16 temp AND 0xFFFF) :: u16);
     Some (ucast data, s)
   }"

definition set_mac :: "nat \<Rightarrow> u8 \<Rightarrow> 'a e1000_scheme \<Rightarrow> 'a e1000_scheme" where
  "set_mac i v s = s\<lparr>e1000_mac_addr := (e1000_mac_addr s)[i := v]\<rparr>"

definition eeprom_mac_word :: "device_env \<Rightarrow> nat \<Rightarrow> 'a e1000_scheme \<Rightarrow> 'a e1000_scheme option" where
  "eeprom_mac_word D i s = do {
     (temp, s) \<leftarrow> dev_e1000_eeprom_read D (of_nat i) s;
     let s = set_mac (2 * i) (ucast (temp AND 0xFF)) s;
     Some (set_mac (2 * i + 1) (ucast (drop_bit 8 temp)) s)
   }"

definition dev_e1000_get_mac :: "device_env \<Rightarrow> 'a e1000_scheme \<Rightarrow> (u32 \<times> 'a e1000_scheme) option" where
  "dev_e1000_get_mac D s =
     (let (present, s) = dev_e1000_detect_eeprom D s
      in if present \<noteq> 0 then do {
           s \<leftarrow> fold_opt (eeprom_mac_word D) [0..<3] s;
           Some (1, s)
         }
         else let mac = e1000_mem_base s + 0x5400;
                  (w, s) = mmio_rd32 D mac s
              in if w \<noteq> 0
                 then Some (1, fold (\<lambda>i s. let (b, s) = mmio_rd8 D (mac + of_nat i) s in set_mac i b s) [0..<6] s)
                 else Some (0, s))"

section \<open>Rings\<close>

definition init_rx_desc :: "u64 \<Rightarrow> nat \<Rightarrow> 'a e1000_scheme \<Rightarrow> 'a e1000_scheme option" where
  "init_rx_desc ring i s = do {
     let d = ring + of_nat (i * 16);
     let s = s\<lparr>rx_descs := (rx_descs s)[i := d]\<rparr>;
     (page, s) \<leftarrow> pmm_getpage s;
     let s = s\<lparr>mem := set_rx_addr (mem s) d page\<rparr>;
     (_, s) \<leftarrow> pmm_getpage s;
     (_, s) \<leftarrow> pmm_getpage s;
     Some (s\<lparr>mem := set_rx_status (mem s) d 0\<rparr>)
   }"

definition dev_e1000_init_rx :: "device_env \<Rightarrow> 'a e1000_scheme \<Rightarrow> 'a e1000_scheme option" where
  "dev_e1000_init_rx D s = do {
     (ptr, s) \<leftarrow> pmm_getpage s;
     s \<leftarrow> fold_opt (init_rx_desc ptr) [0..<E1000_NUM_RX_DESC] s;
     let s = dev_e1000_write D REG_TXDESCLO (ucast (drop_bit 32 ptr)) s;
     let s = dev_e1000_write D REG_TXDESCHI (ucast (ptr AND 0xFFFFFFFF)) s;
     let s = dev_e1000_write D REG_RXDESCLO (ucast ptr) s;
     let s = dev_e1000_write D REG_RXDESCHI 0 s;
     let s = dev_e1000_write D REG_RXDESCLEN (of_nat (E1000_NUM_RX_DESC * 16)) s;
     let s = dev_e1000_write D REG_RXDESCHEAD 0 s;
     let s = dev_e1000_write D REG_RXDESCTAIL (of_nat (E1000_NUM_RX_DESC - 1)) s;
     let s = s\<lparr>rx_cur := 0\<rparr>;
     Some (dev_e1000_write D REG_RCTRL
       (RCTL_EN OR RCTL_SBP OR RCTL_UPE OR RCTL_MPE OR RCTL_LBM_NONE OR RTCL_RDMTS_HALF OR
        RCTL_BAM OR RCTL_SECRC OR RCTL_BSIZE_8192) s)
   }"

definition init_tx_desc :: "u64 \<Rightarrow> nat \<Rightarrow> 'a e1000_scheme \<Rightarrow> 'a e1000_scheme" where
  "init_tx_desc ring i s =
     (let d = ring + of_nat (i * 16);
          s = s\<lparr>tx_descs := (tx_descs s)[i := d]\<rparr>
      in s\<lparr>mem := set_tx_status (set_tx_cmd (set_tx_addr (mem s) d 0) d 0) d TSTA_DD\<rparr>)"

definition dev_e1000_init_tx :: "device_env \<Rightarrow> 'a e1000_scheme \<Rightarrow> 'a e1000_scheme option" where
  "dev_e1000_init_tx D s = do {
     (ptr, s) \<leftarrow> pmm_getpage s;
     let s = fold (init_tx_desc ptr) [0..<E1000_NUM_TX_DESC] s;
     let s = dev_e1000_write D REG_TXDESCHI (ucast (drop_bit 32 ptr)) s;
     let s = dev_e1000_write D REG_TXDESCLO (ucast (ptr AND 0xFFFFFFFF)) s;
     let s = dev_e1000_write D REG_TXDESCLEN (of_nat (E1000_NUM_TX_DESC * 16)) s;
     let s = dev_e1000_write D REG_TXDESCHEAD 0 s;
     let s = dev_e1000_write D REG_TXDESCTAIL 0 s;
     let s = s\<lparr>tx_cur := 0\<rparr>;
     Some (dev_e1000_write D REG_TCTRL
       (TCTL_EN OR TCTL_PSP OR push_bit TCTL_CT_SHIFT 15 OR push_bit TCTL_COLD_SHIFT 64 OR TCTL_RTLC) s)
   }"

definition dev_e1000_enable_irq :: "device_env \<Rightarrow> 'a e1000_scheme \<Rightarrow> 'a e1000_scheme" where
  "dev_e1000_enable_irq D s =
     (let s = dev_e1000_write D REG_IMASK 0x1F6DC s;
          s = dev_e1000_write D REG_IMASK (0xff AND NOT 4) s
      in snd (dev_e1000_read D 0xc0 s))"

definition dev_e1000_linkup :: "device_env \<Rightarrow> 'a e1000_scheme \<Rightarrow> 'a e1000_scheme" where
  "dev_e1000_linkup D s =
     (let (val, s) = dev_e1000_read D REG_CTRL s in dev_e1000_write D REG_CTRL (val OR ECTRL_SLU) s)"

section \<open>Sending\<close>

partial_function (option) tx_wait :: "device_env \<Rightarrow> u64 \<Rightarrow> 'a e1000_scheme \<Rightarrow> 'a e1000_scheme option" where
  "tx_wait D d s =
     (let s = poll_mem D (d + 12) s
      in if tx_status (mem s) d AND 0xff \<noteq> 0 then Some s else tx_wait D d s)"

definition tx_fill :: "memory \<Rightarrow> u64 \<Rightarrow> u64 \<Rightarrow> u32 \<Rightarrow> memory" where
  "tx_fill m d p_data p_len =
     (let m = set_tx_addr m d p_data;
          m = set_tx_length m d (ucast p_len);
          m = set_tx_cmd m d (CMD_EOP OR CMD_IFCS OR CMD_RS)
      in set_tx_status m d 0)"

definition dev_e1000_send_data :: "device_env \<Rightarrow> u64 \<Rightarrow> u32 \<Rightarrow> 'a e1000_scheme \<Rightarrow> 'a e1000_scheme option" where
  "dev_e1000_send_data D p_data p_len s =
     (let s = s\<lparr>mem := tx_fill (mem s) (tx_descs s ! unat (tx_cur s)) p_data p_len\<rparr>;
          old_cur = ucast (tx_cur s) :: u8;
          s = s\<lparr>tx_cur := ucast ((ucast (tx_cur s) + 1 :: u32) mod of_nat E1000_NUM_TX_DESC)\<rparr>;
          s = dev_e1000_write D REG_TXDESCTAIL (ucast (tx_cur s)) s
      in tx_wait D (tx_descs s ! unat old_cur) s)"

section \<open>The transmit ring\<close>

definition tx_ring_ok :: "'a e1000_scheme \<Rightarrow> bool" where
  "tx_ring_ok s \<longleftrightarrow> length (tx_descs s) = E1000_NUM_TX_DESC \<and> unat (tx_cur s) < E1000_NUM_TX_DESC"

lemmas tx_layout = set_tx_addr_def set_tx_length_def set_tx_cmd_def set_tx_status_def
  tx_addr_def tx_length_def tx_cmd_def tx_status_def

lemma tx_fill_fields:
  "tx_addr (tx_fill m d p n) d = p" "tx_length (tx_fill m d p n) d = ucast n"
  "tx_cmd (tx_fill m d p n) d = CMD_EOP OR CMD_IFCS OR CMD_RS" "tx_status (tx_fill m d p n) d = 0"
  by (simp_all add: tx_fill_def Let_def tx_layout mem_simps sep_def unsigned_minus_1_eq_mask mask_eq_exp_minus_1)

lemma agree_off_widen:
  assumes "agree_off (a + k) i m m'" "unat k + i \<le> n" "n < 2 ^ 64"
  shows "agree_off a n m m'"
  unfolding agree_off_def
proof (intro allI impI)
  fix b assume b: "n \<le> unat (b - a)"
  have "unat (b - (a + k)) = unat ((b - a) - k)" by (simp add: diff_diff_eq)
  also have "\<dots> = unat (b - a) - unat k"
    using assms(2) b by (intro unat_sub) (simp add: word_le_nat_alt)
  finally have "i \<le> unat (b - (a + k))" using assms(2) b by simp
  then show "m' b = m b" using assms(1) by (simp add: agree_off_def)
qed

lemma tx_fill_agree: "agree_off d 16 m (tx_fill m d p n)"
proof -
  have "agree_off d 16 m' (set_tx_addr m' d v)" for m' v
    using agree_off_widen[of d 0 8 m' "wr64 m' d v" 16] c64.wr_agree by (simp add: tx_layout)
  moreover have "agree_off d 16 m' (set_tx_length m' d v)" for m' v
    using agree_off_widen[of d 8 2 m' "wr16 m' (d + 8) v" 16] c16.wr_agree by (simp add: tx_layout)
  moreover have "agree_off d 16 m' (set_tx_cmd m' d v)" for m' v
    using agree_off_widen[of d 11 1 m' "wr8 m' (d + 11) v" 16] c8.wr_agree by (simp add: tx_layout)
  moreover have "agree_off d 16 m' (set_tx_status m' d v)" for m' v
    using agree_off_widen[of d 12 1 m' "wr8 m' (d + 12) v" 16] c8.wr_agree by (simp add: tx_layout)
  ultimately show ?thesis
    unfolding tx_fill_def Let_def by (meson agree_off_trans)
qed

text \<open>
  A card that reports a descriptor as done: after at most \<open>n\<close> looks at a status byte in a row, the next one
  finds it set.
\<close>

definition polls :: "u64 \<Rightarrow> io_event list \<Rightarrow> nat" where
  "polls a h = length (takeWhile (\<lambda>e. e = Mem_poll a) (rev h))"

definition card_acks :: "device_env \<Rightarrow> nat \<Rightarrow> bool" where
  "card_acks D n \<longleftrightarrow> (\<forall>h m a. n \<le> polls a h \<longrightarrow> rd8 (dma D (h @ [Mem_poll a]) m) a \<noteq> 0)"

lemma and_ff [simp]: "(x :: u8) AND 0xff = x"
proof -
  have "(0xff :: u8) = - 1" by simp
  then show ?thesis by (simp only: and.right_neutral)
qed

lemma tx_wait_returns:
  assumes "card_acks D n"
  shows "\<exists>h m. tx_wait D d s = Some (s\<lparr>io_log := h, mem := m\<rparr>) \<and> tx_status m d \<noteq> 0"
proof (induction "n - polls (d + 12) (io_log s)" arbitrary: s rule: less_induct)
  case less
  let ?h = "io_log s @ [Mem_poll (d + 12)]"
  let ?s = "s\<lparr>io_log := ?h, mem := dma D ?h (mem s)\<rparr>"
  have p: "poll_mem D (d + 12) s = ?s"
    by (simp add: poll_mem_def access_io_def Let_def)
  have step: "tx_wait D d s = (if tx_status (mem ?s) d \<noteq> 0 then Some ?s else tx_wait D d ?s)"
    by (subst tx_wait.simps) (simp add: p Let_def)
  show ?case
  proof (cases "tx_status (mem ?s) d = 0")
    case True
    then have "polls (d + 12) (io_log s) < n"
      using assms by (auto simp: card_acks_def tx_status_def not_less[symmetric])
    moreover have "polls (d + 12) ?h = Suc (polls (d + 12) (io_log s))"
      by (simp add: polls_def)
    ultimately show ?thesis
      using less.hyps[of ?s] True by (simp add: step)
  next
    case False
    then show ?thesis unfolding step by auto
  qed
qed

lemma dev_e1000_write_keeps [simp]:
  "tx_descs (dev_e1000_write D r v s) = tx_descs s" "tx_cur (dev_e1000_write D r v s) = tx_cur s"
  by (simp_all add: dev_e1000_write_def io_defs Let_def klog_def emit_def)

lemma tx_next:
  assumes "unat (c :: u16) < 8"
  shows "unat (ucast ((ucast c + 1 :: u32) mod of_nat E1000_NUM_TX_DESC) :: u16) = Suc (unat c) mod 8"
proof -
  have u: "unat (ucast c + 1 :: u32) = Suc (unat c)"
    using assms by (simp add: unat_word_ariths unat_ucast_up)
  have "unat ((ucast c + 1 :: u32) mod 8) = Suc (unat c) mod 8"
    by (simp add: unat_mod_distrib u)
  then show ?thesis
    by (simp add: E1000_NUM_TX_DESC_def unsigned_ucast_eq take_bit_nat_eq_self_iff less_trans[of _ 8])
qed


definition demo_card :: device_env where
  "demo_card = \<lparr>answer = (\<lambda>_. 0),
     dma = (\<lambda>h m. case last h of Mem_poll a \<Rightarrow> if 2 \<le> polls a (butlast h) then m(a := 1) else m | _ \<Rightarrow> m)\<rparr>"

definition demo_e1000 :: e1000 where
  "demo_e1000 = edu.extend (pci.extend (hpet.extend demo_hpet
       \<lparr>currentIntHandlerNum = 0x90, current_bus = 0, current_device = 0, current_func = 0\<rparr>)
       \<lparr>edu_memory = 0, edu_interrupt = 0\<rparr>)
     \<lparr>e1000_io_base = 0, e1000_mem_base = 0xFEB80000, e1000_io_type = 0, e1000_mac_addr = replicate 6 0, e1000_device = 0,
      rx_descs = replicate 32 0, tx_descs = map (\<lambda>i. 0x8000 + of_nat (i * 16)) [0..<8], rx_cur = 0, tx_cur = 7, e1000_is_init = 1\<rparr>"


end
