(* ===== verification/Net.thy ===== *)
theory Net
  imports E1000
begin

text \<open>
  The network stack, \<^verbatim>\<open>kernel/src/net\<close> and \<^verbatim>\<open>kernel/src/drivers/ethernet/ethernet.c\<close>, and the part of the card's
  driver that uses it: reception, the interrupt handler and the initialisation.  Byte arrays that are local
  variables or constants of the code (\<^verbatim>\<open>dest_hw_address\<close>, \<^verbatim>\<open>broadcast_mac\<close>, the name of the device) are lists;
  packets and the device record are in memory.
\<close>

section \<open>Byte order\<close>

definition swap16 :: "u16 \<Rightarrow> u16" where "swap16 x = drop_bit 8 x OR push_bit 8 x"
definition swap32 :: "u32 \<Rightarrow> u32" where
  "swap32 x = (drop_bit 24 x AND 0xff) OR (drop_bit 8 x AND 0xff00) OR (push_bit 8 x AND 0xff0000) OR (push_bit 24 x AND 0xff000000)"

definition ntohs :: "u16 \<Rightarrow> u16" where "ntohs netshort = swap16 netshort"
definition htons :: "u16 \<Rightarrow> u16" where "htons hostshort = swap16 hostshort"
definition ntohl :: "u32 \<Rightarrow> u32" where "ntohl netlong = swap32 netlong"
definition htonl :: "u32 \<Rightarrow> u32" where "htonl hostlong = swap32 hostlong"

section \<open>Packets\<close>

definition bytes_at :: "memory \<Rightarrow> u64 \<Rightarrow> nat \<Rightarrow> u8 list" where
  "bytes_at m a n = map (\<lambda>i. rd8 m (a + of_nat i)) [0..<n]"

definition put_bytes :: "memory \<Rightarrow> u64 \<Rightarrow> u8 list \<Rightarrow> memory" where
  "put_bytes m a bs = fold (\<lambda>i m. wr8 m (a + of_nat i) (bs ! i)) [0..<length bs] m"

definition ETHERNET_PROTOCOL_IPV4 :: u16 where "ETHERNET_PROTOCOL_IPV4 = 0x0800"
definition ETHERNET_HW_TYPE :: u16 where "ETHERNET_HW_TYPE = 1"

definition eth_dev_mac :: "u64 \<Rightarrow> u64" where "eth_dev_mac d = d + 12"
definition set_eth_dev_send :: "memory \<Rightarrow> u64 \<Rightarrow> u64 \<Rightarrow> memory" where "set_eth_dev_send m d f = wr64 m (d + 18) f"
definition sizeof_ethernet_dev :: u32 where "sizeof_ethernet_dev = 26"
definition eth_source :: "u64 \<Rightarrow> u64" where "eth_source p = p + 6"
definition eth_type :: "memory \<Rightarrow> u64 \<Rightarrow> u16" where "eth_type m p = rd16 m (p + 12)"
definition set_eth_type :: "memory \<Rightarrow> u64 \<Rightarrow> u16 \<Rightarrow> memory" where "set_eth_type m p v = wr16 m (p + 12) v"
definition sizeof_ethernet_packet :: u32 where "sizeof_ethernet_packet = 14"

definition ARP_REQUEST :: u16 where "ARP_REQUEST = 1"
definition ARP_REPLY :: u16 where "ARP_REPLY = 2"
definition arp_hardware_type :: "memory \<Rightarrow> u64 \<Rightarrow> u16" where "arp_hardware_type m p = rd16 m p"
definition arp_protocol :: "memory \<Rightarrow> u64 \<Rightarrow> u16" where "arp_protocol m p = rd16 m (p + 2)"
definition arp_opcode :: "memory \<Rightarrow> u64 \<Rightarrow> u16" where "arp_opcode m p = rd16 m (p + 6)"
definition arp_src_hardware_addr :: "u64 \<Rightarrow> u64" where "arp_src_hardware_addr p = p + 8"
definition arp_src_protocol_addr :: "u64 \<Rightarrow> u64" where "arp_src_protocol_addr p = p + 14"
definition arp_dst_hardware_addr :: "u64 \<Rightarrow> u64" where "arp_dst_hardware_addr p = p + 18"
definition arp_dst_protocol_addr :: "u64 \<Rightarrow> u64" where "arp_dst_protocol_addr p = p + 24"
definition sizeof_arp_packet :: u32 where "sizeof_arp_packet = 28"

definition ipv4_protocol :: "memory \<Rightarrow> u64 \<Rightarrow> u8" where "ipv4_protocol m p = rd8 m (p + 9)"
definition sizeof_ipv4_packet :: u64 where "sizeof_ipv4_packet = 20"

section \<open>Ethernet\<close>

definition ethernet_fill :: "memory \<Rightarrow> u64 \<Rightarrow> u64 \<Rightarrow> u8 list \<Rightarrow> u64 \<Rightarrow> u32 \<Rightarrow> u16 \<Rightarrow> memory" where
  "ethernet_fill m packet device destination data len protocol =
     (let m = put_bytes m packet destination;
          m = memcpy m (eth_source packet) (eth_dev_mac device) 6;
          m = memcpy m (packet + ucast sizeof_ethernet_packet) data (scast len)
      in set_eth_type m packet (htons protocol))"

definition ethernet_send_packet ::
  "device_env \<Rightarrow> u64 \<Rightarrow> u8 list \<Rightarrow> u64 \<Rightarrow> u32 \<Rightarrow> u16 \<Rightarrow> 'a e1000_scheme \<Rightarrow> 'a e1000_scheme option" where
  "ethernet_send_packet D device destination data len protocol s = do {
     (packet, s) \<leftarrow> kmalloc (sizeof_ethernet_packet + len) s;
     let s = s\<lparr>mem := ethernet_fill (mem s) packet device destination data len protocol\<rparr>;
     s \<leftarrow> dev_e1000_send_data D packet (len + sizeof_ethernet_packet) s;
     kfree packet s
   }"

definition ethernet_register_device ::
  "u8 list \<Rightarrow> u8 list \<Rightarrow> u64 \<Rightarrow> 'a kheap_scheme \<Rightarrow> (u64 \<times> 'a kheap_scheme) option" where
  "ethernet_register_device name mac_address send_packet s = do {
     (device, s) \<leftarrow> kmalloc sizeof_ethernet_dev s;
     let m = put_bytes (mem s) device name;
     let m = put_bytes m (eth_dev_mac device) mac_address;
     Some (device, s\<lparr>mem := set_eth_dev_send m device send_packet\<rparr>)
   }"

section \<open>ARP and IPv4\<close>

definition arp_fill :: "memory \<Rightarrow> u64 \<Rightarrow> u64 \<Rightarrow> u8 list \<Rightarrow> u8 list \<Rightarrow> memory" where
  "arp_fill m device data dest_hw_address dest_protocol_address =
     (let m = memcpy m (arp_src_hardware_addr data) (eth_dev_mac device) 6;
          m = wr8 m (arp_src_protocol_addr data) 192;
          m = wr8 m (arp_src_protocol_addr data + 1) 168;
          m = wr8 m (arp_src_protocol_addr data + 2) 1;
          m = wr8 m (arp_src_protocol_addr data + 3) 100;
          m = put_bytes m (arp_dst_hardware_addr data) dest_hw_address;
          m = put_bytes m (arp_dst_protocol_addr data) dest_protocol_address;
          m = wr16 m (data + 6) (htons ARP_REPLY);
          m = wr8 m (data + 4) 6;
          m = wr8 m (data + 5) 4;
          m = wr16 m data (htons ETHERNET_HW_TYPE)
      in wr16 m (data + 2) (htons ETHERNET_PROTOCOL_IPV4))"

definition arp_handle :: "device_env \<Rightarrow> u64 \<Rightarrow> u64 \<Rightarrow> 'a e1000_scheme \<Rightarrow> 'a e1000_scheme option" where
  "arp_handle D device data s =
     (let dest_hw_address = bytes_at (mem s) (arp_src_hardware_addr data) 6;
          dest_protocol_address = bytes_at (mem s) (arp_src_protocol_addr data) 4
      in if ntohs (arp_protocol (mem s) data) = ETHERNET_PROTOCOL_IPV4 then
           (if ntohs (arp_hardware_type (mem s) data) = ARP_REQUEST then do {
              let s = klog Log_info ''ARP'' ''Got ARP_REQUEST. Sending data...'' [] s;
              let s = s\<lparr>mem := arp_fill (mem s) device data dest_hw_address dest_protocol_address\<rparr>;
              s \<leftarrow> ethernet_send_packet D device dest_hw_address data sizeof_arp_packet 0x806 s;
              Some (klog Log_info ''ARP'' ''Data is sent!'' [] s)
            }
            else if ntohs (arp_hardware_type (mem s) data) = ARP_REPLY then do {
              let s = klog Log_info ''ARP'' ''Got ARP_REPLY from:'' [] s;
              Some (klog Log_info ''ARP'' ''MAC address: %2x:%2x:%2x:%2x:%2x:%2x''
                (map (\<lambda>b. Arg_word (ucast b)) (bytes_at (mem s) (arp_src_hardware_addr data) 6)) s)
            }
            else Some s)
         else Some s)"

definition ipv4_send :: "u64 \<Rightarrow> u64 \<Rightarrow> 'a e1000_scheme \<Rightarrow> 'a e1000_scheme" where
  "ipv4_send device data s = s"

definition ipv4_handle :: "u64 \<Rightarrow> u64 \<Rightarrow> u32 \<Rightarrow> 'a e1000_scheme \<Rightarrow> 'a e1000_scheme" where
  "ipv4_handle device data len s =
     (if (scast len :: u64) < sizeof_ipv4_packet then s
      else klog Log_info ''IPV4'' ''A packet of type %08d is coming in'' [Arg_word (ucast (ipv4_protocol (mem s) data))] s)"

definition broadcast_mac :: "u8 list" where "broadcast_mac = [0xFF, 0xFF, 0xFF, 0xFF, 0xFF, 0xFF]"

definition net_handle :: "device_env \<Rightarrow> u64 \<Rightarrow> u64 \<Rightarrow> u32 \<Rightarrow> 'a e1000_scheme \<Rightarrow> 'a e1000_scheme option" where
  "net_handle D device data len s =
     (if memcmp (mem s) data (eth_dev_mac device) 6 = 0 \<or> bytes_at (mem s) data 6 = broadcast_mac then
        (if ntohs (eth_type (mem s) data) = 0x806
         then arp_handle D device (data + ucast sizeof_ethernet_packet) s
         else if ntohs (eth_type (mem s) data) = 0x800
         then Some (ipv4_handle device (data + ucast sizeof_ethernet_packet) len s)
         else Some s)
      else Some s)"

definition net_init :: "'a machine_scheme \<Rightarrow> 'a machine_scheme" where "net_init s = s"

section \<open>Reception\<close>

partial_function (option) dev_e1000_handle_recv :: "device_env \<Rightarrow> 'a e1000_scheme \<Rightarrow> 'a e1000_scheme option" where
  "dev_e1000_handle_recv D s =
     (let s = poll_mem D (rx_descs s ! unat (rx_cur s) + 12) s;
          d = rx_descs s ! unat (rx_cur s)
      in if rx_status (mem s) d AND 0x1 \<noteq> 0 then do {
           s \<leftarrow> net_handle D (e1000_device s) (rx_addr (mem s) d) (ucast (rx_length (mem s) d)) s;
           let s = s\<lparr>mem := set_rx_status (mem s) (rx_descs s ! unat (rx_cur s)) 0\<rparr>;
           let old_cur = rx_cur s;
           let s = s\<lparr>rx_cur := ucast ((ucast (rx_cur s) + 1 :: u32) mod of_nat E1000_NUM_RX_DESC)\<rparr>;
           dev_e1000_handle_recv D (dev_e1000_write D REG_RXDESCTAIL (ucast old_cur) s)
         }
         else Some s)"

definition e1000_irq_handler :: "device_env \<Rightarrow> 'a e1000_scheme \<Rightarrow> 'a e1000_scheme option" where
  "e1000_irq_handler D s =
     (let s = dev_e1000_write D REG_IMASK 0x1 s;
          (status, s) = dev_e1000_read D 0xc0 s
      in if e1000_is_init s = 0 then Some s
         else if status AND 0x04 \<noteq> 0 then Some (dev_e1000_linkup D s)
         else if status AND 0x10 \<noteq> 0 then Some s
         else if status AND 0x80 \<noteq> 0 then dev_e1000_handle_recv D s
         else Some s)"

text \<open>
  \<open>route\<close> is the routing of the interrupt pin by the ACPI interpreter, \<^verbatim>\<open>lai_pci_route\<close>: its result code and
  the interrupt line; \<open>irq\<close> and \<open>send\<close> are the addresses of \<^verbatim>\<open>e1000_irq\<close> and \<^verbatim>\<open>dev_e1000_send_data\<close>.
\<close>

type_synonym 'a pci_route = "u16 \<Rightarrow> u8 \<Rightarrow> u8 \<Rightarrow> u8 \<Rightarrow> 'a \<Rightarrow> (u32 \<times> u64 \<times> 'a) option"

definition e1000_map_bar :: "device_env \<Rightarrow> u64 \<Rightarrow> 'a e1000_scheme \<Rightarrow> 'a e1000_scheme option" where
  "e1000_map_bar D hdr s =
     (let (bar0, s) = pci_bar0 D hdr s in
      if bar0 AND 0x01 = 0 then
        (let (bar0, s) = pci_bar0 D hdr s;
             s = s\<lparr>e1000_mem_base := ucast (bar0 AND NOT 3), e1000_io_type := 0\<rparr>;
             s = pci_command_or D hdr (push_bit 1 1) s
         in fold_opt (\<lambda>i s. let page = (e1000_mem_base s + of_nat (i * 0x1000)) AND 0xFFFFFFFFFFFFF000
                            in paging_map page page (PAGE_NORMAL OR PAGE_CACHE_DISABLED) s) [0..<32] s)
      else
        (let (bar0, s) = pci_bar0 D hdr s;
             s = s\<lparr>e1000_io_base := ucast (bar0 AND NOT 1), e1000_io_type := 1\<rparr>
         in Some (pci_command_or D hdr (push_bit 0 1) s)))"

definition e1000_report_mac :: "u32 \<Rightarrow> 'a e1000_scheme \<Rightarrow> 'a e1000_scheme" where
  "e1000_report_mac found s =
     (if found = 0 then klog Log_error ''E1000'' ''Could not get MAC address.'' [] s
      else klog Log_info ''E1000'' ''MAC address: %2x:%2x:%2x:%2x:%2x:%2x''
             (map (\<lambda>b. Arg_word (ucast b)) (e1000_mac_addr s)) s)"

definition dev_e1000_init ::
  "device_env \<Rightarrow> 'a e1000_scheme pci_route \<Rightarrow> u64 \<Rightarrow> u64 \<Rightarrow> u64 \<Rightarrow> u64 \<Rightarrow> u64 \<Rightarrow> u64 \<Rightarrow> 'a e1000_scheme \<Rightarrow> 'a e1000_scheme option" where
  "dev_e1000_init D route irq send hdr cur_bus cur_dev cur_func s =
     (if e1000_is_init s \<noteq> 0 then Some s
      else do {
        (ret, base, s) \<leftarrow> route 0 (ucast cur_bus) (ucast cur_dev) (ucast cur_func) s;
        if ret \<noteq> 0 then Some (klog Log_error ''E1000'' ''No IRQ pin route found'' [] s)
        else do {
          let (irq_num, s) = pci_alloc_int_handler s;
          let s = set_gate irq irq_num s;
          line \<leftarrow> ioapic_remap_irq (ucast base) s;
          let s = ioapic_set_entry D (ucast line) (ucast irq_num) s;
          let s = klog Log_info ''E1000'' ''Interrupt vector is %x'' [Arg_word (ucast irq_num)] s;
          s \<leftarrow> e1000_map_bar D hdr s;
          let s = pci_command_or D hdr (push_bit 2 1) s;
          let s = klog Log_info ''E1000'' ''%s @ %lx''
                    [Arg_str (if e1000_io_type s = 0 then ''MMIO address'' else ''Port IO address''),
                     Arg_word (if e1000_io_type s = 0 then e1000_mem_base s else ucast (e1000_io_base s))] s;
          (found, s) \<leftarrow> dev_e1000_get_mac D s;
          let s = e1000_report_mac found s;
          let s = dev_e1000_linkup D s;
          let s = fold (\<lambda>i. dev_e1000_write D (0x5200 + of_nat (i * 4)) 0) [0..<0x80] s;
          let s = dev_e1000_enable_irq D s;
          s \<leftarrow> dev_e1000_init_rx D s;
          s \<leftarrow> dev_e1000_init_tx D s;
          (dev, s) \<leftarrow> ethernet_register_device [0x65, 0x31, 0x30, 0x30, 0x30] (e1000_mac_addr s) send s;
          let s = s\<lparr>e1000_device := dev, e1000_is_init := 1\<rparr>;
          Some (klog Log_ok ''E1000'' ''E1000 NIC initialized'' [] s)
        }
      })"

section \<open>Network byte order\<close>

lemma bit_swap16: "bit (swap16 x) n \<longleftrightarrow> (if n < 8 then bit x (n + 8) else n < 16 \<and> bit x (n - 8))"
  unfolding swap16_def by (auto simp: bit_simps add.commute dest: bit_imp_le_length)

lemma swap16_swap16: "swap16 (swap16 x) = x"
proof (rule bit_word_eqI)
  fix n assume "n < LENGTH(16)"
  then show "bit (swap16 (swap16 x)) n = bit x n"
    by (cases "n < 8") (auto simp: bit_swap16)
qed

lemma byte_masks: "(0xff :: u32) = mask 8" "(0xff00 :: u32) = push_bit 8 (mask 8)"
  "(0xff0000 :: u32) = push_bit 16 (mask 8)" "(0xff000000 :: u32) = push_bit 24 (mask 8)"
  by (simp_all add: mask_eq_exp_minus_1)

lemma bit_swap32:
  "bit (swap32 x) n \<longleftrightarrow> (if n < 8 then bit x (n + 24) else if n < 16 then bit x (n + 8)
     else if n < 24 then bit x (n - 8) else n < 32 \<and> bit x (n - 24))"
  unfolding swap32_def byte_masks by (auto simp: bit_simps add.commute dest: bit_imp_le_length)

lemma swap32_swap32: "swap32 (swap32 x) = x"
proof (rule bit_word_eqI)
  fix n assume "n < LENGTH(32)"
  then consider "n < 8" | "8 \<le> n" "n < 16" | "16 \<le> n" "n < 24" | "24 \<le> n" "n < 32" by force
  then show "bit (swap32 (swap32 x)) n = bit x n"
    by cases (auto simp: bit_swap32)
qed

lemma wr16_upd: "wr16 m a v = m(a + 1 := ucast (drop_bit 8 v), a := ucast v)"
  by (simp add: wr16_def numeral_2_eq_2)

lemma wr32_upd: "wr32 m a v = m(a + 3 := ucast (drop_bit 24 v), a + 2 := ucast (drop_bit 16 v), a + 1 := ucast (drop_bit 8 v), a := ucast v)"
proof -
  have "wrn m a (Suc (Suc (Suc (Suc 0)))) v = m(a + 3 := ucast (drop_bit 24 v), a + 2 := ucast (drop_bit 16 v), a + 1 := ucast (drop_bit 8 v), a := ucast v)"
    by (simp add: drop_bit_drop_bit add.assoc)
  then show ?thesis by (simp add: wr32_def numeral_eq_Suc)
qed

lemma swap16_bytes: "(ucast (swap16 v) :: u8) = ucast (drop_bit 8 v)" "(ucast (drop_bit 8 (swap16 v)) :: u8) = ucast v"
  by (rule bit_word_eqI, auto simp: bit_simps bit_swap16 add.commute)+

lemma swap32_bytes:
  "(ucast (swap32 w) :: u8) = ucast (drop_bit 24 w)" "(ucast (drop_bit 8 (swap32 w)) :: u8) = ucast (drop_bit 16 w)"
  "(ucast (drop_bit 16 (swap32 w)) :: u8) = ucast (drop_bit 8 w)" "(ucast (drop_bit 24 (swap32 w)) :: u8) = ucast w"
  by (rule bit_word_eqI, auto simp: bit_simps bit_swap32 add.commute)+

text \<open>
  The conversions between host and network order are inverse to each other, and storing a
  converted value puts its most significant byte first.
\<close>

lemma host_network_order:
  "ntohs (htons v) = v \<and> ntohl (htonl w) = w \<and>
   bytes_at (wr16 m a (htons v)) a 2 = [ucast (drop_bit 8 v), ucast v] \<and>
   bytes_at (wr32 m a (htonl w)) a 4 = [ucast (drop_bit 24 w), ucast (drop_bit 16 w), ucast (drop_bit 8 w), ucast w]"
  by (simp add: ntohs_def htons_def ntohl_def htonl_def swap16_swap16 swap32_swap32 bytes_at_def upt_rec rd8_def
      wr16_upd wr32_upd swap16_bytes swap32_bytes)

section \<open>ARP replies\<close>

lemma upd_agree:
  assumes "agree_off a n m m'" "unat k < n"
  shows "agree_off a n m (m'(a + k := v))"
  using assms by (auto simp: agree_off_def)

lemma put_bytes_upds:
  "put_bytes m a [x0, x1, x2, x3] = m(a := x0, a + 1 := x1, a + 2 := x2, a + 3 := x3)"
  "put_bytes m a [x0, x1, x2, x3, x4, x5] = m(a := x0, a + 1 := x1, a + 2 := x2, a + 3 := x3, a + 4 := x4, a + 5 := x5)"
  by (simp_all add: put_bytes_def upt_rec wr8_def)

lemma bytes_at_upds:
  "bytes_at m a 4 = [m a, m (a + 1), m (a + 2), m (a + 3)]"
  "bytes_at m a 6 = [m a, m (a + 1), m (a + 2), m (a + 3), m (a + 4), m (a + 5)]"
  by (simp_all add: bytes_at_def upt_rec rd8_def)

lemma put_bytes_apply:
  assumes "length bs < 2 ^ 64"
  shows "put_bytes m a bs b = (if unat (b - a) < length bs then bs ! unat (b - a) else m b)"
proof -
  have "fold (\<lambda>i m. wr8 m (a + of_nat i) (bs ! i)) [0..<n] m b = (if unat (b - a) < n then bs ! unat (b - a) else m b)"
    if "n < 2 ^ 64" for n
    using that
  proof (induction n)
    case (Suc n)
    then show ?case using offset_eq_iff[of n b a] by (auto simp: wr8_def)
  qed simp
  then show ?thesis using assms by (simp add: put_bytes_def)
qed

lemma put_bytes_bytes_at:
  "put_bytes m dst (bytes_at m src 6) b = (if unat (b - dst) < 6 then m (src + (b - dst)) else m b)"
  using put_bytes_apply[of "bytes_at m src 6" m dst b] by (simp add: bytes_at_def rd8_def)

lemma memcpy6:
  assumes "sep dst 6 src 6"
  shows "memcpy m dst src 6 = put_bytes m dst (bytes_at m src 6)"
proof
  fix b
  have "put_bytes m dst (bytes_at m src 6) b = (if unat (b - dst) < 6 then m (src + (b - dst)) else m b)"
    by (rule put_bytes_bytes_at)
  then show "memcpy m dst src 6 b = put_bytes m dst (bytes_at m src 6) b"
    using memcpy_apply[of dst 6 src m b] assms by simp
qed

lemma rd16_bytes: "rd16 m a = ucast (m a) OR push_bit 8 (ucast (m (a + 1)))"
  by (simp add: rd16_def numeral_2_eq_2)

text \<open>
  C29 The answer to a request, written over it: an IPv4 over Ethernet reply whose sender is this machine
  (the device's MAC address and the address 192.168.1.100) and whose target is the sender of the request;
  nothing outside the packet changes.
\<close>

theorem arp_reply_fields:
  assumes "sep data 28 (eth_dev_mac device) 6"
  shows "let m' = arp_fill m device data (bytes_at m (arp_src_hardware_addr data) 6) (bytes_at m (arp_src_protocol_addr data) 4) in
    ntohs (arp_hardware_type m' data) = ETHERNET_HW_TYPE \<and> ntohs (arp_protocol m' data) = ETHERNET_PROTOCOL_IPV4 \<and>
    ntohs (arp_opcode m' data) = ARP_REPLY \<and> rd8 m' (data + 4) = 6 \<and> rd8 m' (data + 5) = 4 \<and>
    bytes_at m' (arp_src_hardware_addr data) 6 = bytes_at m (eth_dev_mac device) 6 \<and>
    bytes_at m' (arp_src_protocol_addr data) 4 = [192, 168, 1, 100] \<and>
    bytes_at m' (arp_dst_hardware_addr data) 6 = bytes_at m (arp_src_hardware_addr data) 6 \<and>
    bytes_at m' (arp_dst_protocol_addr data) 4 = bytes_at m (arp_src_protocol_addr data) 4 \<and>
    agree_off data 28 m m'"
proof -
  have "sep (data + 8) 6 (eth_dev_mac device) 6"
    using sep_sub[OF assms(1), of 8 6 0 6] by simp
  then have c: "memcpy m (data + 8) (eth_dev_mac device) 6 = put_bytes m (data + 8) (bytes_at m (eth_dev_mac device) 6)"
    by (rule memcpy6)
  define m' where "m' = arp_fill m device data (bytes_at m (arp_src_hardware_addr data) 6) (bytes_at m (arp_src_protocol_addr data) 4)"
  note defs = m'_def arp_fill_def Let_def arp_src_hardware_addr_def arp_src_protocol_addr_def arp_dst_hardware_addr_def
    arp_dst_protocol_addr_def c wr8_def wr16_upd bytes_at_upds put_bytes_upds add.assoc
  have "agree_off data 28 m m'"
    unfolding defs by (simp add: upd_agree upd_agree[of data _ _ _ 0, simplified])
  then show ?thesis
    unfolding Let_def m'_def[symmetric]
    unfolding defs arp_hardware_type_def arp_protocol_def arp_opcode_def rd16_bytes rd8_def
    by (simp add: htons_def ntohs_def swap16_def ETHERNET_HW_TYPE_def ETHERNET_PROTOCOL_IPV4_def ARP_REPLY_def)
qed

theorem arp_reply_fields_witness:
  "let m = (\<lambda>a. ucast a);
       m' = arp_fill m 0x9000 0x5000 (bytes_at m (arp_src_hardware_addr 0x5000) 6) (bytes_at m (arp_src_protocol_addr 0x5000) 4)
   in ntohs (arp_opcode m' 0x5000) = ARP_REPLY \<and>
      bytes_at m' (arp_src_hardware_addr 0x5000) 6 = [12, 13, 14, 15, 16, 17] \<and>
      bytes_at m' (arp_dst_hardware_addr 0x5000) 6 = [8, 9, 10, 11, 12, 13]"
proof -
  have s: "sep 0x5000 28 (eth_dev_mac 0x9000) 6"
    by (simp add: sep_def eth_dev_mac_def)
  have b: "bytes_at (\<lambda>a. ucast a) (eth_dev_mac 0x9000) 6 = [12, 13, 14, 15, 16, 17]"
    "bytes_at (\<lambda>a. ucast a) (arp_src_hardware_addr 0x5000) 6 = [8, 9, 10, 11, 12, 13]"
    by (simp_all add: bytes_at_upds eth_dev_mac_def arp_src_hardware_addr_def)
  show ?thesis
    using arp_reply_fields[OF s, of "\<lambda>a. ucast a"] unfolding Let_def b by blast
qed

end
