(* ===== verification/Ahci.thy ===== *)
theory Ahci
  imports Net
begin

text \<open>
  The SATA controller, \<^verbatim>\<open>kernel/src/drivers/storage/ahci/ahci.c\<close>, and the disk interface of the file system on
  top of it, \<^verbatim>\<open>kernel/src/fs/fat/diskio.c\<close>.  The controller's registers are a device; command headers and
  tables are memory it reads.  Waiting loops without a bound yield \<open>None\<close> when the controller never answers.
\<close>

section \<open>Registers and command structures\<close>

definition SATA_SIG_ATA :: u32 where "SATA_SIG_ATA = 0x00000101"
definition SATA_SIG_ATAPI :: u32 where "SATA_SIG_ATAPI = 0xEB140101"
definition SATA_SIG_SEMB :: u32 where "SATA_SIG_SEMB = 0xC33C0101"
definition SATA_SIG_PM :: u32 where "SATA_SIG_PM = 0x96690101"
definition HBA_PORT_DEV_PRESENT :: u8 where "HBA_PORT_DEV_PRESENT = 3"
definition HBA_PORT_IPM_ACTIVE :: u8 where "HBA_PORT_IPM_ACTIVE = 1"
definition HBA_PxIS_TFES :: u32 where "HBA_PxIS_TFES = push_bit 30 1"
definition HBA_PxCMD_CR :: u32 where "HBA_PxCMD_CR = push_bit 15 1"
definition HBA_PxCMD_FR :: u32 where "HBA_PxCMD_FR = push_bit 14 1"
definition HBA_PxCMD_FRE :: u32 where "HBA_PxCMD_FRE = push_bit 4 1"
definition HBA_PxCMD_ST :: u32 where "HBA_PxCMD_ST = push_bit 0 1"
definition ATA_CMD_READ_DMA_EX :: u8 where "ATA_CMD_READ_DMA_EX = 0x25"
definition ATA_CMD_WRITE_DMA_EX :: u8 where "ATA_CMD_WRITE_DMA_EX = 0x35"
definition ATA_DEV_BUSY :: u32 where "ATA_DEV_BUSY = 0x80"
definition ATA_DEV_DRQ :: u32 where "ATA_DEV_DRQ = 0x08"
definition GHC_AE :: u32 where "GHC_AE = push_bit 31 1"
definition GHC_IE :: u32 where "GHC_IE = push_bit 1 1"
definition GHC_HR :: u32 where "GHC_HR = push_bit 0 1"
definition FIS_TYPE_REG_H2D :: u8 where "FIS_TYPE_REG_H2D = 0x27"

datatype port_type = NoDevice | SATA | SEMB | PM | SATAPI

fun port_type_code :: "port_type \<Rightarrow> u32" where
  "port_type_code NoDevice = 0"
| "port_type_code SATA = 1"
| "port_type_code SEMB = 2"
| "port_type_code PM = 3"
| "port_type_code SATAPI = 4"

text \<open>Offsets of the registers of a port and of the controller.\<close>

definition px_commandListBase :: u64 where "px_commandListBase = 0"
definition px_commandListBaseUpper :: u64 where "px_commandListBaseUpper = 4"
definition px_fisBaseAddress :: u64 where "px_fisBaseAddress = 8"
definition px_fisBaseAddressUpper :: u64 where "px_fisBaseAddressUpper = 12"
definition px_interruptStatus :: u64 where "px_interruptStatus = 16"
definition px_cmdSts :: u64 where "px_cmdSts = 24"
definition px_taskFileData :: u64 where "px_taskFileData = 32"
definition px_signature :: u64 where "px_signature = 36"
definition px_sataStatus :: u64 where "px_sataStatus = 40"
definition px_sataActive :: u64 where "px_sataActive = 52"
definition px_commandIssue :: u64 where "px_commandIssue = 56"
definition hba_hostCapability :: u64 where "hba_hostCapability = 0"
definition hba_globalHostControl :: u64 where "hba_globalHostControl = 4"
definition hba_interruptStatus :: u64 where "hba_interruptStatus = 8"
definition hba_portsImplemented :: u64 where "hba_portsImplemented = 12"
definition hba_hostCapabilitiesExtended :: u64 where "hba_hostCapabilitiesExtended = 36"
definition hba_biosHandoffCtrlSts :: u64 where "hba_biosHandoffCtrlSts = 40"
definition hba_port :: "u64 \<Rightarrow> nat \<Rightarrow> u64" where "hba_port abar i = abar + 256 + of_nat (i * 128)"

definition hdr_set_fis_length :: "memory \<Rightarrow> u64 \<Rightarrow> u8 \<Rightarrow> memory" where
  "hdr_set_fis_length m h v = wr8 m h ((rd8 m h AND 0xE0) OR (v AND 0x1F))"
definition hdr_set_write :: "memory \<Rightarrow> u64 \<Rightarrow> u8 \<Rightarrow> memory" where
  "hdr_set_write m h v = wr8 m h ((rd8 m h AND 0xBF) OR push_bit 6 (v AND 1))"
definition hdr_prdtLength :: "memory \<Rightarrow> u64 \<Rightarrow> u16" where "hdr_prdtLength m h = rd16 m (h + 2)"
definition hdr_set_prdtLength :: "memory \<Rightarrow> u64 \<Rightarrow> u16 \<Rightarrow> memory" where "hdr_set_prdtLength m h v = wr16 m (h + 2) v"
definition hdr_table :: "memory \<Rightarrow> u64 \<Rightarrow> u64" where
  "hdr_table m h = ucast (rd32 m (h + 8)) OR push_bit 32 (ucast (rd32 m (h + 12)))"
definition hdr_set_table :: "memory \<Rightarrow> u64 \<Rightarrow> u64 \<Rightarrow> memory" where
  "hdr_set_table m h v = wr32 (wr32 m (h + 8) (ucast v)) (h + 12) (ucast (drop_bit 32 v))"
definition sizeof_cmd_hdr :: u64 where "sizeof_cmd_hdr = 32"

definition prdt_entry :: "u64 \<Rightarrow> u64" where "prdt_entry table = table + 128"
definition prdt_set_base :: "memory \<Rightarrow> u64 \<Rightarrow> u64 \<Rightarrow> memory" where
  "prdt_set_base m e v = wr32 (wr32 m e (ucast v)) (e + 4) (ucast (drop_bit 32 v))"
definition prdt_set_byteCount :: "memory \<Rightarrow> u64 \<Rightarrow> u32 \<Rightarrow> memory" where
  "prdt_set_byteCount m e v = wr32 m (e + 12) ((rd32 m (e + 12) AND 0xFFC00000) OR (v AND 0x3FFFFF))"
definition prdt_set_ioc :: "memory \<Rightarrow> u64 \<Rightarrow> u32 \<Rightarrow> memory" where
  "prdt_set_ioc m e v = wr32 m (e + 12) ((rd32 m (e + 12) AND 0x7FFFFFFF) OR push_bit 31 v)"
definition sizeof_cmd_table :: u64 where "sizeof_cmd_table = 128"
definition sizeof_prdt_entry :: u64 where "sizeof_prdt_entry = 16"
definition sizeof_FIS_REG_H2D :: u8 where "sizeof_FIS_REG_H2D = 20"

definition hbaPort :: "memory \<Rightarrow> u64 \<Rightarrow> u64" where "hbaPort m port = rd64 m port"
definition set_hbaPort :: "memory \<Rightarrow> u64 \<Rightarrow> u64 \<Rightarrow> memory" where "set_hbaPort m port v = wr64 m port v"
definition set_portType :: "memory \<Rightarrow> u64 \<Rightarrow> port_type \<Rightarrow> memory" where
  "set_portType m port v = wr32 m (port + 8) (port_type_code v)"
definition port_buffer :: "memory \<Rightarrow> u64 \<Rightarrow> u64" where "port_buffer m port = rd64 m (port + 16)"
definition set_port_buffer :: "memory \<Rightarrow> u64 \<Rightarrow> u64 \<Rightarrow> memory" where "set_port_buffer m port v = wr64 m (port + 16) v"
definition set_portNumber :: "memory \<Rightarrow> u64 \<Rightarrow> u8 \<Rightarrow> memory" where "set_portNumber m port v = wr8 m (port + 24) v"
definition sizeof_ahci_port :: u32 where "sizeof_ahci_port = 32"

record ahci = e1000 +
  ahci_abar :: u64
  ports :: "u64 list"
  portCount :: u8

section \<open>Ports\<close>

definition px_rd :: "device_env \<Rightarrow> u64 \<Rightarrow> u64 \<Rightarrow> 'a ahci_scheme \<Rightarrow> u32 \<times> 'a ahci_scheme" where
  "px_rd D port r s = mmio_rd32 D (hbaPort (mem s) port + r) s"
definition px_wr :: "device_env \<Rightarrow> u64 \<Rightarrow> u64 \<Rightarrow> u32 \<Rightarrow> 'a ahci_scheme \<Rightarrow> 'a ahci_scheme" where
  "px_wr D port r v s = mmio_wr32 D (hbaPort (mem s) port + r) v s"
definition px_upd :: "device_env \<Rightarrow> u64 \<Rightarrow> u64 \<Rightarrow> (u32 \<Rightarrow> u32) \<Rightarrow> 'a ahci_scheme \<Rightarrow> 'a ahci_scheme" where
  "px_upd D port r f s = mmio_upd32 D (hbaPort (mem s) port + r) f s"

definition dev_ahci_flush_writes :: "device_env \<Rightarrow> u64 \<Rightarrow> 'a ahci_scheme \<Rightarrow> 'a ahci_scheme" where
  "dev_ahci_flush_writes D port s = snd (px_rd D port px_cmdSts s)"

definition dev_ahci_port_chk_type :: "device_env \<Rightarrow> u64 \<Rightarrow> 'a ahci_scheme \<Rightarrow> port_type \<times> 'a ahci_scheme" where
  "dev_ahci_port_chk_type D hport s =
     (let (sataStatus, s) = mmio_rd32 D (hport + px_sataStatus) s;
          interfacePowerManagement = ucast (drop_bit 8 sataStatus AND 7) :: u8;
          deviceDetection = ucast (sataStatus AND 7) :: u8
      in if deviceDetection \<noteq> HBA_PORT_DEV_PRESENT then (NoDevice, s)
         else if interfacePowerManagement \<noteq> HBA_PORT_IPM_ACTIVE then (NoDevice, s)
         else let (sig, s) = mmio_rd32 D (hport + px_signature) s
              in (if sig = SATA_SIG_ATAPI then SATAPI
                  else if sig = SATA_SIG_ATA then SATA
                  else if sig = SATA_SIG_PM then PM
                  else if sig = SATA_SIG_SEMB then SEMB
                  else NoDevice, s))"

definition ahci_add_port :: "port_type \<Rightarrow> u64 \<Rightarrow> 'a ahci_scheme \<Rightarrow> 'a ahci_scheme option" where
  "ahci_add_port portType hport s = do {
     (p, s) \<leftarrow> kmalloc sizeof_ahci_port s;
     let s = s\<lparr>ports := (ports s)[unat (portCount s) := p]\<rparr>;
     let s = s\<lparr>mem := set_portNumber (set_hbaPort (set_portType (mem s) p portType) p hport) p (portCount s)\<rparr>;
     Some (s\<lparr>portCount := portCount s + 1\<rparr>)
   }"

definition ahci_probe_port :: "device_env \<Rightarrow> u32 \<Rightarrow> nat \<Rightarrow> 'a ahci_scheme \<Rightarrow> 'a ahci_scheme option" where
  "ahci_probe_port D portsImplemented i s =
     (if portsImplemented AND push_bit i 1 \<noteq> 0 then
        (let (portType, s) = dev_ahci_port_chk_type D (hba_port (ahci_abar s) i) s
         in if portType = SATA \<or> portType = SATAPI
            then ahci_add_port portType (hba_port (ahci_abar s) i) s else Some s)
      else Some s)"

definition dev_ahci_probe_ports :: "device_env \<Rightarrow> 'a ahci_scheme \<Rightarrow> 'a ahci_scheme option" where
  "dev_ahci_probe_ports D s =
     (let (portsImplemented, s) = mmio_rd32 D (ahci_abar s + hba_portsImplemented) s
      in fold_opt (ahci_probe_port D portsImplemented) [0..<32] s)"

partial_function (option) ahci_stop_wait :: "device_env \<Rightarrow> u64 \<Rightarrow> 'a ahci_scheme \<Rightarrow> 'a ahci_scheme option" where
  "ahci_stop_wait D port s =
     (let (v, s) = px_rd D port px_cmdSts s
      in if v AND HBA_PxCMD_FR \<noteq> 0 then ahci_stop_wait D port s
         else let (v, s) = px_rd D port px_cmdSts s
              in if v AND HBA_PxCMD_CR \<noteq> 0 then ahci_stop_wait D port s else Some s)"

definition dev_ahci_stop_cmd :: "device_env \<Rightarrow> u64 \<Rightarrow> 'a ahci_scheme \<Rightarrow> 'a ahci_scheme option" where
  "dev_ahci_stop_cmd D port s =
     (let s = px_upd D port px_cmdSts (\<lambda>v. v AND NOT HBA_PxCMD_ST) s;
          s = dev_ahci_flush_writes D port s;
          s = px_upd D port px_cmdSts (\<lambda>v. v AND NOT HBA_PxCMD_FRE) s;
          s = dev_ahci_flush_writes D port s
      in ahci_stop_wait D port s)"

partial_function (option) ahci_start_wait :: "device_env \<Rightarrow> u64 \<Rightarrow> 'a ahci_scheme \<Rightarrow> 'a ahci_scheme option" where
  "ahci_start_wait D port s =
     (let (v, s) = px_rd D port px_cmdSts s
      in if v AND HBA_PxCMD_CR \<noteq> 0 then ahci_start_wait D port s else Some s)"

definition dev_ahci_start_cmd :: "device_env \<Rightarrow> u64 \<Rightarrow> 'a ahci_scheme \<Rightarrow> 'a ahci_scheme option" where
  "dev_ahci_start_cmd D port s = do {
     s \<leftarrow> ahci_start_wait D port s;
     let s = px_upd D port px_cmdSts (\<lambda>v. v OR HBA_PxCMD_FRE) s;
     let s = dev_ahci_flush_writes D port s;
     let s = px_upd D port px_cmdSts (\<lambda>v. v OR HBA_PxCMD_ST) s;
     Some (dev_ahci_flush_writes D port s)
   }"

definition ahci_dma_page :: "'a ahci_scheme \<Rightarrow> (u64 \<times> 'a ahci_scheme) option" where
  "ahci_dma_page s = do {
     (page, s) \<leftarrow> pmm_getpage s;
     s \<leftarrow> paging_map (page AND 0xFFFFFFFFFFFFF000) (page AND 0xFFFFFFFFFFFFF000)
            (PAGE_NORMAL OR PAGE_CACHE_DISABLED OR PAGE_WRITE_THROUGH) s;
     Some (page, s)
   }"

definition ahci_command_header :: "u64 \<Rightarrow> nat \<Rightarrow> 'a ahci_scheme \<Rightarrow> 'a ahci_scheme option" where
  "ahci_command_header cmdHeader i s = do {
     let h = cmdHeader + sizeof_cmd_hdr * of_nat i;
     let s = s\<lparr>mem := hdr_set_prdtLength (mem s) h 8\<rparr>;
     (cmdTableAddress, s) \<leftarrow> ahci_dma_page s;
     let address = cmdTableAddress + of_nat (i * 256);
     Some (s\<lparr>mem := memset (hdr_set_table (mem s) h address) cmdTableAddress 0 256\<rparr>)
   }"

definition dev_ahci_port_configure :: "device_env \<Rightarrow> u64 \<Rightarrow> 'a ahci_scheme \<Rightarrow> 'a ahci_scheme option" where
  "dev_ahci_port_configure D port s = do {
     s \<leftarrow> dev_ahci_stop_cmd D port s;
     (newBase, s) \<leftarrow> ahci_dma_page s;
     let s = px_wr D port px_commandListBase (ucast newBase) s;
     let s = dev_ahci_flush_writes D port s;
     let s = px_wr D port px_commandListBaseUpper (ucast (drop_bit 32 newBase)) s;
     let s = dev_ahci_flush_writes D port s;
     let (clb, s) = px_rd D port px_commandListBase s;
     let s = s\<lparr>mem := memset (mem s) (ucast clb) 0 1024\<rparr>;
     (fisBase, s) \<leftarrow> ahci_dma_page s;
     let s = px_wr D port px_fisBaseAddress (ucast fisBase) s;
     let s = dev_ahci_flush_writes D port s;
     let s = px_wr D port px_fisBaseAddressUpper (ucast (drop_bit 32 fisBase)) s;
     let s = dev_ahci_flush_writes D port s;
     let s = s\<lparr>mem := memset (mem s) fisBase 0 256\<rparr>;
     let (clb, s) = px_rd D port px_commandListBase s;
     let (clbu, s) = px_rd D port px_commandListBaseUpper s;
     s \<leftarrow> fold_opt (ahci_command_header (ucast clb + push_bit 32 (ucast clbu))) [0..<32] s;
     dev_ahci_start_cmd D port s
   }"

section \<open>Transfers\<close>

fun free_slot :: "u32 \<Rightarrow> nat list \<Rightarrow> u32" where
  "free_slot slots [] = - 1"
| "free_slot slots (i # is) = (if slots AND 1 = 0 then of_nat i else free_slot (drop_bit 1 slots) is)"

definition dev_ahci_find_cmdslot :: "device_env \<Rightarrow> u64 \<Rightarrow> 'a ahci_scheme \<Rightarrow> u32 \<times> 'a ahci_scheme" where
  "dev_ahci_find_cmdslot D hport s =
     (let (sact, s) = mmio_rd32 D (hport + px_sataActive) s;
          (ci, s) = mmio_rd32 D (hport + px_commandIssue) s;
          (cap, s) = mmio_rd32 D (ahci_abar s + hba_hostCapability) s;
          cmdslots = drop_bit 8 (cap AND 0x0f00)
      in (free_slot (sact OR ci) [0..<unat cmdslots], s))"

definition fis_fill :: "memory \<Rightarrow> u64 \<Rightarrow> u8 \<Rightarrow> u64 \<Rightarrow> u32 \<Rightarrow> memory" where
  "fis_fill m fis command sector sectorCount =
     (let sectorL = ucast sector :: u32;
          sectorH = ucast (drop_bit 32 sector) :: u32;
          m = wr8 m fis FIS_TYPE_REG_H2D;
          m = wr8 m (fis + 1) ((rd8 m (fis + 1) AND 0x7F) OR push_bit 7 1);
          m = wr8 m (fis + 2) command;
          m = wr8 m (fis + 4) (ucast sectorL);
          m = wr8 m (fis + 5) (ucast (drop_bit 8 sectorL));
          m = wr8 m (fis + 6) (ucast (drop_bit 16 sectorL));
          m = wr8 m (fis + 8) (ucast sectorH);
          m = wr8 m (fis + 9) (ucast (drop_bit 8 sectorH));
          m = wr8 m (fis + 10) (ucast (drop_bit 16 sectorH));
          m = wr8 m (fis + 7) (push_bit 6 1);
          m = wr8 m (fis + 12) (ucast (sectorCount AND 0xFF))
      in wr8 m (fis + 13) (ucast (drop_bit 8 sectorCount AND 0xFF)))"

definition ahci_build :: "memory \<Rightarrow> u64 \<Rightarrow> u64 \<Rightarrow> u8 \<Rightarrow> u8 \<Rightarrow> u64 \<Rightarrow> u32 \<Rightarrow> memory" where
  "ahci_build m port cmdHeader wr command sector sectorCount =
     (let m = hdr_set_fis_length m cmdHeader (sizeof_FIS_REG_H2D div 4);
          m = hdr_set_write m cmdHeader wr;
          m = hdr_set_prdtLength m cmdHeader 1;
          commandTable = hdr_table m cmdHeader;
          m = memset m commandTable 0
                (sizeof_cmd_table + scast (ucast (hdr_prdtLength m cmdHeader) - 1 :: u32) * sizeof_prdt_entry);
          m = prdt_set_base m (prdt_entry commandTable) (port_buffer m port);
          m = prdt_set_byteCount m (prdt_entry commandTable) (push_bit 9 sectorCount - 1);
          m = prdt_set_ioc m (prdt_entry commandTable) 1
      in fis_fill m commandTable command sector sectorCount)"

fun ahci_spin :: "device_env \<Rightarrow> u64 \<Rightarrow> nat \<Rightarrow> 'a ahci_scheme \<Rightarrow> bool \<times> 'a ahci_scheme" where
  "ahci_spin D port 0 s = (let (v, s) = px_rd D port px_taskFileData s in (False, s))"
| "ahci_spin D port (Suc n) s =
     (let (v, s) = px_rd D port px_taskFileData s
      in if v AND (ATA_DEV_BUSY OR ATA_DEV_DRQ) \<noteq> 0 then ahci_spin D port n s else (True, s))"

partial_function (option) ahci_complete :: "device_env \<Rightarrow> u64 \<Rightarrow> u32 \<Rightarrow> 'a ahci_scheme \<Rightarrow> (u32 \<times> 'a ahci_scheme) option" where
  "ahci_complete D port bits s =
     (let (ci, s) = px_rd D port px_commandIssue s
      in if ci AND bits = 0 then Some (0, s)
         else let (st, s) = px_rd D port px_interruptStatus s
              in if st AND HBA_PxIS_TFES \<noteq> 0 then Some (- 1, s) else ahci_complete D port bits s)"

text \<open>The two transfer functions differ in the write flag of the header and in the command.\<close>

definition ahci_transfer ::
  "device_env \<Rightarrow> u8 \<Rightarrow> u8 \<Rightarrow> u64 \<Rightarrow> u64 \<Rightarrow> u32 \<Rightarrow> 'a ahci_scheme \<Rightarrow> (u32 \<times> 'a ahci_scheme) option" where
  "ahci_transfer D wr command port sector sectorCount s =
     (let (slot, s) = dev_ahci_find_cmdslot D (hbaPort (mem s) port) s in
      if slot = - 1 then Some (- 1, s)
      else let s = px_wr D port px_interruptStatus (- 1) s;
               s = dev_ahci_flush_writes D port s;
               (clb, s) = px_rd D port px_commandListBase s;
               cmdHeader = ucast clb + sizeof_cmd_hdr * scast slot;
               s = s\<lparr>mem := ahci_build (mem s) port cmdHeader wr command sector sectorCount\<rparr>;
               (ready, s) = ahci_spin D port 10000000 s
           in if \<not> ready then Some (- 1, s)
              else let s = px_wr D port px_commandIssue (push_bit (unat slot) 1) s;
                       s = dev_ahci_flush_writes D port s
                   in ahci_complete D port (push_bit (unat slot) 1) s)"

definition dev_ahci_read :: "device_env \<Rightarrow> u64 \<Rightarrow> u64 \<Rightarrow> u32 \<Rightarrow> 'a ahci_scheme \<Rightarrow> (u32 \<times> 'a ahci_scheme) option" where
  "dev_ahci_read D port sector sectorCount s = ahci_transfer D 0 ATA_CMD_READ_DMA_EX port sector sectorCount s"

definition dev_ahci_write :: "device_env \<Rightarrow> u64 \<Rightarrow> u64 \<Rightarrow> u32 \<Rightarrow> 'a ahci_scheme \<Rightarrow> (u32 \<times> 'a ahci_scheme) option" where
  "dev_ahci_write D port sector sectorCount s = ahci_transfer D 1 ATA_CMD_WRITE_DMA_EX port sector sectorCount s"

section \<open>The controller\<close>

partial_function (option) hba_wait_clear :: "device_env \<Rightarrow> u64 \<Rightarrow> u32 \<Rightarrow> 'a ahci_scheme \<Rightarrow> 'a ahci_scheme option" where
  "hba_wait_clear D r bits s =
     (let (v, s) = mmio_rd32 D (ahci_abar s + r) s
      in if v AND bits \<noteq> 0 then hba_wait_clear D r bits s else Some s)"

definition dev_ahci_reset :: "device_env \<Rightarrow> 'a ahci_scheme \<Rightarrow> 'a ahci_scheme option" where
  "dev_ahci_reset D s = do {
     let s = mmio_upd32 D (ahci_abar s + hba_globalHostControl) (\<lambda>v. v AND NOT GHC_AE) s;
     s \<leftarrow> hpet_usleep D 50000 s;
     let s = mmio_upd32 D (ahci_abar s + hba_globalHostControl) (\<lambda>v. v OR GHC_HR) s;
     s \<leftarrow> hpet_usleep D 50000 s;
     s \<leftarrow> hba_wait_clear D hba_globalHostControl GHC_HR s;
     let s = mmio_upd32 D (ahci_abar s + hba_globalHostControl) (\<lambda>v. v OR GHC_AE) s;
     s \<leftarrow> hpet_usleep D 50000 s;
     Some (klog Log_info ''AHCI'' ''Controller has been reset'' [] s)
   }"

definition dev_ahci_bios_os_handoff :: "device_env \<Rightarrow> 'a ahci_scheme \<Rightarrow> 'a ahci_scheme option" where
  "dev_ahci_bios_os_handoff D s =
     (let (cap2, s) = mmio_rd32 D (ahci_abar s + hba_hostCapabilitiesExtended) s in
      if cap2 AND 0x01 \<noteq> 0 then do {
        let s = mmio_upd32 D (ahci_abar s + hba_biosHandoffCtrlSts) (\<lambda>v. v OR push_bit 1 1) s;
        s \<leftarrow> hpet_usleep D 50000 s;
        s \<leftarrow> hba_wait_clear D hba_biosHandoffCtrlSts (push_bit 0 1) s;
        s \<leftarrow> hpet_usleep D 50000 s;
        s \<leftarrow> hba_wait_clear D hba_biosHandoffCtrlSts (push_bit 4 1) s;
        s \<leftarrow> hpet_usleep D 50000 s;
        Some (klog Log_info ''AHCI'' ''BIOS/OS handoff complete'' [] s)
      }
      else Some s)"

definition ahci_irq_handler :: "device_env \<Rightarrow> 'a ahci_scheme \<Rightarrow> 'a ahci_scheme" where
  "ahci_irq_handler D s =
     (let (irq_status, s) = mmio_rd32 D (ahci_abar s + hba_interruptStatus) s
      in mmio_wr32 D (ahci_abar s + hba_interruptStatus) irq_status s)"

definition dev_ahci_get_port :: "u32 \<Rightarrow> 'a ahci_scheme \<Rightarrow> u64" where
  "dev_ahci_get_port idx s = ports s ! unat idx"

definition ahci_start_port :: "device_env \<Rightarrow> nat \<Rightarrow> 'a ahci_scheme \<Rightarrow> 'a ahci_scheme option" where
  "ahci_start_port D i s = do {
     let port = ports s ! i;
     (page, s) \<leftarrow> pmm_getpage s;
     let s = s\<lparr>mem := set_port_buffer (mem s) port page\<rparr>;
     let s = s\<lparr>mem := memset (mem s) (port_buffer (mem s) port) 0 0x1000\<rparr>;
     dev_ahci_port_configure D port s
   }"

definition dev_ahci_init ::
  "device_env \<Rightarrow> 'a ahci_scheme pci_route \<Rightarrow> u64 \<Rightarrow> u64 \<Rightarrow> u64 \<Rightarrow> u64 \<Rightarrow> u64 \<Rightarrow> 'a ahci_scheme \<Rightarrow> 'a ahci_scheme option" where
  "dev_ahci_init D route irq hdr cur_bus cur_dev cur_func s =
     (if ahci_abar s \<noteq> 0 then Some s
      else do {
        let s = pci_command_or D hdr (push_bit 1 1) s;
        let s = pci_command_or D hdr (push_bit 2 1) s;
        let s = mmio_upd16 D (hdr + 4) (\<lambda>c. c AND NOT (push_bit 10 1)) s;
        let (bar5, s) = pci_bar5 D hdr s;
        let s = s\<lparr>ahci_abar := ucast bar5 AND NOT 3\<rparr>;
        let (bar5, s) = pci_bar5 D hdr s;
        let page = (ucast (bar5 AND NOT 3) AND 0xFFFFFFFFFFFFF000);
        s \<leftarrow> paging_map page page (PAGE_NORMAL OR PAGE_CACHE_DISABLED OR PAGE_WRITE_THROUGH) s;
        s \<leftarrow> dev_ahci_bios_os_handoff D s;
        (ret, base, s) \<leftarrow> route 0 (ucast cur_bus) (ucast cur_dev) (ucast cur_func) s;
        if ret \<noteq> 0 then Some (klog Log_error ''AHCI'' ''No IRQ pin route found'' [] s)
        else do {
          let (irq_num, s) = pci_alloc_int_handler s;
          let s = set_gate irq irq_num s;
          line \<leftarrow> ioapic_remap_irq (ucast base) s;
          let s = ioapic_set_entry D (ucast line) (ucast irq_num) s;
          let s = klog Log_info ''AHCI'' ''Interrupt vector is %x'' [Arg_word (ucast irq_num)] s;
          let s = mmio_upd32 D (ahci_abar s + hba_globalHostControl) (\<lambda>v. v OR GHC_IE) s;
          let s = mmio_upd32 D (ahci_abar s + hba_globalHostControl) (\<lambda>v. v OR GHC_AE) s;
          let s = s\<lparr>ports := replicate 32 0\<rparr>;
          s \<leftarrow> dev_ahci_probe_ports D s;
          let s = klog Log_info ''AHCI'' ''Found %d ports'' [Arg_word (ucast (portCount s))] s;
          s \<leftarrow> fold_opt (ahci_start_port D) [0..<unat (portCount s)] s;
          Some (klog Log_ok ''AHCI'' ''AHCI controller initialized'' [] s)
        }
      })"

section \<open>Disk interface of the file system\<close>

datatype DRESULT = RES_OK | RES_ERROR | RES_WRPRT | RES_NOTRDY | RES_PARERR

definition disk_status :: "u8 \<Rightarrow> u8" where "disk_status pdrv = 0"
definition disk_initialize :: "u8 \<Rightarrow> u8" where "disk_initialize pdrv = 0"

definition disk_read :: "device_env \<Rightarrow> u8 \<Rightarrow> u64 \<Rightarrow> u32 \<Rightarrow> u32 \<Rightarrow> 'a ahci_scheme \<Rightarrow> (DRESULT \<times> 'a ahci_scheme) option" where
  "disk_read D pdrv buff sector count s = do {
     let port = dev_ahci_get_port 0 s;
     (res, s) \<leftarrow> dev_ahci_read D port (ucast sector) count s;
     if res \<noteq> 0 then Some (RES_ERROR, s)
     else Some (RES_OK, s\<lparr>mem := memcpy (mem s) buff (port_buffer (mem s) port) (ucast (count * 512))\<rparr>)
   }"

definition disk_write :: "device_env \<Rightarrow> u8 \<Rightarrow> u64 \<Rightarrow> u32 \<Rightarrow> u32 \<Rightarrow> 'a ahci_scheme \<Rightarrow> (DRESULT \<times> 'a ahci_scheme) option" where
  "disk_write D pdrv buff sector count s = do {
     let port = dev_ahci_get_port 0 s;
     let s = s\<lparr>mem := memcpy (mem s) (port_buffer (mem s) port) buff (ucast (count * 512))\<rparr>;
     (res, s) \<leftarrow> dev_ahci_write D port (ucast sector) count s;
     Some (if res \<noteq> 0 then RES_ERROR else RES_OK, s)
   }"

definition disk_ioctl :: "u8 \<Rightarrow> u8 \<Rightarrow> u64 \<Rightarrow> DRESULT" where "disk_ioctl pdrv cmd buff = RES_OK"
definition get_fattime :: u32 where "get_fattime = 0"

section \<open>The command as the drive reads it\<close>

text \<open>The 48-bit sector number and the sector count of a register FIS.\<close>

definition fis_lba :: "memory \<Rightarrow> u64 \<Rightarrow> u64" where
  "fis_lba m fis = ucast (rd8 m (fis + 4)) OR push_bit 8 (ucast (rd8 m (fis + 5))) OR push_bit 16 (ucast (rd8 m (fis + 6))) OR
     push_bit 24 (ucast (rd8 m (fis + 8))) OR push_bit 32 (ucast (rd8 m (fis + 9))) OR push_bit 40 (ucast (rd8 m (fis + 10)))"

definition fis_count :: "memory \<Rightarrow> u64 \<Rightarrow> u32" where
  "fis_count m fis = ucast (rd8 m (fis + 12)) OR push_bit 8 (ucast (rd8 m (fis + 13)))"

lemma fis_bytes:
  "rd8 (fis_fill m fis c sector n) (fis + 4) = ucast sector"
  "rd8 (fis_fill m fis c sector n) (fis + 5) = ucast (drop_bit 8 sector)"
  "rd8 (fis_fill m fis c sector n) (fis + 6) = ucast (drop_bit 16 sector)"
  "rd8 (fis_fill m fis c sector n) (fis + 8) = ucast (drop_bit 32 sector)"
  "rd8 (fis_fill m fis c sector n) (fis + 9) = ucast (drop_bit 40 sector)"
  "rd8 (fis_fill m fis c sector n) (fis + 10) = ucast (drop_bit 48 sector)"
  "rd8 (fis_fill m fis c sector n) (fis + 12) = ucast n"
  "rd8 (fis_fill m fis c sector n) (fis + 13) = ucast (drop_bit 8 n)"
  by (simp_all add: fis_fill_def Let_def rd8_def wr8_def ucast_and_ff,
      (rule bit_word_eqI, auto simp: bit_simps)+)

lemma fis_rest:
  "rd8 (fis_fill m fis c sector n) fis = FIS_TYPE_REG_H2D"
  "bit (rd8 (fis_fill m fis c sector n) (fis + 1)) 7"
  "rd8 (fis_fill m fis c sector n) (fis + 2) = c"
  "rd8 (fis_fill m fis c sector n) (fis + 7) = 0x40"
  by (simp_all add: fis_fill_def Let_def rd8_def wr8_def bit_simps)

lemma fis_agree: "agree_off fis 20 m (fis_fill m fis c sector n)"
  unfolding fis_fill_def Let_def wr8_def by (simp add: upd_agree upd_agree[of fis _ _ _ 0, simplified])

lemma bit_byte_term:
  "k \<le> 56 \<Longrightarrow> bit (push_bit k (ucast (ucast (drop_bit d (x :: u64)) :: u8) :: u64)) i \<longleftrightarrow> k \<le> i \<and> i < k + 8 \<and> bit x (d + (i - k))"
  by (auto simp: bit_simps)

lemma bit_low_byte: "bit (ucast (ucast (x :: u64) :: u8) :: u64) i \<longleftrightarrow> i < 8 \<and> bit x i"
  by (auto simp: bit_simps)

lemma fis_lba_bits:
  "bit (fis_lba (fis_fill m fis c sector n) fis) i \<longleftrightarrow> (if i < 24 then bit sector i else i < 48 \<and> bit sector (i + 8))"
proof -
  have e: "bit (fis_lba (fis_fill m fis c sector n) fis) i \<longleftrightarrow>
    (i < 8 \<and> bit sector i) \<or> (8 \<le> i \<and> i < 8 + 8 \<and> bit sector (8 + (i - 8))) \<or> (16 \<le> i \<and> i < 16 + 8 \<and> bit sector (16 + (i - 16))) \<or>
    (24 \<le> i \<and> i < 24 + 8 \<and> bit sector (32 + (i - 24))) \<or> (32 \<le> i \<and> i < 32 + 8 \<and> bit sector (40 + (i - 32))) \<or>
    (40 \<le> i \<and> i < 40 + 8 \<and> bit sector (48 + (i - 40)))"
    unfolding fis_lba_def fis_bytes bit_or_iff bit_low_byte
    by (subst bit_byte_term, simp)+ (simp only: disj_assoc)
  consider "i < 8" | "8 \<le> i" "i < 16" | "16 \<le> i" "i < 24" | "24 \<le> i" "i < 32" | "32 \<le> i" "i < 40" | "40 \<le> i" "i < 48" | "48 \<le> i"
    by linarith
  then show ?thesis
  proof cases
    case 4
    then have "32 + (i - 24) = i + 8" by simp
    with 4 show ?thesis unfolding e by (simp add: add.commute)
  next
    case 5
    then have "40 + (i - 32) = i + 8" by simp
    with 5 show ?thesis unfolding e by (simp add: add.commute)
  next
    case 6
    then have "48 + (i - 40) = i + 8" by simp
    with 6 show ?thesis unfolding e by (simp add: add.commute)
  qed (simp_all add: e)
qed

text \<open>
  C30 The command the driver hands to the drive, in the interpretation of the ATA standard.  The count, the
  command and the flags are the requested ones and nothing but the FIS is written.  The sector number is
  transmitted with its bits 24 to 31 left out: of the 32-bit sector numbers the file system uses, exactly
  those below \<open>2\<^sup>2\<^sup>4\<close> arrive unchanged.
\<close>

theorem ahci_fis_address:
  assumes "sector < 2 ^ 32"
  shows "let m' = fis_fill m fis c sector n in
    fis_lba m' fis = take_bit 24 sector \<and> (fis_lba m' fis = sector \<longleftrightarrow> sector < 2 ^ 24) \<and>
    fis_count m' fis = take_bit 16 n \<and> rd8 m' fis = FIS_TYPE_REG_H2D \<and> bit (rd8 m' (fis + 1)) 7 \<and>
    rd8 m' (fis + 2) = c \<and> rd8 m' (fis + 7) = 0x40 \<and> agree_off fis 20 m m'"
proof -
  let ?m = "fis_fill m fis c sector n"
  have t: "take_bit 32 sector = sector"
    using assms by (simp add: word_unat_eq_iff word_less_nat_alt unsigned_take_bit_eq take_bit_nat_eq_self)
  have hi: "\<not> bit sector i" if "32 \<le> i" for i
  proof -
    have "\<not> bit (take_bit 32 sector) i" using that by (simp add: bit_take_bit_iff)
    then show ?thesis unfolding t .
  qed
  have lba: "fis_lba ?m fis = take_bit 24 sector"
    by (rule bit_word_eqI) (auto simp: fis_lba_bits bit_take_bit_iff hi)
  moreover have "take_bit 24 sector = sector \<longleftrightarrow> sector < 2 ^ 24"
    by (simp add: word_unat_eq_iff word_less_nat_alt unsigned_take_bit_eq take_bit_nat_eq_self_iff)
  moreover have "fis_count ?m fis = take_bit 16 n"
    unfolding fis_count_def fis_bytes by (rule bit_word_eqI) (auto simp: bit_simps)
  ultimately show ?thesis
    by (simp add: Let_def fis_rest fis_agree)
qed

theorem ahci_fis_address_witness:
  "let m' = fis_fill (\<lambda>_. 0) 0x7000 ATA_CMD_READ_DMA_EX 0x1234567 8
   in fis_lba m' 0x7000 = take_bit 24 0x1234567 \<and> fis_lba m' 0x7000 \<noteq> 0x1234567 \<and> fis_count m' 0x7000 = take_bit 16 8"
proof -
  have l: "(0x1234567 :: u64) < 2 ^ 32" "\<not> (0x1234567 :: u64) < 2 ^ 24" by simp_all
  show ?thesis
    using ahci_fis_address[OF l(1), of "\<lambda>_. 0" "0x7000" ATA_CMD_READ_DMA_EX 8] l(2) unfolding Let_def by blast
qed

end
