(* ===== verification/Device.thy ===== *)
theory Device
  imports Ahci Terminal
begin

text \<open>
  The table of named devices, \<^verbatim>\<open>kernel/src/drivers/device.c\<close>, and the framebuffer device,
  \<^verbatim>\<open>kernel/src/drivers/fb/fb.c\<close>.  Operations of a device are addresses of functions; what a function does is the
  parameter \<open>call\<close>.  \<^verbatim>\<open>devioctl\<close>, \<^verbatim>\<open>devread\<close> and \<^verbatim>\<open>devwrite\<close> end without a return statement after the call:
  their value is \<open>None\<close> then.
\<close>

section \<open>The table\<close>

definition DEVICES_MAX_DEV :: nat where "DEVICES_MAX_DEV = 128"

definition dev_name :: "u64 \<Rightarrow> u64" where "dev_name d = d"
definition dev_ioctl_fn :: "memory \<Rightarrow> u64 \<Rightarrow> u64" where "dev_ioctl_fn m d = rd64 m (d + 24)"
definition dev_read_fn :: "memory \<Rightarrow> u64 \<Rightarrow> u64" where "dev_read_fn m d = rd64 m (d + 32)"
definition dev_write_fn :: "memory \<Rightarrow> u64 \<Rightarrow> u64" where "dev_write_fn m d = rd64 m (d + 40)"
definition set_dev_ioctl :: "memory \<Rightarrow> u64 \<Rightarrow> u64 \<Rightarrow> memory" where "set_dev_ioctl m d v = wr64 m (d + 24) v"
definition set_dev_read :: "memory \<Rightarrow> u64 \<Rightarrow> u64 \<Rightarrow> memory" where "set_dev_read m d v = wr64 m (d + 32) v"
definition set_dev_write :: "memory \<Rightarrow> u64 \<Rightarrow> u64 \<Rightarrow> memory" where "set_dev_write m d v = wr64 m (d + 40) v"

record devs = ahci +
  devices :: "u64 list"
  framebuffer_dev :: u64

fun free_spot :: "u64 list \<Rightarrow> nat \<Rightarrow> nat option" where
  "free_spot [] i = None"
| "free_spot (d # ds) i = (if d \<noteq> 0 then free_spot ds (Suc i) else Some i)"

definition device_mkdev :: "u64 \<Rightarrow> u64 \<Rightarrow> u64 \<Rightarrow> u64 \<Rightarrow> 'a devs_scheme \<Rightarrow> (u32 \<times> 'a devs_scheme) option" where
  "device_mkdev name ioctl read write s =
     (case free_spot (take DEVICES_MAX_DEV (devices s)) 0 of
        None \<Rightarrow> Some (1, s)
      | Some i \<Rightarrow> do {
          (newdev, s) \<leftarrow> pmm_getpage s;
          let m = memcpy (mem s) (dev_name newdev) name 16;
          let m = set_dev_ioctl m newdev ioctl;
          let m = set_dev_read m newdev read;
          let m = set_dev_write m newdev write;
          Some (0, s\<lparr>mem := m, devices := (devices s)[i := newdev]\<rparr>)
        })"

fun devopen_loop :: "memory \<Rightarrow> u64 \<Rightarrow> u64 list \<Rightarrow> u64 option" where
  "devopen_loop m name [] = Some 0"
| "devopen_loop m name (d # ds) =
     (if d = 0 then devopen_loop m name ds
      else do {
        c \<leftarrow> strcmp m (dev_name d) name;
        if c = 0 then Some d else devopen_loop m name ds
      })"

definition devopen :: "u64 \<Rightarrow> 'a devs_scheme \<Rightarrow> u64 option" where
  "devopen name s = devopen_loop (mem s) name (take DEVICES_MAX_DEV (devices s))"

definition devclose :: "u64 \<Rightarrow> u32" where
  "devclose device = (if device = 0 then 1 else 0)"

type_synonym 'a fn_call = "u64 \<Rightarrow> u32 \<Rightarrow> u64 \<Rightarrow> 'a \<Rightarrow> (u32 \<times> 'a) option"

definition devioctl ::
  "'a devs_scheme fn_call \<Rightarrow> u64 \<Rightarrow> u32 \<Rightarrow> u64 \<Rightarrow> 'a devs_scheme \<Rightarrow> (u32 option \<times> 'a devs_scheme) option" where
  "devioctl call dev type buffer s =
     (if dev = 0 then Some (Some 1, s)
      else if dev_ioctl_fn (mem s) dev = 0 then Some (Some 1, s)
      else do { (_, s) \<leftarrow> call (dev_ioctl_fn (mem s) dev) type buffer s; Some (None, s) })"

definition devread ::
  "'a devs_scheme fn_call \<Rightarrow> u64 \<Rightarrow> u32 \<Rightarrow> u64 \<Rightarrow> 'a devs_scheme \<Rightarrow> (u32 option \<times> 'a devs_scheme) option" where
  "devread call dev type buffer s =
     (if dev = 0 then Some (Some 1, s)
      else if dev_read_fn (mem s) dev = 0 then Some (Some 1, s)
      else do { (_, s) \<leftarrow> call (dev_read_fn (mem s) dev) type buffer s; Some (None, s) })"

definition devwrite ::
  "'a devs_scheme fn_call \<Rightarrow> u64 \<Rightarrow> u32 \<Rightarrow> u64 \<Rightarrow> 'a devs_scheme \<Rightarrow> (u32 option \<times> 'a devs_scheme) option" where
  "devwrite call dev type buffer s =
     (if dev = 0 then Some (Some 1, s)
      else if dev_write_fn (mem s) dev = 0 then Some (Some 1, s)
      else do { (_, s) \<leftarrow> call (dev_write_fn (mem s) dev) type buffer s; Some (None, s) })"

section \<open>The framebuffer device\<close>

definition FB_IOCTL_DATA :: u32 where "FB_IOCTL_DATA = 1"

definition set_fb_ioctl_data :: "memory \<Rightarrow> u64 \<Rightarrow> u16 \<Rightarrow> u16 \<Rightarrow> u32 \<Rightarrow> memory" where
  "set_fb_ioctl_data m buffer width height fb_size =
     wr32 (wr16 (wr16 m buffer width) (buffer + 2) height) (buffer + 4) fb_size"

definition fb_ioctl :: "u32 \<Rightarrow> u64 \<Rightarrow> 'a devs_scheme \<Rightarrow> u32 \<times> 'a devs_scheme" where
  "fb_ioctl type buffer s =
     (if type = FB_IOCTL_DATA then
        (if buffer = 0 then (1, s)
         else let fb = framebuffer_dev s
              in (0, s\<lparr>mem := set_fb_ioctl_data (mem s) buffer (ucast (fb_width (mem s) fb))
                       (ucast (fb_height (mem s) fb)) (ucast (fb_buf_size (mem s) fb))\<rparr>))
      else (0, s))"

text \<open>The name and the function are passed by their addresses.\<close>

definition fb_init :: "u64 \<Rightarrow> u64 \<Rightarrow> u64 \<Rightarrow> 'a devs_scheme \<Rightarrow> (u32 \<times> 'a devs_scheme) option" where
  "fb_init str_fb ioctl fb s = do {
     let s = s\<lparr>framebuffer_dev := fb\<rparr>;
     (res, s) \<leftarrow> device_mkdev str_fb ioctl 0 0 s;
     Some (if res \<noteq> 0 then 1 else 0, s)
   }"

end
