(* ===== verification/Pci_Bus.thy ===== *)
theory Pci_Bus
  imports Device
begin

text \<open>
  The enumeration of the PCI bus, the second half of \<^verbatim>\<open>kernel/src/pci/pci.c\<close>: every function that is present is
  handed to the driver that knows it.  The addresses of the interrupt entry stubs and of the functions the
  drivers pass on are linker symbols, collected in \<open>kernel_syms\<close>.
\<close>

record kernel_syms =
  sym_sci_irq :: u64
  sym_edu_irq :: u64
  sym_e1000_irq :: u64
  sym_e1000_send :: u64
  sym_ahci_irq :: u64
  sym_fb_name :: u64
  sym_fb_ioctl :: u64
  sym_idle :: u64

definition mcfg_base_addr :: "memory \<Rightarrow> u64 \<Rightarrow> u64" where "mcfg_base_addr m c = rd64 m c"
definition mcfg_start_bus :: "memory \<Rightarrow> u64 \<Rightarrow> u8" where "mcfg_start_bus m c = rd8 m (c + 10)"
definition mcfg_end_bus :: "memory \<Rightarrow> u64 \<Rightarrow> u8" where "mcfg_end_bus m c = rd8 m (c + 11)"
definition sizeof_dev_cfg :: u64 where "sizeof_dev_cfg = 16"
definition sizeof_mcfg :: u64 where "sizeof_mcfg = 44"

definition pci_identity_map :: "u64 \<Rightarrow> 'a paging_scheme \<Rightarrow> 'a paging_scheme option" where
  "pci_identity_map a s = paging_map (a AND 0xFFFFFFFFFFFFF000) (a AND 0xFFFFFFFFFFFFF000) PAGE_NORMAL s"

definition pci_absent :: "device_env \<Rightarrow> u64 \<Rightarrow> 'a hw_scheme \<Rightarrow> bool \<times> 'a hw_scheme" where
  "pci_absent D hdr s =
     (let (d, s) = pci_device_id D hdr s in
      if d = 0 then (True, s)
      else let (d, s) = pci_device_id D hdr s in (d = 0xFFFF, s))"

definition enum_class ::
  "device_env \<Rightarrow> 'a devs_scheme pci_route \<Rightarrow> kernel_syms \<Rightarrow> u64 \<Rightarrow> 'a devs_scheme \<Rightarrow> 'a devs_scheme option" where
  "enum_class D route K hdr s =
     (let (cls, s) = pci_class D hdr s in
      if cls = 0x0C then
        (let (sub, s) = pci_subclass D hdr s in
         if sub = 0x03 then
           (let (pif, s) = pci_prog_if D hdr s
            in Some (if pif = 0x00 then klog Log_info ''PCI'' ''Found a UHCI controller'' [] s else s))
         else Some s)
      else if cls = 0x01 then
        (let (sub, s) = pci_subclass D hdr s in
         if sub = 0x06 then
           (let (pif, s) = pci_prog_if D hdr s
            in if pif = 0x01
               then dev_ahci_init D route (sym_ahci_irq K) hdr (current_bus s) (current_device s) (current_func s) s
               else Some s)
         else Some s)
      else Some s)"

definition pci_is_device :: "device_env \<Rightarrow> u64 \<Rightarrow> u16 \<Rightarrow> u16 \<Rightarrow> 'a hw_scheme \<Rightarrow> bool \<times> 'a hw_scheme" where
  "pci_is_device D hdr vendor device s =
     (let (v, s) = pci_vendor_id D hdr s in
      if v = vendor then let (d, s) = pci_device_id D hdr s in (d = device, s) else (False, s))"

definition enum_function ::
  "device_env \<Rightarrow> 'a devs_scheme pci_route \<Rightarrow> kernel_syms \<Rightarrow> u64 \<Rightarrow> nat \<Rightarrow> 'a devs_scheme \<Rightarrow> 'a devs_scheme option" where
  "enum_function D route K deviceAddress fn s = do {
     let functionAddress = deviceAddress + push_bit 12 (of_nat fn);
     s \<leftarrow> pci_identity_map functionAddress s;
     let s = s\<lparr>current_func := of_nat fn\<rparr>;
     let (absent, s) = pci_absent D functionAddress s;
     if absent then Some s
     else do {
       s \<leftarrow> enum_class D route K functionAddress s;
       let (is_edu, s) = pci_is_device D functionAddress 0x1234 0x11E8 s;
       s \<leftarrow> (if is_edu then do {
               s \<leftarrow> pci_enable_msi D functionAddress 0xA0 s;
               dev_edu_init D (sym_edu_irq K) functionAddress s
             } else Some s);
       let (is_e1000, s) = pci_is_device D functionAddress 0x8086 0x100E s;
       if is_e1000
       then dev_e1000_init D route (sym_e1000_irq K) (sym_e1000_send K) functionAddress
              (current_bus s) (current_device s) (current_func s) s
       else Some s
     }
   }"

definition enum_dev ::
  "device_env \<Rightarrow> 'a devs_scheme pci_route \<Rightarrow> kernel_syms \<Rightarrow> u64 \<Rightarrow> nat \<Rightarrow> 'a devs_scheme \<Rightarrow> 'a devs_scheme option" where
  "enum_dev D route K busAddress device s = do {
     let offset = push_bit 15 (of_nat device :: u32);
     let deviceAddress = busAddress + ucast offset;
     s \<leftarrow> pci_identity_map deviceAddress s;
     let s = s\<lparr>current_device := of_nat device\<rparr>;
     let (absent, s) = pci_absent D deviceAddress s;
     if absent then Some s
     else fold_opt (enum_function D route K deviceAddress) [0..<8] s
   }"

definition enum_bus ::
  "device_env \<Rightarrow> 'a devs_scheme pci_route \<Rightarrow> kernel_syms \<Rightarrow> u64 \<Rightarrow> nat \<Rightarrow> 'a devs_scheme \<Rightarrow> 'a devs_scheme option" where
  "enum_bus D route K baseAddress bus s = do {
     let offset = (ucast (push_bit 20 (of_nat bus :: u32)) :: u64);
     let busAddress = baseAddress + offset;
     s \<leftarrow> pci_identity_map busAddress s;
     let s = s\<lparr>current_bus := of_nat bus\<rparr>;
     let (absent, s) = pci_absent D busAddress s;
     if absent then Some s
     else fold_opt (enum_dev D route K busAddress) [0..<32] s
   }"

definition sig_MCFG :: "u8 list" where "sig_MCFG = [0x4D, 0x43, 0x46, 0x47]"

text \<open>The bounds of the inner loop are read from the table again in every iteration.\<close>

partial_function (option) enum_buses ::
  "device_env \<Rightarrow> 'a devs_scheme pci_route \<Rightarrow> kernel_syms \<Rightarrow> u64 \<Rightarrow> nat \<Rightarrow> 'a devs_scheme \<Rightarrow> 'a devs_scheme option" where
  "enum_buses D route K cfg bus s =
     (if bus < unat (mcfg_end_bus (mem s) cfg)
      then do { s \<leftarrow> enum_bus D route K (mcfg_base_addr (mem s) cfg) bus s; enum_buses D route K cfg (Suc bus) s }
      else Some s)"

definition pci_init :: "device_env \<Rightarrow> 'a devs_scheme pci_route \<Rightarrow> kernel_syms \<Rightarrow> 'a devs_scheme \<Rightarrow> 'a devs_scheme option" where
  "pci_init D route K s =
     (let mcfg = acpi_find_table sig_MCFG s in
      if mcfg = 0 then Some s
      else do {
        let entries = (ucast ((ucast (sdt_len (mem s) mcfg) - sizeof_mcfg) div sizeof_dev_cfg) :: u32);
        s \<leftarrow> fold_opt (\<lambda>t s. let cfg = mcfg + sizeof_mcfg + sizeof_dev_cfg * of_nat t
                             in enum_buses D route K cfg (unat (mcfg_start_bus (mem s) cfg)) s)
              [0..<nat (sint entries)] s;
        Some (klog Log_ok ''PCI'' ''PCI initialized'' [] s)
      })"

end
