(* ===== verification/Fat_Volume.thy ===== *)
theory Fat_Volume
  imports Ahci
begin

text \<open>
  The volume level of the FAT file system, \<^verbatim>\<open>kernel/src/fs/fat/ff.c\<close> in the configuration of \<^verbatim>\<open>ffconf.h\<close> (FAT12,
  FAT16 and FAT32 with sectors of 512 bytes, no exFAT, no locking): the sector window, the allocation table
  and cluster chains.  The record \<open>fatfs\<close> has the fields of \<^verbatim>\<open>FATFS\<close> and the disk behind it; the disk is used
  through \<open>disk_ops\<close>, whose functions return the bytes read where the C functions fill a buffer; the memory functions of
  \<^verbatim>\<open>ffsystem.c\<close> are there too and return the address and the contents of the block.  Functions
  take the volume where the code passes an object that points to it.  A disk operation that never returns
  gives \<open>None\<close>.
\<close>

section \<open>Disk and volume\<close>

record 'd disk_ops =
  dk_read :: "u8 \<Rightarrow> u32 \<Rightarrow> u32 \<Rightarrow> 'd \<Rightarrow> (DRESULT \<times> u8 list \<times> 'd) option"
  dk_write :: "u8 \<Rightarrow> u8 list \<Rightarrow> u32 \<Rightarrow> u32 \<Rightarrow> 'd \<Rightarrow> (DRESULT \<times> 'd) option"
  dk_ioctl :: "u8 \<Rightarrow> u8 \<Rightarrow> DRESULT"
  mem_alloc :: "u32 \<Rightarrow> 'd \<Rightarrow> (u64 \<times> u8 list \<times> 'd) option"
  mem_free :: "u64 \<Rightarrow> 'd \<Rightarrow> 'd option"

datatype FRESULT =
    FR_OK | FR_DISK_ERR | FR_INT_ERR | FR_NOT_READY | FR_NO_FILE | FR_NO_PATH | FR_INVALID_NAME | FR_DENIED
  | FR_EXIST | FR_INVALID_OBJECT | FR_WRITE_PROTECTED | FR_INVALID_DRIVE | FR_NOT_ENABLED | FR_NO_FILESYSTEM
  | FR_MKFS_ABORTED | FR_TIMEOUT | FR_LOCKED | FR_NOT_ENOUGH_CORE | FR_TOO_MANY_OPEN_FILES | FR_INVALID_PARAMETER

record 'd fatfs =
  fs_type :: u8
  pdrv :: u8
  n_fats :: u8
  wflag :: u8
  fsi_flag :: u8
  fs_id :: u16
  n_rootdir :: u16
  csize :: u16
  lfnbuf :: "u16 list"
  last_clst :: u32
  free_clst :: u32
  n_fatent :: u32
  fsize :: u32
  volbase :: u32
  fatbase :: u32
  dirbase :: u32
  database :: u32
  winsect :: u32
  win :: "u8 list"
  disk :: 'd

definition FS_FAT12 :: u8 where "FS_FAT12 = 1"
definition FS_FAT16 :: u8 where "FS_FAT16 = 2"
definition FS_FAT32 :: u8 where "FS_FAT32 = 3"
definition SS :: u32 where "SS = 512"
definition CTRL_SYNC :: u8 where "CTRL_SYNC = 0"

section \<open>Little-endian words in a buffer\<close>

definition ld_word :: "u8 list \<Rightarrow> nat \<Rightarrow> u16" where
  "ld_word b p = (let rv = ucast (b ! (p + 1)) in push_bit 8 rv OR ucast (b ! p))"

definition ld_dword :: "u8 list \<Rightarrow> nat \<Rightarrow> u32" where
  "ld_dword b p =
     (let rv = ucast (b ! (p + 3));
          rv = push_bit 8 rv OR ucast (b ! (p + 2));
          rv = push_bit 8 rv OR ucast (b ! (p + 1))
      in push_bit 8 rv OR ucast (b ! p))"

definition st_word :: "u8 list \<Rightarrow> nat \<Rightarrow> u16 \<Rightarrow> u8 list" where
  "st_word b p val = b[p := ucast val, p + 1 := ucast (drop_bit 8 val)]"

definition st_dword :: "u8 list \<Rightarrow> nat \<Rightarrow> u32 \<Rightarrow> u8 list" where
  "st_dword b p val =
     b[p := ucast val, p + 1 := ucast (drop_bit 8 val), p + 2 := ucast (drop_bit 16 val), p + 3 := ucast (drop_bit 24 val)]"

section \<open>The window\<close>

definition sync_window :: "'d disk_ops \<Rightarrow> 'd fatfs \<Rightarrow> (FRESULT \<times> 'd fatfs) option" where
  "sync_window K fs =
     (if wflag fs \<noteq> 0 then do {
        (r, d) \<leftarrow> dk_write K (pdrv fs) (win fs) (winsect fs) 1 (disk fs);
        let fs = fs\<lparr>disk := d\<rparr>;
        if r = RES_OK then do {
          let fs = fs\<lparr>wflag := 0\<rparr>;
          if winsect fs - fatbase fs < fsize fs then
            (if n_fats fs = 2 then do {
               (_, d) \<leftarrow> dk_write K (pdrv fs) (win fs) (winsect fs + fsize fs) 1 (disk fs);
               Some (FR_OK, fs\<lparr>disk := d\<rparr>)
             } else Some (FR_OK, fs))
          else Some (FR_OK, fs)
        }
        else Some (FR_DISK_ERR, fs)
      }
      else Some (FR_OK, fs))"

definition move_window :: "'d disk_ops \<Rightarrow> u32 \<Rightarrow> 'd fatfs \<Rightarrow> (FRESULT \<times> 'd fatfs) option" where
  "move_window K sect fs =
     (if sect \<noteq> winsect fs then do {
        (res, fs) \<leftarrow> sync_window K fs;
        if res = FR_OK then do {
          (r, bs, d) \<leftarrow> dk_read K (pdrv fs) sect 1 (disk fs);
          let fs = fs\<lparr>disk := d\<rparr>;
          Some (if r \<noteq> RES_OK then (FR_DISK_ERR, fs\<lparr>winsect := 0 - 1\<rparr>)
                else (FR_OK, fs\<lparr>win := bs, winsect := sect\<rparr>))
        }
        else Some (res, fs)
      }
      else Some (FR_OK, fs))"

definition sync_fs :: "'d disk_ops \<Rightarrow> 'd fatfs \<Rightarrow> (FRESULT \<times> 'd fatfs) option" where
  "sync_fs K fs = do {
     (res, fs) \<leftarrow> sync_window K fs;
     if res = FR_OK then do {
       fs \<leftarrow> (if fsi_flag fs = 1 then do {
                let fs = fs\<lparr>fsi_flag := 0\<rparr>;
                if fs_type fs = FS_FAT32 then do {
                  let w = replicate 512 0;
                  let w = st_dword w 0 0x41615252;
                  let w = st_dword w 484 0x61417272;
                  let w = st_dword w 488 (free_clst fs);
                  let w = st_dword w 492 (last_clst fs);
                  let w = st_dword w 498 0xAA550000;
                  let fs = fs\<lparr>win := w, winsect := volbase fs + 1\<rparr>;
                  (_, d) \<leftarrow> dk_write K (pdrv fs) (win fs) (winsect fs) 1 (disk fs);
                  Some (fs\<lparr>disk := d\<rparr>)
                }
                else Some fs
              }
              else Some fs);
       Some (if dk_ioctl K (pdrv fs) CTRL_SYNC \<noteq> RES_OK then FR_DISK_ERR else res, fs)
     }
     else Some (res, fs)
   }"

section \<open>The allocation table\<close>

definition clst2sect :: "u32 \<Rightarrow> 'd fatfs \<Rightarrow> u32" where
  "clst2sect clst fs =
     (let clst = clst - 2 in
      if clst \<ge> n_fatent fs - 2 then 0 else database fs + ucast (csize fs) * clst)"

definition get_fat :: "'d disk_ops \<Rightarrow> u32 \<Rightarrow> 'd fatfs \<Rightarrow> (u32 \<times> 'd fatfs) option" where
  "get_fat K clst fs =
     (if clst < 2 \<or> clst \<ge> n_fatent fs then Some (1, fs)
      else if fs_type fs = FS_FAT12 then do {
        let bc = clst + clst div 2;
        (res, fs) \<leftarrow> move_window K (fatbase fs + bc div SS) fs;
        if res \<noteq> FR_OK then Some (0xFFFFFFFF, fs)
        else do {
          let wc = (ucast (win fs ! unat (bc mod SS)) :: u32);
          let bc = bc + 1;
          (res, fs) \<leftarrow> move_window K (fatbase fs + bc div SS) fs;
          if res \<noteq> FR_OK then Some (0xFFFFFFFF, fs)
          else do {
            let wc = wc OR push_bit 8 (ucast (win fs ! unat (bc mod SS)));
            Some (if clst AND 1 \<noteq> 0 then drop_bit 4 wc else wc AND 0xFFF, fs)
          }
        }
      }
      else if fs_type fs = FS_FAT16 then do {
        (res, fs) \<leftarrow> move_window K (fatbase fs + clst div (SS div 2)) fs;
        if res \<noteq> FR_OK then Some (0xFFFFFFFF, fs)
        else Some (ucast (ld_word (win fs) (unat (clst * 2 mod SS))), fs)
      }
      else if fs_type fs = FS_FAT32 then do {
        (res, fs) \<leftarrow> move_window K (fatbase fs + clst div (SS div 4)) fs;
        if res \<noteq> FR_OK then Some (0xFFFFFFFF, fs)
        else Some (ld_dword (win fs) (unat (clst * 4 mod SS)) AND 0x0FFFFFFF, fs)
      }
      else Some (1, fs))"

definition put_fat :: "'d disk_ops \<Rightarrow> u32 \<Rightarrow> u32 \<Rightarrow> 'd fatfs \<Rightarrow> (FRESULT \<times> 'd fatfs) option" where
  "put_fat K clst val fs =
     (if clst \<ge> 2 \<and> clst < n_fatent fs then
        (if fs_type fs = FS_FAT12 then do {
           let bc = clst + clst div 2;
           (res, fs) \<leftarrow> move_window K (fatbase fs + bc div SS) fs;
           if res \<noteq> FR_OK then Some (res, fs)
           else do {
             let p = unat (bc mod SS);
             let bc = bc + 1;
             let b = (if clst AND 1 \<noteq> 0 then (win fs ! p AND 0x0F) OR push_bit 4 (ucast val) else ucast val);
             let fs = fs\<lparr>win := (win fs)[p := b], wflag := 1\<rparr>;
             (res, fs) \<leftarrow> move_window K (fatbase fs + bc div SS) fs;
             if res \<noteq> FR_OK then Some (res, fs)
             else do {
               let p = unat (bc mod SS);
               let b = (if clst AND 1 \<noteq> 0 then ucast (drop_bit 4 val)
                        else (win fs ! p AND 0xF0) OR (ucast (drop_bit 8 val) AND 0x0F));
               Some (res, fs\<lparr>win := (win fs)[p := b], wflag := 1\<rparr>)
             }
           }
         }
         else if fs_type fs = FS_FAT16 then do {
           (res, fs) \<leftarrow> move_window K (fatbase fs + clst div (SS div 2)) fs;
           if res \<noteq> FR_OK then Some (res, fs)
           else Some (res, fs\<lparr>win := st_word (win fs) (unat (clst * 2 mod SS)) (ucast val), wflag := 1\<rparr>)
         }
         else if fs_type fs = FS_FAT32 then do {
           (res, fs) \<leftarrow> move_window K (fatbase fs + clst div (SS div 4)) fs;
           if res \<noteq> FR_OK then Some (res, fs)
           else do {
             let p = unat (clst * 4 mod SS);
             let val = (val AND 0x0FFFFFFF) OR (ld_dword (win fs) p AND 0xF0000000);
             Some (res, fs\<lparr>win := st_dword (win fs) p val, wflag := 1\<rparr>)
           }
         }
         else Some (FR_INT_ERR, fs))
      else Some (FR_INT_ERR, fs))"

section \<open>Cluster chains\<close>

partial_function (option) remove_links :: "'d disk_ops \<Rightarrow> u32 \<Rightarrow> 'd fatfs \<Rightarrow> (FRESULT \<times> 'd fatfs) option" where
  "remove_links K clst fs = do {
     (nxt, fs) \<leftarrow> get_fat K clst fs;
     if nxt = 0 then Some (FR_OK, fs)
     else if nxt = 1 then Some (FR_INT_ERR, fs)
     else if nxt = 0xFFFFFFFF then Some (FR_DISK_ERR, fs)
     else do {
       (res, fs) \<leftarrow> put_fat K clst 0 fs;
       if res \<noteq> FR_OK then Some (res, fs)
       else do {
         let fs = (if free_clst fs < n_fatent fs - 2
                   then fs\<lparr>free_clst := free_clst fs + 1, fsi_flag := fsi_flag fs OR 1\<rparr> else fs);
         if nxt < n_fatent fs then remove_links K nxt fs else Some (FR_OK, fs)
       }
     }
   }"

definition remove_chain :: "'d disk_ops \<Rightarrow> u32 \<Rightarrow> u32 \<Rightarrow> 'd fatfs \<Rightarrow> (FRESULT \<times> 'd fatfs) option" where
  "remove_chain K clst pclst fs =
     (if clst < 2 \<or> clst \<ge> n_fatent fs then Some (FR_INT_ERR, fs)
      else do {
        (res, fs) \<leftarrow> (if pclst \<noteq> 0 then put_fat K pclst 0xFFFFFFFF fs else Some (FR_OK, fs));
        if res \<noteq> FR_OK then Some (res, fs) else remove_links K clst fs
      })"

text \<open>
  The search for a free cluster from \<open>ncl\<close> on: \<open>Inl ncl\<close> is a free cluster, \<open>Inr v\<close> a return value of the whole
  function (0, none is free; 1 and 0xFFFFFFFF, errors).
\<close>

partial_function (option) find_free_clst :: "'d disk_ops \<Rightarrow> u32 \<Rightarrow> u32 \<Rightarrow> 'd fatfs \<Rightarrow> ((u32 + u32) \<times> 'd fatfs) option" where
  "find_free_clst K scl ncl fs =
     (let ncl = ncl + 1 in
      if ncl \<ge> n_fatent fs \<and> 2 > scl then Some (Inr 0, fs)
      else do {
        let ncl = (if ncl \<ge> n_fatent fs then 2 else ncl);
        (cs, fs) \<leftarrow> get_fat K ncl fs;
        if cs = 0 then Some (Inl ncl, fs)
        else if cs = 1 \<or> cs = 0xFFFFFFFF then Some (Inr cs, fs)
        else if ncl = scl then Some (Inr 0, fs)
        else find_free_clst K scl ncl fs
      })"

definition create_search :: "'d disk_ops \<Rightarrow> u32 \<Rightarrow> u32 \<Rightarrow> 'd fatfs \<Rightarrow> ((u32 + u32) \<times> 'd fatfs) option" where
  "create_search K clst scl fs =
     (if scl = clst then do {
        let ncl = scl + 1;
        let ncl = (if ncl \<ge> n_fatent fs then 2 else ncl);
        (cs, fs) \<leftarrow> get_fat K ncl fs;
        if cs = 1 \<or> cs = 0xFFFFFFFF then Some (Inr cs, fs)
        else if cs \<noteq> 0 then do {
          let cs = last_clst fs;
          let scl = (if cs \<ge> 2 \<and> cs < n_fatent fs then cs else scl);
          find_free_clst K scl scl fs
        }
        else Some (Inl ncl, fs)
      }
      else find_free_clst K scl scl fs)"

definition create_link :: "'d disk_ops \<Rightarrow> u32 \<Rightarrow> u32 \<Rightarrow> 'd fatfs \<Rightarrow> (u32 \<times> 'd fatfs) option" where
  "create_link K clst ncl fs = do {
     (res, fs) \<leftarrow> put_fat K ncl 0xFFFFFFFF fs;
     (res, fs) \<leftarrow> (if res = FR_OK \<and> clst \<noteq> 0 then put_fat K clst ncl fs else Some (res, fs));
     if res = FR_OK then do {
       let fs = fs\<lparr>last_clst := ncl\<rparr>;
       let fs = (if free_clst fs > 0 \<and> free_clst fs \<le> n_fatent fs - 2
                 then fs\<lparr>free_clst := free_clst fs - 1, fsi_flag := fsi_flag fs OR 1\<rparr> else fs);
       Some (ncl, fs)
     }
     else Some (if res = FR_DISK_ERR then 0xFFFFFFFF else 1, fs)
   }"

definition create_alloc :: "'d disk_ops \<Rightarrow> u32 \<Rightarrow> u32 \<Rightarrow> 'd fatfs \<Rightarrow> (u32 \<times> 'd fatfs) option" where
  "create_alloc K clst scl fs =
     (if free_clst fs = 0 then Some (0, fs)
      else do {
        (r, fs) \<leftarrow> create_search K clst scl fs;
        case r of Inr v \<Rightarrow> Some (v, fs) | Inl ncl \<Rightarrow> create_link K clst ncl fs
      })"

definition create_chain :: "'d disk_ops \<Rightarrow> u32 \<Rightarrow> 'd fatfs \<Rightarrow> (u32 \<times> 'd fatfs) option" where
  "create_chain K clst fs =
     (if clst = 0 then
        (let scl = last_clst fs;
             scl = (if scl = 0 \<or> scl \<ge> n_fatent fs then 1 else scl)
         in create_alloc K clst scl fs)
      else do {
        (cs, fs) \<leftarrow> get_fat K clst fs;
        if cs < 2 then Some (1, fs)
        else if cs = 0xFFFFFFFF then Some (cs, fs)
        else if cs < n_fatent fs then Some (cs, fs)
        else create_alloc K clst clst fs
      })"

end
