(* ===== verification/Fat_Table.thy ===== *)
theory Fat_Table
  imports Fat_Volume
begin

text \<open>
  The allocation table as an array of cluster values.  \<open>good_disk\<close> is a disk that stores sectors; \<open>view\<close> is the
  contents of a sector as the window and the disk together hold them; \<open>fat_val\<close> is the value of a cluster in
  the first table, for the three formats.  \<^verbatim>\<open>get_fat\<close> and \<^verbatim>\<open>put_fat\<close> read and write exactly one element of the
  array, whatever the window held before.
\<close>

section \<open>Sectors\<close>

definition good_disk :: "'d disk_ops \<Rightarrow> ('d \<Rightarrow> u32 \<Rightarrow> u8 list) \<Rightarrow> bool" where
  "good_disk K C \<longleftrightarrow> (\<forall>d s. length (C d s) = 512) \<and>
     (\<forall>p s d. \<exists>d'. dk_read K p s 1 d = Some (RES_OK, C d s, d') \<and> C d' = C d) \<and>
     (\<forall>p w s d. length w = 512 \<longrightarrow> (\<exists>d'. dk_write K p w s 1 d = Some (RES_OK, d') \<and> C d' = (C d)(s := w)))"

definition view :: "('d \<Rightarrow> u32 \<Rightarrow> u8 list) \<Rightarrow> 'd fatfs \<Rightarrow> u32 \<Rightarrow> u8 list" where
  "view C fs s = (if s = winsect fs then win fs else C (disk fs) s)"

text \<open>The sectors of the second table, which \<^verbatim>\<open>sync_window\<close> writes along with the first.\<close>

definition second_fat :: "'d fatfs \<Rightarrow> u32 \<Rightarrow> bool" where
  "second_fat fs t \<longleftrightarrow> n_fats fs = 2 \<and> t - fatbase fs - fsize fs < fsize fs"

definition fat_fits :: "'d fatfs \<Rightarrow> bool" where
  "fat_fits fs \<longleftrightarrow> unat (n_fatent fs) < 2 ^ 28 \<and>
     (fs_type fs = FS_FAT12 \<longrightarrow> unat (n_fatent fs) \<le> 0xFFF) \<and> (fs_type fs = FS_FAT16 \<longrightarrow> unat (n_fatent fs) \<le> 0xFFFF) \<and>
     (fs_type fs = FS_FAT12 \<and> (3 * unat (n_fatent fs) + 1) div 2 \<le> 512 * unat (fsize fs) \<or>
      fs_type fs = FS_FAT16 \<and> 2 * unat (n_fatent fs) \<le> 512 * unat (fsize fs) \<or>
      fs_type fs = FS_FAT32 \<and> 4 * unat (n_fatent fs) \<le> 512 * unat (fsize fs))"

definition vol_ok :: "('d \<Rightarrow> u32 \<Rightarrow> u8 list) \<Rightarrow> 'd fatfs \<Rightarrow> bool" where
  "vol_ok C fs \<longleftrightarrow> length (win fs) = 512 \<and> (wflag fs = 0 \<longrightarrow> win fs = C (disk fs) (winsect fs)) \<and>
     unat (fatbase fs) + (if n_fats fs = 2 then 2 else 1) * unat (fsize fs) < 2 ^ 32 \<and> fat_fits fs"

text \<open>Two states of a volume that differ in the window and the disk only.\<close>

definition same_vol :: "'d fatfs \<Rightarrow> 'd fatfs \<Rightarrow> bool" where
  "same_vol fs fs' \<longleftrightarrow> fs' = fs\<lparr>wflag := wflag fs', winsect := winsect fs', win := win fs', disk := disk fs'\<rparr>"

lemma same_vol_refl [simp]: "same_vol fs fs"
  by (simp add: same_vol_def)

lemma same_volD:
  assumes "same_vol fs fs'"
  shows "fs_type fs' = fs_type fs" "pdrv fs' = pdrv fs" "n_fats fs' = n_fats fs" "fsi_flag fs' = fsi_flag fs"
    "fs_id fs' = fs_id fs" "n_rootdir fs' = n_rootdir fs" "csize fs' = csize fs" "lfnbuf fs' = lfnbuf fs"
    "last_clst fs' = last_clst fs" "free_clst fs' = free_clst fs" "n_fatent fs' = n_fatent fs" "fsize fs' = fsize fs"
    "volbase fs' = volbase fs" "fatbase fs' = fatbase fs" "dirbase fs' = dirbase fs" "database fs' = database fs"
  by (subst assms[unfolded same_vol_def], simp)+

lemma same_vol_iff:
  "same_vol fs fs' \<longleftrightarrow> fs_type fs' = fs_type fs \<and> pdrv fs' = pdrv fs \<and> n_fats fs' = n_fats fs \<and> fsi_flag fs' = fsi_flag fs \<and>
    fs_id fs' = fs_id fs \<and> n_rootdir fs' = n_rootdir fs \<and> csize fs' = csize fs \<and> lfnbuf fs' = lfnbuf fs \<and>
    last_clst fs' = last_clst fs \<and> free_clst fs' = free_clst fs \<and> n_fatent fs' = n_fatent fs \<and> fsize fs' = fsize fs \<and>
    volbase fs' = volbase fs \<and> fatbase fs' = fatbase fs \<and> dirbase fs' = dirbase fs \<and> database fs' = database fs"
  by (auto dest: same_volD) (simp add: same_vol_def)

lemma same_vol_trans: "same_vol a b \<Longrightarrow> same_vol b c \<Longrightarrow> same_vol a c"
  by (simp add: same_vol_iff)

lemma same_vol_window [simp]: "same_vol fs (fs\<lparr>win := w, wflag := f\<rparr>)"
  by (simp add: same_vol_def)

lemma second_fat_cong: "same_vol fs fs' \<Longrightarrow> second_fat fs' = second_fat fs"
  by (intro ext) (simp add: second_fat_def same_volD)

lemma fat_fits_cong: "same_vol fs fs' \<Longrightarrow> fat_fits fs' = fat_fits fs"
  by (simp add: fat_fits_def same_volD)

lemma mirror_neq:
  assumes "s - b < (n :: u32)" "unat b + 2 * unat n < 2 ^ 32"
  shows "s + n \<noteq> s" "(s + n) - b - n < n"
  using assms by auto

lemma good_read: "good_disk K C \<Longrightarrow> \<exists>d'. dk_read K p s 1 d = Some (RES_OK, C d s, d') \<and> C d' = C d"
  by (simp add: good_disk_def)

lemma good_write:
  "good_disk K C \<Longrightarrow> length w = 512 \<Longrightarrow> \<exists>d'. dk_write K p w s 1 d = Some (RES_OK, d') \<and> C d' = (C d)(s := w)"
  by (simp add: good_disk_def)

lemma sync_window_spec:
  assumes g: "good_disk K C" and ok: "vol_ok C fs"
  shows "\<exists>d. sync_window K fs = Some (FR_OK, fs\<lparr>wflag := 0, disk := d\<rparr>) \<and> C d (winsect fs) = win fs \<and>
    (\<forall>t. \<not> second_fat fs t \<longrightarrow> C d t = view C fs t)"
proof (cases "wflag fs = 0")
  case True
  then show ?thesis
    using ok by (intro exI[of _ "disk fs"]) (simp add: sync_window_def vol_ok_def view_def)
next
  case False
  have w: "length (win fs) = 512" using ok by (simp add: vol_ok_def)
  obtain d1 where d1: "dk_write K (pdrv fs) (win fs) (winsect fs) 1 (disk fs) = Some (RES_OK, d1)"
    "C d1 = (C (disk fs))(winsect fs := win fs)"
    using good_write[OF g w] by blast
  show ?thesis
  proof (cases "winsect fs - fatbase fs < fsize fs \<and> n_fats fs = 2")
    case True
    obtain d2 where d2: "dk_write K (pdrv fs) (win fs) (winsect fs + fsize fs) 1 d1 = Some (RES_OK, d2)"
      "C d2 = (C d1)(winsect fs + fsize fs := win fs)"
      using good_write[OF g w] by blast
    have n: "winsect fs + fsize fs \<noteq> winsect fs" "second_fat fs (winsect fs + fsize fs)"
      using mirror_neq[of "winsect fs" "fatbase fs" "fsize fs"] True ok by (auto simp: vol_ok_def second_fat_def)
    show ?thesis
      using False True d1 d2 n by (intro exI[of _ d2]) (auto simp: sync_window_def view_def Let_def)
  next
    case f2: False
    show ?thesis
      using False f2 d1 by (intro exI[of _ d1]) (auto simp: sync_window_def view_def Let_def)
  qed
qed

lemma move_window_spec:
  assumes g: "good_disk K C" and ok: "vol_ok C fs" and s: "\<not> second_fat fs s"
  shows "\<exists>fs'. move_window K s fs = Some (FR_OK, fs') \<and> same_vol fs fs' \<and> vol_ok C fs' \<and> winsect fs' = s \<and>
    win fs' = view C fs s \<and> (\<forall>t. \<not> second_fat fs t \<longrightarrow> view C fs' t = view C fs t)"
proof (cases "s = winsect fs")
  case True
  then show ?thesis using ok by (simp add: move_window_def view_def)
next
  case False
  from sync_window_spec[OF g ok] obtain d where d: "sync_window K fs = Some (FR_OK, fs\<lparr>wflag := 0, disk := d\<rparr>)"
    "C d (winsect fs) = win fs" "\<forall>t. \<not> second_fat fs t \<longrightarrow> C d t = view C fs t" by blast
  obtain d' where d': "dk_read K (pdrv fs) s 1 d = Some (RES_OK, C d s, d')" "C d' = C d"
    using good_read[OF g] by blast
  let ?fs = "fs\<lparr>wflag := 0, disk := d', win := C d s, winsect := s\<rparr>"
  have "same_vol fs ?fs" by (simp add: same_vol_iff)
  moreover have "vol_ok C ?fs"
    using ok g d' fat_fits_cong[OF \<open>same_vol fs ?fs\<close>] by (simp add: vol_ok_def good_disk_def)
  moreover have "move_window K s fs = Some (FR_OK, ?fs)"
    using False d d' by (simp add: move_window_def)
  ultimately show ?thesis
    using d d' s by (intro exI[of _ ?fs]) (auto simp: view_def)
qed

section \<open>Bytes of the table\<close>

definition fat_byte :: "('d \<Rightarrow> u32 \<Rightarrow> u8 list) \<Rightarrow> 'd fatfs \<Rightarrow> nat \<Rightarrow> u8" where
  "fat_byte C fs i = view C fs (fatbase fs + of_nat (i div 512)) ! (i mod 512)"

lemma fat_sector:
  assumes "vol_ok C fs" "i < 512 * unat (fsize fs)"
  shows "\<not> second_fat fs (fatbase fs + of_nat (i div 512))"
proof -
  let ?k = "i div 512"
  show ?thesis
  proof (cases "n_fats fs = 2")
    case True
    have k: "?k < unat (fsize fs)" using assms(2) by simp
    moreover have f: "unat (fsize fs) < 2 ^ 31" using assms(1) True by (simp add: vol_ok_def)
    ultimately have u: "unat (of_nat ?k :: u32) = ?k" by (simp add: unat_of_nat32)
    have "unat (of_nat ?k - fsize fs) = 2 ^ 32 + ?k - unat (fsize fs)"
      using k u by (auto simp: unat_sub_if')
    moreover have "\<not> 2 ^ 32 + ?k - unat (fsize fs) < unat (fsize fs)" using f by auto
    ultimately show ?thesis
      by (simp add: second_fat_def word_less_nat_alt)
  qed (simp add: second_fat_def)
qed

lemma fat_sector_eq:
  assumes "vol_ok C fs" "i < 512 * unat (fsize fs)" "j < 512 * unat (fsize fs)"
  shows "fatbase fs + of_nat (i div 512) = fatbase fs + of_nat (j div 512) \<longleftrightarrow> i div 512 = j div 512"
proof -
  have f: "unat (fsize fs) < 2 ^ 32" using unsigned_less[of "fsize fs", where 'a = nat] by simp
  have "unat (of_nat (i div 512) :: u32) = i div 512" "unat (of_nat (j div 512) :: u32) = j div 512"
    using assms(2,3) f by (simp_all add: unat_of_nat32)
  then show ?thesis by (metis add_left_cancel)
qed

text \<open>A step that touches the two tables only: every other sector shows the same bytes, and the window stays or moves into the table.\<close>

definition in_fat :: "'d fatfs \<Rightarrow> u32 \<Rightarrow> bool" where
  "in_fat fs s \<longleftrightarrow> (\<exists>k < unat (fsize fs). s = fatbase fs + of_nat k)"

definition keeps_data :: "('d \<Rightarrow> u32 \<Rightarrow> u8 list) \<Rightarrow> 'd fatfs \<Rightarrow> 'd fatfs \<Rightarrow> bool" where
  "keeps_data C fs fs' \<longleftrightarrow> (\<forall>t. \<not> second_fat fs t \<longrightarrow> \<not> in_fat fs t \<longrightarrow> view C fs' t = view C fs t) \<and>
     (winsect fs' = winsect fs \<or> in_fat fs (winsect fs'))"

lemma keeps_refl [simp]: "keeps_data C fs fs"
  by (simp add: keeps_data_def)

lemma in_fat_cong: "fatbase fs' = fatbase fs \<Longrightarrow> fsize fs' = fsize fs \<Longrightarrow> in_fat fs' = in_fat fs"
  by (intro ext) (simp add: in_fat_def)

lemma keeps_trans:
  assumes "keeps_data C a b" "keeps_data C b c" "fatbase b = fatbase a" "fsize b = fsize a" "n_fats b = n_fats a"
  shows "keeps_data C a c"
proof -
  have "second_fat b = second_fat a" "in_fat b = in_fat a" using assms(3-5) in_fat_cong by (auto simp: second_fat_def fun_eq_iff)
  then show ?thesis using assms(1,2) by (auto simp: keeps_data_def)
qed

lemma keeps_vol_trans: "keeps_data C a b \<Longrightarrow> keeps_data C b c \<Longrightarrow> same_vol a b \<Longrightarrow> keeps_data C a c"
  by (rule keeps_trans[of C a b c]) (simp_all add: same_volD)

lemma keeps_window: "in_fat fs (winsect fs) \<Longrightarrow> keeps_data C fs (fs\<lparr>win := w, wflag := f\<rparr>)"
  by (auto simp: keeps_data_def view_def)

text \<open>Moving the window to the byte \<open>i\<close> of the table keeps all bytes of the table.\<close>

definition same_fat :: "('d \<Rightarrow> u32 \<Rightarrow> u8 list) \<Rightarrow> 'd fatfs \<Rightarrow> 'd fatfs \<Rightarrow> bool" where
  "same_fat C fs fs' \<longleftrightarrow> same_vol fs fs' \<and> vol_ok C fs' \<and> (\<forall>j < 512 * unat (fsize fs). fat_byte C fs' j = fat_byte C fs j) \<and>
     keeps_data C fs fs'"

lemma in_fatI: "i < 512 * unat (fsize fs) \<Longrightarrow> in_fat fs (fatbase fs + of_nat (i div 512))"
  by (auto simp: in_fat_def intro!: exI[of _ "i div 512"])

lemma move_fat:
  assumes "good_disk K C" "vol_ok C fs" "i < 512 * unat (fsize fs)"
  shows "\<exists>fs'. move_window K (fatbase fs + of_nat (i div 512)) fs = Some (FR_OK, fs') \<and> same_fat C fs fs' \<and>
    winsect fs' = fatbase fs + of_nat (i div 512) \<and>
    (\<forall>j < 512 * unat (fsize fs). j div 512 = i div 512 \<longrightarrow> win fs' ! (j mod 512) = fat_byte C fs j)"
proof -
  from move_window_spec[OF assms(1,2) fat_sector[OF assms(2,3)]] obtain fs' where
    m: "move_window K (fatbase fs + of_nat (i div 512)) fs = Some (FR_OK, fs')" "same_vol fs fs'" "vol_ok C fs'"
      "winsect fs' = fatbase fs + of_nat (i div 512)" "win fs' = view C fs (fatbase fs + of_nat (i div 512))"
      "\<forall>t. \<not> second_fat fs t \<longrightarrow> view C fs' t = view C fs t" by blast
  have b: "fat_byte C fs' j = fat_byte C fs j" if "j < 512 * unat (fsize fs)" for j
    using m(6) fat_sector[OF assms(2) that] same_volD(14)[OF m(2)] by (simp add: fat_byte_def)
  show ?thesis
    using m b in_fatI[OF assms(3)] by (intro exI[of _ fs']) (auto simp: same_fat_def fat_byte_def keeps_data_def)
qed

lemma write_fat:
  assumes "vol_ok C fs" "winsect fs = fatbase fs + of_nat (i div 512)" "i < 512 * unat (fsize fs)" "length w = 512"
  defines "fs' \<equiv> fs\<lparr>win := w, wflag := 1\<rparr>"
  shows "vol_ok C fs'"
    and "j < 512 * unat (fsize fs) \<Longrightarrow> fat_byte C fs' j = (if j div 512 = i div 512 then w ! (j mod 512) else fat_byte C fs j)"
proof -
  show "vol_ok C fs'"
    using assms(1,4) fat_fits_cong[of fs fs'] by (simp add: vol_ok_def fs'_def)
  assume j: "j < 512 * unat (fsize fs)"
  show "fat_byte C fs' j = (if j div 512 = i div 512 then w ! (j mod 512) else fat_byte C fs j)"
    using fat_sector_eq[OF assms(1) j assms(3)] by (simp add: fat_byte_def view_def fs'_def assms(2))
qed

section \<open>Cluster values\<close>

text \<open>The value of a cluster: 12 bits packed in one and a half bytes, a word, or 28 bits of a double word.\<close>

definition le16 :: "u8 \<Rightarrow> u8 \<Rightarrow> u32" where
  "le16 b0 b1 = ucast b0 OR push_bit 8 (ucast b1)"

definition entry :: "u8 \<Rightarrow> (nat \<Rightarrow> u8) \<Rightarrow> nat \<Rightarrow> u32" where
  "entry t b c =
     (if t = FS_FAT12 then
        (let i = c + c div 2; w = le16 (b i) (b (i + 1)) in if odd c then drop_bit 4 w else w AND 0xFFF)
      else if t = FS_FAT16 then le16 (b (2 * c)) (b (2 * c + 1))
      else (le16 (b (4 * c)) (b (4 * c + 1)) OR push_bit 16 (le16 (b (4 * c + 2)) (b (4 * c + 3)))) AND 0x0FFFFFFF)"

definition fat_val :: "('d \<Rightarrow> u32 \<Rightarrow> u8 list) \<Rightarrow> 'd fatfs \<Rightarrow> nat \<Rightarrow> u32" where
  "fat_val C fs c = entry (fs_type fs) (fat_byte C fs) c"

definition fat_mask :: "'d fatfs \<Rightarrow> u32" where
  "fat_mask fs = (if fs_type fs = FS_FAT12 then 0xFFF else if fs_type fs = FS_FAT16 then 0xFFFF else 0x0FFFFFFF)"

definition cluster :: "'d fatfs \<Rightarrow> u32 \<Rightarrow> bool" where
  "cluster fs c \<longleftrightarrow> 2 \<le> c \<and> c < n_fatent fs"

lemma fat_types: "FS_FAT12 \<noteq> FS_FAT16" "FS_FAT12 \<noteq> FS_FAT32" "FS_FAT16 \<noteq> FS_FAT32"
  by (simp_all add: FS_FAT12_def FS_FAT16_def FS_FAT32_def)

lemma fat_bytes_in:
  assumes "fat_fits fs" "c < unat (n_fatent fs)"
  shows "fs_type fs = FS_FAT12 \<Longrightarrow> c + c div 2 + 1 < 512 * unat (fsize fs)"
    and "fs_type fs = FS_FAT16 \<Longrightarrow> 2 * c + 1 < 512 * unat (fsize fs)"
    and "fs_type fs = FS_FAT32 \<Longrightarrow> 4 * c + 3 < 512 * unat (fsize fs)"
proof -
  have "c + c div 2 + 1 < (3 * n + 1) div 2" if "c < n" for n :: nat
    using that by linarith
  then show "fs_type fs = FS_FAT12 \<Longrightarrow> c + c div 2 + 1 < 512 * unat (fsize fs)"
    using assms fat_types by (fastforce simp: fat_fits_def)
qed (use assms fat_types in \<open>auto simp: fat_fits_def\<close>)

definition has_bytes :: "('d \<Rightarrow> u32 \<Rightarrow> u8 list) \<Rightarrow> 'd fatfs \<Rightarrow> 'd fatfs \<Rightarrow> (nat \<Rightarrow> u8) \<Rightarrow> bool" where
  "has_bytes C fs fs' B \<longleftrightarrow> same_vol fs fs' \<and> vol_ok C fs' \<and> (\<forall>j < 512 * unat (fsize fs). fat_byte C fs' j = B j) \<and>
     keeps_data C fs fs'"

lemma same_fat_bytes: "same_fat C fs fs' \<longleftrightarrow> has_bytes C fs fs' (fat_byte C fs)"
  by (simp add: same_fat_def has_bytes_def)

lemma has_bytes_trans: "has_bytes C a b B \<Longrightarrow> same_fat C b c \<Longrightarrow> has_bytes C a c B"
  by (auto simp: has_bytes_def same_fat_def same_volD intro: same_vol_trans keeps_vol_trans)

lemma entry_cong:
  assumes "\<And>j. j < 512 * unat (fsize fs) \<Longrightarrow> b j = b' j" "fat_fits fs" "c < unat (n_fatent fs)"
  shows "entry (fs_type fs) b c = entry (fs_type fs) b' c"
proof -
  note i = fat_bytes_in[OF assms(2,3)]
  consider "fs_type fs = FS_FAT12" | "fs_type fs = FS_FAT16" | "fs_type fs = FS_FAT32"
    using assms(2) by (auto simp: fat_fits_def)
  then show ?thesis
  proof cases
    case 1
    then show ?thesis using i(1) by (simp add: entry_def Let_def assms(1))
  next
    case 2
    then show ?thesis using i(2) fat_types by (simp add: entry_def assms(1))
  next
    case 3
    then show ?thesis using i(3) fat_types by (simp add: entry_def assms(1))
  qed
qed

lemma has_bytes_val:
  assumes "has_bytes C fs fs' B" "fat_fits fs" "c < unat (n_fatent fs)"
  shows "fat_val C fs' c = entry (fs_type fs) B c"
  using assms entry_cong[of fs "fat_byte C fs'" B c] by (auto simp: fat_val_def has_bytes_def same_volD(1))

lemma fat_val_cong: "same_fat C fs fs' \<Longrightarrow> fat_fits fs \<Longrightarrow> c < unat (n_fatent fs) \<Longrightarrow> fat_val C fs' c = fat_val C fs c"
  by (simp add: same_fat_bytes has_bytes_val) (simp add: fat_val_def)

lemma entry_index:
  fixes c :: u32
  assumes "unat c < 2 ^ 28"
  shows "c div (SS div 2) = of_nat (2 * unat c div 512)" "unat (c * 2 mod SS) = 2 * unat c mod 512"
    "c div (SS div 4) = of_nat (4 * unat c div 512)" "unat (c * 4 mod SS) = 4 * unat c mod 512"
    "(c + c div 2) div SS = of_nat ((unat c + unat c div 2) div 512)"
    "unat ((c + c div 2) mod SS) = (unat c + unat c div 2) mod 512"
    "(c + c div 2 + 1) div SS = of_nat ((unat c + unat c div 2 + 1) div 512)"
    "unat ((c + c div 2 + 1) mod SS) = (unat c + unat c div 2 + 1) mod 512"
proof -
  have d2: "unat (c div 2) = unat c div 2" by (simp add: unat_div_distrib)
  have b: "unat (c + c div 2) = unat c + unat c div 2" "unat (c + c div 2 + 1) = unat c + unat c div 2 + 1"
    using assms by (simp_all add: unat_word_ariths d2)
  have m: "unat (c * 2) = 2 * unat c" "unat (c * 4) = 4 * unat c"
    using assms by (simp_all add: unat_word_ariths)
  have w: "x = of_nat (unat x)" for x :: u32 by simp
  show "c div (SS div 2) = of_nat (2 * unat c div 512)"
    using w[of "c div 256"] by (simp add: SS_def unat_div_distrib)
  show "c div (SS div 4) = of_nat (4 * unat c div 512)"
    using w[of "c div 128"] by (simp add: SS_def unat_div_distrib)
  show "unat (c * 2 mod SS) = 2 * unat c mod 512" "unat (c * 4 mod SS) = 4 * unat c mod 512"
    by (simp_all add: SS_def unat_mod_distrib m)
  show "(c + c div 2) div SS = of_nat ((unat c + unat c div 2) div 512)"
    using w[of "(c + c div 2) div SS"] by (simp add: SS_def unat_div_distrib b)
  show "(c + c div 2 + 1) div SS = of_nat ((unat c + unat c div 2 + 1) div 512)"
    using w[of "(c + c div 2 + 1) div SS"] by (simp add: SS_def unat_div_distrib b)
  show "unat ((c + c div 2) mod SS) = (unat c + unat c div 2) mod 512"
    "unat ((c + c div 2 + 1) mod SS) = (unat c + unat c div 2 + 1) mod 512"
    by (simp_all add: SS_def unat_mod_distrib b)
qed

lemma ld_word_le16: "ucast (ld_word w i) = le16 (w ! i) (w ! (i + 1))"
  unfolding ld_word_def le16_def Let_def
  by (rule bit_word_eqI) (auto simp: bit_simps dest: bit_imp_le_length)

lemma ld_dword_le16:
  "ld_dword w i = le16 (w ! i) (w ! (i + 1)) OR push_bit 16 (le16 (w ! (i + 2)) (w ! (i + 3)))"
  unfolding ld_dword_def le16_def Let_def
  by (rule bit_word_eqI) (auto simp: bit_simps dest: bit_imp_le_length)

lemma odd_word: "(c :: u32) AND 1 \<noteq> 0 \<longleftrightarrow> odd (unat c)"
proof -
  have "unat (c AND 1) = unat c mod 2" by (simp add: and_one_eq unat_mod_distrib)
  moreover have "c AND 1 \<noteq> 0 \<longleftrightarrow> unat (c AND 1) \<noteq> 0" by (simp only: unat_eq_0)
  ultimately show ?thesis by (simp add: odd_iff_mod_2_eq_one)
qed

lemma cluster_nat: "cluster fs c \<longleftrightarrow> 2 \<le> unat c \<and> unat c < unat (n_fatent fs)"
  by (simp add: cluster_def word_le_nat_alt word_less_nat_alt)

lemma same_fat_trans: "same_fat C a b \<Longrightarrow> same_fat C b c \<Longrightarrow> same_fat C a c"
  by (auto simp: same_fat_def same_volD intro: same_vol_trans keeps_vol_trans)

lemma sector_part:
  fixes a c k n :: nat
  assumes "k < a" "a dvd n"
  shows "(a * c + k) div n = a * c div n" "(a * c + k) mod n = a * c mod n + k"
  using assms by (auto elim!: dvdE simp: div_mult2_eq mod_mult2_eq)

lemma entry_same_sector:
  "(2 * (c :: nat) + 1) div 512 = 2 * c div 512" "(2 * c + 1) mod 512 = 2 * c mod 512 + 1"
  "(4 * c + 1) div 512 = 4 * c div 512" "(4 * c + 1) mod 512 = 4 * c mod 512 + 1"
  "(4 * c + 2) div 512 = 4 * c div 512" "(4 * c + 2) mod 512 = 4 * c mod 512 + 2"
  "(4 * c + 3) div 512 = 4 * c div 512" "(4 * c + 3) mod 512 = 4 * c mod 512 + 3"
  by (rule sector_part; simp)+

lemma move_fatE:
  assumes "good_disk K C" "vol_ok C fs" "i < 512 * unat (fsize fs)"
  obtains fs' where "move_window K (fatbase fs + of_nat (i div 512)) fs = Some (FR_OK, fs')" "same_fat C fs fs'"
    "winsect fs' = fatbase fs + of_nat (i div 512)"
    "\<And>j. j < 512 * unat (fsize fs) \<Longrightarrow> j div 512 = i div 512 \<Longrightarrow> win fs' ! (j mod 512) = fat_byte C fs j"
proof -
  assume h: "\<And>fs'. \<lbrakk>move_window K (fatbase fs + of_nat (i div 512)) fs = Some (FR_OK, fs'); same_fat C fs fs';
    winsect fs' = fatbase fs + of_nat (i div 512);
    \<And>j. j < 512 * unat (fsize fs) \<Longrightarrow> j div 512 = i div 512 \<Longrightarrow> win fs' ! (j mod 512) = fat_byte C fs j\<rbrakk> \<Longrightarrow> thesis"
  from move_fat[OF assms] show thesis
    by (elim exE conjE) (rule h, assumption+, elim allE impE)
qed

text \<open>The bytes of one entry that the window shows, for the two formats that keep an entry within a sector.\<close>

lemma move_pairE:
  assumes "good_disk K C" "vol_ok C fs" "2 * c + 1 < 512 * unat (fsize fs)"
  obtains fs' where "move_window K (fatbase fs + of_nat (2 * c div 512)) fs = Some (FR_OK, fs')" "same_fat C fs fs'"
    "winsect fs' = fatbase fs + of_nat (2 * c div 512)"
    "win fs' ! (2 * c mod 512) = fat_byte C fs (2 * c)" "win fs' ! (2 * c mod 512 + 1) = fat_byte C fs (2 * c + 1)"
proof -
  have i: "2 * c < 512 * unat (fsize fs)" using assms(3) by simp
  obtain f where f: "move_window K (fatbase fs + of_nat (2 * c div 512)) fs = Some (FR_OK, f)" "same_fat C fs f"
    "winsect f = fatbase fs + of_nat (2 * c div 512)"
    "\<And>j. j < 512 * unat (fsize fs) \<Longrightarrow> j div 512 = 2 * c div 512 \<Longrightarrow> win f ! (j mod 512) = fat_byte C fs j"
    by (rule move_fatE[OF assms(1,2) i]) iprover
  show thesis
    using that[OF f(1,2,3) f(4)[OF i refl]] f(4)[OF assms(3) entry_same_sector(1)]
    by (simp only: entry_same_sector(2))
qed

lemma move_quadE:
  assumes "good_disk K C" "vol_ok C fs" "4 * c + 3 < 512 * unat (fsize fs)"
  obtains fs' where "move_window K (fatbase fs + of_nat (4 * c div 512)) fs = Some (FR_OK, fs')" "same_fat C fs fs'"
    "winsect fs' = fatbase fs + of_nat (4 * c div 512)"
    "\<And>k. k < 4 \<Longrightarrow> win fs' ! (4 * c mod 512 + k) = fat_byte C fs (4 * c + k)"
proof -
  have i: "4 * c < 512 * unat (fsize fs)" using assms(3) by simp
  obtain f where f: "move_window K (fatbase fs + of_nat (4 * c div 512)) fs = Some (FR_OK, f)" "same_fat C fs f"
    "winsect f = fatbase fs + of_nat (4 * c div 512)"
    "\<And>j. j < 512 * unat (fsize fs) \<Longrightarrow> j div 512 = 4 * c div 512 \<Longrightarrow> win f ! (j mod 512) = fat_byte C fs j"
    by (rule move_fatE[OF assms(1,2) i]) iprover
  have "win f ! (4 * c mod 512 + k) = fat_byte C fs (4 * c + k)" if "k < 4" for k
    using f(4)[of "4 * c + k"] sector_part[of k 4 512 c] that assms(3) by simp
  then show thesis using that[OF f(1,2,3)] by blast
qed

text \<open>\<^verbatim>\<open>get_fat\<close> reads the element of the array and changes none.\<close>

lemma cluster_bounds:
  assumes "vol_ok C fs" "cluster fs clst"
  shows "fat_fits fs" "unat clst < unat (n_fatent fs)" "unat clst < 2 ^ 28" "\<not> (clst < 2 \<or> clst \<ge> n_fatent fs)"
    "clst \<ge> 2 \<and> clst < n_fatent fs"
proof -
  show f: "fat_fits fs" using assms(1) by (simp add: vol_ok_def)
  show n: "unat clst < unat (n_fatent fs)" using assms(2) by (simp add: cluster_nat)
  show "unat clst < 2 ^ 28" using f n by (simp add: fat_fits_def)
  show "\<not> (clst < 2 \<or> clst \<ge> n_fatent fs)" "clst \<ge> 2 \<and> clst < n_fatent fs"
    using assms(2) by (auto simp: cluster_def)
qed

lemma get_fat12:
  assumes g: "good_disk K C" and ok: "vol_ok C fs" and c: "cluster fs clst" and ty: "fs_type fs = FS_FAT12"
  shows "\<exists>fs'. get_fat K clst fs = Some (fat_val C fs (unat clst), fs') \<and> same_fat C fs fs'"
proof -
  note cb = cluster_bounds[OF ok c]
  note ix = entry_index(5-8)[OF cb(3)]
  define i where "i = unat clst + unat clst div 2"
  have i: "i < 512 * unat (fsize fs)" "i + 1 < 512 * unat (fsize fs)"
    using fat_bytes_in(1)[OF cb(1,2) ty] by (simp_all add: i_def)
  obtain f1 where f1: "move_window K (fatbase fs + of_nat (i div 512)) fs = Some (FR_OK, f1)" "same_fat C fs f1"
    "win f1 ! (i mod 512) = fat_byte C fs i"
    by (rule move_fatE[OF g ok i(1)]) (use i in iprover)
  have s1: "same_vol fs f1" "vol_ok C f1" and b: "fat_byte C f1 (i + 1) = fat_byte C fs (i + 1)"
    using f1(2) i by (auto simp: same_fat_def)
  have i': "i + 1 < 512 * unat (fsize f1)" using i by (simp add: same_volD[OF s1(1)])
  obtain f2 where f2: "move_window K (fatbase f1 + of_nat ((i + 1) div 512)) f1 = Some (FR_OK, f2)" "same_fat C f1 f2"
    "win f2 ! ((i + 1) mod 512) = fat_byte C f1 (i + 1)"
    by (rule move_fatE[OF g s1(2) i']) (use i' in iprover)
  have "get_fat K clst fs = Some (fat_val C fs (unat clst), f2)"
    unfolding get_fat_def ix fat_val_def entry_def le16_def odd_word Let_def i_def[symmetric]
    using cb(4) ty f1(1,3) f2(1,3) b by simp
  then show ?thesis using same_fat_trans[OF f1(2) f2(2)] by blast
qed

lemma get_fat_val:
  assumes g: "good_disk K C" and ok: "vol_ok C fs" and c: "cluster fs clst"
  shows "\<exists>fs'. get_fat K clst fs = Some (fat_val C fs (unat clst), fs') \<and> same_fat C fs fs'"
proof -
  note cb = cluster_bounds[OF ok c]
  note ix = entry_index(1-4)[OF cb(3)]
  consider "fs_type fs = FS_FAT12" | "fs_type fs = FS_FAT16" | "fs_type fs = FS_FAT32"
    using cb(1) by (auto simp: fat_fits_def)
  then show ?thesis
  proof cases
    case 1
    then show ?thesis by (rule get_fat12[OF assms])
  next
    case 2
    obtain f where f: "move_window K (fatbase fs + of_nat (2 * unat clst div 512)) fs = Some (FR_OK, f)" "same_fat C fs f"
      "win f ! (2 * unat clst mod 512) = fat_byte C fs (2 * unat clst)"
      "win f ! (2 * unat clst mod 512 + 1) = fat_byte C fs (2 * unat clst + 1)"
      by (rule move_pairE[OF g ok fat_bytes_in(2)[OF cb(1,2) 2]]) iprover
    have "get_fat K clst fs = Some (fat_val C fs (unat clst), f)"
      unfolding get_fat_def ix fat_val_def entry_def ld_word_le16 Let_def f(1)
      using cb(4) 2 fat_types f(3,4) by (simp del: One_nat_def add_Suc_right)
    then show ?thesis using f(2) by blast
  next
    case 3
    obtain f where f: "move_window K (fatbase fs + of_nat (4 * unat clst div 512)) fs = Some (FR_OK, f)" "same_fat C fs f"
      "\<And>k. k < 4 \<Longrightarrow> win f ! (4 * unat clst mod 512 + k) = fat_byte C fs (4 * unat clst + k)"
      by (rule move_quadE[OF g ok fat_bytes_in(3)[OF cb(1,2) 3]]) iprover
    have "get_fat K clst fs = Some (fat_val C fs (unat clst), f)"
      unfolding get_fat_def ix fat_val_def entry_def ld_dword_le16 Let_def f(1)
      using cb(4) 3 fat_types f(3)[of 0] f(3)[of 1] f(3)[of 2] f(3)[of 3] by (simp del: One_nat_def add_Suc_right)
    then show ?thesis using f(2) by blast
  qed
qed

section \<open>Writing one value\<close>

definition poke :: "'d fatfs \<Rightarrow> nat \<Rightarrow> u8 \<Rightarrow> 'd fatfs" where
  "poke fs i b = fs\<lparr>win := (win fs)[i mod 512 := b], wflag := 1\<rparr>"

lemma poke_simps [simp]:
  "winsect (poke fs i b) = winsect fs" "fatbase (poke fs i b) = fatbase fs" "fsize (poke fs i b) = fsize fs"
  "same_vol fs (poke fs i b)" "fs_type (poke fs i b) = fs_type fs"
  by (simp_all add: poke_def)

lemma poke_fat:
  assumes "vol_ok C fs" "winsect fs = fatbase fs + of_nat (i div 512)" "i < 512 * unat (fsize fs)"
  shows "vol_ok C (poke fs i b)"
    and "j < 512 * unat (fsize fs) \<Longrightarrow> fat_byte C (poke fs i b) j = (if j = i then b else fat_byte C fs j)"
proof -
  have l: "length (win fs) = 512" using assms(1) by (simp add: vol_ok_def)
  then have lw: "length ((win fs)[i mod 512 := b]) = 512" by simp
  note w = write_fat[OF assms lw, folded poke_def]
  show "vol_ok C (poke fs i b)" by (rule w(1))
  assume j: "j < 512 * unat (fsize fs)"
  show "fat_byte C (poke fs i b) j = (if j = i then b else fat_byte C fs j)"
  proof (cases "j div 512 = i div 512")
    case True
    have "j = i \<longleftrightarrow> j mod 512 = i mod 512" using True by (metis div_mult_mod_eq)
    moreover have "fat_byte C fs j = win fs ! (j mod 512)" using True assms(2) by (simp add: fat_byte_def view_def)
    ultimately show ?thesis using w(2)[OF j] True l by (simp add: nth_list_update)
  next
    case False
    then show ?thesis using w(2)[OF j] by auto
  qed
qed

lemma ucast_word_bytes:
  "ucast (ucast (v :: u32) :: u16) = (ucast v :: u8)" "ucast (drop_bit 8 (ucast v :: u16)) = (ucast (drop_bit 8 v) :: u8)"
  by (rule bit_word_eqI; auto simp: bit_simps)+

lemma poke_word:
  "fs\<lparr>win := st_word (win fs) (2 * c mod 512) v, wflag := 1\<rparr> =
     poke (poke fs (2 * c) (ucast v)) (2 * c + 1) (ucast (drop_bit 8 v))"
  by (simp add: poke_def st_word_def entry_same_sector[simplified] del: mult_Suc_right)

lemma poke_dword:
  "fs\<lparr>win := st_dword (win fs) (4 * c mod 512) v, wflag := 1\<rparr> =
     poke (poke (poke (poke fs (4 * c) (ucast v)) (4 * c + 1) (ucast (drop_bit 8 v)))
       (4 * c + 2) (ucast (drop_bit 16 v))) (4 * c + 3) (ucast (drop_bit 24 v))"
  unfolding poke_def st_dword_def entry_same_sector by simp

lemma nibble_masks:
  "(0xF0 :: u8) = push_bit 4 (mask 4)" "(0x0F :: u8) = mask 4" "(0xFFF :: u32) = mask 12" "(0xFFFF :: u32) = mask 16"
  "(0x0FFFFFFF :: u32) = mask 28" "(0xF0000000 :: u32) = push_bit 28 (mask 4)"
  by (simp_all add: mask_eq_exp_minus_1 push_bit_eq_mult)

lemma pack12:
  fixes v :: u32
  shows "le16 (ucast v) ((old AND 0xF0) OR (ucast (drop_bit 8 v) AND 0x0F)) AND 0xFFF = v AND 0xFFF"
    and "drop_bit 4 (le16 ((old AND 0x0F) OR push_bit 4 (ucast v)) (ucast (drop_bit 4 v))) = v AND 0xFFF"
    and "drop_bit 4 (le16 ((old AND 0xF0) OR (x AND 0x0F)) y) = drop_bit 4 (le16 old y)"
    and "le16 x ((old AND 0x0F) OR push_bit 4 y) AND 0xFFF = le16 x old AND 0xFFF"
  unfolding nibble_masks le16_def
  by (rule bit_word_eqI; auto simp: bit_simps dest: bit_imp_le_length)+

lemma pack16: "le16 (ucast v) (ucast (drop_bit 8 v)) = (v :: u32) AND 0xFFFF"
  unfolding nibble_masks le16_def
  by (rule bit_word_eqI) (auto simp: bit_simps dest: bit_imp_le_length)

lemma pack32:
  fixes w :: u32
  shows "le16 (ucast w) (ucast (drop_bit 8 w)) OR push_bit 16 (le16 (ucast (drop_bit 16 w)) (ucast (drop_bit 24 w))) = w"
  unfolding le16_def
  apply (rule bit_word_eqI)
  subgoal for n by (cases "n < 16"; cases "n < 24") (auto simp: bit_simps)
  done

lemma keep_high: "((v AND 0x0FFFFFFF) OR (w AND 0xF0000000)) AND 0x0FFFFFFF = v AND (0x0FFFFFFF :: u32)"
  unfolding nibble_masks
  by (rule bit_word_eqI) (auto simp: bit_simps)

text \<open>The array after a store: one element changed.\<close>

definition fat_put :: "('d \<Rightarrow> u32 \<Rightarrow> u8 list) \<Rightarrow> 'd fatfs \<Rightarrow> nat \<Rightarrow> u32 \<Rightarrow> 'd fatfs \<Rightarrow> bool" where
  "fat_put C fs k v fs' \<longleftrightarrow> same_vol fs fs' \<and> vol_ok C fs' \<and> keeps_data C fs fs' \<and> in_fat fs (winsect fs') \<and>
     (\<forall>c < unat (n_fatent fs). fat_val C fs' c = (if c = k then v AND fat_mask fs else fat_val C fs c))"

lemma put_bytes_val:
  assumes "has_bytes C fs fs' B" "fat_fits fs" "in_fat fs (winsect fs')"
    "\<And>c. entry (fs_type fs) B c = (if c = k then v AND fat_mask fs else fat_val C fs c)"
  shows "fat_put C fs k v fs'"
  using assms by (auto simp: fat_put_def has_bytes_val) (auto simp: has_bytes_def)

lemma poke_bytes:
  assumes "has_bytes C fs f B" "winsect f = fatbase fs + of_nat (i div 512)" "i < 512 * unat (fsize fs)"
  shows "has_bytes C fs (poke f i b) (B(i := b))"
proof -
  have s: "same_vol fs f" "vol_ok C f" using assms(1) by (auto simp: has_bytes_def)
  have "same_vol fs (poke f i b)" using same_vol_trans[OF s(1)] by simp
  moreover have "in_fat f (winsect f)"
    using assms(2) in_fatI[of i f] assms(3) by (simp add: same_volD[OF s(1)])
  then have "keeps_data C f (poke f i b)" unfolding poke_def by (rule keeps_window)
  then have "keeps_data C fs (poke f i b)" using assms(1) s(1) by (auto simp: has_bytes_def intro: keeps_vol_trans)
  ultimately show ?thesis
    using poke_fat[OF s(2), where i = i and b = b] assms by (auto simp: has_bytes_def same_volD[OF s(1)])
qed

lemma entry_put16:
  assumes "t = FS_FAT16"
  shows "entry t (B(2 * k := ucast v, 2 * k + 1 := ucast (drop_bit 8 v))) c = (if c = k then v AND 0xFFFF else entry t B c)"
proof (cases "c = k")
  case True
  then show ?thesis using assms fat_types by (simp add: entry_def pack16)
next
  case False
  then have "2 * c \<noteq> 2 * k + 1" "2 * c + 1 \<noteq> 2 * k" by presburger+
  then show ?thesis using False assms fat_types by (simp add: entry_def)
qed

lemma put_fat16:
  assumes g: "good_disk K C" and ok: "vol_ok C fs" and c: "cluster fs clst" and ty: "fs_type fs = FS_FAT16"
  shows "\<exists>fs'. put_fat K clst v fs = Some (FR_OK, fs') \<and> fat_put C fs (unat clst) v fs'"
proof -
  note cb = cluster_bounds[OF ok c]
  note ix = entry_index(1,2)[OF cb(3)]
  have i: "2 * unat clst + 1 < 512 * unat (fsize fs)" using fat_bytes_in(2)[OF cb(1,2) ty] .
  obtain f where f: "move_window K (fatbase fs + of_nat (2 * unat clst div 512)) fs = Some (FR_OK, f)" "same_fat C fs f"
    "winsect f = fatbase fs + of_nat (2 * unat clst div 512)"
    by (rule move_pairE[OF g ok i]) iprover
  let ?f = "poke (poke f (2 * unat clst) (ucast v)) (2 * unat clst + 1) (ucast (drop_bit 8 v))"
  have hb: "has_bytes C fs ?f ((fat_byte C fs)(2 * unat clst := ucast v, 2 * unat clst + 1 := ucast (drop_bit 8 v)))"
    using f i entry_same_sector(1)[of "unat clst"]
    by (intro poke_bytes) (simp_all add: same_fat_bytes)
  have w: "in_fat fs (winsect ?f)" using in_fatI[of "2 * unat clst" fs] f(3) i by simp
  have "fat_put C fs (unat clst) v ?f"
    by (rule put_bytes_val[OF hb cb(1) w]) (simp only: entry_put16[OF ty], simp add: fat_mask_def ty fat_types fat_types[symmetric] fat_val_def)
  moreover have "f\<lparr>win := st_word (win f) (2 * unat clst mod 512) (ucast v), wflag := 1\<rparr> = ?f"
    unfolding poke_word by (simp only: ucast_word_bytes)
  then have "put_fat K clst v fs = Some (FR_OK, ?f)"
    unfolding put_fat_def ix using cb(5) ty fat_types f(1) by simp
  ultimately show ?thesis by blast
qed

lemma entry_put32:
  assumes "t = FS_FAT32" and w: "w AND 0x0FFFFFFF = v AND 0x0FFFFFFF"
  shows "entry t (B(4 * k := ucast w, 4 * k + 1 := ucast (drop_bit 8 w), 4 * k + 2 := ucast (drop_bit 16 w),
    4 * k + 3 := ucast (drop_bit 24 w))) c = (if c = k then v AND 0x0FFFFFFF else entry t B c)"
proof (cases "c = k")
  case True
  then show ?thesis using assms(1) fat_types pack32[of w] w by (simp add: entry_def)
next
  case False
  then have "4 * c + a \<noteq> 4 * k + b" if "a < 4" "b < 4" for a b
    using that by presburger
  from this[of 0] this[of 1] this[of 2] this[of 3] show ?thesis
    using False assms(1) fat_types by (simp add: entry_def)
qed

lemma put_fat32:
  assumes g: "good_disk K C" and ok: "vol_ok C fs" and c: "cluster fs clst" and ty: "fs_type fs = FS_FAT32"
  shows "\<exists>fs'. put_fat K clst v fs = Some (FR_OK, fs') \<and> fat_put C fs (unat clst) v fs'"
proof -
  note cb = cluster_bounds[OF ok c]
  note ix = entry_index(3,4)[OF cb(3)]
  define k where "k = unat clst"
  have i: "4 * k + 3 < 512 * unat (fsize fs)" using fat_bytes_in(3)[OF cb(1,2) ty] by (simp add: k_def)
  obtain f where f: "move_window K (fatbase fs + of_nat (4 * k div 512)) fs = Some (FR_OK, f)" "same_fat C fs f"
    "winsect f = fatbase fs + of_nat (4 * k div 512)"
    by (rule move_quadE[OF g ok i]) iprover
  define w where "w = (v AND 0x0FFFFFFF) OR (ld_dword (win f) (4 * k mod 512) AND 0xF0000000)"
  have wv: "w AND 0x0FFFFFFF = v AND 0x0FFFFFFF" by (simp only: w_def keep_high)
  have lt: "4 * k < 512 * unat (fsize fs)" "4 * k + 1 < 512 * unat (fsize fs)" "4 * k + 2 < 512 * unat (fsize fs)"
    "4 * k + 3 < 512 * unat (fsize fs)" using i by simp_all
  let ?f = "poke (poke (poke (poke f (4 * k) (ucast w)) (4 * k + 1) (ucast (drop_bit 8 w)))
    (4 * k + 2) (ucast (drop_bit 16 w))) (4 * k + 3) (ucast (drop_bit 24 w))"
  have hb: "has_bytes C fs ?f ((fat_byte C fs)(4 * k := ucast w, 4 * k + 1 := ucast (drop_bit 8 w),
    4 * k + 2 := ucast (drop_bit 16 w), 4 * k + 3 := ucast (drop_bit 24 w)))"
    using f lt by (intro poke_bytes) (simp_all only: same_fat_bytes poke_simps entry_same_sector)
  have w: "in_fat fs (winsect ?f)" using in_fatI[OF lt(1)] by (simp only: poke_simps f(3))
  have "fat_put C fs k v ?f"
    by (rule put_bytes_val[OF hb cb(1) w])
      (simp only: entry_put32[OF ty wv], simp add: fat_mask_def ty fat_types fat_types[symmetric] fat_val_def)
  moreover have "put_fat K clst v fs = Some (FR_OK, ?f)"
    unfolding put_fat_def ix k_def[symmetric] poke_dword[symmetric]
    using cb(5) ty fat_types f(1) by (simp add: w_def Let_def)
  ultimately show ?thesis unfolding k_def by blast
qed

lemma index12:
  fixes c k :: nat
  assumes "c \<noteq> k"
  shows "c + c div 2 \<noteq> k + k div 2"
    and "even k \<Longrightarrow> c + c div 2 + 1 \<noteq> k + k div 2"
    and "odd k \<Longrightarrow> c + c div 2 \<noteq> k + k div 2 + 1"
    and "even k \<Longrightarrow> c + c div 2 = k + k div 2 + 1 \<Longrightarrow> odd c"
    and "odd k \<Longrightarrow> c + c div 2 + 1 = k + k div 2 \<Longrightarrow> even c"
  using assms by (auto elim!: evenE oddE; cases "even c"; cases "even k"; auto elim!: evenE oddE)+

lemma entry_put12_even:
  assumes "t = FS_FAT12" "even k"
  defines "i \<equiv> k + k div 2"
  shows "entry t (B(i := ucast v, i + 1 := (B (i + 1) AND 0xF0) OR (ucast (drop_bit 8 v) AND 0x0F))) c =
    (if c = k then v AND 0xFFF else entry t B c)"
proof (cases "c = k")
  case True
  then show ?thesis using assms(1,2) pack12(1)[of v "B (i + 1)"] by (simp add: entry_def i_def[symmetric])
next
  case False
  note x = index12[OF False, folded i_def]
  then show ?thesis
    using False assms(1,2) pack12(3)[of "B (i + 1)" "ucast (drop_bit 8 v)"] by (auto simp: entry_def Let_def)
qed

lemma entry_put12_odd:
  assumes "t = FS_FAT12" "odd k"
  defines "i \<equiv> k + k div 2"
  shows "entry t (B(i := (B i AND 0x0F) OR push_bit 4 (ucast v), i + 1 := ucast (drop_bit 4 v))) c =
    (if c = k then v AND 0xFFF else entry t B c)"
proof (cases "c = k")
  case True
  then show ?thesis using assms(1,2) pack12(2)[of "B i" v] by (simp add: entry_def i_def[symmetric])
next
  case False
  note x = index12[OF False, folded i_def]
  then show ?thesis
    using False assms(1,2) pack12(4)[of _ "B i" "ucast v"] by (auto simp: entry_def Let_def)
qed

lemma put_fat12:
  assumes g: "good_disk K C" and ok: "vol_ok C fs" and c: "cluster fs clst" and ty: "fs_type fs = FS_FAT12"
  shows "\<exists>fs'. put_fat K clst v fs = Some (FR_OK, fs') \<and> fat_put C fs (unat clst) v fs'"
proof -
  note cb = cluster_bounds[OF ok c]
  note ix = entry_index(5-8)[OF cb(3)]
  define k where "k = unat clst"
  define i where "i = k + k div 2"
  have i: "i < 512 * unat (fsize fs)" "i + 1 < 512 * unat (fsize fs)"
    using fat_bytes_in(1)[OF cb(1,2) ty] by (simp_all add: i_def k_def)
  let ?B = "fat_byte C fs"
  define b0 where "b0 = (if odd k then (?B i AND 0x0F) OR push_bit 4 (ucast v) else ucast v)"
  define b1 where "b1 = (if odd k then ucast (drop_bit 4 v) else (?B (i + 1) AND 0xF0) OR (ucast (drop_bit 8 v) AND 0x0F))"
  obtain f1 where f1: "move_window K (fatbase fs + of_nat (i div 512)) fs = Some (FR_OK, f1)" "same_fat C fs f1"
    "winsect f1 = fatbase fs + of_nat (i div 512)" "win f1 ! (i mod 512) = ?B i"
    by (rule move_fatE[OF g ok i(1)]) (use i in iprover)
  let ?f1 = "poke f1 i b0"
  have h1: "has_bytes C fs ?f1 (?B(i := b0))"
    using f1 i by (intro poke_bytes) (simp_all add: same_fat_bytes)
  then have s1: "same_vol fs ?f1" "vol_ok C ?f1" and b: "fat_byte C ?f1 (i + 1) = ?B (i + 1)"
    using i by (auto simp: has_bytes_def)
  have i': "i + 1 < 512 * unat (fsize ?f1)" using i by (simp only: same_volD[OF s1(1)])
  obtain f2 where f2: "move_window K (fatbase ?f1 + of_nat ((i + 1) div 512)) ?f1 = Some (FR_OK, f2)" "same_fat C ?f1 f2"
    "winsect f2 = fatbase ?f1 + of_nat ((i + 1) div 512)" "win f2 ! ((i + 1) mod 512) = fat_byte C ?f1 (i + 1)"
    by (rule move_fatE[OF g s1(2) i']) (use i' in iprover)
  have "has_bytes C fs f2 (?B(i := b0))" by (rule has_bytes_trans[OF h1 f2(2)])
  then have "has_bytes C fs (poke f2 (i + 1) b1) (?B(i := b0, i + 1 := b1))"
    using f2(3) i by (intro poke_bytes) (simp_all only: same_volD[OF s1(1)])
  moreover have "entry (fs_type fs) (?B(i := b0, i + 1 := b1)) c = (if c = k then v AND fat_mask fs else fat_val C fs c)" for c
    using entry_put12_even[OF ty, of k ?B v c] entry_put12_odd[OF ty, of k ?B v c]
    by (cases "odd k") (simp_all add: i_def[symmetric] b0_def b1_def fat_mask_def ty fat_val_def)
  moreover have "in_fat fs (winsect (poke f2 (i + 1) b1))"
    using in_fatI[OF i(2)] by (simp only: poke_simps(1) f2(3) same_volD[OF s1(1)])
  ultimately have "fat_put C fs k v (poke f2 (i + 1) b1)"
    by (intro put_bytes_val[OF _ cb(1)])
  moreover have "put_fat K clst v fs = Some (FR_OK, poke f2 (i + 1) b1)"
  proof -
    have p1: "f1\<lparr>win := (win f1)[i mod 512 := b0], wflag := 1\<rparr> = ?f1" by (simp add: poke_def)
    have e0: "(if odd k then (win f1 ! (i mod 512) AND 0x0F) OR push_bit 4 (ucast v) else ucast v) = b0"
      by (simp add: b0_def f1(4))
    have e1: "(if odd k then ucast (drop_bit 4 v) else (win f2 ! ((i + 1) mod 512) AND 0xF0) OR (ucast (drop_bit 8 v) AND 0x0F)) = b1"
      by (simp only: b1_def f2(4) b)
    show ?thesis
      unfolding put_fat_def ix odd_word k_def[symmetric] i_def[symmetric] Let_def f1(1)
      using cb(5) ty by (simp only: bind.simps prod.case e0 p1 f2(1) e1 if_True if_False simp_thms) (simp add: poke_def)
  qed
  ultimately show ?thesis unfolding k_def by blast
qed

lemma put_fat_val:
  assumes "good_disk K C" "vol_ok C fs" "cluster fs clst"
  shows "\<exists>fs'. put_fat K clst v fs = Some (FR_OK, fs') \<and> fat_put C fs (unat clst) v fs'"
  using cluster_bounds(1)[OF assms(2,3)] put_fat12[OF assms] put_fat16[OF assms] put_fat32[OF assms]
  by (auto simp: fat_fits_def)

text \<open>
  C31: the allocation table behaves as an array of entries.  After \<^verbatim>\<open>put_fat\<close> of a value at a
  cluster, \<^verbatim>\<open>get_fat\<close> of that cluster returns the value, cut to the 12, 16 or 28 bits of an entry, and \<^verbatim>\<open>get_fat\<close> of every
  other cluster returns what it returned before, also where two FAT12 entries share a byte or an entry crosses
  a sector boundary.
\<close>

theorem fat_entry_store:
  assumes "good_disk K C" "vol_ok C fs" "cluster fs a" "cluster fs b"
  shows "\<exists>x f0 f1 f2. get_fat K b fs = Some (x, f0) \<and> put_fat K a v fs = Some (FR_OK, f1) \<and>
    get_fat K b f1 = Some (if b = a then v AND fat_mask fs else x, f2)"
proof -
  obtain f0 where f0: "get_fat K b fs = Some (fat_val C fs (unat b), f0)" using get_fat_val[OF assms(1,2,4)] by blast
  obtain f1 where f1: "put_fat K a v fs = Some (FR_OK, f1)" "fat_put C fs (unat a) v f1"
    using put_fat_val[OF assms(1-3)] by blast
  have p: "same_vol fs f1" "vol_ok C f1" using f1(2) by (auto simp: fat_put_def)
  have "cluster f1 b" using assms(4) by (simp add: cluster_def same_volD[OF p(1)])
  then obtain f2 where f2: "get_fat K b f1 = Some (fat_val C f1 (unat b), f2)" using get_fat_val[OF assms(1) p(2)] by blast
  have "unat b < unat (n_fatent fs)" using assms(4) by (simp add: cluster_nat)
  then have "fat_val C f1 (unat b) = (if b = a then v AND fat_mask fs else fat_val C fs (unat b))"
    using f1(2) by (auto simp: fat_put_def word_unat_eq_iff)
  then show ?thesis using f0 f1(1) f2 by auto
qed

text \<open>A disk in memory and a FAT12 volume of two clusters on it.\<close>

definition ram_sector :: "(u32 \<Rightarrow> u8 list) \<Rightarrow> u32 \<Rightarrow> u8 list" where
  "ram_sector d s = map (\<lambda>i. if i < length (d s) then d s ! i else 0) [0..<512]"

definition ram_disk :: "(u32 \<Rightarrow> u8 list) disk_ops" where
  "ram_disk = \<lparr>dk_read = \<lambda>p s n d. Some (RES_OK, ram_sector d s, d), dk_write = \<lambda>p w s n d. Some (RES_OK, d(s := w)),
     dk_ioctl = \<lambda>p c. RES_OK, mem_alloc = \<lambda>n d. Some (0x1000, replicate (unat n) 0, d),
     mem_free = \<lambda>p d. Some d\<rparr>"

definition ram_volume :: "u8 list \<Rightarrow> (u32 \<Rightarrow> u8 list) fatfs" where
  "ram_volume bs = \<lparr>fs_type = FS_FAT12, pdrv = 0, n_fats = 1, wflag = 0, fsi_flag = 0, fs_id = 0, n_rootdir = 16, csize = 1,
     lfnbuf = [], last_clst = 2, free_clst = 1, n_fatent = 4, fsize = 1, volbase = 0, fatbase = 1, dirbase = 2, database = 3,
     winsect = 0, win = replicate 512 0, disk = (\<lambda>s. if s = 1 then bs else [])\<rparr>"

lemma ram_simps [simp]: "n_fatent (ram_volume bs) = 4" "free_clst (ram_volume bs) = 1" "fat_mask (ram_volume bs) = 0xFFF"
  by (simp_all add: ram_volume_def fat_mask_def)

lemma ram_good: "good_disk ram_disk ram_sector"
proof -
  have w: "map (\<lambda>i. if i < length w then w ! i else 0) [0..<512] = w" if "length w = 512" for w :: "u8 list"
    using that by (intro nth_equalityI) simp_all
  have "ram_sector (d(s := w)) = (ram_sector d)(s := w)" if "length w = 512" for d s w
    using w[OF that] by (simp add: fun_eq_iff ram_sector_def cong: if_cong)
  moreover have "length (ram_sector d s) = 512" for d s by (simp add: ram_sector_def)
  ultimately show ?thesis by (simp add: good_disk_def ram_disk_def)
qed

lemma ram_vol_ok: "vol_ok ram_sector (ram_volume bs)"
  by (simp add: vol_ok_def ram_volume_def ram_sector_def fat_fits_def map_replicate_const)

lemma ram_val: "length bs \<le> 512 \<Longrightarrow> c < 300 \<Longrightarrow>
  fat_val ram_sector (ram_volume bs) c = entry FS_FAT12 (\<lambda>i. if i < length bs then bs ! i else 0) c"
  using entry_cong[of "ram_volume bs"]
  by (auto simp: fat_val_def fat_byte_def view_def ram_volume_def ram_sector_def entry_def Let_def)

theorem fat_entry_store_witness:
  "\<exists>f1 f2. put_fat ram_disk 2 0xABC (ram_volume []) = Some (FR_OK, f1) \<and> get_fat ram_disk 2 f1 = Some (0xABC, f2)"
  using fat_entry_store[OF ram_good ram_vol_ok, of "[]" 2 2 "0xABC"]
  by (auto simp: cluster_def)

end
