(* ===== verification/Fat_Chain.thy ===== *)
theory Fat_Chain
  imports Fat_Table
begin

text \<open>
  Cluster chains over the array of cluster values: \<^verbatim>\<open>remove_chain\<close> returns and frees exactly the clusters of the
  chain, \<^verbatim>\<open>create_chain\<close> returns, finds a free cluster whenever there is one, and links it at the end of the chain.
\<close>

section \<open>Values and bookkeeping\<close>

lemma le16_lt: "bit (le16 a b) n \<Longrightarrow> n < 16"
  unfolding le16_def by (auto simp: bit_simps dest: bit_imp_le_length)

lemma fat_val_lt: "fat_val C fs c < 2 ^ 28"
proof -
  have "bit (fat_val C fs c) n \<Longrightarrow> n < 28" for n
    unfolding fat_val_def entry_def Let_def nibble_masks
    by (auto simp: bit_simps split: if_splits dest!: le16_lt)
  then have "take_bit 28 (fat_val C fs c) = fat_val C fs c"
    by (intro bit_word_eqI) (auto simp: bit_simps)
  moreover have "unat (take_bit 28 (fat_val C fs c)) < 2 ^ 28"
    using take_bit_nat_less_exp[of 28 "unat (fat_val C fs c)"] by (simp add: unsigned_take_bit_eq)
  ultimately show ?thesis by (simp add: word_less_nat_alt)
qed

lemma fat_val_not_max: "fat_val C fs c \<noteq> 0xFFFFFFFF"
  using fat_val_lt[of C fs c] by auto

text \<open>The state of a volume after changes of the table and of the bookkeeping of free clusters.\<close>

definition same_geo :: "'d fatfs \<Rightarrow> 'd fatfs \<Rightarrow> bool" where
  "same_geo fs fs' \<longleftrightarrow>
     same_vol fs (fs'\<lparr>free_clst := free_clst fs, fsi_flag := fsi_flag fs, last_clst := last_clst fs\<rparr>)"

lemma same_geoD:
  assumes "same_geo fs fs'"
  shows "fs_type fs' = fs_type fs" "n_fatent fs' = n_fatent fs" "fsize fs' = fsize fs" "fatbase fs' = fatbase fs"
    "fat_mask fs' = fat_mask fs" "n_fats fs' = n_fats fs" "csize fs' = csize fs" "database fs' = database fs" "pdrv fs' = pdrv fs"
  using assms by (simp_all add: same_geo_def same_vol_iff fat_mask_def)

lemma same_geo_trans: "same_geo a b \<Longrightarrow> same_geo b c \<Longrightarrow> same_geo a c"
  by (simp add: same_geo_def same_vol_iff)

lemma same_vol_geo: "same_vol fs fs' \<Longrightarrow> same_geo fs fs'"
  by (simp add: same_geo_def same_vol_iff)

lemma book_geo [simp]:
  "same_geo fs (fs\<lparr>free_clst := x, fsi_flag := y\<rparr>)" "same_geo fs (fs\<lparr>last_clst := z\<rparr>)"
  by (simp_all add: same_geo_def same_vol_iff)

lemma book_val [simp]:
  "fat_val C (fs\<lparr>free_clst := x, fsi_flag := y\<rparr>) c = fat_val C fs c" "fat_val C (fs\<lparr>last_clst := z\<rparr>) c = fat_val C fs c"
  "vol_ok C (fs\<lparr>free_clst := x, fsi_flag := y\<rparr>) = vol_ok C fs" "vol_ok C (fs\<lparr>last_clst := z\<rparr>) = vol_ok C fs"
  by (simp_all add: fat_val_def fat_byte_def[abs_def] view_def vol_ok_def fat_fits_def cong: if_cong)

lemma book_data [simp]:
  "keeps_data C fs (fs'\<lparr>free_clst := x, fsi_flag := y\<rparr>) = keeps_data C fs fs'" "keeps_data C fs (fs'\<lparr>last_clst := z\<rparr>) = keeps_data C fs fs'"
  by (simp_all add: keeps_data_def view_def)

lemma keeps_geo_trans: "keeps_data C a b \<Longrightarrow> keeps_data C b c \<Longrightarrow> same_geo a b \<Longrightarrow> keeps_data C a c"
  by (rule keeps_trans[of C a b c]) (simp_all add: same_geoD)

lemma all_and_mask: "0xFFFFFFFF AND fat_mask fs = fat_mask fs"
  by (simp add: fat_mask_def)

lemma fat_putD:
  assumes "fat_put C fs k v fs'"
  shows "same_vol fs fs'" "vol_ok C fs'" "same_geo fs fs'"
    "c < unat (n_fatent fs) \<Longrightarrow> fat_val C fs' c = (if c = k then v AND fat_mask fs else fat_val C fs c)" "keeps_data C fs fs'" "in_fat fs (winsect fs')"
  using assms by (auto simp: fat_put_def same_vol_geo)

lemma same_fatD:
  assumes "same_fat C fs fs'" "vol_ok C fs"
  shows "same_vol fs fs'" "vol_ok C fs'" "same_geo fs fs'" "c < unat (n_fatent fs) \<Longrightarrow> fat_val C fs' c = fat_val C fs c"
    "keeps_data C fs fs'"
  using assms fat_val_cong[OF assms(1)] by (auto simp: same_fat_def vol_ok_def same_vol_geo)

section \<open>Removing a chain\<close>

fun chain :: "(nat \<Rightarrow> u32) \<Rightarrow> u32 \<Rightarrow> u32 list \<Rightarrow> bool" where
  "chain V n [] = False"
| "chain V n [c] = (2 \<le> c \<and> c < n \<and> n \<le> V (unat c))"
| "chain V n (c # d # cs) = (2 \<le> c \<and> c < n \<and> V (unat c) = d \<and> chain V n (d # cs))"

lemma chain_cong: "(\<And>c. c \<in> set cs \<Longrightarrow> V (unat c) = W (unat c)) \<Longrightarrow> chain V n cs = chain W n cs"
  by (induction V n cs rule: chain.induct) auto

lemma chain_range: "chain V n (c # cs) \<Longrightarrow> 2 \<le> c \<and> c < n"
  by (cases cs) auto

lemma chain_next: "chain V n (c # cs) \<Longrightarrow> 2 \<le> V (unat c)"
  by (cases cs) (auto dest: chain_range elim: order_trans)

text \<open>
  The state after the clusters of \<open>S\<close> are freed; the count of free clusters stops at the number of clusters, and a
  count that is out of range (unknown) is left alone.
\<close>

definition freed :: "('d \<Rightarrow> u32 \<Rightarrow> u8 list) \<Rightarrow> u32 set \<Rightarrow> nat \<Rightarrow> 'd fatfs \<Rightarrow> 'd fatfs \<Rightarrow> bool" where
  "freed C S k fs fs' \<longleftrightarrow> same_geo fs fs' \<and> vol_ok C fs' \<and> keeps_data C fs fs' \<and> last_clst fs' = last_clst fs \<and>
     (\<forall>c < unat (n_fatent fs). fat_val C fs' c = (if c \<in> unat ` S then 0 else fat_val C fs c)) \<and>
     unat (free_clst fs') =
       (let m = unat (n_fatent fs) - 2; f = unat (free_clst fs) in if f < m then min (f + k) m else f)"

definition count_freed :: "'d fatfs \<Rightarrow> 'd fatfs" where
  "count_freed fs = (if free_clst fs < n_fatent fs - 2
     then fs\<lparr>free_clst := free_clst fs + 1, fsi_flag := fsi_flag fs OR 1\<rparr> else fs)"

lemma count_freed_geo [simp]:
  "same_geo fs (count_freed fs)" "fat_val C (count_freed fs) = fat_val C fs" "vol_ok C (count_freed fs) = vol_ok C fs"
  "n_fatent (count_freed fs) = n_fatent fs" "last_clst (count_freed fs) = last_clst fs"
  "keeps_data C fs0 (count_freed fs) = keeps_data C fs0 fs"
  by (simp_all add: count_freed_def fun_eq_iff) (simp_all add: same_geo_def)

lemma count_freed_count:
  assumes "2 \<le> n_fatent fs"
  shows "unat (free_clst (count_freed fs)) =
    (let m = unat (n_fatent fs) - 2; f = unat (free_clst fs) in if f < m then f + 1 else f)"
proof -
  have "unat (n_fatent fs - 2) = unat (n_fatent fs) - 2" using assms by (simp add: unat_sub)
  moreover have "unat (f + 1) = unat f + 1" if "unat f < unat (n_fatent fs)" for f :: u32
    using that unsigned_less[of "n_fatent fs", where 'a = nat] by (simp add: unat_word_ariths)
  ultimately show ?thesis by (auto simp: count_freed_def word_less_nat_alt Let_def)
qed

lemma remove_links_step:
  assumes g: "good_disk K C" and ok: "vol_ok C fs" and c: "cluster fs clst" and v: "2 \<le> fat_val C fs (unat clst)"
  shows "\<exists>fs1. fat_put C fs (unat clst) 0 fs1 \<and>
    remove_links K clst fs = (if fat_val C fs (unat clst) < n_fatent fs
      then remove_links K (fat_val C fs (unat clst)) (count_freed fs1) else Some (FR_OK, count_freed fs1))"
proof -
  let ?v = "fat_val C fs (unat clst)"
  obtain f where f: "get_fat K clst fs = Some (?v, f)" "same_fat C fs f" using get_fat_val[OF g ok c] by blast
  note fd = same_fatD[OF f(2) ok]
  have "cluster f clst" using c by (simp add: cluster_def same_volD[OF fd(1)])
  then obtain f1 where f1: "put_fat K clst 0 f = Some (FR_OK, f1)" "fat_put C f (unat clst) 0 f1"
    using put_fat_val[OF g fd(2)] by blast
  note pd = fat_putD[OF f1(2)]
  have s: "same_vol fs f1" by (rule same_vol_trans[OF fd(1) pd(1)])
  have nz: "?v \<noteq> 0" "?v \<noteq> 1" using v by (auto simp: word_le_nat_alt)
  have "fat_put C fs (unat clst) 0 f1"
    using f1(2) fd(4) s keeps_vol_trans[OF fd(5) pd(5) fd(1)] in_fat_cong[of f fs] by (auto simp: fat_put_def same_volD[OF fd(1)] fat_mask_def)
  moreover have "remove_links K clst fs = (if ?v < n_fatent fs then remove_links K ?v (count_freed f1) else Some (FR_OK, count_freed f1))"
    using f(1) f1(1) nz fat_val_not_max[of C fs "unat clst"]
    by (subst remove_links.simps) (simp add: count_freed_def[symmetric] same_volD[OF s] Let_def)
  ultimately show ?thesis by blast
qed

lemma freed_trans:
  assumes "freed C S k a b" "freed C T l b c"
  shows "freed C (S \<union> T) (k + l) a c"
proof -
  note g = same_geoD[of a b]
  show ?thesis
    using assms g same_geo_trans[of a b c] keeps_geo_trans[of C a b c] unfolding freed_def Let_def
    by (auto simp: min_def image_Un split: if_splits)
qed

lemma chain_all: "chain V n cs \<Longrightarrow> c \<in> set cs \<Longrightarrow> 2 \<le> c \<and> c < n"
  by (induction V n cs rule: chain.induct) auto

lemma remove_links_spec:
  assumes "good_disk K C" "vol_ok C fs" "chain (fat_val C fs) (n_fatent fs) cs" "distinct cs"
  shows "\<exists>fs'. remove_links K (hd cs) fs = Some (FR_OK, fs') \<and> freed C (set cs) (length cs) fs fs'"
  using assms
proof (induction cs arbitrary: fs)
  case Nil
  then show ?case by simp
next
  case cons: (Cons c cs)
  have c: "cluster fs c" using chain_range[OF cons.prems(3)] by (simp add: cluster_def)
  then have n2: "2 \<le> n_fatent fs" by (auto simp: cluster_def)
  obtain f1 where f1: "fat_put C fs (unat c) 0 f1"
    "remove_links K c fs = (if fat_val C fs (unat c) < n_fatent fs
      then remove_links K (fat_val C fs (unat c)) (count_freed f1) else Some (FR_OK, count_freed f1))"
    using remove_links_step[OF cons.prems(1,2) c chain_next[OF cons.prems(3)]] by blast
  note pd = fat_putD[OF f1(1)]
  have nf: "n_fatent f1 = n_fatent fs" "free_clst f1 = free_clst fs" "last_clst f1 = last_clst fs"
    by (rule same_volD[OF pd(1)])+
  have one: "freed C {c} 1 fs (count_freed f1)"
    using pd same_geo_trans[OF pd(3)] count_freed_count[of f1] n2
    by (auto simp: freed_def nf Let_def)
  show ?case
  proof (cases cs)
    case Nil
    then show ?thesis using one f1(2) cons.prems(3) by (auto simp: not_less)
  next
    case (Cons d ds)
    let ?f = "count_freed f1"
    have d: "fat_val C fs (unat c) = d" and ch: "chain (fat_val C fs) (n_fatent fs) cs"
      using cons.prems(3) Cons by auto
    have "d < n_fatent fs" using chain_range[of _ _ d ds] ch Cons by simp
    then have r: "remove_links K c fs = remove_links K (hd cs) ?f" using f1(2) d Cons by simp
    have "fat_val C ?f (unat e) = fat_val C fs (unat e)" if "e \<in> set cs" for e
      using that pd(4)[of "unat e"] chain_all[OF ch that] cons.prems(4) by (auto simp: word_less_nat_alt dest: word_unat_eq_iff[THEN iffD2])
    then have "chain (fat_val C ?f) (n_fatent ?f) cs"
      using ch chain_cong[of cs "fat_val C ?f" "fat_val C fs"] by (simp add: nf)
    then obtain f2 where "remove_links K (hd cs) ?f = Some (FR_OK, f2)" "freed C (set cs) (length cs) ?f f2"
      using cons.IH[of ?f] cons.prems(1,4) pd(2) by auto
    then show ?thesis using r freed_trans[OF one] by auto
  qed
qed

text \<open>
  C32: removing a chain returns without an error and writes 0 into the table entry of every
  cluster of the chain and of no other; with a previous cluster given, that cluster becomes the end of its chain.  It
  holds for FAT12, FAT16 and FAT32 volumes, whatever sector the window held, and the count of free clusters grows by
  the length of the chain up to the number of clusters.  No sector outside the two tables changes.
\<close>

theorem remove_chain_frees:
  assumes "good_disk K C" "vol_ok C fs" "chain (fat_val C fs) (n_fatent fs) (clst # cs)" "distinct (clst # cs)"
    and "pclst = 0 \<or> cluster fs pclst \<and> pclst \<notin> set (clst # cs)"
  shows "\<exists>fs'. remove_chain K clst pclst fs = Some (FR_OK, fs') \<and> vol_ok C fs' \<and> keeps_data C fs fs' \<and>
    (\<forall>c < unat (n_fatent fs). fat_val C fs' c =
       (if c \<in> unat ` set (clst # cs) then 0 else if pclst \<noteq> 0 \<and> c = unat pclst then fat_mask fs else fat_val C fs c)) \<and>
    unat (free_clst fs') =
      (let m = unat (n_fatent fs) - 2; f = unat (free_clst fs) in if f < m then min (f + length (clst # cs)) m else f)"
proof -
  have c: "\<not> (clst < 2 \<or> clst \<ge> n_fatent fs)" using chain_range[OF assms(3)] by auto
  show ?thesis
  proof (cases "pclst = 0")
    case True
    then show ?thesis
      using remove_links_spec[OF assms(1-4)] c by (auto simp: remove_chain_def freed_def Let_def)
  next
    case False
    obtain f where f: "put_fat K pclst 0xFFFFFFFF fs = Some (FR_OK, f)" "fat_put C fs (unat pclst) 0xFFFFFFFF f"
      using put_fat_val[OF assms(1,2)] assms(5) False by blast
    note pd = fat_putD[OF f(2)]
    have "fat_val C f (unat e) = fat_val C fs (unat e)" if "e \<in> set (clst # cs)" for e
      using that pd(4)[of "unat e"] chain_all[OF assms(3) that] assms(5) False
      by (auto simp: word_less_nat_alt dest: word_unat_eq_iff[THEN iffD2])
    then have "chain (fat_val C f) (n_fatent f) (clst # cs)"
      using assms(3) chain_cong[of "clst # cs" "fat_val C f" "fat_val C fs"] by (simp add: same_volD[OF pd(1)])
    from remove_links_spec[OF assms(1) pd(2) this assms(4)] obtain f' where
      f': "remove_links K clst f = Some (FR_OK, f')" "freed C (set (clst # cs)) (length (clst # cs)) f f'" by auto
    have "remove_chain K clst pclst fs = Some (FR_OK, f')"
      using False c f f' by (simp add: remove_chain_def)
    then show ?thesis
      using f'(2) pd(4,5) False keeps_geo_trans[OF pd(5) _ pd(3)] by (auto simp: freed_def all_and_mask same_volD[OF pd(1)] Let_def)
  qed
qed

section \<open>Finding a free cluster\<close>

text \<open>The answer of a search over the clusters of \<open>S\<close>: a free one, or 0 when none of them is free.\<close>

definition found :: "('d \<Rightarrow> u32 \<Rightarrow> u8 list) \<Rightarrow> 'd fatfs \<Rightarrow> nat set \<Rightarrow> u32 + u32 \<Rightarrow> bool" where
  "found C fs S r = (case r of Inl c \<Rightarrow> cluster fs c \<and> unat c \<in> S \<and> fat_val C fs (unat c) = 0
     | Inr v \<Rightarrow> v = 0 \<and> (\<forall>c \<in> S. fat_val C fs c \<noteq> 0))"

text \<open>No cluster is marked with the value 1, which no table uses.\<close>

definition fat_sane :: "('d \<Rightarrow> u32 \<Rightarrow> u8 list) \<Rightarrow> 'd fatfs \<Rightarrow> bool" where
  "fat_sane C fs \<longleftrightarrow> (\<forall>c < unat (n_fatent fs). 2 \<le> c \<longrightarrow> fat_val C fs c \<noteq> 1)"

definition searched :: "('d \<Rightarrow> u32 \<Rightarrow> u8 list) \<Rightarrow> 'd fatfs \<Rightarrow> nat set \<Rightarrow> ((u32 + u32) \<times> 'd fatfs) option \<Rightarrow> bool" where
  "searched C fs S x \<longleftrightarrow> (\<exists>r fs'. x = Some (r, fs') \<and> same_fat C fs fs' \<and> found C fs S r)"

lemma sane_cong: "same_fat C fs fs' \<Longrightarrow> vol_ok C fs \<Longrightarrow> fat_sane C fs' = fat_sane C fs"
  using same_fatD[of C fs fs'] by (auto simp: fat_sane_def same_volD)

lemma found_cong:
  assumes "same_fat C fs fs'" "vol_ok C fs" "S \<subseteq> {..<unat (n_fatent fs)}"
  shows "found C fs' S r = found C fs S r"
proof -
  have n: "n_fatent fs' = n_fatent fs" using same_fatD(1)[OF assms(1,2)] by (simp add: same_volD)
  have "fat_val C fs' c = fat_val C fs c" if "c \<in> S" for c
    using same_fatD(4)[OF assms(1,2), of c] assms(3) that by auto
  then show ?thesis by (auto simp: found_def cluster_def n split: sum.split)
qed

lemma searched_step:
  assumes "same_fat C fs fs1" "vol_ok C fs" "S \<subseteq> {..<unat (n_fatent fs)}" "searched C fs1 S x" "fat_val C fs k \<noteq> 0"
  shows "searched C fs (insert k S) x"
proof -
  obtain r fs' where x: "x = Some (r, fs')" "same_fat C fs1 fs'" "found C fs1 S r"
    using assms(4) by (auto simp: searched_def)
  have "found C fs S r" using x(3) found_cong[OF assms(1-3)] by simp
  then have "found C fs (insert k S) r" using assms(5) by (auto simp: found_def split: sum.splits)
  then show ?thesis using x same_fat_trans[OF assms(1) x(2)] by (auto simp: searched_def)
qed

lemma find_step:
  assumes g: "good_disk K C" and ok: "vol_ok C fs" and sane: "fat_sane C fs" and c: "cluster fs (ncl + 1)"
  shows "\<exists>fs1. same_fat C fs fs1 \<and> find_free_clst K scl ncl fs =
    (if fat_val C fs (unat (ncl + 1)) = 0 then Some (Inl (ncl + 1), fs1)
     else if ncl + 1 = scl then Some (Inr 0, fs1) else find_free_clst K scl (ncl + 1) fs1)"
proof -
  let ?v = "fat_val C fs (unat (ncl + 1))"
  obtain f where f: "get_fat K (ncl + 1) fs = Some (?v, f)" "same_fat C fs f" using get_fat_val[OF g ok c] by blast
  have "?v \<noteq> 1" using c sane unfolding fat_sane_def cluster_nat by blast
  then show ?thesis
    using f c fat_val_not_max[of C fs "unat (ncl + 1)"]
    by (intro exI[of _ f], subst find_free_clst.simps) (simp add: cluster_def Let_def not_le[symmetric])
qed

lemma find_up:
  assumes "good_disk K C" "vol_ok C fs" "fat_sane C fs" "unat ncl < unat scl" "scl < n_fatent fs" "ncl \<ge> 1"
  shows "searched C fs {unat ncl <.. unat scl} (find_free_clst K scl ncl fs)"
  using assms
proof (induction "unat scl - unat ncl" arbitrary: ncl fs)
  case 0
  then show ?case by simp
next
  case (Suc d)
  have u: "unat (ncl + 1) = unat ncl + 1"
    using Suc.prems(4) unsigned_less[of scl, where 'a = nat] by (simp add: unat_word_ariths)
  have n: "unat scl < unat (n_fatent fs)" using Suc.prems(5) by (simp add: word_less_nat_alt)
  have c: "cluster fs (ncl + 1)" using u n Suc.prems(4,6) by (simp add: cluster_nat word_le_nat_alt)
  obtain f where f: "same_fat C fs f" "find_free_clst K scl ncl fs =
    (if fat_val C fs (unat (ncl + 1)) = 0 then Some (Inl (ncl + 1), f)
     else if ncl + 1 = scl then Some (Inr 0, f) else find_free_clst K scl (ncl + 1) f)"
    using find_step[OF Suc.prems(1-3) c] by blast
  note fd = same_fatD[OF f(1) Suc.prems(2)]
  have S: "{unat ncl <.. unat scl} = insert (unat (ncl + 1)) {unat (ncl + 1) <.. unat scl}" using u Suc.prems(4) by auto
  show ?case
  proof (cases "fat_val C fs (unat (ncl + 1)) = 0 \<or> ncl + 1 = scl")
    case True
    then show ?thesis using f c u Suc.prems(4) unfolding S by (auto simp: searched_def found_def)
  next
    case False
    then have ne: "unat (ncl + 1) \<noteq> unat scl" by (simp add: word_unat_eq_iff)
    have "searched C f {unat (ncl + 1) <.. unat scl} (find_free_clst K scl (ncl + 1) f)"
      using ne u Suc.prems Suc.hyps(2) fd sane_cong[OF f(1) Suc.prems(2)]
      by (intro Suc.hyps(1)) (auto simp: same_volD[OF fd(1)] word_le_nat_alt)
    then show ?thesis
      using False f(2) n searched_step[OF f(1) Suc.prems(2)] unfolding S by (simp add: subset_eq)
  qed
qed

text \<open>The search from \<open>scl\<close>: up to the last cluster, then from cluster 2 up to \<open>scl\<close> again.\<close>

lemma find_wrap:
  assumes "ncl + 1 \<ge> n_fatent fs" "2 \<le> scl" "scl < n_fatent fs"
  shows "find_free_clst K scl ncl fs = find_free_clst K scl 1 fs"
proof -
  have "2 < n_fatent fs" using assms(2,3) by simp
  then show ?thesis using assms by (subst (1 2) find_free_clst.simps) (simp add: Let_def not_le[symmetric])
qed

lemma find_all:
  assumes "good_disk K C" "vol_ok C fs" "fat_sane C fs" "unat scl \<le> unat ncl" "1 \<le> scl" "unat scl < max 2 (unat (n_fatent fs))"
    "unat ncl < max 2 (unat (n_fatent fs))"
  shows "searched C fs ({unat ncl <..< unat (n_fatent fs)} \<union> {2 .. unat scl}) (find_free_clst K scl ncl fs)"
  using assms
proof (induction "unat (n_fatent fs) - unat ncl" arbitrary: ncl fs rule: less_induct)
  case less
  let ?n = "unat (n_fatent fs)"
  have n28: "?n < 2 ^ 28" using less.prems(2) by (simp add: vol_ok_def fat_fits_def)
  have u: "unat (ncl + 1) = unat ncl + 1" using less.prems(7) n28 by (simp add: unat_word_ariths)
  show ?case
  proof (cases "unat ncl + 1 < ?n")
    case False
    then have e: "{unat ncl <..< ?n} = {}" and w: "ncl + 1 \<ge> n_fatent fs" using u by (auto simp: word_le_nat_alt)
    show ?thesis
    proof (cases "2 \<le> unat scl")
      case True
      then have s: "2 \<le> scl" "scl < n_fatent fs" using less.prems(6) by (auto simp: word_le_nat_alt word_less_nat_alt)
      have "{1 <.. unat scl} = {2 .. unat scl}" by auto
      then show ?thesis
        using find_up[OF less.prems(1-3), of 1 scl] True s find_wrap[OF w s] by (simp add: e)
    next
      case f2: False
      then have "scl < 2" by (simp add: word_less_nat_alt)
      then have "find_free_clst K scl ncl fs = Some (Inr 0, fs)"
        using w by (subst find_free_clst.simps) (simp add: Let_def)
      moreover have "same_fat C fs fs" using less.prems(2) by (simp add: same_fat_def)
      ultimately show ?thesis using f2 by (auto simp: searched_def found_def e)
    qed
  next
    case True
    have s1: "1 \<le> unat scl" using less.prems(5) by (simp add: word_le_nat_alt)
    have c: "cluster fs (ncl + 1)" using u True s1 less.prems(4) by (simp add: cluster_nat)
    have ne: "ncl + 1 \<noteq> scl" using u less.prems(4) by auto
    obtain f where f: "same_fat C fs f" "find_free_clst K scl ncl fs =
      (if fat_val C fs (unat (ncl + 1)) = 0 then Some (Inl (ncl + 1), f) else find_free_clst K scl (ncl + 1) f)"
      using find_step[OF less.prems(1-3) c, where scl = scl] ne by auto
    note fd = same_fatD[OF f(1) less.prems(2)]
    have S: "{unat ncl <..< ?n} \<union> {2 .. unat scl} = insert (unat (ncl + 1)) ({unat (ncl + 1) <..< ?n} \<union> {2 .. unat scl})"
      using u True by auto
    show ?thesis
    proof (cases "fat_val C fs (unat (ncl + 1)) = 0")
      case True
      then show ?thesis using f c unfolding S by (auto simp: searched_def found_def)
    next
      case False
      have "searched C f ({unat (ncl + 1) <..< unat (n_fatent f)} \<union> {2 .. unat scl}) (find_free_clst K scl (ncl + 1) f)"
        using less.prems fd sane_cong[OF f(1) less.prems(2)] u True
        by (intro less.hyps) (auto simp: same_volD[OF fd(1)])
      moreover have "{unat (ncl + 1) <..< ?n} \<union> {2 .. unat scl} \<subseteq> {..< ?n}"
        using less.prems(6) \<open>unat ncl + 1 < ?n\<close> by auto
      ultimately have "searched C fs (insert (unat (ncl + 1)) ({unat (ncl + 1) <..< ?n} \<union> {2 .. unat scl}))
        (find_free_clst K scl (ncl + 1) f)"
        using False by (intro searched_step[OF f(1) less.prems(2)]) (simp_all add: same_volD[OF fd(1)])
      then show ?thesis using False f(2) unfolding S by simp
    qed
  qed
qed

lemma find_from_start:
  assumes "good_disk K C" "vol_ok C fs" "fat_sane C fs" "1 \<le> scl" "scl = 1 \<or> scl < n_fatent fs"
  shows "searched C fs {2 ..< unat (n_fatent fs)} (find_free_clst K scl scl fs)"
proof -
  have "unat scl < max 2 (unat (n_fatent fs))" using assms(5) by (auto simp: word_less_nat_alt)
  moreover have "{unat scl <..< unat (n_fatent fs)} \<union> {2 .. unat scl} = {2 ..< unat (n_fatent fs)}"
    using assms(4,5) by (auto simp: word_less_nat_alt word_le_nat_alt)
  ultimately show ?thesis using find_all[OF assms(1-3), of scl scl] assms(4) by simp
qed

section \<open>Stretching a chain\<close>

lemma create_search_spec:
  assumes g: "good_disk K C" and ok: "vol_ok C fs" and sane: "fat_sane C fs"
    and scl: "clst = 0 \<and> 1 \<le> scl \<and> (scl = 1 \<or> scl < n_fatent fs) \<or> scl = clst \<and> cluster fs clst"
  shows "searched C fs {2 ..< unat (n_fatent fs)} (create_search K clst scl fs)"
proof (cases "scl = clst")
  case False
  then show ?thesis using find_from_start[OF g ok sane] scl by (auto simp: create_search_def)
next
  case True
  then have c: "cluster fs clst" using scl by auto
  define ncl where "ncl = (if clst + 1 \<ge> n_fatent fs then 2 else clst + 1)"
  have u: "unat (clst + 1) = unat clst + 1" using cluster_bounds(3)[OF ok c] by (simp add: unat_word_ariths)
  have "cluster fs ncl"
    using c u by (auto simp: ncl_def cluster_nat word_le_nat_alt)
  then obtain f where f: "get_fat K ncl fs = Some (fat_val C fs (unat ncl), f)" "same_fat C fs f"
    using get_fat_val[OF g ok] by blast
  note fd = same_fatD[OF f(2) ok]
  have v1: "fat_val C fs (unat ncl) \<noteq> 1" using \<open>cluster fs ncl\<close> sane unfolding fat_sane_def cluster_nat by blast
  note eqs = True f(1) v1 fat_val_not_max[of C fs "unat ncl"]
  show ?thesis
  proof (cases "fat_val C fs (unat ncl) = 0")
    case z: True
    have "create_search K clst scl fs = Some (Inl ncl, f)"
      using eqs z by (simp add: create_search_def ncl_def[symmetric] Let_def)
    then show ?thesis using f(2) z \<open>cluster fs ncl\<close> by (simp add: searched_def found_def cluster_nat)
  next
    case False
    define s where "s = (if last_clst fs \<ge> 2 \<and> last_clst fs < n_fatent fs then last_clst fs else clst)"
    have s: "cluster fs s" using c by (auto simp: s_def cluster_def)
    have "create_search K clst scl fs = find_free_clst K s s f"
      using eqs False by (simp add: create_search_def ncl_def[symmetric] s_def same_volD[OF fd(1)] Let_def)
    moreover have "searched C f {2 ..< unat (n_fatent f)} (find_free_clst K s s f)"
      using s by (intro find_from_start[OF g fd(2)])
        (simp_all add: sane_cong[OF f(2) ok] sane cluster_def same_volD[OF fd(1)] order.trans[of 1 "2 :: u32"])
    ultimately show ?thesis
      using found_cong[OF f(2) ok] same_fat_trans[OF f(2)] by (auto simp: searched_def same_volD[OF fd(1)] subset_eq)
  qed
qed

text \<open>The state after the cluster \<open>ncl\<close> is taken and, with \<open>clst\<close> given, linked behind it.\<close>

definition linked :: "('d \<Rightarrow> u32 \<Rightarrow> u8 list) \<Rightarrow> u32 \<Rightarrow> u32 \<Rightarrow> 'd fatfs \<Rightarrow> 'd fatfs \<Rightarrow> bool" where
  "linked C clst ncl fs fs' \<longleftrightarrow> same_geo fs fs' \<and> vol_ok C fs' \<and> keeps_data C fs fs' \<and> in_fat fs (winsect fs') \<and> last_clst fs' = ncl \<and>
     (\<forall>c < unat (n_fatent fs). fat_val C fs' c =
        (if clst \<noteq> 0 \<and> c = unat clst then ncl AND fat_mask fs else if c = unat ncl then fat_mask fs else fat_val C fs c)) \<and>
     free_clst fs' = (if free_clst fs > 0 \<and> free_clst fs \<le> n_fatent fs - 2 then free_clst fs - 1 else free_clst fs)"

lemma create_link_spec:
  assumes g: "good_disk K C" and ok: "vol_ok C fs" and n: "cluster fs ncl" and c: "clst = 0 \<or> cluster fs clst"
  shows "\<exists>fs'. create_link K clst ncl fs = Some (ncl, fs') \<and> linked C clst ncl fs fs'"
proof -
  obtain f1 where f1: "put_fat K ncl 0xFFFFFFFF fs = Some (FR_OK, f1)" "fat_put C fs (unat ncl) 0xFFFFFFFF f1"
    using put_fat_val[OF g ok n] by blast
  note p1 = fat_putD[OF f1(2)]
  obtain f2 where f2: "(if clst \<noteq> 0 then put_fat K clst ncl f1 else Some (FR_OK, f1)) = Some (FR_OK, f2)"
    "same_vol fs f2" "vol_ok C f2" "keeps_data C fs f2 \<and> in_fat fs (winsect f2)" "\<And>k. k < unat (n_fatent fs) \<Longrightarrow> fat_val C f2 k =
      (if clst \<noteq> 0 \<and> k = unat clst then ncl AND fat_mask fs else fat_val C f1 k)"
  proof (cases "clst = 0")
    case True
    then show thesis using that[of f1] p1 by simp
  next
    case False
    have "cluster f1 clst" using c False by (simp add: cluster_def same_volD[OF p1(1)])
    then obtain f where f: "put_fat K clst ncl f1 = Some (FR_OK, f)" "fat_put C f1 (unat clst) ncl f"
      using put_fat_val[OF g p1(2)] by blast
    note p2 = fat_putD[OF f(2)]
    show thesis
      using that[of f] False f(1) p2 same_vol_trans[OF p1(1)] keeps_vol_trans[OF p1(5) p2(5) p1(1)] in_fat_cong[of f1 fs] by (simp add: same_volD[OF p1(1)] fat_mask_def)
  qed
  define f3 where "f3 = f2\<lparr>last_clst := ncl\<rparr>"
  define f4 where "f4 = (if free_clst f3 > 0 \<and> free_clst f3 \<le> n_fatent f3 - 2
    then f3\<lparr>free_clst := free_clst f3 - 1, fsi_flag := fsi_flag f3 OR 1\<rparr> else f3)"
  have "create_link K clst ncl fs = Some (ncl, f4)"
    using f1(1) f2(1) by (simp add: create_link_def f3_def f4_def Let_def)
  moreover have "same_geo fs f4"
    using f2(2) by (auto simp: f4_def f3_def same_geo_def same_vol_iff)
  moreover have "fat_val C f4 k = fat_val C f2 k" "vol_ok C f4" "keeps_data C fs f4" "in_fat fs (winsect f4)" for k using f2(3,4) by (simp_all add: f4_def f3_def)
  moreover have "last_clst f4 = ncl" by (simp add: f4_def f3_def)
  moreover have "free_clst f4 = (if free_clst fs > 0 \<and> free_clst fs \<le> n_fatent fs - 2 then free_clst fs - 1 else free_clst fs)"
    by (simp add: f4_def f3_def same_volD[OF f2(2)])
  ultimately show ?thesis
    using f2(5) p1(4) by (auto simp: linked_def all_and_mask)
qed

lemma linked_cong: "same_fat C fs f \<Longrightarrow> vol_ok C fs \<Longrightarrow> linked C clst ncl f f' \<Longrightarrow> linked C clst ncl fs f'"
  using same_fatD[of C fs f] same_geoD[of fs f] in_fat_cong[of f fs] by (auto simp: linked_def same_volD intro: same_geo_trans keeps_geo_trans)

lemma create_alloc_spec:
  assumes g: "good_disk K C" and ok: "vol_ok C fs" and sane: "fat_sane C fs" and free: "free_clst fs \<noteq> 0"
    and scl: "clst = 0 \<and> 1 \<le> scl \<and> (scl = 1 \<or> scl < n_fatent fs) \<or> scl = clst \<and> cluster fs clst"
  shows "\<exists>ncl fs'. create_alloc K clst scl fs = Some (ncl, fs') \<and>
    (if \<exists>c \<in> {2 ..< unat (n_fatent fs)}. fat_val C fs c = 0
     then cluster fs ncl \<and> fat_val C fs (unat ncl) = 0 \<and> linked C clst ncl fs fs' else ncl = 0 \<and> same_fat C fs fs')"
proof -
  obtain r f where f: "create_search K clst scl fs = Some (r, f)" "same_fat C fs f" "found C fs {2 ..< unat (n_fatent fs)} r"
    using create_search_spec[OF g ok sane scl] by (auto simp: searched_def)
  note fd = same_fatD[OF f(2) ok]
  show ?thesis
  proof (cases r)
    case (Inr v)
    then show ?thesis using f free by (auto simp: create_alloc_def found_def)
  next
    case (Inl ncl)
    have n: "cluster fs ncl" "fat_val C fs (unat ncl) = 0" using f(3) Inl by (auto simp: found_def)
    have "cluster f ncl" "clst = 0 \<or> cluster f clst" using n scl by (auto simp: cluster_def same_volD[OF fd(1)])
    then obtain f' where "create_link K clst ncl f = Some (ncl, f')" "linked C clst ncl f f'"
      using create_link_spec[OF g fd(2)] by blast
    then show ?thesis
      using f Inl n free linked_cong[OF f(2) ok] by (auto simp: create_alloc_def cluster_nat)
  qed
qed

lemma create_chain_spec:
  assumes "good_disk K C" "vol_ok C fs" "fat_sane C fs" "free_clst fs \<noteq> 0"
    and "clst = 0 \<or> cluster fs clst \<and> fat_val C fs (unat clst) \<ge> n_fatent fs"
  shows "\<exists>ncl fs'. create_chain K clst fs = Some (ncl, fs') \<and>
    (if \<exists>c \<in> {2 ..< unat (n_fatent fs)}. fat_val C fs c = 0
     then cluster fs ncl \<and> fat_val C fs (unat ncl) = 0 \<and> linked C clst ncl fs fs' else ncl = 0 \<and> same_fat C fs fs')"
proof (cases "clst = 0")
  case True
  let ?s = "if last_clst fs = 0 \<or> last_clst fs \<ge> n_fatent fs then 1 else last_clst fs"
  have "1 \<le> ?s" "?s = 1 \<or> ?s < n_fatent fs" by (auto simp: word_le_nat_alt word_less_nat_alt unat_gt_0 Suc_le_eq)
  then show ?thesis
    using create_alloc_spec[OF assms(1-4), of clst ?s] True by (simp add: create_chain_def Let_def)
next
  case False
  then have c: "cluster fs clst" and v: "fat_val C fs (unat clst) \<ge> n_fatent fs" using assms(5) by auto
  obtain f where f: "get_fat K clst fs = Some (fat_val C fs (unat clst), f)" "same_fat C fs f"
    using get_fat_val[OF assms(1,2) c] by blast
  note fd = same_fatD[OF f(2) assms(2)]
  have n: "\<not> fat_val C fs (unat clst) < 2" "\<not> fat_val C fs (unat clst) < n_fatent fs" using v c by (auto simp: cluster_def)
  have "create_chain K clst fs = create_alloc K clst clst f"
    using f(1) n False fat_val_not_max[of C fs "unat clst"] by (simp add: create_chain_def same_volD[OF fd(1)] Let_def)
  moreover have "cluster f clst" "fat_sane C f" "free_clst f \<noteq> 0"
    using c assms(3,4) sane_cong[OF f(2) assms(2)] by (simp_all add: cluster_def same_volD[OF fd(1)])
  ultimately obtain ncl f' where a: "create_chain K clst fs = Some (ncl, f')" "if \<exists>c \<in> {2 ..< unat (n_fatent f)}. fat_val C f c = 0
     then cluster f ncl \<and> fat_val C f (unat ncl) = 0 \<and> linked C clst ncl f f' else ncl = 0 \<and> same_fat C f f'"
    using create_alloc_spec[OF assms(1) fd(2), of clst clst] by auto
  have "(\<exists>c \<in> {2 ..< unat (n_fatent f)}. fat_val C f c = 0) = (\<exists>c \<in> {2 ..< unat (n_fatent fs)}. fat_val C fs c = 0)"
    using fd(4) by (auto simp: same_volD[OF fd(1)])
  then show ?thesis
    using a fd(4)[of "unat ncl"] linked_cong[OF f(2) assms(2)] same_fat_trans[OF f(2)]
    by (auto simp: cluster_nat same_volD[OF fd(1)] split: if_splits)
qed

lemma create_chain_full:
  assumes "good_disk K C" "vol_ok C fs" "free_clst fs = 0"
    and "clst = 0 \<or> cluster fs clst \<and> fat_val C fs (unat clst) \<ge> n_fatent fs"
  shows "\<exists>fs'. create_chain K clst fs = Some (0, fs') \<and> same_fat C fs fs'"
proof (cases "clst = 0")
  case True
  then show ?thesis using assms(2,3) by (simp add: create_chain_def create_alloc_def Let_def same_fat_def)
next
  case False
  then have c: "cluster fs clst" and v: "fat_val C fs (unat clst) \<ge> n_fatent fs" using assms(4) by auto
  obtain f where f: "get_fat K clst fs = Some (fat_val C fs (unat clst), f)" "same_fat C fs f"
    using get_fat_val[OF assms(1,2) c] by blast
  note fd = same_fatD[OF f(2) assms(2)]
  have n: "\<not> fat_val C fs (unat clst) < 2" "\<not> fat_val C fs (unat clst) < n_fatent fs" using v c by (auto simp: cluster_def)
  have "create_chain K clst fs = Some (0, f)"
    using f(1) n False assms(3) fat_val_not_max[of C fs "unat clst"]
    by (simp add: create_chain_def create_alloc_def same_volD[OF fd(1)] Let_def)
  then show ?thesis using f(2) by blast
qed



theorem remove_chain_frees_witness:
  "\<exists>fs'. remove_chain ram_disk 2 0 (ram_volume [0xF8, 0xFF, 0xFF, 0x03, 0xF0, 0xFF]) = Some (FR_OK, fs') \<and>
    fat_val ram_sector fs' 3 = 0"
proof -
  let ?fs = "ram_volume [0xF8, 0xFF, 0xFF, 0x03, 0xF0, 0xFF]"
  have v: "fat_val ram_sector ?fs 2 = 3" "fat_val ram_sector ?fs 3 = 0xFFF"
    by (simp_all add: ram_val entry_def FS_FAT12_def le16_def)
  have "chain (fat_val ram_sector ?fs) (n_fatent ?fs) [2, 3]" using v by simp
  from remove_chain_frees[OF ram_good ram_vol_ok this, of 0] show ?thesis by auto
qed

end
