(* ===== verification/Fat_Names.thy ===== *)
theory Fat_Names
  imports Fat_Chain
begin

text \<open>
  Character codes and names of the FAT file system: \<^verbatim>\<open>kernel/src/fs/fat/ffunicode.c\<close> for code page 932 and the name
  functions of \<^verbatim>\<open>ff.c\<close> with long file names.  The two conversion tables of the code page, 7389 pairs each, are an
  argument \<open>T\<close> of the functions that search them.  A path is the list of its remaining bytes; reading at its end gives
  the terminating zero.  A name entry is a buffer and the offset of the entry in it.
\<close>

section \<open>Character conversion\<close>

record codepage =
  uni2oem :: "u16 list"
  oem2uni :: "u16 list"

definition FF_CODE_PAGE :: u16 where "FF_CODE_PAGE = 932"

text \<open>The search of a pair by its first element; it stops after \<open>n\<close> steps.\<close>

fun cvt_search :: "u16 list \<Rightarrow> u16 \<Rightarrow> nat \<Rightarrow> u32 \<Rightarrow> u32 \<Rightarrow> u32 option" where
  "cvt_search p uc 0 li hi = None"
| "cvt_search p uc (Suc n) li hi =
     (let i = li + (hi - li) div 2 in
      if uc = p ! unat (i * 2) then Some i
      else if uc > p ! unat (i * 2) then cvt_search p uc n i hi
      else cvt_search p uc n li i)"

definition cvt_lookup :: "u16 list \<Rightarrow> u16 \<Rightarrow> u16" where
  "cvt_lookup p uc =
     (case cvt_search p uc 16 0 (of_nat (length p div 2) - 1) of None \<Rightarrow> 0 | Some i \<Rightarrow> p ! unat (i * 2 + 1))"

definition ff_uni2oem :: "codepage \<Rightarrow> u32 \<Rightarrow> u16 \<Rightarrow> u16" where
  "ff_uni2oem T uni cp =
     (if uni < 0x80 then ucast uni
      else if uni < 0x10000 \<and> cp = FF_CODE_PAGE then cvt_lookup (uni2oem T) (ucast uni)
      else 0)"

definition ff_oem2uni :: "codepage \<Rightarrow> u16 \<Rightarrow> u16 \<Rightarrow> u16" where
  "ff_oem2uni T oem cp =
     (if oem < 0x80 then oem else if cp = FF_CODE_PAGE then cvt_lookup (oem2uni T) oem else 0)"

section \<open>Upper case\<close>

definition cvt1 :: "u16 list" where
  "cvt1 = [
    0x0061, 0x031A,
    0x00E0, 0x0317,
    0x00F8, 0x0307,
    0x00FF, 0x0001, 0x0178,
    0x0100, 0x0130,
    0x0132, 0x0106,
    0x0139, 0x0110,
    0x014A, 0x012E,
    0x0179, 0x0106,
    0x0180, 0x004D, 0x0243, 0x0181, 0x0182, 0x0182, 0x0184, 0x0184, 0x0186, 0x0187, 0x0187, 0x0189, 0x018A, 0x018B, 0x018B, 0x018D,
    0x018E, 0x018F, 0x0190, 0x0191, 0x0191, 0x0193, 0x0194, 0x01F6, 0x0196, 0x0197, 0x0198, 0x0198, 0x023D, 0x019B, 0x019C, 0x019D,
    0x0220, 0x019F, 0x01A0, 0x01A0, 0x01A2, 0x01A2, 0x01A4, 0x01A4, 0x01A6, 0x01A7, 0x01A7, 0x01A9, 0x01AA, 0x01AB, 0x01AC, 0x01AC,
    0x01AE, 0x01AF, 0x01AF, 0x01B1, 0x01B2, 0x01B3, 0x01B3, 0x01B5, 0x01B5, 0x01B7, 0x01B8, 0x01B8, 0x01BA, 0x01BB, 0x01BC, 0x01BC,
    0x01BE, 0x01F7, 0x01C0, 0x01C1, 0x01C2, 0x01C3, 0x01C4, 0x01C5, 0x01C4, 0x01C7, 0x01C8, 0x01C7, 0x01CA, 0x01CB, 0x01CA,
    0x01CD, 0x0110,
    0x01DD, 0x0001, 0x018E,
    0x01DE, 0x0112,
    0x01F3, 0x0003, 0x01F1, 0x01F4, 0x01F4,
    0x01F8, 0x0128,
    0x0222, 0x0112,
    0x023A, 0x0009, 0x2C65, 0x023B, 0x023B, 0x023D, 0x2C66, 0x023F, 0x0240, 0x0241, 0x0241,
    0x0246, 0x010A,
    0x0253, 0x0040, 0x0181, 0x0186, 0x0255, 0x0189, 0x018A, 0x0258, 0x018F, 0x025A, 0x0190, 0x025C, 0x025D, 0x025E, 0x025F, 0x0193,
    0x0261, 0x0262, 0x0194, 0x0264, 0x0265, 0x0266, 0x0267, 0x0197, 0x0196, 0x026A, 0x2C62, 0x026C, 0x026D, 0x026E, 0x019C, 0x0270,
    0x0271, 0x019D, 0x0273, 0x0274, 0x019F, 0x0276, 0x0277, 0x0278, 0x0279, 0x027A, 0x027B, 0x027C, 0x2C64, 0x027E, 0x027F, 0x01A6,
    0x0281, 0x0282, 0x01A9, 0x0284, 0x0285, 0x0286, 0x0287, 0x01AE, 0x0244, 0x01B1, 0x01B2, 0x0245, 0x028D, 0x028E, 0x028F, 0x0290,
    0x0291, 0x01B7,
    0x037B, 0x0003, 0x03FD, 0x03FE, 0x03FF,
    0x03AC, 0x0004, 0x0386, 0x0388, 0x0389, 0x038A,
    0x03B1, 0x0311,
    0x03C2, 0x0002, 0x03A3, 0x03A3,
    0x03C4, 0x0308,
    0x03CC, 0x0003, 0x038C, 0x038E, 0x038F,
    0x03D8, 0x0118,
    0x03F2, 0x000A, 0x03F9, 0x03F3, 0x03F4, 0x03F5, 0x03F6, 0x03F7, 0x03F7, 0x03F9, 0x03FA, 0x03FA,
    0x0430, 0x0320,
    0x0450, 0x0710,
    0x0460, 0x0122,
    0x048A, 0x0136,
    0x04C1, 0x010E,
    0x04CF, 0x0001, 0x04C0,
    0x04D0, 0x0144,
    0x0561, 0x0426,
    0x0000]"

definition cvt2 :: "u16 list" where
  "cvt2 = [
    0x1D7D, 0x0001, 0x2C63,
    0x1E00, 0x0196,
    0x1EA0, 0x015A,
    0x1F00, 0x0608,
    0x1F10, 0x0606,
    0x1F20, 0x0608,
    0x1F30, 0x0608,
    0x1F40, 0x0606,
    0x1F51, 0x0007, 0x1F59, 0x1F52, 0x1F5B, 0x1F54, 0x1F5D, 0x1F56, 0x1F5F,
    0x1F60, 0x0608,
    0x1F70, 0x000E, 0x1FBA, 0x1FBB, 0x1FC8, 0x1FC9, 0x1FCA, 0x1FCB, 0x1FDA, 0x1FDB, 0x1FF8, 0x1FF9, 0x1FEA, 0x1FEB, 0x1FFA, 0x1FFB,
    0x1F80, 0x0608,
    0x1F90, 0x0608,
    0x1FA0, 0x0608,
    0x1FB0, 0x0004, 0x1FB8, 0x1FB9, 0x1FB2, 0x1FBC,
    0x1FCC, 0x0001, 0x1FC3,
    0x1FD0, 0x0602,
    0x1FE0, 0x0602,
    0x1FE5, 0x0001, 0x1FEC,
    0x1FF3, 0x0001, 0x1FFC,
    0x214E, 0x0001, 0x2132,
    0x2170, 0x0210,
    0x2184, 0x0001, 0x2183,
    0x24D0, 0x051A,
    0x2C30, 0x042F,
    0x2C60, 0x0102,
    0x2C67, 0x0106, 0x2C75, 0x0102,
    0x2C80, 0x0164,
    0x2D00, 0x0826,
    0xFF41, 0x031A,
    0x0000]"

text \<open>The walk over the blocks of a table; \<open>p\<close> is what is left of it.\<close>

definition up_conv :: "u16 \<Rightarrow> u16 list \<Rightarrow> u16 \<Rightarrow> u16 \<Rightarrow> u16" where
  "up_conv cmd p uc bc =
     (if cmd = 0 then p ! unat (uc - bc)
      else if cmd = 1 then uc - ((uc - bc) AND 1)
      else if cmd = 2 then uc - 16
      else if cmd = 3 then uc - 32
      else if cmd = 4 then uc - 48
      else if cmd = 5 then uc - 26
      else if cmd = 6 then uc + 8
      else if cmd = 7 then uc - 80
      else if cmd = 8 then uc - 0x1C60
      else uc)"

function up_walk :: "u16 list \<Rightarrow> u16 \<Rightarrow> u16" where
  "up_walk p uc =
     (case p of
        bc # x # p \<Rightarrow>
          (if bc = 0 \<or> uc < bc then uc
           else
             (let cmd = drop_bit 8 x; nc = x AND 0xFF in
              if unat uc < unat bc + unat nc then up_conv cmd p uc bc
              else up_walk (if cmd = 0 then drop (unat nc) p else p) uc))
      | _ \<Rightarrow> uc)"
  by pat_completeness auto
termination
  by (relation "measure (\<lambda>(p, uc). length p)") auto

definition ff_wtoupper :: "u32 \<Rightarrow> u32" where
  "ff_wtoupper uni =
     (if uni < 0x10000 then ucast (up_walk (if (ucast uni :: u16) < 0x1000 then cvt1 else cvt2) (ucast uni)) else uni)"

section \<open>Encoding of the interface\<close>

definition DbcTbl :: "u8 list" where
  "DbcTbl = [0x81, 0x9F, 0xE0, 0xFC, 0x40, 0x7E, 0x80, 0xFC, 0x00, 0x00]"

definition dbc_1st :: "u8 \<Rightarrow> bool" where
  "dbc_1st c \<longleftrightarrow> c \<ge> DbcTbl ! 0 \<and> (c \<le> DbcTbl ! 1 \<or> c \<ge> DbcTbl ! 2 \<and> c \<le> DbcTbl ! 3)"

definition dbc_2nd :: "u8 \<Rightarrow> bool" where
  "dbc_2nd c \<longleftrightarrow> c \<ge> DbcTbl ! 4 \<and>
     (c \<le> DbcTbl ! 5 \<or> c \<ge> DbcTbl ! 6 \<and> c \<le> DbcTbl ! 7 \<or> c \<ge> DbcTbl ! 8 \<and> c \<le> DbcTbl ! 9)"

definition peek :: "u8 list \<Rightarrow> u8" where
  "peek p = (case p of [] \<Rightarrow> 0 | c # _ \<Rightarrow> c)"

definition tchar2uni :: "codepage \<Rightarrow> u8 list \<Rightarrow> u32 \<times> u8 list" where
  "tchar2uni T str =
     (let p = str; wc = (ucast (peek p) :: u16); p = tl p in
      if dbc_1st (ucast wc) then
        (let sb = peek p; p = tl p in
         if \<not> dbc_2nd sb then (0xFFFFFFFF, str)
         else
           (let wc = ff_oem2uni T (push_bit 8 wc + ucast sb) FF_CODE_PAGE in
            if wc = 0 then (0xFFFFFFFF, str) else (ucast wc, p)))
      else if wc \<noteq> 0 then
        (let wc = ff_oem2uni T wc FF_CODE_PAGE in
         if wc = 0 then (0xFFFFFFFF, str) else (ucast wc, p))
      else (0, p))"

text \<open>The bytes that are stored; an empty list for a character that has no code or does not fit.\<close>

definition put_utf :: "codepage \<Rightarrow> u32 \<Rightarrow> u32 \<Rightarrow> u8 list" where
  "put_utf T chr szb =
     (let wc = ff_uni2oem T chr FF_CODE_PAGE in
      if wc \<ge> 0x100 then (if szb < 2 then [] else [ucast (drop_bit 8 wc), ucast wc])
      else if wc = 0 \<or> szb < 1 then []
      else [ucast wc])"

section \<open>Name entries\<close>

abbreviation "DDEM \<equiv> 0xE5 :: u8"
abbreviation "RDDEM \<equiv> 0x05 :: u8"
abbreviation "LLEF \<equiv> 0x40 :: u8"
abbreviation "AM_RDO \<equiv> 0x01 :: u8"
abbreviation "AM_VOL \<equiv> 0x08 :: u8"
abbreviation "AM_LFN \<equiv> 0x0F :: u8"
abbreviation "AM_DIR \<equiv> 0x10 :: u8"
abbreviation "AM_ARC \<equiv> 0x20 :: u8"
abbreviation "AM_MASK \<equiv> 0x3F :: u8"
abbreviation "NS_LOSS \<equiv> 0x01 :: u8"
abbreviation "NS_LFN \<equiv> 0x02 :: u8"
abbreviation "NS_LAST \<equiv> 0x04 :: u8"
abbreviation "NS_BODY \<equiv> 0x08 :: u8"
abbreviation "NS_EXT \<equiv> 0x10 :: u8"
abbreviation "NS_DOT \<equiv> 0x20 :: u8"
abbreviation "NS_NOLFN \<equiv> 0x40 :: u8"
abbreviation "NS_NONAME \<equiv> 0x80 :: u8"
abbreviation "FF_MAX_LFN \<equiv> 255 :: nat"

definition LfnOfs :: "nat list" where
  "LfnOfs = [1, 3, 5, 7, 9, 14, 16, 18, 20, 22, 24, 28, 30]"

definition ld_clust :: "'d fatfs \<Rightarrow> u8 list \<Rightarrow> nat \<Rightarrow> u32" where
  "ld_clust fs w p =
     (let cl = ucast (ld_word w (p + 26)) in
      if fs_type fs = FS_FAT32 then cl OR push_bit 16 (ucast (ld_word w (p + 20))) else cl)"

definition st_clust :: "'d fatfs \<Rightarrow> u8 list \<Rightarrow> nat \<Rightarrow> u32 \<Rightarrow> u8 list" where
  "st_clust fs w p cl =
     (let w = st_word w (p + 26) (ucast cl) in
      if fs_type fs = FS_FAT32 then st_word w (p + 20) (ucast (drop_bit 16 cl)) else w)"

text \<open>The characters of an entry are visited in the order of \<open>LfnOfs\<close>; \<open>None\<close> is a return of 0.\<close>

fun cmp_chars :: "u16 list \<Rightarrow> u8 list \<Rightarrow> nat \<Rightarrow> nat list \<Rightarrow> u16 \<Rightarrow> u32 \<Rightarrow> (u16 \<times> u32) option" where
  "cmp_chars lfn w p [] pchr ni = Some (pchr, ni)"
| "cmp_chars lfn w p (k # ks) pchr ni =
     (let chr = ld_word w (p + k) in
      if pchr \<noteq> 0 then
        (if ni \<ge> 256 \<or> ff_wtoupper (ucast chr) \<noteq> ff_wtoupper (ucast (lfn ! unat ni)) then None
         else cmp_chars lfn w p ks chr (ni + 1))
      else if chr \<noteq> 0xFFFF then None else cmp_chars lfn w p ks pchr ni)"

definition cmp_lfn :: "u16 list \<Rightarrow> u8 list \<Rightarrow> nat \<Rightarrow> bool" where
  "cmp_lfn lfn w p =
     (if ld_word w (p + 26) \<noteq> 0 then False
      else
        (case cmp_chars lfn w p LfnOfs 1 ((ucast (w ! p AND 0x3F) - 1) * 13) of
           None \<Rightarrow> False
         | Some (pchr, ni) \<Rightarrow> \<not> (w ! p AND LLEF \<noteq> 0 \<and> pchr \<noteq> 0 \<and> lfn ! unat ni \<noteq> 0)))"

fun pick_chars :: "u8 list \<Rightarrow> nat \<Rightarrow> nat list \<Rightarrow> u16 \<Rightarrow> u32 \<Rightarrow> u16 list \<Rightarrow> bool \<times> u16 \<times> u32 \<times> u16 list" where
  "pick_chars w p [] pchr ni lfn = (True, pchr, ni, lfn)"
| "pick_chars w p (k # ks) pchr ni lfn =
     (let chr = ld_word w (p + k) in
      if pchr \<noteq> 0 then
        (if ni \<ge> 256 then (False, pchr, ni, lfn)
         else pick_chars w p ks chr (ni + 1) (lfn[unat ni := chr]))
      else if chr \<noteq> 0xFFFF then (False, pchr, ni, lfn) else pick_chars w p ks pchr ni lfn)"

definition pick_lfn :: "u16 list \<Rightarrow> u8 list \<Rightarrow> nat \<Rightarrow> bool \<times> u16 list" where
  "pick_lfn lfn w p =
     (if ld_word w (p + 26) \<noteq> 0 then (False, lfn)
      else
        (let (k, pchr, ni, lfn) = pick_chars w p LfnOfs 1 ((ucast (w ! p AND 0xBF) - 1) * 13) lfn in
         if \<not> k then (False, lfn)
         else if w ! p AND LLEF \<noteq> 0 \<and> pchr \<noteq> 0 then
           (if ni \<ge> 256 then (False, lfn) else (True, lfn[unat ni := 0]))
         else (True, lfn)))"

fun put_chars :: "u16 list \<Rightarrow> u8 list \<Rightarrow> nat \<Rightarrow> nat list \<Rightarrow> u16 \<Rightarrow> u32 \<Rightarrow> u16 \<times> u32 \<times> u8 list" where
  "put_chars lfn w p [] chr ni = (chr, ni, w)"
| "put_chars lfn w p (k # ks) chr ni =
     (let (chr, ni) = (if chr \<noteq> 0xFFFF then (lfn ! unat ni, ni + 1) else (chr, ni));
          w = st_word w (p + k) chr
      in put_chars lfn w p ks (if chr = 0 then 0xFFFF else chr) ni)"

definition put_lfn :: "u16 list \<Rightarrow> u8 list \<Rightarrow> nat \<Rightarrow> u8 \<Rightarrow> u8 \<Rightarrow> u8 list" where
  "put_lfn lfn w p ord chk =
     (let w = w[p + 13 := chk, p + 11 := AM_LFN, p + 12 := 0];
          w = st_word w (p + 26) 0;
          (chr, ni, w) = put_chars lfn w p LfnOfs 0 ((ucast ord - 1) * 13);
          ord = (if chr = 0xFFFF \<or> lfn ! unat ni = 0 then ord OR LLEF else ord)
      in w[p := ord])"

section \<open>Numbered names and check sums\<close>

fun crc_bits :: "nat \<Rightarrow> u16 \<Rightarrow> u32 \<Rightarrow> u32" where
  "crc_bits 0 wc sreg = sreg"
| "crc_bits (Suc i) wc sreg =
     (let sreg = push_bit 1 sreg + ucast (wc AND 1) in
      crc_bits i (drop_bit 1 wc) (if sreg AND 0x10000 \<noteq> 0 then sreg XOR 0x11021 else sreg))"

definition lfn_crc :: "u16 list \<Rightarrow> u32 \<Rightarrow> u32" where
  "lfn_crc lfn seq = fold (\<lambda>wc. crc_bits 16 wc) (takeWhile (\<lambda>c. c \<noteq> 0) lfn) seq"

text \<open>The digits of the suffix behind position \<open>i\<close>, with the position of the tilde.\<close>

fun num_hex :: "nat \<Rightarrow> u32 \<Rightarrow> u8 list \<Rightarrow> nat \<times> u8 list" where
  "num_hex 0 seq ns = (0, ns)"
| "num_hex (Suc i) seq ns =
     (let c = ucast (seq mod 16) + 0x30; seq = seq div 16; c = (if c > 0x39 then c + 7 else c); ns = c # ns in
      if i \<noteq> 0 \<and> seq \<noteq> 0 then num_hex i seq ns else (i, ns))"

function num_offset :: "u8 list \<Rightarrow> nat \<Rightarrow> nat \<Rightarrow> nat" where
  "num_offset dst i j =
     (if j < i \<and> dst ! j \<noteq> 0x20 then
        (if dbc_1st (dst ! j) then (if j = i - 1 then j else num_offset dst i (j + 2)) else num_offset dst i (j + 1))
      else j)"
  by pat_completeness auto
termination
  by (relation "measure (\<lambda>(dst, i, j). i - j)") auto

text \<open>The suffix goes behind the offset and spaces fill the body of the name.\<close>

definition gen_numname :: "u8 list \<Rightarrow> u8 list \<Rightarrow> u16 list \<Rightarrow> u32 \<Rightarrow> u8 list" where
  "gen_numname dst src lfn seq =
     (let dst = take 11 src @ drop 11 dst;
          seq = (if seq > 5 then lfn_crc lfn seq else seq);
          (i, ns) = num_hex 7 seq [];
          ns = 0x7E # ns;
          j = num_offset dst i 0
      in take j dst @ take (8 - j) (ns @ replicate 8 0x20) @ drop 8 dst)"

definition sum_sfn :: "u8 list \<Rightarrow> nat \<Rightarrow> u8" where
  "sum_sfn w p = fold (\<lambda>n sum. drop_bit 1 sum + push_bit 7 sum + w ! (p + n)) [0..<11] 0"

end
