(* ===== verification/Fat_Dir.thy ===== *)
theory Fat_Dir
  imports Fat_Names
begin

text \<open>
  Directories of the FAT file system: the directory part of \<^verbatim>\<open>kernel/src/fs/fat/ff.c\<close>.  The record \<open>DIR\<close> is the directory
  object; its pointer into the window of the volume is an offset, and the pointer to the volume only says whether it is
  set, since the kernel has one volume.  A loop that follows the table or the chain of a damaged volume without end
  has the value \<open>None\<close>.
\<close>

section \<open>Objects\<close>

record FFOBJID =
  ob_fs :: bool
  ob_id :: u16
  ob_attr :: u8
  ob_stat :: u8
  sclust :: u32
  objsize :: u32

record DIR =
  d_obj :: FFOBJID
  dptr :: u32
  d_clust :: u32
  d_sect :: u32
  d_dir :: nat
  fn :: "u8 list"
  blk_ofs :: u32

record FILINFO =
  fi_size :: u32
  fdate :: u16
  ftime :: u16
  fattrib :: u8
  altname :: "u8 list"
  fname :: "u8 list"

abbreviation "SZDIRE \<equiv> 32 :: u32"
abbreviation "MAX_DIR \<equiv> 0x200000 :: u32"
abbreviation "MAX_MALLOC \<equiv> 0x8000 :: u32"
abbreviation "NSFLAG \<equiv> 11 :: nat"

definition set_sclust :: "u32 \<Rightarrow> DIR \<Rightarrow> DIR" where
  "set_sclust c dp = dp\<lparr>d_obj := (d_obj dp)\<lparr>sclust := c\<rparr>\<rparr>"

definition set_attr :: "u8 \<Rightarrow> DIR \<Rightarrow> DIR" where
  "set_attr a dp = dp\<lparr>d_obj := (d_obj dp)\<lparr>ob_attr := a\<rparr>\<rparr>"

definition set_nsflag :: "u8 \<Rightarrow> DIR \<Rightarrow> DIR" where
  "set_nsflag v dp = dp\<lparr>fn := (fn dp)[NSFLAG := v]\<rparr>"

text \<open>A store into the window through the directory pointer.\<close>

definition set_win :: "u8 list \<Rightarrow> 'd fatfs \<Rightarrow> 'd fatfs" where
  "set_win w fs = fs\<lparr>win := w, wflag := 1\<rparr>"

section \<open>Clearing a cluster\<close>

partial_function (option) clear_alloc :: "'d disk_ops \<Rightarrow> u32 \<Rightarrow> 'd \<Rightarrow> (u64 \<times> u32 \<times> 'd) option" where
  "clear_alloc K szb d =
     (if szb > SS then do {
        (ibuf, _, d) \<leftarrow> mem_alloc K szb d;
        if ibuf = 0 then clear_alloc K (szb div 2) d else Some (ibuf, szb, d)
      }
      else Some (0, szb, d))"

partial_function (option) clear_fill :: "'d disk_ops \<Rightarrow> u8 \<Rightarrow> u8 list \<Rightarrow> u32 \<Rightarrow> u32 \<Rightarrow> u32 \<Rightarrow> u32 \<Rightarrow> 'd \<Rightarrow> (u32 \<times> 'd) option" where
  "clear_fill K drv ibuf sec szb csz n d =
     (if n < csz then do {
        (r, d) \<leftarrow> dk_write K drv ibuf (sec + n) szb d;
        if r = RES_OK then clear_fill K drv ibuf sec szb csz (n + szb) d else Some (n, d)
      }
      else Some (n, d))"

definition dir_clear :: "'d disk_ops \<Rightarrow> u32 \<Rightarrow> 'd fatfs \<Rightarrow> (FRESULT \<times> 'd fatfs) option" where
  "dir_clear K clst fs = do {
     (res, fs) \<leftarrow> sync_window K fs;
     if res \<noteq> FR_OK then Some (FR_DISK_ERR, fs)
     else do {
       let sec = clst2sect clst fs;
       let fs = fs\<lparr>winsect := sec, win := replicate 512 0\<rparr>;
       let csz = (ucast (csize fs) :: u32);
       (ibuf, szb, d) \<leftarrow> clear_alloc K (if csz * SS \<ge> MAX_MALLOC then MAX_MALLOC else csz * SS) (disk fs);
       (n, d) \<leftarrow> (if szb > SS then do {
           (n, d) \<leftarrow> clear_fill K (pdrv fs) (replicate (unat szb) 0) sec (szb div SS) csz 0 d;
           d \<leftarrow> mem_free K ibuf d;
           Some (n, d)
         }
         else clear_fill K (pdrv fs) (win fs) sec 1 csz 0 d);
       Some (if n = csz then FR_OK else FR_DISK_ERR, fs\<lparr>disk := d\<rparr>)
     }
   }"

section \<open>Position in a directory\<close>

text \<open>The chain is followed by \<open>ofs div csz\<close> clusters; \<open>Inr\<close> is a return with an error.\<close>

partial_function (option) sdi_follow :: "'d disk_ops \<Rightarrow> u32 \<Rightarrow> u32 \<Rightarrow> u32 \<Rightarrow> 'd fatfs \<Rightarrow> ((u32 \<times> u32 + FRESULT) \<times> 'd fatfs) option" where
  "sdi_follow K csz clst ofs fs =
     (if ofs \<ge> csz then do {
        (clst, fs) \<leftarrow> get_fat K clst fs;
        if clst = 0xFFFFFFFF then Some (Inr FR_DISK_ERR, fs)
        else if clst < 2 \<or> clst \<ge> n_fatent fs then Some (Inr FR_INT_ERR, fs)
        else sdi_follow K csz clst (ofs - csz) fs
      }
      else Some (Inl (clst, ofs), fs))"

definition sdi_set :: "u32 \<Rightarrow> u32 \<Rightarrow> u32 \<Rightarrow> DIR \<Rightarrow> FRESULT \<times> DIR" where
  "sdi_set sec clst ofs dp =
     (let dp = dp\<lparr>d_sect := sec, d_clust := clst\<rparr> in
      if sec = 0 then (FR_INT_ERR, dp)
      else (FR_OK, dp\<lparr>d_sect := sec + ofs div SS, d_dir := unat (ofs mod SS)\<rparr>))"

definition dir_sdi :: "'d disk_ops \<Rightarrow> DIR \<Rightarrow> u32 \<Rightarrow> 'd fatfs \<Rightarrow> (FRESULT \<times> DIR \<times> 'd fatfs) option" where
  "dir_sdi K dp ofs fs =
     (if ofs \<ge> MAX_DIR \<or> ofs mod SZDIRE \<noteq> 0 then Some (FR_INT_ERR, dp, fs)
      else do {
        let dp = dp\<lparr>dptr := ofs\<rparr>;
        let clst = sclust (d_obj dp);
        let clst = (if clst = 0 \<and> fs_type fs \<ge> FS_FAT32 then dirbase fs else clst);
        if clst = 0 then
          (if ofs div SZDIRE \<ge> ucast (n_rootdir fs) then Some (FR_INT_ERR, dp, fs)
           else (let (res, dp) = sdi_set (dirbase fs) clst ofs dp in Some (res, dp, fs)))
        else do {
          (r, fs) \<leftarrow> sdi_follow K (ucast (csize fs) * SS) clst ofs fs;
          case r of
            Inr res \<Rightarrow> Some (res, dp, fs)
          | Inl (clst, ofs) \<Rightarrow> (let (res, dp) = sdi_set (clst2sect clst fs) clst ofs dp in Some (res, dp, fs))
        }
      })"

text \<open>The next cluster of a directory, which is stretched when allowed; \<open>Inr\<close> is a return.\<close>

definition next_clust :: "'d disk_ops \<Rightarrow> DIR \<Rightarrow> bool \<Rightarrow> 'd fatfs \<Rightarrow> ((u32 + FRESULT \<times> DIR) \<times> 'd fatfs) option" where
  "next_clust K dp stretch fs = do {
     (clst, fs) \<leftarrow> get_fat K (d_clust dp) fs;
     if clst \<le> 1 then Some (Inr (FR_INT_ERR, dp), fs)
     else if clst = 0xFFFFFFFF then Some (Inr (FR_DISK_ERR, dp), fs)
     else if clst \<ge> n_fatent fs then
       (if \<not> stretch then Some (Inr (FR_NO_FILE, dp\<lparr>d_sect := 0\<rparr>), fs)
        else do {
          (clst, fs) \<leftarrow> create_chain K (d_clust dp) fs;
          if clst = 0 then Some (Inr (FR_DENIED, dp), fs)
          else if clst = 1 then Some (Inr (FR_INT_ERR, dp), fs)
          else if clst = 0xFFFFFFFF then Some (Inr (FR_DISK_ERR, dp), fs)
          else do {
            (res, fs) \<leftarrow> dir_clear K clst fs;
            Some (if res \<noteq> FR_OK then Inr (FR_DISK_ERR, dp) else Inl clst, fs)
          }
        })
     else Some (Inl clst, fs)
   }"

definition dir_next :: "'d disk_ops \<Rightarrow> DIR \<Rightarrow> bool \<Rightarrow> 'd fatfs \<Rightarrow> (FRESULT \<times> DIR \<times> 'd fatfs) option" where
  "dir_next K dp stretch fs =
     (let ofs = dptr dp + SZDIRE;
          dp = (if ofs \<ge> MAX_DIR then dp\<lparr>d_sect := 0\<rparr> else dp);
          fin = (\<lambda>dp. dp\<lparr>dptr := ofs, d_dir := unat (ofs mod SS)\<rparr>)
      in
      if d_sect dp = 0 then Some (FR_NO_FILE, dp, fs)
      else if ofs mod SS = 0 then
        (let dp = dp\<lparr>d_sect := d_sect dp + 1\<rparr> in
         if d_clust dp = 0 then
           (if ofs div SZDIRE \<ge> ucast (n_rootdir fs) then Some (FR_NO_FILE, dp\<lparr>d_sect := 0\<rparr>, fs)
            else Some (FR_OK, fin dp, fs))
         else if (ofs div SS) AND (ucast (csize fs) - 1) = 0 then do {
           (r, fs) \<leftarrow> next_clust K dp stretch fs;
           case r of
             Inr (res, dp) \<Rightarrow> Some (res, dp, fs)
           | Inl clst \<Rightarrow> Some (FR_OK, fin (dp\<lparr>d_clust := clst, d_sect := clst2sect clst fs\<rparr>), fs)
         }
         else Some (FR_OK, fin dp, fs))
      else Some (FR_OK, fin dp, fs))"

partial_function (option) alloc_loop :: "'d disk_ops \<Rightarrow> u32 \<Rightarrow> u32 \<Rightarrow> DIR \<Rightarrow> 'd fatfs \<Rightarrow> (FRESULT \<times> DIR \<times> 'd fatfs) option" where
  "alloc_loop K n_ent n dp fs = do {
     (res, fs) \<leftarrow> move_window K (d_sect dp) fs;
     if res \<noteq> FR_OK then Some (res, dp, fs)
     else do {
       let c = win fs ! d_dir dp;
       let n = (if c = DDEM \<or> c = 0 then n + 1 else 0);
       if (c = DDEM \<or> c = 0) \<and> n = n_ent then Some (FR_OK, dp, fs)
       else do {
         (res, dp, fs) \<leftarrow> dir_next K dp True fs;
         if res = FR_OK then alloc_loop K n_ent n dp fs else Some (res, dp, fs)
       }
     }
   }"

definition dir_alloc :: "'d disk_ops \<Rightarrow> DIR \<Rightarrow> u32 \<Rightarrow> 'd fatfs \<Rightarrow> (FRESULT \<times> DIR \<times> 'd fatfs) option" where
  "dir_alloc K dp n_ent fs = do {
     (res, dp, fs) \<leftarrow> dir_sdi K dp 0 fs;
     (res, dp, fs) \<leftarrow> (if res = FR_OK then alloc_loop K n_ent 0 dp fs else Some (res, dp, fs));
     Some (if res = FR_NO_FILE then FR_DENIED else res, dp, fs)
   }"

section \<open>Reading and finding entries\<close>

text \<open>
  One entry of the table: whether the search ends there, and the state of the long name sequence (the number of the
  entry that has to follow and the check sum of its short name).
\<close>

definition read_entry :: "bool \<Rightarrow> u8 \<Rightarrow> u8 \<Rightarrow> DIR \<Rightarrow> 'd fatfs \<Rightarrow> bool \<times> u8 \<times> u8 \<times> DIR \<times> 'd fatfs" where
  "read_entry vol ord chk dp fs =
     (let w = win fs; p = d_dir dp; b = w ! p; attr = w ! (p + 11) AND AM_MASK; dp = set_attr attr dp in
      if b = DDEM \<or> b = 0x2E \<or> ((attr AND NOT AM_ARC) = AM_VOL) \<noteq> vol then (False, 0xFF, chk, dp, fs)
      else if attr = AM_LFN then
        (let (b, ord, chk, dp) =
               (if b AND LLEF \<noteq> 0 then (b AND NOT LLEF, b AND NOT LLEF, w ! (p + 13), dp\<lparr>blk_ofs := dptr dp\<rparr>)
                else (b, ord, chk, dp))
         in
         if b = ord \<and> chk = w ! (p + 13) then
           (let (k, lfn) = pick_lfn (lfnbuf fs) w p in (False, if k then ord - 1 else 0xFF, chk, dp, fs\<lparr>lfnbuf := lfn\<rparr>))
         else (False, 0xFF, chk, dp, fs))
      else (True, ord, chk, if ord \<noteq> 0 \<or> chk \<noteq> sum_sfn w p then dp\<lparr>blk_ofs := 0xFFFFFFFF\<rparr> else dp, fs))"

partial_function (option) read_loop ::
  "'d disk_ops \<Rightarrow> bool \<Rightarrow> FRESULT \<Rightarrow> u8 \<Rightarrow> u8 \<Rightarrow> DIR \<Rightarrow> 'd fatfs \<Rightarrow> (FRESULT \<times> DIR \<times> 'd fatfs) option" where
  "read_loop K vol res ord chk dp fs =
     (if d_sect dp = 0 then Some (res, dp, fs)
      else do {
        (res, fs) \<leftarrow> move_window K (d_sect dp) fs;
        if res \<noteq> FR_OK then Some (res, dp, fs)
        else if win fs ! d_dir dp = 0 then Some (FR_NO_FILE, dp, fs)
        else do {
          let (hit, ord, chk, dp, fs) = read_entry vol ord chk dp fs;
          if hit then Some (FR_OK, dp, fs)
          else do {
            (res, dp, fs) \<leftarrow> dir_next K dp False fs;
            if res \<noteq> FR_OK then Some (res, dp, fs) else read_loop K vol res ord chk dp fs
          }
        }
      })"

definition dir_read :: "'d disk_ops \<Rightarrow> DIR \<Rightarrow> bool \<Rightarrow> 'd fatfs \<Rightarrow> (FRESULT \<times> DIR \<times> 'd fatfs) option" where
  "dir_read K dp vol fs = do {
     (res, dp, fs) \<leftarrow> read_loop K vol FR_NO_FILE 0xFF 0xFF dp fs;
     Some (res, if res \<noteq> FR_OK then dp\<lparr>d_sect := 0\<rparr> else dp, fs)
   }"

definition find_entry :: "u16 list \<Rightarrow> u8 list \<Rightarrow> u8 \<Rightarrow> u8 \<Rightarrow> DIR \<Rightarrow> bool \<times> u8 \<times> u8 \<times> DIR" where
  "find_entry lfn w ord chk dp =
     (let p = d_dir dp; c = w ! p; a = w ! (p + 11) AND AM_MASK; dp = set_attr a dp in
      if c = DDEM \<or> a AND AM_VOL \<noteq> 0 \<and> a \<noteq> AM_LFN then (False, 0xFF, chk, dp\<lparr>blk_ofs := 0xFFFFFFFF\<rparr>)
      else if a = AM_LFN then
        (if fn dp ! NSFLAG AND NS_NOLFN = 0 then
           (let (c, ord, chk, dp) =
                  (if c AND LLEF \<noteq> 0 then (c AND NOT LLEF, c AND NOT LLEF, w ! (p + 13), dp\<lparr>blk_ofs := dptr dp\<rparr>)
                   else (c, ord, chk, dp))
            in (False, if c = ord \<and> chk = w ! (p + 13) \<and> cmp_lfn lfn w p then ord - 1 else 0xFF, chk, dp))
         else (False, ord, chk, dp))
      else if ord = 0 \<and> chk = sum_sfn w p then (True, ord, chk, dp)
      else if fn dp ! NSFLAG AND NS_LOSS = 0 \<and> take 11 (drop p w) = take 11 (fn dp) then (True, ord, chk, dp)
      else (False, 0xFF, chk, dp\<lparr>blk_ofs := 0xFFFFFFFF\<rparr>))"

partial_function (option) find_loop ::
  "'d disk_ops \<Rightarrow> u8 \<Rightarrow> u8 \<Rightarrow> DIR \<Rightarrow> 'd fatfs \<Rightarrow> (FRESULT \<times> DIR \<times> 'd fatfs) option" where
  "find_loop K ord chk dp fs = do {
     (res, fs) \<leftarrow> move_window K (d_sect dp) fs;
     if res \<noteq> FR_OK then Some (res, dp, fs)
     else if win fs ! d_dir dp = 0 then Some (FR_NO_FILE, dp, fs)
     else do {
       let (hit, ord, chk, dp) = find_entry (lfnbuf fs) (win fs) ord chk dp;
       if hit then Some (FR_OK, dp, fs)
       else do {
         (res, dp, fs) \<leftarrow> dir_next K dp False fs;
         if res = FR_OK then find_loop K ord chk dp fs else Some (res, dp, fs)
       }
     }
   }"

definition dir_find :: "'d disk_ops \<Rightarrow> DIR \<Rightarrow> 'd fatfs \<Rightarrow> (FRESULT \<times> DIR \<times> 'd fatfs) option" where
  "dir_find K dp fs = do {
     (res, dp, fs) \<leftarrow> dir_sdi K dp 0 fs;
     if res \<noteq> FR_OK then Some (res, dp, fs)
     else find_loop K 0xFF 0xFF (dp\<lparr>blk_ofs := 0xFFFFFFFF\<rparr>) fs
   }"

section \<open>Registering and removing entries\<close>

fun reg_number :: "'d disk_ops \<Rightarrow> u8 list \<Rightarrow> u32 list \<Rightarrow> DIR \<Rightarrow> 'd fatfs \<Rightarrow> (FRESULT \<times> DIR \<times> 'd fatfs) option" where
  "reg_number K sn [] dp fs = Some (FR_DENIED, dp, fs)"
| "reg_number K sn (n # ns) dp fs = do {
     (res, dp, fs) \<leftarrow> dir_find K (dp\<lparr>fn := gen_numname (fn dp) sn (lfnbuf fs) n\<rparr>) fs;
     if res \<noteq> FR_OK then Some (res, dp, fs) else reg_number K sn ns dp fs
   }"

partial_function (option) reg_lfn :: "'d disk_ops \<Rightarrow> u8 \<Rightarrow> u32 \<Rightarrow> DIR \<Rightarrow> 'd fatfs \<Rightarrow> (FRESULT \<times> DIR \<times> 'd fatfs) option" where
  "reg_lfn K chk n_ent dp fs = do {
     (res, fs) \<leftarrow> move_window K (d_sect dp) fs;
     if res \<noteq> FR_OK then Some (res, dp, fs)
     else do {
       let fs = set_win (put_lfn (lfnbuf fs) (win fs) (d_dir dp) (ucast n_ent) chk) fs;
       (res, dp, fs) \<leftarrow> dir_next K dp False fs;
       if res = FR_OK \<and> n_ent - 1 \<noteq> 0 then reg_lfn K chk (n_ent - 1) dp fs else Some (res, dp, fs)
     }
   }"

definition sfn_entry :: "DIR \<Rightarrow> u8 list \<Rightarrow> u8 list" where
  "sfn_entry dp w =
     (let p = d_dir dp; w = take p w @ take 11 (fn dp) @ replicate 21 0 @ drop (p + 32) w in
      w[p + 12 := fn dp ! NSFLAG AND (NS_BODY OR NS_EXT)])"

definition reg_store :: "'d disk_ops \<Rightarrow> u8 list \<Rightarrow> u32 \<Rightarrow> DIR \<Rightarrow> 'd fatfs \<Rightarrow> (FRESULT \<times> DIR \<times> 'd fatfs) option" where
  "reg_store K sn len dp fs = do {
     let n_ent = (if sn ! NSFLAG AND NS_LFN \<noteq> 0 then (len + 12) div 13 + 1 else 1);
     (res, dp, fs) \<leftarrow> dir_alloc K dp n_ent fs;
     (res, dp, fs) \<leftarrow>
       (if res = FR_OK \<and> n_ent - 1 \<noteq> 0 then do {
          (res, dp, fs) \<leftarrow> dir_sdi K dp (dptr dp - (n_ent - 1) * SZDIRE) fs;
          if res = FR_OK then reg_lfn K (sum_sfn (fn dp) 0) (n_ent - 1) dp fs else Some (res, dp, fs)
        }
        else Some (res, dp, fs));
     if res = FR_OK then do {
       (res, fs) \<leftarrow> move_window K (d_sect dp) fs;
       Some (res, dp, if res = FR_OK then set_win (sfn_entry dp (win fs)) fs else fs)
     }
     else Some (res, dp, fs)
   }"

definition dir_register :: "'d disk_ops \<Rightarrow> DIR \<Rightarrow> 'd fatfs \<Rightarrow> (FRESULT \<times> DIR \<times> 'd fatfs) option" where
  "dir_register K dp fs =
     (if fn dp ! NSFLAG AND (NS_DOT OR NS_NONAME) \<noteq> 0 then Some (FR_INVALID_NAME, dp, fs)
      else do {
        let len = (of_nat (length (takeWhile (\<lambda>c. c \<noteq> 0) (lfnbuf fs))) :: u32);
        let sn = fn dp;
        if sn ! NSFLAG AND NS_LOSS \<noteq> 0 then do {
          (res, dp, fs) \<leftarrow> reg_number K sn (map of_nat [1..<100]) (set_nsflag NS_NOLFN dp) fs;
          if res \<noteq> FR_NO_FILE then Some (res, dp, fs)
          else reg_store K sn len (set_nsflag (sn ! NSFLAG) dp) fs
        }
        else reg_store K sn len dp fs
      })"

partial_function (option) remove_loop :: "'d disk_ops \<Rightarrow> u32 \<Rightarrow> DIR \<Rightarrow> 'd fatfs \<Rightarrow> (FRESULT \<times> DIR \<times> 'd fatfs) option" where
  "remove_loop K last_ofs dp fs = do {
     (res, fs) \<leftarrow> move_window K (d_sect dp) fs;
     if res \<noteq> FR_OK then Some (res, dp, fs)
     else do {
       let fs = set_win ((win fs)[d_dir dp := DDEM]) fs;
       if dptr dp \<ge> last_ofs then Some (res, dp, fs)
       else do {
         (res, dp, fs) \<leftarrow> dir_next K dp False fs;
         if res = FR_OK then remove_loop K last_ofs dp fs else Some (res, dp, fs)
       }
     }
   }"

definition dir_remove :: "'d disk_ops \<Rightarrow> DIR \<Rightarrow> 'd fatfs \<Rightarrow> (FRESULT \<times> DIR \<times> 'd fatfs) option" where
  "dir_remove K dp fs = do {
     let last_ofs = dptr dp;
     (res, dp, fs) \<leftarrow> (if blk_ofs dp = 0xFFFFFFFF then Some (FR_OK, dp, fs) else dir_sdi K dp (blk_ofs dp) fs);
     if res = FR_OK then do {
       (res, dp, fs) \<leftarrow> remove_loop K last_ofs dp fs;
       Some (if res = FR_NO_FILE then FR_INT_ERR else res, dp, fs)
     }
     else Some (res, dp, fs)
   }"

end
