(* ===== verification/Fat_Path.thy ===== *)
theory Fat_Path
  imports Fat_Dir
begin

text \<open>
  Paths of the FAT file system: the information of an entry, the name of a path segment in directory form and the
  walk along a path (\<^verbatim>\<open>get_fileinfo\<close>, \<^verbatim>\<open>create_name\<close>, \<^verbatim>\<open>follow_path\<close> and \<^verbatim>\<open>get_ldnumber\<close> of \<^verbatim>\<open>kernel/src/fs/fat/ff.c\<close>).
\<close>

section \<open>File information\<close>

abbreviation "FF_LFN_BUF \<equiv> 255 :: nat"
abbreviation "FF_SFN_BUF \<equiv> 12 :: nat"

text \<open>The long name, and how many bytes of it were stored; 0 when it cannot be encoded.\<close>

fun info_lfn :: "codepage \<Rightarrow> u16 list \<Rightarrow> u16 \<Rightarrow> nat \<Rightarrow> u8 list \<Rightarrow> nat \<times> u8 list" where
  "info_lfn T [] hs di name = (if hs \<noteq> 0 then 0 else di, name)"
| "info_lfn T (wc # cs) hs di name =
     (if wc = 0 then (if hs \<noteq> 0 then 0 else di, name)
      else if hs = 0 \<and> wc \<ge> 0xD800 \<and> wc \<le> 0xDFFF then info_lfn T cs wc di name
      else
        (let bs = put_utf T (push_bit 16 (ucast hs) OR ucast wc) (of_nat (FF_LFN_BUF - di)) in
         if bs = [] then (0, name)
         else info_lfn T cs 0 (di + length bs) (take di name @ bs @ drop (di + length bs) name)))"

definition info_sfn :: "u8 list \<Rightarrow> nat \<Rightarrow> u8 list \<Rightarrow> nat \<times> u8 list" where
  "info_sfn w p alt =
     fold (\<lambda>si (di, alt).
         let wc = w ! (p + si) in
         if wc = 0x20 then (di, alt)
         else
           (let wc = (if wc = RDDEM then DDEM else wc);
                (di, alt) = (if si + 1 = 9 \<and> di < FF_SFN_BUF then (di + 1, alt[di := 0x2E]) else (di, alt))
            in (di + 1, alt[di := wc])))
       [0..<11] (0, alt)"

text \<open>The short name as the long one, with the letters of the body or the extension in lower case.\<close>

fun info_case :: "u8 list \<Rightarrow> u8 \<Rightarrow> u8 \<Rightarrow> u8 list" where
  "info_case [] ntres lcf = []"
| "info_case (wc # cs) ntres lcf =
     (if wc = 0 then []
      else
        (let lcf = (if wc = 0x2E then NS_EXT else lcf);
             c = (if wc \<ge> 0x41 \<and> wc \<le> 0x5A \<and> ntres AND lcf \<noteq> 0 then wc + 0x20 else wc)
         in c # info_case cs ntres lcf))"

definition info_names :: "codepage \<Rightarrow> DIR \<Rightarrow> 'd fatfs \<Rightarrow> FILINFO \<Rightarrow> FILINFO" where
  "info_names T dp fs fno =
     (let w = win fs; p = d_dir dp; name = fname fno;
          name = (if blk_ofs dp \<noteq> 0xFFFFFFFF then
                    (let (di, name) = info_lfn T (lfnbuf fs) 0 0 name in name[di := 0])
                  else name);
          (di, alt) = info_sfn w p (altname fno);
          alt = alt[di := 0];
          ntres = w ! (p + 12)
      in
      if name ! 0 = 0 then
        (let cs = (if di = 0 then [0x3F] else info_case alt ntres NS_BODY);
             name = cs @ drop (length cs) name
         in fno\<lparr>fname := name[length cs := 0], altname := (if ntres = 0 then alt[0 := 0] else alt)\<rparr>)
      else fno\<lparr>fname := name, altname := alt\<rparr>)"

definition get_fileinfo :: "codepage \<Rightarrow> DIR \<Rightarrow> 'd fatfs \<Rightarrow> FILINFO \<Rightarrow> FILINFO" where
  "get_fileinfo T dp fs fno =
     (let fno = fno\<lparr>fname := (fname fno)[0 := 0]\<rparr>; w = win fs; p = d_dir dp in
      if d_sect dp = 0 then fno
      else
        (info_names T dp fs fno)\<lparr>fattrib := w ! (p + 11) AND AM_MASK, fi_size := ld_dword w (p + 28),
          ftime := ld_word w (p + 22), fdate := ld_word w (p + 24)\<rparr>)"

section \<open>Path segments\<close>

definition IsSeparator :: "u16 \<Rightarrow> bool" where
  "IsSeparator c \<longleftrightarrow> c = 0x2F \<or> c = 0x5C"

lemma tchar2uni_shorter: "p \<noteq> [] \<Longrightarrow> tchar2uni T p = (uc, p') \<Longrightarrow> uc \<noteq> 0xFFFFFFFF \<Longrightarrow> length p' < length p"
  by (cases p) (auto simp: tchar2uni_def Let_def split: if_splits)

lemma tchar2uni_end: "tchar2uni T [] = (0, [])"
  by (simp add: tchar2uni_def peek_def dbc_1st_def DbcTbl_def)

text \<open>
  The long name of the segment: an error, or the character the segment ended at, the rest of the path, the name
  buffer and the length of the name.
\<close>

function lfn_loop :: "codepage \<Rightarrow> u8 list \<Rightarrow> u16 list \<Rightarrow> nat \<Rightarrow> (u16 \<times> u8 list \<times> nat) option \<times> u16 list" where
  "lfn_loop T p lfn di =
     (let (uc, p') = tchar2uni T p in
      if uc = 0xFFFFFFFF then (None, lfn)
      else
        (let (lfn, di) = (if uc \<ge> 0x10000 then (lfn[di := ucast (drop_bit 16 uc)], di + 1) else (lfn, di));
             wc = (ucast uc :: u16)
         in
         if wc < 0x20 \<or> IsSeparator wc then (Some (wc, p', di), lfn)
         else if wc < 0x80 \<and> wc \<in> set [0x2A, 0x3A, 0x3C, 0x3E, 0x7C, 0x22, 0x3F, 0x7F] then (None, lfn)
         else if di \<ge> FF_MAX_LFN then (None, lfn)
         else lfn_loop T p' (lfn[di := wc]) (di + 1)))"
  by pat_completeness auto
termination
proof (relation "measure (\<lambda>(T, p, lfn, di). length p)", goal_cases)
  case (2 T p lfn di x uc p' xa lfn' di' wc)
  then have "p \<noteq> []" by (auto simp: tchar2uni_end)
  then show ?case using 2 tchar2uni_shorter[of p T uc p'] by simp
qed simp

fun lfn_trim :: "u16 list \<Rightarrow> nat \<Rightarrow> nat" where
  "lfn_trim lfn 0 = 0"
| "lfn_trim lfn (Suc di) = (if lfn ! di \<noteq> 0x20 \<and> lfn ! di \<noteq> 0x2E then Suc di else lfn_trim lfn di)"

fun last_dot :: "u16 list \<Rightarrow> nat \<Rightarrow> nat" where
  "last_dot lfn 0 = 0"
| "last_dot lfn (Suc di) = (if lfn ! di \<noteq> 0x2E then last_dot lfn di else Suc di)"

text \<open>One character of the short name: its code, the case flags and the status flags.\<close>

definition sfn_char :: "u16 \<Rightarrow> u8 \<Rightarrow> u8 \<Rightarrow> u16 \<times> u8 \<times> u8" where
  "sfn_char wc b cf =
     (if wc = 0 \<or> wc \<in> set [0x2B, 0x2C, 0x3B, 0x3D, 0x5B, 0x5D] then (0x5F, b, cf OR (NS_LOSS OR NS_LFN))
      else if wc \<ge> 0x41 \<and> wc \<le> 0x5A then (wc, b OR 2, cf)
      else if wc \<ge> 0x61 \<and> wc \<le> 0x7A then (wc - 0x20, b OR 1, cf)
      else (wc, b, cf))"

definition lfn_at :: "u16 list \<Rightarrow> nat \<Rightarrow> u16" where
  "lfn_at lfn i = (if i < length lfn then lfn ! i else 0)"

function sfn_loop :: "codepage \<Rightarrow> u16 list \<Rightarrow> nat \<Rightarrow> nat \<Rightarrow> nat \<Rightarrow> nat \<Rightarrow> u8 \<Rightarrow> u8 \<Rightarrow> u8 list \<Rightarrow> nat \<times> u8 \<times> u8 \<times> u8 list" where
  "sfn_loop T lfn di si i ni b cf f =
     (let wc = lfn_at lfn si; si = si + 1 in
      if wc = 0 then (ni, b, cf, f)
      else if wc = 0x20 \<or> wc = 0x2E \<and> si \<noteq> di then sfn_loop T lfn di si i ni b (cf OR (NS_LOSS OR NS_LFN)) f
      else if i \<ge> ni \<or> si = di then
        (if ni = 11 then (ni, b, cf OR (NS_LOSS OR NS_LFN), f)
         else
           (let cf = (if si \<noteq> di then cf OR (NS_LOSS OR NS_LFN) else cf) in
            if si > di then (ni, b, cf, f) else sfn_loop T lfn di di 8 11 (push_bit 2 b) cf f))
      else
        (let (wc, cf) = (if wc \<ge> 0x80 then (ff_uni2oem T (ff_wtoupper (ucast wc)) FF_CODE_PAGE, cf OR NS_LFN) else (wc, cf)) in
         if wc \<ge> 0x100 then
           (if i \<ge> ni - 1 then sfn_loop T lfn di si ni ni b (cf OR (NS_LOSS OR NS_LFN)) f
            else sfn_loop T lfn di si (i + 2) ni b cf (f[i := ucast (drop_bit 8 wc), i + 1 := ucast wc]))
         else
           (let (wc, b, cf) = sfn_char wc b cf in sfn_loop T lfn di si (i + 1) ni b cf (f[i := ucast wc]))))"
  by pat_completeness auto
termination
  by (relation "measure (\<lambda>(T, lfn, di, si, i, ni, b, cf, f). length lfn - si)") (auto simp: lfn_at_def split: if_splits)

definition sfn_flags :: "nat \<Rightarrow> u8 \<Rightarrow> u8 \<Rightarrow> u8" where
  "sfn_flags ni b cf =
     (let b = (if ni = 8 then push_bit 2 b else b);
          cf = (if b AND 0x0C = 0x0C \<or> b AND 0x03 = 0x03 then cf OR NS_LFN else cf)
      in
      if cf AND NS_LFN = 0 then
        (let cf = (if b AND 0x01 \<noteq> 0 then cf OR NS_EXT else cf) in if b AND 0x04 \<noteq> 0 then cf OR NS_BODY else cf)
      else cf)"

definition create_sfn :: "codepage \<Rightarrow> u16 list \<Rightarrow> nat \<Rightarrow> u8 \<Rightarrow> DIR \<Rightarrow> DIR" where
  "create_sfn T lfn di cf dp =
     (let si = length (takeWhile (\<lambda>c. c = 0x20) lfn);
          cf = (if si > 0 \<or> lfn_at lfn si = 0x2E then cf OR (NS_LOSS OR NS_LFN) else cf);
          di = last_dot lfn di;
          (ni, b, cf, f) = sfn_loop T lfn di si 0 8 0 cf (replicate 11 0x20 @ drop 11 (fn dp));
          f = (if f ! 0 = DDEM then f[0 := RDDEM] else f)
      in dp\<lparr>fn := f[NSFLAG := sfn_flags ni b cf]\<rparr>)"

definition create_name :: "codepage \<Rightarrow> DIR \<Rightarrow> u8 list \<Rightarrow> 'd fatfs \<Rightarrow> FRESULT \<times> DIR \<times> u8 list \<times> 'd fatfs" where
  "create_name T dp path fs =
     (case lfn_loop T path (lfnbuf fs) 0 of
        (None, lfn) \<Rightarrow> (FR_INVALID_NAME, dp, path, fs\<lparr>lfnbuf := lfn\<rparr>)
      | (Some (wc, p, di), lfn) \<Rightarrow>
          (let p = (if wc < 0x20 then p else dropWhile (\<lambda>c. IsSeparator (ucast c)) p);
               cf = (if wc < 0x20 \<or> peek p < 0x20 then NS_LAST else 0);
               di = lfn_trim lfn di;
               lfn = lfn[di := 0];
               fs = fs\<lparr>lfnbuf := lfn\<rparr>
           in
           if di = 0 then (FR_INVALID_NAME, dp, p, fs)
           else (FR_OK, create_sfn T lfn di cf dp, p, fs)))"

section \<open>Following a path\<close>

partial_function (option) path_loop ::
  "'d disk_ops \<Rightarrow> codepage \<Rightarrow> DIR \<Rightarrow> u8 list \<Rightarrow> 'd fatfs \<Rightarrow> (FRESULT \<times> DIR \<times> 'd fatfs) option" where
  "path_loop K T dp path fs =
     (let (res, dp, path, fs) = create_name T dp path fs in
      if res \<noteq> FR_OK then Some (res, dp, fs)
      else do {
        (res, dp, fs) \<leftarrow> dir_find K dp fs;
        let ns = fn dp ! NSFLAG;
        if res \<noteq> FR_OK then Some (if res = FR_NO_FILE \<and> ns AND NS_LAST = 0 then FR_NO_PATH else res, dp, fs)
        else if ns AND NS_LAST \<noteq> 0 then Some (res, dp, fs)
        else if ob_attr (d_obj dp) AND AM_DIR = 0 then Some (FR_NO_PATH, dp, fs)
        else path_loop K T (set_sclust (ld_clust fs (win fs) (unat (dptr dp mod SS))) dp) path fs
      })"

definition follow_path :: "'d disk_ops \<Rightarrow> codepage \<Rightarrow> DIR \<Rightarrow> u8 list \<Rightarrow> 'd fatfs \<Rightarrow> (FRESULT \<times> DIR \<times> 'd fatfs) option" where
  "follow_path K T dp path fs =
     (let path = dropWhile (\<lambda>c. IsSeparator (ucast c)) path; dp = set_sclust 0 dp in
      if peek path < 0x20 then dir_sdi K (set_nsflag NS_NONAME dp) 0 fs else path_loop K T dp path fs)"

section \<open>Drive prefix\<close>

definition upcase :: "u8 \<Rightarrow> u8" where
  "upcase c = (if c \<ge> 0x61 \<and> c \<le> 0x7A then c - 0x20 else c)"

text \<open>The name of the volume, ''RAM'', compared with the path; \<open>k\<close> bytes of the path come before the colon.\<close>

fun vol_match :: "u8 list \<Rightarrow> u8 list \<Rightarrow> nat \<Rightarrow> bool" where
  "vol_match vsp tp k =
     (case vsp of
        [] \<Rightarrow> k = 0
      | v # vs \<Rightarrow> k \<noteq> 0 \<and> upcase v = upcase (peek tp) \<and> vol_match vs (tl tp) (k - 1))"

definition get_ldnumber :: "u8 list \<Rightarrow> (nat \<times> u8 list) option" where
  "get_ldnumber path =
     (let pre = takeWhile (\<lambda>c. c \<ge> 0x20 \<and> c \<noteq> 0x3A) path; rest = drop (length pre) path in
      if peek rest = 0x3A then
        (if length pre = 1 \<and> peek path \<ge> 0x30 \<and> peek path \<le> 0x39 then
           (if peek path = 0x30 then Some (0, tl rest) else None)
         else if vol_match [0x52, 0x41, 0x4D] path (length pre) then Some (0, tl rest)
         else None)
      else Some (0, path))"

end
