(* ===== verification/Fat_Mount.thy ===== *)
theory Fat_Mount
  imports Fat_Path
begin

text \<open>
  Mounting a volume: \<^verbatim>\<open>check_fs\<close>, \<^verbatim>\<open>find_volume\<close>, \<^verbatim>\<open>mount_volume\<close>, \<^verbatim>\<open>validate\<close> and \<^verbatim>\<open>f_mount\<close> of \<^verbatim>\<open>kernel/src/fs/fat/ff.c\<close>.  The
  record \<open>fatvol\<close> is the volume object of the kernel with the module variables \<^verbatim>\<open>FatFs\<close> (whether it is registered) and \<^verbatim>\<open>Fsid\<close>.
\<close>

section \<open>The boot sector\<close>

record 'd fatvol =
  vol :: "'d fatfs"
  FatFs :: bool
  Fsid :: u16

abbreviation "STA_NOINIT \<equiv> 0x01 :: u8"
abbreviation "STA_PROTECT \<equiv> 0x04 :: u8"
abbreviation "FA_READ \<equiv> 0x01 :: u8"
abbreviation "FA_WRITE \<equiv> 0x02 :: u8"
abbreviation "MAX_FAT12 \<equiv> 0xFF5 :: u32"
abbreviation "MAX_FAT16 \<equiv> 0xFFF5 :: u32"
abbreviation "MAX_FAT32 \<equiv> 0x0FFFFFF5 :: u32"

text \<open>The test of a boot sector that has no FAT32 signature.\<close>

definition is_vbr :: "u8 list \<Rightarrow> bool" where
  "is_vbr w \<longleftrightarrow>
     (let s = ld_word w 11; b = w ! 13 in
      s AND (s - 1) = 0 \<and> s \<ge> 512 \<and> s \<le> 512 \<and> b \<noteq> 0 \<and> b AND (b - 1) = 0 \<and> ld_word w 14 \<noteq> 0 \<and>
      (ucast (w ! 16) :: u32) - 1 \<le> 1 \<and> ld_word w 17 \<noteq> 0 \<and> (ld_word w 19 \<ge> 128 \<or> ld_dword w 32 \<ge> 0x10000) \<and>
      ld_word w 22 \<noteq> 0)"

definition check_fs :: "'d disk_ops \<Rightarrow> u32 \<Rightarrow> 'd fatfs \<Rightarrow> (u32 \<times> 'd fatfs) option" where
  "check_fs K sec fs = do {
     let fs = fs\<lparr>wflag := 0, winsect := 0 - 1\<rparr>;
     (res, fs) \<leftarrow> move_window K sec fs;
     if res \<noteq> FR_OK then Some (4, fs)
     else do {
       let w = win fs;
       let sign = ld_word w 510;
       let b = w ! 0;
       let jump = (b = 0xEB \<or> b = 0xE9 \<or> b = 0xE8);
       Some (if jump \<and> sign = 0xAA55 \<and> take 8 (drop 82 w) = [0x46, 0x41, 0x54, 0x33, 0x32, 0x20, 0x20, 0x20] then 0
             else if jump \<and> is_vbr w then 0
             else if sign = 0xAA55 then 2 else 3, fs)
     }
   }"

text \<open>The partitions \<open>pts\<close> that are left to be tried.\<close>

fun find_parts :: "'d disk_ops \<Rightarrow> u32 \<Rightarrow> u32 list \<Rightarrow> u32 \<Rightarrow> 'd fatfs \<Rightarrow> (u32 \<times> 'd fatfs) option" where
  "find_parts K part [] fmt fs = Some (fmt, fs)"
| "find_parts K part (pt # pts) fmt fs = do {
     (fmt, fs) \<leftarrow> (if pt \<noteq> 0 then check_fs K pt fs else Some (3, fs));
     if part = 0 \<and> fmt \<ge> 2 then find_parts K part pts fmt fs else Some (fmt, fs)
   }"

definition find_volume :: "'d disk_ops \<Rightarrow> u32 \<Rightarrow> 'd fatfs \<Rightarrow> (u32 \<times> 'd fatfs) option" where
  "find_volume K part fs = do {
     (fmt, fs) \<leftarrow> check_fs K 0 fs;
     if fmt \<noteq> 2 \<and> (fmt \<ge> 3 \<or> part = 0) then Some (fmt, fs)
     else do {
       let pts = map (\<lambda>i. ld_dword (win fs) (446 + i * 16 + 8)) [0..<4];
       find_parts K part (drop (unat (if part \<noteq> 0 then part - 1 else 0)) pts) fmt fs
     }
   }"

section \<open>Geometry of a volume\<close>

definition bpb_tsect :: "u8 list \<Rightarrow> u32" where
  "bpb_tsect w = (let t = ucast (ld_word w 19) in if t = 0 then ld_dword w 32 else t)"

definition bpb_fatsz :: "u8 list \<Rightarrow> u32" where
  "bpb_fatsz w = (let t = ucast (ld_word w 22) in if t = 0 then ld_dword w 36 else t)"

definition fat_subtype :: "u32 \<Rightarrow> u8" where
  "fat_subtype nclst =
     (if nclst \<le> MAX_FAT12 then FS_FAT12 else if nclst \<le> MAX_FAT16 then FS_FAT16
      else if nclst \<le> MAX_FAT32 then FS_FAT32 else 0)"

text \<open>The size in bytes that the table needs.\<close>

definition fat_bytes :: "u8 \<Rightarrow> u32 \<Rightarrow> u32" where
  "fat_bytes fmt n =
     (if fmt = FS_FAT32 then n * 4 else if fmt = FS_FAT16 then n * 2 else n * 3 div 2 + (n AND 1))"

text \<open>The analysis of the boot sector in the window; the fields set before an error return stay set.\<close>

definition mount_limits :: "u32 \<Rightarrow> u32 \<Rightarrow> u32 \<Rightarrow> u32 \<Rightarrow> 'd fatfs \<Rightarrow> FRESULT \<times> u8 \<times> 'd fatfs" where
  "mount_limits bsect nrsv fasize tsect fs =
     (let w = win fs; sysect = nrsv + fasize + ucast (n_rootdir fs) div 16 in
      if tsect < sysect then (FR_NO_FILESYSTEM, 0, fs)
      else
        (let nclst = (tsect - sysect) div ucast (csize fs); fmt = fat_subtype nclst in
         if nclst = 0 then (FR_NO_FILESYSTEM, 0, fs)
         else if fmt = 0 then (FR_NO_FILESYSTEM, 0, fs)
         else
           (let fs = fs\<lparr>n_fatent := nclst + 2, volbase := bsect, fatbase := bsect + nrsv, database := bsect + sysect\<rparr> in
            if fmt = FS_FAT32 \<and> ld_word w 42 \<noteq> 0 then (FR_NO_FILESYSTEM, fmt, fs)
            else if fmt = FS_FAT32 \<and> n_rootdir fs \<noteq> 0 then (FR_NO_FILESYSTEM, fmt, fs)
            else if fmt \<noteq> FS_FAT32 \<and> n_rootdir fs = 0 then (FR_NO_FILESYSTEM, fmt, fs)
            else
              (let fs = fs\<lparr>dirbase := (if fmt = FS_FAT32 then ld_dword w 44 else fatbase fs + fasize)\<rparr> in
               if fsize fs < (fat_bytes fmt (n_fatent fs) + (SS - 1)) div SS then (FR_NO_FILESYSTEM, fmt, fs)
               else (FR_OK, fmt, fs)))))"

definition mount_bpb :: "u32 \<Rightarrow> 'd fatfs \<Rightarrow> FRESULT \<times> u8 \<times> 'd fatfs" where
  "mount_bpb bsect fs =
     (let w = win fs in
      if ld_word w 11 \<noteq> 512 then (FR_NO_FILESYSTEM, 0, fs)
      else
        (let fs = fs\<lparr>fsize := bpb_fatsz w, n_fats := w ! 16\<rparr> in
         if n_fats fs \<noteq> 1 \<and> n_fats fs \<noteq> 2 then (FR_NO_FILESYSTEM, 0, fs)
         else
           (let fasize = fsize fs * ucast (n_fats fs); fs = fs\<lparr>csize := ucast (w ! 13)\<rparr> in
            if csize fs = 0 \<or> csize fs AND (csize fs - 1) \<noteq> 0 then (FR_NO_FILESYSTEM, 0, fs)
            else
              (let fs = fs\<lparr>n_rootdir := ld_word w 17\<rparr>; nrsv = ucast (ld_word w 14) in
               if n_rootdir fs mod 16 \<noteq> 0 then (FR_NO_FILESYSTEM, 0, fs)
               else if nrsv = 0 then (FR_NO_FILESYSTEM, 0, fs)
               else mount_limits bsect nrsv fasize (bpb_tsect w) fs))))"

definition mount_fsinfo :: "'d disk_ops \<Rightarrow> u8 \<Rightarrow> u32 \<Rightarrow> 'd fatfs \<Rightarrow> 'd fatfs option" where
  "mount_fsinfo K fmt bsect fs = do {
     let fs = fs\<lparr>last_clst := 0xFFFFFFFF, free_clst := 0xFFFFFFFF, fsi_flag := 0x80\<rparr>;
     if fmt = FS_FAT32 \<and> ld_word (win fs) 48 = 1 then do {
       (res, fs) \<leftarrow> move_window K (bsect + 1) fs;
       if res = FR_OK then do {
         let fs = fs\<lparr>fsi_flag := 0\<rparr>;
         let w = win fs;
         Some (if ld_dword w 0 = 0x41615252 \<and> ld_dword w 484 = 0x61417272 \<and> ld_dword w 498 = 0xAA550000
               then fs\<lparr>free_clst := ld_dword w 488, last_clst := ld_dword w 492\<rparr> else fs)
       }
       else Some fs
     }
     else Some fs
   }"

section \<open>Mounting\<close>

definition mount_scan :: "'d disk_ops \<Rightarrow> 'd fatvol \<Rightarrow> (FRESULT \<times> 'd fatvol) option" where
  "mount_scan K v = do {
     (fmt, fs) \<leftarrow> find_volume K 0 (vol v);
     if fmt = 4 then Some (FR_DISK_ERR, v\<lparr>vol := fs\<rparr>)
     else if fmt \<ge> 2 then Some (FR_NO_FILESYSTEM, v\<lparr>vol := fs\<rparr>)
     else do {
       let bsect = winsect fs;
       let (res, fmt, fs) = mount_bpb bsect fs;
       if res \<noteq> FR_OK then Some (res, v\<lparr>vol := fs\<rparr>)
       else do {
         fs \<leftarrow> mount_fsinfo K fmt bsect fs;
         let n = Fsid v + 1;
         Some (FR_OK, v\<lparr>vol := fs\<lparr>fs_type := fmt, fs_id := n\<rparr>, Fsid := n\<rparr>)
       }
     }
   }"

definition mount_volume :: "'d disk_ops \<Rightarrow> u8 list \<Rightarrow> u8 \<Rightarrow> 'd fatvol \<Rightarrow> (FRESULT \<times> u8 list \<times> 'd fatvol) option" where
  "mount_volume K path mode v =
     (case get_ldnumber path of
        None \<Rightarrow> Some (FR_INVALID_DRIVE, path, v)
      | Some (_, path) \<Rightarrow>
          (if \<not> FatFs v then Some (FR_NOT_ENABLED, path, v)
           else do {
             let mode = mode AND NOT FA_READ;
             let stat = disk_status (pdrv (vol v));
             if fs_type (vol v) \<noteq> 0 \<and> stat AND STA_NOINIT = 0 then
               Some (if mode \<noteq> 0 \<and> stat AND STA_PROTECT \<noteq> 0 then FR_WRITE_PROTECTED else FR_OK, path, v)
             else do {
               let v = v\<lparr>vol := (vol v)\<lparr>fs_type := 0\<rparr>\<rparr>;
               let stat = disk_initialize (pdrv (vol v));
               if stat AND STA_NOINIT \<noteq> 0 then Some (FR_NOT_READY, path, v)
               else if mode \<noteq> 0 \<and> stat AND STA_PROTECT \<noteq> 0 then Some (FR_WRITE_PROTECTED, path, v)
               else do {
                 (res, v) \<leftarrow> mount_scan K v;
                 Some (res, path, v)
               }
             }
           }))"

definition validate :: "FFOBJID \<Rightarrow> 'd fatvol \<Rightarrow> FRESULT" where
  "validate obj v =
     (if ob_fs obj \<and> fs_type (vol v) \<noteq> 0 \<and> ob_id obj = fs_id (vol v) \<and> disk_status (pdrv (vol v)) AND STA_NOINIT = 0
      then FR_OK else FR_INVALID_OBJECT)"

text \<open>Registering the volume object (\<open>reg\<close>) or removing it, and mounting at once with \<open>opt\<close> not 0.\<close>

definition f_mount :: "'d disk_ops \<Rightarrow> bool \<Rightarrow> u8 list \<Rightarrow> u8 \<Rightarrow> 'd fatvol \<Rightarrow> (FRESULT \<times> 'd fatvol) option" where
  "f_mount K reg path opt v =
     (case get_ldnumber path of
        None \<Rightarrow> Some (FR_INVALID_DRIVE, v)
      | Some (n, _) \<Rightarrow> do {
          let v = (if FatFs v then v\<lparr>FatFs := False, vol := (vol v)\<lparr>fs_type := 0\<rparr>\<rparr> else v);
          let v = (if reg then v\<lparr>FatFs := True, vol := (vol v)\<lparr>pdrv := of_nat n, fs_type := 0\<rparr>\<rparr> else v);
          if opt = 0 then Some (FR_OK, v)
          else do {
            (res, _, v) \<leftarrow> mount_volume K path 0 v;
            Some (res, v)
          }
        })"

end
