(* ===== verification/Fat_File.thy ===== *)
theory Fat_File
  imports Fat_Mount
begin

text \<open>
  Files of the FAT file system: \<^verbatim>\<open>f_open\<close>, \<^verbatim>\<open>f_read\<close>, \<^verbatim>\<open>f_write\<close>, \<^verbatim>\<open>f_sync\<close>, \<^verbatim>\<open>f_close\<close>, \<^verbatim>\<open>f_lseek\<close> and \<^verbatim>\<open>f_truncate\<close> of
  \<^verbatim>\<open>kernel/src/fs/fat/ff.c\<close>.  The record \<open>FIL\<close> is the file object with its sector buffer; its pointer to the directory entry
  is an offset in the window.  A read returns the bytes it stores in the caller's buffer, a write takes the bytes of it.
\<close>

section \<open>File objects\<close>

record FIL =
  f_obj :: FFOBJID
  flag :: u8
  ferr :: FRESULT
  fptr :: u32
  clust :: u32
  sect :: u32
  dir_sect :: u32
  dir_ptr :: nat
  fbuf :: "u8 list"

abbreviation "FA_CREATE_NEW \<equiv> 0x04 :: u8"
abbreviation "FA_CREATE_ALWAYS \<equiv> 0x08 :: u8"
abbreviation "FA_OPEN_ALWAYS \<equiv> 0x10 :: u8"
abbreviation "FA_OPEN_APPEND \<equiv> 0x30 :: u8"
abbreviation "FA_SEEKEND \<equiv> 0x20 :: u8"
abbreviation "FA_MODIFIED \<equiv> 0x40 :: u8"
abbreviation "FA_DIRTY \<equiv> 0x80 :: u8"

definition set_objsize :: "u32 \<Rightarrow> FIL \<Rightarrow> FIL" where
  "set_objsize n fp = fp\<lparr>f_obj := (f_obj fp)\<lparr>objsize := n\<rparr>\<rparr>"

definition set_fsclust :: "u32 \<Rightarrow> FIL \<Rightarrow> FIL" where
  "set_fsclust c fp = fp\<lparr>f_obj := (f_obj fp)\<lparr>sclust := c\<rparr>\<rparr>"

text \<open>Write-back of the sector buffer of a file.\<close>

definition flush_buf :: "'d disk_ops \<Rightarrow> FIL \<Rightarrow> 'd fatfs \<Rightarrow> (bool \<times> FIL \<times> 'd fatfs) option" where
  "flush_buf K fp fs =
     (if flag fp AND FA_DIRTY \<noteq> 0 then do {
        (r, d) \<leftarrow> dk_write K (pdrv fs) (fbuf fp) (sect fp) 1 (disk fs);
        Some (if r \<noteq> RES_OK then (False, fp, fs\<lparr>disk := d\<rparr>)
              else (True, fp\<lparr>flag := flag fp AND NOT FA_DIRTY\<rparr>, fs\<lparr>disk := d\<rparr>))
      }
      else Some (True, fp, fs))"

definition fill_buf :: "'d disk_ops \<Rightarrow> u32 \<Rightarrow> FIL \<Rightarrow> 'd fatfs \<Rightarrow> (bool \<times> FIL \<times> 'd fatfs) option" where
  "fill_buf K sec fp fs = do {
     (r, bs, d) \<leftarrow> dk_read K (pdrv fs) sec 1 (disk fs);
     Some (if r \<noteq> RES_OK then (False, fp, fs\<lparr>disk := d\<rparr>) else (True, fp\<lparr>fbuf := bs\<rparr>, fs\<lparr>disk := d\<rparr>))
   }"

section \<open>Reading\<close>

text \<open>
  One round of a loop over sectors: \<open>Inl\<close> is an abort with an error, \<open>Inr\<close> the number of bytes transferred, with the
  bytes where they are read.
\<close>

definition read_part :: "u32 \<Rightarrow> FIL \<Rightarrow> u32 \<times> u8 list" where
  "read_part btr fp =
     (let rcnt = SS - fptr fp mod SS; rcnt = (if rcnt > btr then btr else rcnt) in
      (rcnt, take (unat rcnt) (drop (unat (fptr fp mod SS)) (fbuf fp))))"

definition read_sectors :: "'d disk_ops \<Rightarrow> u32 \<Rightarrow> u32 \<Rightarrow> FIL \<Rightarrow> 'd fatfs \<Rightarrow> ((FRESULT + u32 \<times> u8 list) \<times> FIL \<times> 'd fatfs) option" where
  "read_sectors K sec cc fp fs = do {
     (r, bs, d) \<leftarrow> dk_read K (pdrv fs) sec cc (disk fs);
     let fs = fs\<lparr>disk := d\<rparr>;
     if r \<noteq> RES_OK then Some (Inl FR_DISK_ERR, fp, fs)
     else do {
       let k = unat ((sect fp - sec) * SS);
       let bs = (if flag fp AND FA_DIRTY \<noteq> 0 \<and> sect fp - sec < cc then take k bs @ fbuf fp @ drop (k + 512) bs else bs);
       Some (Inr (SS * cc, bs), fp, fs)
     }
   }"

definition read_load :: "'d disk_ops \<Rightarrow> u32 \<Rightarrow> FIL \<Rightarrow> 'd fatfs \<Rightarrow> (bool \<times> FIL \<times> 'd fatfs) option" where
  "read_load K sec fp fs =
     (if sect fp \<noteq> sec then do {
        (k, fp, fs) \<leftarrow> flush_buf K fp fs;
        if \<not> k then Some (False, fp, fs) else fill_buf K sec fp fs
      }
      else Some (True, fp, fs))"

definition read_step :: "'d disk_ops \<Rightarrow> u32 \<Rightarrow> FIL \<Rightarrow> 'd fatfs \<Rightarrow> ((FRESULT + u32 \<times> u8 list) \<times> FIL \<times> 'd fatfs) option" where
  "read_step K btr fp fs =
     (if fptr fp mod SS = 0 then do {
        let csect = (fptr fp div SS) AND (ucast (csize fs) - 1);
        (clst, fs) \<leftarrow> (if csect = 0 then (if fptr fp = 0 then Some (sclust (f_obj fp), fs) else get_fat K (clust fp) fs)
                       else Some (clust fp, fs));
        if csect = 0 \<and> clst < 2 then Some (Inl FR_INT_ERR, fp, fs)
        else if csect = 0 \<and> clst = 0xFFFFFFFF then Some (Inl FR_DISK_ERR, fp, fs)
        else do {
          let fp = fp\<lparr>clust := clst\<rparr>;
          let sec = clst2sect clst fs;
          if sec = 0 then Some (Inl FR_INT_ERR, fp, fs)
          else do {
            let sec = sec + csect;
            let cc = btr div SS;
            if cc > 0 then
              read_sectors K sec (if csect + cc > ucast (csize fs) then ucast (csize fs) - csect else cc) fp fs
            else do {
              (k, fp, fs) \<leftarrow> read_load K sec fp fs;
              if \<not> k then Some (Inl FR_DISK_ERR, fp, fs)
              else do {
                let fp = fp\<lparr>sect := sec\<rparr>;
                Some (Inr (read_part btr fp), fp, fs)
              }
            }
          }
        }
      }
      else Some (Inr (read_part btr fp), fp, fs))"

partial_function (option) fread_loop ::
  "'d disk_ops \<Rightarrow> u32 \<Rightarrow> u8 list \<Rightarrow> FIL \<Rightarrow> 'd fatfs \<Rightarrow> (FRESULT \<times> u8 list \<times> FIL \<times> 'd fatfs) option" where
  "fread_loop K btr acc fp fs =
     (if btr = 0 then Some (FR_OK, acc, fp, fs)
      else do {
        (r, fp, fs) \<leftarrow> read_step K btr fp fs;
        case r of
          Inl e \<Rightarrow> Some (e, acc, fp\<lparr>ferr := e\<rparr>, fs)
        | Inr (rcnt, bs) \<Rightarrow> fread_loop K (btr - rcnt) (acc @ bs) (fp\<lparr>fptr := fptr fp + rcnt\<rparr>) fs
      })"

definition f_read :: "'d disk_ops \<Rightarrow> FIL \<Rightarrow> u32 \<Rightarrow> 'd fatvol \<Rightarrow> (FRESULT \<times> u8 list \<times> FIL \<times> 'd fatvol) option" where
  "f_read K fp btr v =
     (let res = validate (f_obj fp) v in
      if res \<noteq> FR_OK then Some (res, [], fp, v)
      else if ferr fp \<noteq> FR_OK then Some (ferr fp, [], fp, v)
      else if flag fp AND FA_READ = 0 then Some (FR_DENIED, [], fp, v)
      else do {
        let remain = objsize (f_obj fp) - fptr fp;
        (res, bs, fp, fs) \<leftarrow> fread_loop K (if btr > remain then remain else btr) [] fp (vol v);
        Some (res, bs, fp, v\<lparr>vol := fs\<rparr>)
      })"

section \<open>Writing\<close>

text \<open>The cluster for a write at a cluster boundary; \<open>Inl None\<close> is a full disk.\<close>

definition write_clust :: "'d disk_ops \<Rightarrow> FIL \<Rightarrow> 'd fatfs \<Rightarrow> ((FRESULT option + unit) \<times> FIL \<times> 'd fatfs) option" where
  "write_clust K fp fs = do {
     (clst, fs) \<leftarrow>
       (if fptr fp = 0 then (if sclust (f_obj fp) = 0 then create_chain K 0 fs else Some (sclust (f_obj fp), fs))
        else create_chain K (clust fp) fs);
     if clst = 0 then Some (Inl None, fp, fs)
     else if clst = 1 then Some (Inl (Some FR_INT_ERR), fp, fs)
     else if clst = 0xFFFFFFFF then Some (Inl (Some FR_DISK_ERR), fp, fs)
     else do {
       let fp = fp\<lparr>clust := clst\<rparr>;
       Some (Inr (), if sclust (f_obj fp) = 0 then set_fsclust clst fp else fp, fs)
     }
   }"

definition write_sectors ::
  "'d disk_ops \<Rightarrow> u32 \<Rightarrow> u32 \<Rightarrow> u8 list \<Rightarrow> FIL \<Rightarrow> 'd fatfs \<Rightarrow> ((FRESULT option + u32) \<times> FIL \<times> 'd fatfs) option" where
  "write_sectors K sec cc wb fp fs = do {
     (r, d) \<leftarrow> dk_write K (pdrv fs) (take (unat (cc * SS)) wb) sec cc (disk fs);
     let fs = fs\<lparr>disk := d\<rparr>;
     if r \<noteq> RES_OK then Some (Inl (Some FR_DISK_ERR), fp, fs)
     else do {
       let k = unat ((sect fp - sec) * SS);
       let fp = (if sect fp - sec < cc then fp\<lparr>fbuf := take 512 (drop k wb), flag := flag fp AND NOT FA_DIRTY\<rparr> else fp);
       Some (Inr (SS * cc), fp, fs)
     }
   }"

definition write_part :: "u32 \<Rightarrow> u8 list \<Rightarrow> FIL \<Rightarrow> u32 \<times> FIL" where
  "write_part btw wb fp =
     (let wcnt = SS - fptr fp mod SS; wcnt = (if wcnt > btw then btw else wcnt); p = unat (fptr fp mod SS); n = unat wcnt in
      (wcnt, fp\<lparr>fbuf := take p (fbuf fp) @ take n wb @ drop (p + n) (fbuf fp), flag := flag fp OR FA_DIRTY\<rparr>))"

definition write_aligned ::
  "'d disk_ops \<Rightarrow> u32 \<Rightarrow> u8 list \<Rightarrow> u32 \<Rightarrow> FIL \<Rightarrow> 'd fatfs \<Rightarrow> ((FRESULT option + u32) \<times> FIL \<times> 'd fatfs) option" where
  "write_aligned K btw wb csect fp fs = do {
     (k, fp, fs) \<leftarrow> flush_buf K fp fs;
     if \<not> k then Some (Inl (Some FR_DISK_ERR), fp, fs)
     else do {
       let sec = clst2sect (clust fp) fs;
       if sec = 0 then Some (Inl (Some FR_INT_ERR), fp, fs)
       else do {
         let sec = sec + csect;
         let cc = btw div SS;
         if cc > 0 then
           write_sectors K sec (if csect + cc > ucast (csize fs) then ucast (csize fs) - csect else cc) wb fp fs
         else do {
           (k, fp, fs) \<leftarrow> (if sect fp \<noteq> sec \<and> fptr fp < objsize (f_obj fp) then fill_buf K sec fp fs else Some (True, fp, fs));
           if \<not> k then Some (Inl (Some FR_DISK_ERR), fp, fs)
           else do {
             let (wcnt, fp) = write_part btw wb (fp\<lparr>sect := sec\<rparr>);
             Some (Inr wcnt, fp, fs)
           }
         }
       }
     }
   }"

definition write_step ::
  "'d disk_ops \<Rightarrow> u32 \<Rightarrow> u8 list \<Rightarrow> FIL \<Rightarrow> 'd fatfs \<Rightarrow> ((FRESULT option + u32) \<times> FIL \<times> 'd fatfs) option" where
  "write_step K btw wb fp fs =
     (if fptr fp mod SS = 0 then do {
        let csect = (fptr fp div SS) AND (ucast (csize fs) - 1);
        (r, fp, fs) \<leftarrow> (if csect = 0 then write_clust K fp fs else Some (Inr (), fp, fs));
        case r of
          Inl e \<Rightarrow> Some (Inl e, fp, fs)
        | Inr _ \<Rightarrow> write_aligned K btw wb csect fp fs
      }
      else do {
        let (wcnt, fp) = write_part btw wb fp;
        Some (Inr wcnt, fp, fs)
      })"

partial_function (option) fwrite_loop ::
  "'d disk_ops \<Rightarrow> u32 \<Rightarrow> u8 list \<Rightarrow> u32 \<Rightarrow> FIL \<Rightarrow> 'd fatfs \<Rightarrow> (FRESULT \<times> u32 \<times> FIL \<times> 'd fatfs) option" where
  "fwrite_loop K btw wb bw fp fs =
     (if btw = 0 then Some (FR_OK, bw, fp\<lparr>flag := flag fp OR FA_MODIFIED\<rparr>, fs)
      else do {
        (r, fp, fs) \<leftarrow> write_step K btw wb fp fs;
        case r of
          Inl None \<Rightarrow> Some (FR_OK, bw, fp\<lparr>flag := flag fp OR FA_MODIFIED\<rparr>, fs)
        | Inl (Some e) \<Rightarrow> Some (e, bw, fp\<lparr>ferr := e\<rparr>, fs)
        | Inr wcnt \<Rightarrow>
            (let fp = fp\<lparr>fptr := fptr fp + wcnt\<rparr>;
                 fp = set_objsize (if fptr fp > objsize (f_obj fp) then fptr fp else objsize (f_obj fp)) fp
             in fwrite_loop K (btw - wcnt) (drop (unat wcnt) wb) (bw + wcnt) fp fs)
      })"

definition f_write :: "'d disk_ops \<Rightarrow> FIL \<Rightarrow> u8 list \<Rightarrow> u32 \<Rightarrow> 'd fatvol \<Rightarrow> (FRESULT \<times> u32 \<times> FIL \<times> 'd fatvol) option" where
  "f_write K fp buff btw v =
     (let res = validate (f_obj fp) v in
      if res \<noteq> FR_OK then Some (res, 0, fp, v)
      else if ferr fp \<noteq> FR_OK then Some (ferr fp, 0, fp, v)
      else if flag fp AND FA_WRITE = 0 then Some (FR_DENIED, 0, fp, v)
      else do {
        let btw = (if fptr fp + btw < fptr fp then 0xFFFFFFFF - fptr fp else btw);
        (res, bw, fp, fs) \<leftarrow> fwrite_loop K btw buff 0 fp (vol v);
        Some (res, bw, fp, v\<lparr>vol := fs\<rparr>)
      })"

end
