(* ===== verification/Fat_Api.thy ===== *)
theory Fat_Api
  imports Fat_File
begin

text \<open>
  The remaining functions of the FAT file system interface in \<^verbatim>\<open>kernel/src/fs/fat/ff.c\<close>: opening, synchronising, closing,
  seeking and truncating files, and the functions on directories and paths.  Objects that the code declares without
  an initial value start as \<open>new_dir\<close>; no function reads a field of them before it is set.
\<close>

section \<open>The name buffer\<close>

definition new_dir :: DIR where
  "new_dir = \<lparr>d_obj = \<lparr>ob_fs = True, ob_id = 0, ob_attr = 0, ob_stat = 0, sclust = 0, objsize = 0\<rparr>, dptr = 0, d_clust = 0,
     d_sect = 0, d_dir = 0, fn = replicate 12 0, blk_ofs = 0\<rparr>"

text \<open>The buffer for long names comes from the kernel heap with the contents it has there; 0 means no memory.\<close>

definition init_nambuf :: "'d disk_ops \<Rightarrow> 'd fatfs \<Rightarrow> (u64 \<times> 'd fatfs) option" where
  "init_nambuf K fs = do {
     (lfn, bs, d) \<leftarrow> mem_alloc K 512 (disk fs);
     Some (lfn, if lfn = 0 then fs\<lparr>disk := d\<rparr> else fs\<lparr>disk := d, lfnbuf := map (\<lambda>i. ld_word bs (2 * i)) [0..<256]\<rparr>)
   }"

definition free_nambuf :: "'d disk_ops \<Rightarrow> u64 \<Rightarrow> 'd fatfs \<Rightarrow> 'd fatfs option" where
  "free_nambuf K lfn fs = do {
     d \<leftarrow> mem_free K lfn (disk fs);
     Some (fs\<lparr>disk := d\<rparr>)
   }"

section \<open>Opening\<close>

definition open_trunc :: "'d disk_ops \<Rightarrow> DIR \<Rightarrow> 'd fatfs \<Rightarrow> (FRESULT \<times> 'd fatfs) option" where
  "open_trunc K dj fs = do {
     let p = d_dir dj;
     let w = st_dword (win fs) (p + 14) get_fattime;
     let w = st_dword w (p + 22) get_fattime;
     let cl = ld_clust fs w p;
     let w = st_clust fs (w[p + 11 := AM_ARC]) p 0;
     let fs = set_win (st_dword w (p + 28) 0) fs;
     if cl \<noteq> 0 then do {
       let sc = winsect fs;
       (res, fs) \<leftarrow> remove_chain K cl 0 fs;
       if res = FR_OK then do {
         (res, fs) \<leftarrow> move_window K sc fs;
         Some (res, fs\<lparr>last_clst := cl - 1\<rparr>)
       }
       else Some (res, fs)
     }
     else Some (FR_OK, fs)
   }"

definition open_entry :: "'d disk_ops \<Rightarrow> FRESULT \<Rightarrow> u8 \<Rightarrow> DIR \<Rightarrow> 'd fatfs \<Rightarrow> (FRESULT \<times> u8 \<times> DIR \<times> 'd fatfs) option" where
  "open_entry K res mode dj fs =
     (let attr = ob_attr (d_obj dj) in
      if mode AND (FA_CREATE_ALWAYS OR FA_OPEN_ALWAYS OR FA_CREATE_NEW) \<noteq> 0 then do {
        (res, mode, dj, fs) \<leftarrow>
          (if res \<noteq> FR_OK then do {
             (res, dj, fs) \<leftarrow> (if res = FR_NO_FILE then dir_register K dj fs else Some (res, dj, fs));
             Some (res, mode OR FA_CREATE_ALWAYS, dj, fs)
           }
           else Some (if attr AND (AM_RDO OR AM_DIR) \<noteq> 0 then FR_DENIED
                      else if mode AND FA_CREATE_NEW \<noteq> 0 then FR_EXIST else res, mode, dj, fs));
        if res = FR_OK \<and> mode AND FA_CREATE_ALWAYS \<noteq> 0 then do {
          (res, fs) \<leftarrow> open_trunc K dj fs;
          Some (res, mode, dj, fs)
        }
        else Some (res, mode, dj, fs)
      }
      else Some (if res \<noteq> FR_OK then res
                 else if attr AND AM_DIR \<noteq> 0 then FR_NO_FILE
                 else if mode AND FA_WRITE \<noteq> 0 \<and> attr AND AM_RDO \<noteq> 0 then FR_DENIED else FR_OK, mode, dj, fs))"

partial_function (option) open_follow ::
  "'d disk_ops \<Rightarrow> u32 \<Rightarrow> u32 \<Rightarrow> u32 \<Rightarrow> 'd fatfs \<Rightarrow> (FRESULT \<times> u32 \<times> u32 \<times> 'd fatfs) option" where
  "open_follow K bcs clst ofs fs =
     (if ofs > bcs then do {
        (clst, fs) \<leftarrow> get_fat K clst fs;
        if clst = 0xFFFFFFFF then Some (FR_DISK_ERR, clst, ofs - bcs, fs)
        else if clst \<le> 1 then Some (FR_INT_ERR, clst, ofs - bcs, fs)
        else open_follow K bcs clst (ofs - bcs) fs
      }
      else Some (FR_OK, clst, ofs, fs))"

definition open_seek :: "'d disk_ops \<Rightarrow> FIL \<Rightarrow> 'd fatfs \<Rightarrow> (FRESULT \<times> FIL \<times> 'd fatfs) option" where
  "open_seek K fp fs = do {
     let fp = fp\<lparr>fptr := objsize (f_obj fp)\<rparr>;
     (res, clst, ofs, fs) \<leftarrow> open_follow K (ucast (csize fs) * SS) (sclust (f_obj fp)) (objsize (f_obj fp)) fs;
     let fp = fp\<lparr>clust := clst\<rparr>;
     if res = FR_OK \<and> ofs mod SS \<noteq> 0 then do {
       let sc = clst2sect clst fs;
       if sc = 0 then Some (FR_INT_ERR, fp, fs)
       else do {
         let fp = fp\<lparr>sect := sc + ofs div SS\<rparr>;
         (k, fp, fs) \<leftarrow> fill_buf K (sect fp) fp fs;
         Some (if k then FR_OK else FR_DISK_ERR, fp, fs)
       }
     }
     else Some (res, fp, fs)
   }"

definition open_file :: "'d disk_ops \<Rightarrow> u8 \<Rightarrow> DIR \<Rightarrow> FIL \<Rightarrow> 'd fatfs \<Rightarrow> (FRESULT \<times> FIL \<times> 'd fatfs) option" where
  "open_file K mode dj fp fs = do {
     let mode = (if mode AND FA_CREATE_ALWAYS \<noteq> 0 then mode OR FA_MODIFIED else mode);
     let fp = fp\<lparr>dir_sect := winsect fs, dir_ptr := d_dir dj,
       f_obj := (f_obj fp)\<lparr>sclust := ld_clust fs (win fs) (d_dir dj), objsize := ld_dword (win fs) (d_dir dj + 28),
         ob_fs := True, ob_id := fs_id fs\<rparr>,
       flag := mode, ferr := FR_OK, sect := 0, fptr := 0, fbuf := replicate 512 0\<rparr>;
     if mode AND FA_SEEKEND \<noteq> 0 \<and> objsize (f_obj fp) > 0 then open_seek K fp fs else Some (FR_OK, fp, fs)
   }"

definition close_obj :: "FIL \<Rightarrow> FIL" where
  "close_obj fp = fp\<lparr>f_obj := (f_obj fp)\<lparr>ob_fs := False\<rparr>\<rparr>"

definition f_open :: "'d disk_ops \<Rightarrow> codepage \<Rightarrow> FIL \<Rightarrow> u8 list \<Rightarrow> u8 \<Rightarrow> 'd fatvol \<Rightarrow> (FRESULT \<times> FIL \<times> 'd fatvol) option" where
  "f_open K T fp path mode v = do {
     let mode = mode AND (FA_READ OR FA_WRITE OR FA_CREATE_ALWAYS OR FA_CREATE_NEW OR FA_OPEN_ALWAYS OR FA_OPEN_APPEND);
     (res, path, v) \<leftarrow> mount_volume K path mode v;
     if res \<noteq> FR_OK then Some (res, close_obj fp, v)
     else do {
       (lfn, fs) \<leftarrow> init_nambuf K (vol v);
       if lfn = 0 then Some (FR_NOT_ENOUGH_CORE, fp, v\<lparr>vol := fs\<rparr>)
       else do {
         (res, dj, fs) \<leftarrow> follow_path K T new_dir path fs;
         let res = (if res = FR_OK \<and> fn dj ! NSFLAG AND NS_NONAME \<noteq> 0 then FR_INVALID_NAME else res);
         (res, mode, dj, fs) \<leftarrow> open_entry K res mode dj fs;
         (res, fp, fs) \<leftarrow> (if res = FR_OK then open_file K mode dj fp fs else Some (res, fp, fs));
         fs \<leftarrow> free_nambuf K lfn fs;
         Some (res, if res \<noteq> FR_OK then close_obj fp else fp, v\<lparr>vol := fs\<rparr>)
       }
     }
   }"

section \<open>Synchronising and closing\<close>

definition sync_entry :: "FIL \<Rightarrow> 'd fatfs \<Rightarrow> u8 list" where
  "sync_entry fp fs =
     (let p = dir_ptr fp; w = win fs;
          w = w[p + 11 := w ! (p + 11) OR AM_ARC];
          w = st_clust fs w p (sclust (f_obj fp));
          w = st_dword w (p + 28) (objsize (f_obj fp));
          w = st_dword w (p + 22) get_fattime
      in st_word w (p + 18) 0)"

definition f_sync :: "'d disk_ops \<Rightarrow> FIL \<Rightarrow> 'd fatvol \<Rightarrow> (FRESULT \<times> FIL \<times> 'd fatvol) option" where
  "f_sync K fp v =
     (let res = validate (f_obj fp) v in
      if res = FR_OK \<and> flag fp AND FA_MODIFIED \<noteq> 0 then do {
        (k, fp, fs) \<leftarrow> flush_buf K fp (vol v);
        if \<not> k then Some (FR_DISK_ERR, fp, v\<lparr>vol := fs\<rparr>)
        else do {
          (res, fs) \<leftarrow> move_window K (dir_sect fp) fs;
          if res = FR_OK then do {
            (res, fs) \<leftarrow> sync_fs K (set_win (sync_entry fp fs) fs);
            Some (res, fp\<lparr>flag := flag fp AND NOT FA_MODIFIED\<rparr>, v\<lparr>vol := fs\<rparr>)
          }
          else Some (res, fp, v\<lparr>vol := fs\<rparr>)
        }
      }
      else Some (res, fp, v))"

definition f_close :: "'d disk_ops \<Rightarrow> FIL \<Rightarrow> 'd fatvol \<Rightarrow> (FRESULT \<times> FIL \<times> 'd fatvol) option" where
  "f_close K fp v = do {
     (res, fp, v) \<leftarrow> f_sync K fp v;
     if res = FR_OK then do {
       let res = validate (f_obj fp) v;
       Some (res, if res = FR_OK then close_obj fp else fp, v)
     }
     else Some (res, fp, v)
   }"

section \<open>Seeking and truncating\<close>

text \<open>The walk to the cluster of the offset; it returns an error or the rest of the offset.\<close>

partial_function (option) seek_follow ::
  "'d disk_ops \<Rightarrow> u32 \<Rightarrow> u32 \<Rightarrow> u32 \<Rightarrow> FIL \<Rightarrow> 'd fatfs \<Rightarrow> ((FRESULT + u32 \<times> u32) \<times> FIL \<times> 'd fatfs) option" where
  "seek_follow K bcs clst ofs fp fs =
     (if ofs > bcs then do {
        let ofs = ofs - bcs;
        let fp = fp\<lparr>fptr := fptr fp + bcs\<rparr>;
        (clst, fs) \<leftarrow> (if flag fp AND FA_WRITE \<noteq> 0 then create_chain K clst fs else get_fat K clst fs);
        if flag fp AND FA_WRITE \<noteq> 0 \<and> clst = 0 then Some (Inr (clst, 0), fp, fs)
        else if clst = 0xFFFFFFFF then Some (Inl FR_DISK_ERR, fp, fs)
        else if clst \<le> 1 \<or> clst \<ge> n_fatent fs then Some (Inl FR_INT_ERR, fp, fs)
        else seek_follow K bcs clst ofs (fp\<lparr>clust := clst\<rparr>) fs
      }
      else Some (Inr (clst, ofs), fp, fs))"

definition seek_start :: "'d disk_ops \<Rightarrow> u32 \<Rightarrow> u32 \<Rightarrow> u32 \<Rightarrow> FIL \<Rightarrow> 'd fatfs \<Rightarrow> ((FRESULT + u32 \<times> u32) \<times> FIL \<times> 'd fatfs) option" where
  "seek_start K bcs ifptr ofs fp fs =
     (if ifptr > 0 \<and> (ofs - 1) div bcs \<ge> (ifptr - 1) div bcs then
        (let fp = fp\<lparr>fptr := (ifptr - 1) AND NOT (bcs - 1)\<rparr> in Some (Inr (clust fp, ofs - fptr fp), fp, fs))
      else do {
        let clst = sclust (f_obj fp);
        if clst = 0 then do {
          (clst, fs) \<leftarrow> create_chain K 0 fs;
          if clst = 1 then Some (Inl FR_INT_ERR, fp, fs)
          else if clst = 0xFFFFFFFF then Some (Inl FR_DISK_ERR, fp, fs)
          else Some (Inr (clst, ofs), (set_fsclust clst fp)\<lparr>clust := clst\<rparr>, fs)
        }
        else Some (Inr (clst, ofs), fp\<lparr>clust := clst\<rparr>, fs)
      })"

text \<open>The sector of the offset, 0 where no sector has to be loaded.\<close>

definition seek_walk :: "'d disk_ops \<Rightarrow> u32 \<Rightarrow> FIL \<Rightarrow> 'd fatfs \<Rightarrow> ((FRESULT + u32) \<times> FIL \<times> 'd fatfs) option" where
  "seek_walk K ofs fp fs =
     (let ifptr = fptr fp; fp = fp\<lparr>fptr := 0\<rparr>; bcs = ucast (csize fs) * SS in
      if ofs > 0 then do {
        (r, fp, fs) \<leftarrow> seek_start K bcs ifptr ofs fp fs;
        case r of
          Inl e \<Rightarrow> Some (Inl e, fp, fs)
        | Inr (clst, ofs) \<Rightarrow>
            (if clst = 0 then Some (Inr 0, fp, fs)
             else do {
               (r, fp, fs) \<leftarrow> seek_follow K bcs clst ofs fp fs;
               case r of
                 Inl e \<Rightarrow> Some (Inl e, fp, fs)
               | Inr (clst, ofs) \<Rightarrow>
                   (let fp = fp\<lparr>fptr := fptr fp + ofs\<rparr> in
                    if ofs mod SS \<noteq> 0 then
                      (let nsect = clst2sect clst fs in
                       Some (if nsect = 0 then Inl FR_INT_ERR else Inr (nsect + ofs div SS), fp, fs))
                    else Some (Inr 0, fp, fs))
             })
      }
      else Some (Inr 0, fp, fs))"

definition f_lseek :: "'d disk_ops \<Rightarrow> FIL \<Rightarrow> u32 \<Rightarrow> 'd fatvol \<Rightarrow> (FRESULT \<times> FIL \<times> 'd fatvol) option" where
  "f_lseek K fp ofs v =
     (let res = validate (f_obj fp) v; res = (if res = FR_OK then ferr fp else res) in
      if res \<noteq> FR_OK then Some (res, fp, v)
      else do {
        let ofs = (if ofs > objsize (f_obj fp) \<and> flag fp AND FA_WRITE = 0 then objsize (f_obj fp) else ofs);
        (r, fp, fs) \<leftarrow> seek_walk K ofs fp (vol v);
        case r of
          Inl e \<Rightarrow> Some (e, fp\<lparr>ferr := e\<rparr>, v\<lparr>vol := fs\<rparr>)
        | Inr nsect \<Rightarrow> do {
            let fp = (if fptr fp > objsize (f_obj fp)
                      then (set_objsize (fptr fp) fp)\<lparr>flag := flag fp OR FA_MODIFIED\<rparr> else fp);
            if fptr fp mod SS \<noteq> 0 \<and> nsect \<noteq> sect fp then do {
              (k, fp, fs) \<leftarrow> read_load K nsect fp fs;
              Some (if \<not> k then (FR_DISK_ERR, fp\<lparr>ferr := FR_DISK_ERR\<rparr>, v\<lparr>vol := fs\<rparr>)
                    else (res, fp\<lparr>sect := nsect\<rparr>, v\<lparr>vol := fs\<rparr>))
            }
            else Some (res, fp, v\<lparr>vol := fs\<rparr>)
          }
      })"

definition truncate_chain :: "'d disk_ops \<Rightarrow> FIL \<Rightarrow> 'd fatfs \<Rightarrow> (FRESULT \<times> FIL \<times> 'd fatfs) option" where
  "truncate_chain K fp fs =
     (if fptr fp = 0 then do {
        (res, fs) \<leftarrow> remove_chain K (sclust (f_obj fp)) 0 fs;
        Some (res, set_fsclust 0 fp, fs)
      }
      else do {
        (ncl, fs) \<leftarrow> get_fat K (clust fp) fs;
        let res = (if ncl = 1 then FR_INT_ERR else if ncl = 0xFFFFFFFF then FR_DISK_ERR else FR_OK);
        if res = FR_OK \<and> ncl < n_fatent fs then do {
          (res, fs) \<leftarrow> remove_chain K ncl (clust fp) fs;
          Some (res, fp, fs)
        }
        else Some (res, fp, fs)
      })"

definition f_truncate :: "'d disk_ops \<Rightarrow> FIL \<Rightarrow> 'd fatvol \<Rightarrow> (FRESULT \<times> FIL \<times> 'd fatvol) option" where
  "f_truncate K fp v =
     (let res = validate (f_obj fp) v in
      if res \<noteq> FR_OK then Some (res, fp, v)
      else if ferr fp \<noteq> FR_OK then Some (ferr fp, fp, v)
      else if flag fp AND FA_WRITE = 0 then Some (FR_DENIED, fp, v)
      else if fptr fp < objsize (f_obj fp) then do {
        (res, fp, fs) \<leftarrow> truncate_chain K fp (vol v);
        let fp = (set_objsize (fptr fp) fp)\<lparr>flag := flag fp OR FA_MODIFIED\<rparr>;
        (res, fp, fs) \<leftarrow>
          (if res = FR_OK then do {
             (k, fp, fs) \<leftarrow> flush_buf K fp fs;
             Some (if k then FR_OK else FR_DISK_ERR, fp, fs)
           }
           else Some (res, fp, fs));
        Some (res, if res \<noteq> FR_OK then fp\<lparr>ferr := res\<rparr> else fp, v\<lparr>vol := fs\<rparr>)
      }
      else Some (res, fp, v))"

section \<open>Directories\<close>

definition close_dir :: "DIR \<Rightarrow> DIR" where
  "close_dir dp = dp\<lparr>d_obj := (d_obj dp)\<lparr>ob_fs := False\<rparr>\<rparr>"

definition f_opendir :: "'d disk_ops \<Rightarrow> codepage \<Rightarrow> DIR \<Rightarrow> u8 list \<Rightarrow> 'd fatvol \<Rightarrow> (FRESULT \<times> DIR \<times> 'd fatvol) option" where
  "f_opendir K T dp path v = do {
     (res, path, v) \<leftarrow> mount_volume K path 0 v;
     if res \<noteq> FR_OK then Some (res, close_dir dp, v)
     else do {
       let dp = dp\<lparr>d_obj := (d_obj dp)\<lparr>ob_fs := True\<rparr>\<rparr>;
       (lfn, fs) \<leftarrow> init_nambuf K (vol v);
       if lfn = 0 then Some (FR_NOT_ENOUGH_CORE, dp, v\<lparr>vol := fs\<rparr>)
       else do {
         (res, dp, fs) \<leftarrow> follow_path K T dp path fs;
         (res, dp, fs) \<leftarrow>
           (if res = FR_OK then do {
              let sub = (fn dp ! NSFLAG AND NS_NONAME = 0);
              if sub \<and> ob_attr (d_obj dp) AND AM_DIR = 0 then Some (FR_NO_PATH, dp, fs)
              else do {
                let dp = (if sub then set_sclust (ld_clust fs (win fs) (d_dir dp)) dp else dp);
                dir_sdi K (dp\<lparr>d_obj := (d_obj dp)\<lparr>ob_id := fs_id fs\<rparr>\<rparr>) 0 fs
              }
            }
            else Some (res, dp, fs));
         fs \<leftarrow> free_nambuf K lfn fs;
         let res = (if res = FR_NO_FILE then FR_NO_PATH else res);
         Some (res, if res \<noteq> FR_OK then close_dir dp else dp, v\<lparr>vol := fs\<rparr>)
       }
     }
   }"

definition f_closedir :: "DIR \<Rightarrow> 'd fatvol \<Rightarrow> FRESULT \<times> DIR" where
  "f_closedir dp v = (let res = validate (d_obj dp) v in (res, if res = FR_OK then close_dir dp else dp))"

text \<open>Reading the next entry, or rewinding where the code passes no place for the information.\<close>

definition f_readdir ::
  "'d disk_ops \<Rightarrow> codepage \<Rightarrow> DIR \<Rightarrow> FILINFO option \<Rightarrow> 'd fatvol \<Rightarrow> (FRESULT \<times> DIR \<times> FILINFO option \<times> 'd fatvol) option" where
  "f_readdir K T dp fno v =
     (let res = validate (d_obj dp) v in
      if res \<noteq> FR_OK then Some (res, dp, fno, v)
      else
        (case fno of
           None \<Rightarrow> do {
             (res, dp, fs) \<leftarrow> dir_sdi K dp 0 (vol v);
             Some (res, dp, None, v\<lparr>vol := fs\<rparr>)
           }
         | Some info \<Rightarrow> do {
             (lfn, fs) \<leftarrow> init_nambuf K (vol v);
             if lfn = 0 then Some (FR_NOT_ENOUGH_CORE, dp, fno, v\<lparr>vol := fs\<rparr>)
             else do {
               (res, dp, fs) \<leftarrow> dir_read K dp False fs;
               let res = (if res = FR_NO_FILE then FR_OK else res);
               (res, dp, info, fs) \<leftarrow>
                 (if res = FR_OK then do {
                    let info = get_fileinfo T dp fs info;
                    (res, dp, fs) \<leftarrow> dir_next K dp False fs;
                    Some (if res = FR_NO_FILE then FR_OK else res, dp, info, fs)
                  }
                  else Some (res, dp, info, fs));
               fs \<leftarrow> free_nambuf K lfn fs;
               Some (res, dp, Some info, v\<lparr>vol := fs\<rparr>)
             }
           }))"

definition f_stat ::
  "'d disk_ops \<Rightarrow> codepage \<Rightarrow> u8 list \<Rightarrow> FILINFO option \<Rightarrow> 'd fatvol \<Rightarrow> (FRESULT \<times> FILINFO option \<times> 'd fatvol) option" where
  "f_stat K T path fno v = do {
     (res, path, v) \<leftarrow> mount_volume K path 0 v;
     if res \<noteq> FR_OK then Some (res, fno, v)
     else do {
       (lfn, fs) \<leftarrow> init_nambuf K (vol v);
       if lfn = 0 then Some (FR_NOT_ENOUGH_CORE, fno, v\<lparr>vol := fs\<rparr>)
       else do {
         (res, dj, fs) \<leftarrow> follow_path K T new_dir path fs;
         let noname = (fn dj ! NSFLAG AND NS_NONAME \<noteq> 0);
         let fno = (if res = FR_OK \<and> \<not> noname then map_option (get_fileinfo T dj fs) fno else fno);
         fs \<leftarrow> free_nambuf K lfn fs;
         Some (if res = FR_OK \<and> noname then FR_INVALID_NAME else res, fno, v\<lparr>vol := fs\<rparr>)
       }
     }
   }"

section \<open>Free clusters\<close>

partial_function (option) free_scan12 :: "'d disk_ops \<Rightarrow> u32 \<Rightarrow> u32 \<Rightarrow> 'd fatfs \<Rightarrow> (FRESULT \<times> u32 \<times> 'd fatfs) option" where
  "free_scan12 K clst nfree fs = do {
     (stat, fs) \<leftarrow> get_fat K clst fs;
     if stat = 0xFFFFFFFF then Some (FR_DISK_ERR, nfree, fs)
     else if stat = 1 then Some (FR_INT_ERR, nfree, fs)
     else do {
       let nfree = (if stat = 0 then nfree + 1 else nfree);
       if clst + 1 < n_fatent fs then free_scan12 K (clst + 1) nfree fs else Some (FR_OK, nfree, fs)
     }
   }"

partial_function (option) free_scan ::
  "'d disk_ops \<Rightarrow> u32 \<Rightarrow> u32 \<Rightarrow> nat \<Rightarrow> u32 \<Rightarrow> 'd fatfs \<Rightarrow> (FRESULT \<times> u32 \<times> 'd fatfs) option" where
  "free_scan K clst sec i nfree fs = do {
     (res, fs) \<leftarrow> (if i = 0 then move_window K sec fs else Some (FR_OK, fs));
     let sec = (if i = 0 then sec + 1 else sec);
     if res \<noteq> FR_OK then Some (res, nfree, fs)
     else do {
       let (z, i) = (if fs_type fs = FS_FAT16 then (ld_word (win fs) i = 0, i + 2)
                     else (ld_dword (win fs) i AND 0x0FFFFFFF = 0, i + 4));
       let nfree = (if z then nfree + 1 else nfree);
       if clst - 1 \<noteq> 0 then free_scan K (clst - 1) sec (i mod 512) nfree fs else Some (FR_OK, nfree, fs)
     }
   }"

text \<open>The count of free clusters; the code leaves the caller's variable alone where there is none.\<close>

definition f_getfree :: "'d disk_ops \<Rightarrow> u8 list \<Rightarrow> 'd fatvol \<Rightarrow> (FRESULT \<times> u32 option \<times> 'd fatvol) option" where
  "f_getfree K path v = do {
     (res, path, v) \<leftarrow> mount_volume K path 0 v;
     let fs = vol v;
     if res \<noteq> FR_OK then Some (res, None, v)
     else if free_clst fs \<le> n_fatent fs - 2 then Some (res, Some (free_clst fs), v)
     else do {
       (res, nfree, fs) \<leftarrow> (if fs_type fs = FS_FAT12 then free_scan12 K 2 0 fs else free_scan K (n_fatent fs) (fatbase fs) 0 0 fs);
       Some (if res = FR_OK then (res, Some nfree, v\<lparr>vol := fs\<lparr>free_clst := nfree, fsi_flag := fsi_flag fs OR 1\<rparr>\<rparr>)
             else (res, None, v\<lparr>vol := fs\<rparr>))
     }
   }"

section \<open>Deleting, creating and renaming\<close>

text \<open>A directory may be deleted when reading it finds no entry.\<close>

definition unlink_check :: "'d disk_ops \<Rightarrow> u32 \<Rightarrow> 'd fatfs \<Rightarrow> (FRESULT \<times> 'd fatfs) option" where
  "unlink_check K dclst fs = do {
     (res, sdj, fs) \<leftarrow> dir_sdi K (set_sclust dclst new_dir) 0 fs;
     if res = FR_OK then do {
       (res, _, fs) \<leftarrow> dir_read K sdj False fs;
       Some (if res = FR_OK then FR_DENIED else if res = FR_NO_FILE then FR_OK else res, fs)
     }
     else Some (res, fs)
   }"

definition unlink_entry :: "'d disk_ops \<Rightarrow> DIR \<Rightarrow> 'd fatfs \<Rightarrow> (FRESULT \<times> 'd fatfs) option" where
  "unlink_entry K dj fs =
     (if fn dj ! NSFLAG AND NS_NONAME \<noteq> 0 then Some (FR_INVALID_NAME, fs)
      else if ob_attr (d_obj dj) AND AM_RDO \<noteq> 0 then Some (FR_DENIED, fs)
      else do {
        let dclst = ld_clust fs (win fs) (d_dir dj);
        (res, fs) \<leftarrow> (if ob_attr (d_obj dj) AND AM_DIR \<noteq> 0 then unlink_check K dclst fs else Some (FR_OK, fs));
        if res \<noteq> FR_OK then Some (res, fs)
        else do {
          (res, dj, fs) \<leftarrow> dir_remove K dj fs;
          (res, fs) \<leftarrow> (if res = FR_OK \<and> dclst \<noteq> 0 then remove_chain K dclst 0 fs else Some (res, fs));
          if res = FR_OK then sync_fs K fs else Some (res, fs)
        }
      })"

definition f_unlink :: "'d disk_ops \<Rightarrow> codepage \<Rightarrow> u8 list \<Rightarrow> 'd fatvol \<Rightarrow> (FRESULT \<times> 'd fatvol) option" where
  "f_unlink K T path v = do {
     (res, path, v) \<leftarrow> mount_volume K path FA_WRITE v;
     if res \<noteq> FR_OK then Some (res, v)
     else do {
       (lfn, fs) \<leftarrow> init_nambuf K (vol v);
       if lfn = 0 then Some (FR_NOT_ENOUGH_CORE, v\<lparr>vol := fs\<rparr>)
       else do {
         (res, dj, fs) \<leftarrow> follow_path K T new_dir path fs;
         (res, fs) \<leftarrow> (if res = FR_OK then unlink_entry K dj fs else Some (res, fs));
         fs \<leftarrow> free_nambuf K lfn fs;
         Some (res, v\<lparr>vol := fs\<rparr>)
       }
     }
   }"

text \<open>The entries for the directory itself and for its parent.\<close>

definition dot_entries :: "'d fatfs \<Rightarrow> u32 \<Rightarrow> u32 \<Rightarrow> u8 list" where
  "dot_entries fs dcl pcl =
     (let w = replicate 11 0x20 @ drop 11 (win fs);
          w = w[0 := 0x2E, 11 := AM_DIR];
          w = st_clust fs (st_dword w 22 get_fattime) 0 dcl;
          w = take 32 w @ take 32 w @ drop 64 w
      in st_clust fs (w[33 := 0x2E]) 32 pcl)"

definition mkdir_entry :: "'d disk_ops \<Rightarrow> DIR \<Rightarrow> 'd fatfs \<Rightarrow> (FRESULT \<times> 'd fatfs) option" where
  "mkdir_entry K dj fs = do {
     (dcl, fs) \<leftarrow> create_chain K 0 fs;
     let res = (if dcl = 0 then FR_DENIED else if dcl = 1 then FR_INT_ERR else if dcl = 0xFFFFFFFF then FR_DISK_ERR else FR_OK);
     (res, dj, fs) \<leftarrow>
       (if res = FR_OK then do {
          (res, fs) \<leftarrow> dir_clear K dcl fs;
          if res = FR_OK then dir_register K dj (set_win (dot_entries fs dcl (sclust (d_obj dj))) fs) else Some (res, dj, fs)
        }
        else Some (res, dj, fs));
     if res = FR_OK then do {
       let p = d_dir dj;
       let w = st_clust fs (st_dword (win fs) (p + 22) get_fattime) p dcl;
       sync_fs K (set_win (w[p + 11 := AM_DIR]) fs)
     }
     else do {
       (_, fs) \<leftarrow> remove_chain K dcl 0 fs;
       Some (res, fs)
     }
   }"

definition f_mkdir :: "'d disk_ops \<Rightarrow> codepage \<Rightarrow> u8 list \<Rightarrow> 'd fatvol \<Rightarrow> (FRESULT \<times> 'd fatvol) option" where
  "f_mkdir K T path v = do {
     (res, path, v) \<leftarrow> mount_volume K path FA_WRITE v;
     if res \<noteq> FR_OK then Some (res, v)
     else do {
       (lfn, fs) \<leftarrow> init_nambuf K (vol v);
       if lfn = 0 then Some (FR_NOT_ENOUGH_CORE, v\<lparr>vol := fs\<rparr>)
       else do {
         (res, dj, fs) \<leftarrow> follow_path K T new_dir path fs;
         let res = (if res = FR_OK then FR_EXIST else res);
         (res, fs) \<leftarrow> (if res = FR_NO_FILE then mkdir_entry K dj fs else Some (res, fs));
         fs \<leftarrow> free_nambuf K lfn fs;
         Some (res, v\<lparr>vol := fs\<rparr>)
       }
     }
   }"

text \<open>The entry under the new name, with everything but the name taken from the old entry \<open>buf\<close>.\<close>

definition rename_store :: "'d disk_ops \<Rightarrow> u8 list \<Rightarrow> DIR \<Rightarrow> DIR \<Rightarrow> 'd fatfs \<Rightarrow> (FRESULT \<times> 'd fatfs) option" where
  "rename_store K buf djo djn fs = do {
     let p = d_dir djn;
     let w = take (p + 13) (win fs) @ take 19 (drop 13 buf) @ drop (p + 32) (win fs);
     let a = (if buf ! 11 AND AM_DIR = 0 then buf ! 11 OR AM_ARC else buf ! 11);
     let w = w[p + 11 := a];
     let fs = set_win w fs;
     if a AND AM_DIR \<noteq> 0 \<and> sclust (d_obj djo) \<noteq> sclust (d_obj djn) then do {
       let sec = clst2sect (ld_clust fs w p) fs;
       if sec = 0 then Some (FR_INT_ERR, fs)
       else do {
         (res, fs) \<leftarrow> move_window K sec fs;
         Some (res, if res = FR_OK \<and> win fs ! 33 = 0x2E then set_win (st_clust fs (win fs) 32 (sclust (d_obj djn))) fs else fs)
       }
     }
     else Some (FR_OK, fs)
   }"

definition rename_entry :: "'d disk_ops \<Rightarrow> codepage \<Rightarrow> u8 list \<Rightarrow> DIR \<Rightarrow> 'd fatfs \<Rightarrow> (FRESULT \<times> 'd fatfs) option" where
  "rename_entry K T path_new djo fs = do {
     let buf = take 32 (drop (d_dir djo) (win fs));
     (res, djn, fs) \<leftarrow> follow_path K T djo path_new fs;
     let res = (if res = FR_OK
                then (if sclust (d_obj djn) = sclust (d_obj djo) \<and> dptr djn = dptr djo then FR_NO_FILE else FR_EXIST) else res);
     (res, fs) \<leftarrow>
       (if res = FR_NO_FILE then do {
          (res, djn, fs) \<leftarrow> dir_register K djn fs;
          if res = FR_OK then rename_store K buf djo djn fs else Some (res, fs)
        }
        else Some (res, fs));
     if res = FR_OK then do {
       (res, _, fs) \<leftarrow> dir_remove K djo fs;
       if res = FR_OK then sync_fs K fs else Some (res, fs)
     }
     else Some (res, fs)
   }"

definition f_rename :: "'d disk_ops \<Rightarrow> codepage \<Rightarrow> u8 list \<Rightarrow> u8 list \<Rightarrow> 'd fatvol \<Rightarrow> (FRESULT \<times> 'd fatvol) option" where
  "f_rename K T path_old path_new v = do {
     let path_new = (case get_ldnumber path_new of None \<Rightarrow> path_new | Some (_, p) \<Rightarrow> p);
     (res, path_old, v) \<leftarrow> mount_volume K path_old FA_WRITE v;
     if res \<noteq> FR_OK then Some (res, v)
     else do {
       (lfn, fs) \<leftarrow> init_nambuf K (vol v);
       if lfn = 0 then Some (FR_NOT_ENOUGH_CORE, v\<lparr>vol := fs\<rparr>)
       else do {
         (res, djo, fs) \<leftarrow> follow_path K T new_dir path_old fs;
         let res = (if res = FR_OK \<and> fn djo ! NSFLAG AND (NS_DOT OR NS_NONAME) \<noteq> 0 then FR_INVALID_NAME else res);
         (res, fs) \<leftarrow> (if res = FR_OK then rename_entry K T path_new djo fs else Some (res, fs));
         fs \<leftarrow> free_nambuf K lfn fs;
         Some (res, v\<lparr>vol := fs\<rparr>)
       }
     }
   }"

end
