(* ===== verification/Fat_Geometry.thy ===== *)
theory Fat_Geometry
  imports Fat_Api
begin

text \<open>
  The layout of a mounted volume.  \<open>geo_ok\<close> says that the tables, the root directory and the clusters follow each other
  without wrap-around and that a cluster is a power of two of sectors; mounting establishes it, together with \<open>vol_ok\<close>.
\<close>

section \<open>Powers of two\<close>

lemma bit_odd_nat: "bit (Suc (2 * x)) j \<longleftrightarrow> j = 0 \<or> bit x (j - 1)"
  by (cases j) (simp_all add: bit_0 bit_Suc)

lemma pow2_nat: "n \<noteq> 0 \<Longrightarrow> n AND (n - 1) = 0 \<Longrightarrow> \<exists>k. n = 2 ^ k" for n :: nat
proof (induction n rule: less_induct)
  case (less n)
  show ?case
  proof (cases "even n")
    case True
    then obtain m where m: "n = 2 * m" by blast
    have "m \<noteq> 0" using less.prems(1) m by simp
    then have "n - 1 = 2 * (m - 1) + 1" using m by simp
    then have "bit (2 * (m AND (m - 1))) j = bit (n AND (n - 1)) j" for j
      unfolding m by (auto simp: bit_simps bit_double_iff bit_odd_nat)
    then have "2 * (m AND (m - 1)) = n AND (n - 1)" by (intro bit_eqI) blast
    then have "m AND (m - 1) = 0" using less.prems(2) by simp
    then obtain k where "m = 2 ^ k" using less.IH[of m] m \<open>m \<noteq> 0\<close> by auto
    then show ?thesis using m by (auto intro: exI[of _ "Suc k"])
  next
    case False
    then obtain m where m: "n = 2 * m + 1" by (blast elim: oddE)
    have "bit (n AND (n - 1)) j = bit (2 * m) j" for j
      unfolding m by (auto simp: bit_simps bit_double_iff bit_odd_nat)
    then have "n AND (n - 1) = 2 * m" by (intro bit_eqI) blast
    then have "n = 2 ^ 0" using less.prems(2) m by simp
    then show ?thesis by blast
  qed
qed

lemma pow2_word: "x \<noteq> 0 \<Longrightarrow> x AND (x - 1) = 0 \<Longrightarrow> \<exists>k. unat x = 2 ^ k" for x :: u16
proof -
  assume x: "x \<noteq> 0" "x AND (x - 1) = 0"
  have "unat (x - 1) = unat x - 1" using x(1) by (simp add: unat_minus_one)
  moreover have "unat (x AND (x - 1)) = unat x AND unat (x - 1)" by (simp add: unsigned_and_eq)
  ultimately show ?thesis using x pow2_nat[of "unat x"] by (simp add: unat_gt_0)
qed

section \<open>Layout\<close>

definition fat_area :: "'d fatfs \<Rightarrow> nat" where
  "fat_area fs = (if n_fats fs = 2 then 2 else 1) * unat (fsize fs)"

definition geo_ok :: "'d fatfs \<Rightarrow> bool" where
  "geo_ok fs \<longleftrightarrow> (\<exists>k. unat (csize fs) = 2 ^ k) \<and> 0 < unat (fatbase fs) \<and> 2 < unat (n_fatent fs) \<and>
     unat (fatbase fs) + fat_area fs \<le> unat (database fs) \<and>
     unat (database fs) + unat (csize fs) * (unat (n_fatent fs) - 2) < 2 ^ 32"

lemma geo_cong: "same_geo fs fs' \<Longrightarrow> geo_ok fs' = geo_ok fs"
  by (simp add: geo_ok_def fat_area_def same_geo_def same_vol_iff)

lemma clst2sect_nat:
  assumes "geo_ok fs" "cluster fs c"
  shows "unat (clst2sect c fs) = unat (database fs) + unat (csize fs) * (unat c - 2)"
    and "clst2sect c fs \<noteq> 0"
    and "unat (clst2sect c fs) + unat (csize fs) \<le> unat (database fs) + unat (csize fs) * (unat (n_fatent fs) - 2)"
proof -
  let ?n = "unat (n_fatent fs)"
  have c: "2 \<le> unat c" "unat c < ?n" using assms(2) by (simp_all add: cluster_nat)
  have u: "unat (c - 2) = unat c - 2" "unat (n_fatent fs - 2) = ?n - 2"
    using c by (simp_all add: unat_sub word_le_nat_alt)
  have le: "unat (csize fs) * (unat c - 2) + unat (csize fs) \<le> unat (csize fs) * (?n - 2)"
  proof -
    have "unat c - 2 + 1 \<le> ?n - 2" using c by simp
    then have "unat (csize fs) * (unat c - 2 + 1) \<le> unat (csize fs) * (?n - 2)" by (rule mult_le_mono2)
    then show ?thesis by (simp add: add_mult_distrib2)
  qed
  have b: "unat (database fs) + unat (csize fs) * (?n - 2) < 2 ^ 32" using assms(1) by (simp add: geo_ok_def)
  have lt: "c - 2 < n_fatent fs - 2" using u c by (simp add: word_less_nat_alt)
  have cs: "clst2sect c fs = database fs + ucast (csize fs) * (c - 2)" using lt by (simp add: clst2sect_def Let_def flip: not_less)
  have "unat (ucast (csize fs) :: u32) = unat (csize fs)" by (rule unat_ucast_up) simp
  then have m: "unat ((ucast (csize fs) :: u32) * (c - 2)) = unat (csize fs) * (unat c - 2)"
    using le b u by (simp add: unat_word_ariths)
  show e: "unat (clst2sect c fs) = unat (database fs) + unat (csize fs) * (unat c - 2)"
    unfolding cs using m le b by (simp add: unat_word_ariths)
  have "0 < unat (database fs)" using assms(1) by (auto simp: geo_ok_def)
  then show "clst2sect c fs \<noteq> 0" using e by auto
  show "unat (clst2sect c fs) + unat (csize fs) \<le> unat (database fs) + unat (csize fs) * (?n - 2)"
    using e le by simp
qed

section \<open>Mounting\<close>

lemma minus_one32: "(- 1 :: u32) = 0xFFFFFFFF"
  by simp

lemma check_fs_window:
  assumes g: "good_disk K C" and r: "check_fs K sec fs = Some (fmt, fs')" and s: "sec \<noteq> 0xFFFFFFFF"
  shows "\<exists>d. fs' = fs\<lparr>wflag := 0, disk := d, win := C d sec, winsect := sec\<rparr>"
proof -
  obtain d where d: "dk_read K (pdrv fs) sec 1 (disk fs) = Some (RES_OK, C (disk fs) sec, d)" "C d = C (disk fs)"
    using good_read[OF g] by blast
  have "move_window K sec (fs\<lparr>wflag := 0, winsect := 0 - 1\<rparr>) =
    Some (FR_OK, fs\<lparr>wflag := 0, disk := d, win := C d sec, winsect := sec\<rparr>)"
    using s d by (simp add: move_window_def sync_window_def minus_one32)
  then show ?thesis using r by (auto simp: check_fs_def Let_def)
qed

text \<open>The volume that was found is the one in the window.\<close>

definition found_at :: "('d \<Rightarrow> u32 \<Rightarrow> u8 list) \<Rightarrow> 'd fatfs \<Rightarrow> bool" where
  "found_at C fs \<longleftrightarrow> wflag fs = 0 \<and> (winsect fs \<noteq> 0xFFFFFFFF \<longrightarrow> win fs = C (disk fs) (winsect fs))"

lemma check_fs_found:
  assumes g: "good_disk K C" and r: "check_fs K sec fs = Some (fmt, fs')"
  shows "found_at C fs'"
proof (cases "sec = 0xFFFFFFFF")
  case True
  then have "move_window K sec (fs\<lparr>wflag := 0, winsect := 0 - 1\<rparr>) = Some (FR_OK, fs\<lparr>wflag := 0, winsect := 0 - 1\<rparr>)"
    by (simp add: move_window_def)
  then show ?thesis using r by (auto simp: check_fs_def Let_def found_at_def)
next
  case False
  then show ?thesis using check_fs_window[OF g r] by (auto simp: found_at_def)
qed

lemma find_parts_found:
  "good_disk K C \<Longrightarrow> found_at C fs \<Longrightarrow> find_parts K part pts fmt fs = Some (fmt', fs') \<Longrightarrow> found_at C fs'"
  by (induction K part pts fmt fs rule: find_parts.induct)
    (auto split: if_splits bind_splits dest: check_fs_found)

lemma find_volume_found:
  assumes "good_disk K C" "find_volume K part fs = Some (fmt, fs')"
  shows "found_at C fs'"
proof -
  obtain f1 fs1 where c: "check_fs K 0 fs = Some (f1, fs1)"
    using assms(2) by (auto simp: find_volume_def split: bind_splits)
  have f: "found_at C fs1" by (rule check_fs_found[OF assms(1) c])
  show ?thesis
  proof (cases "f1 \<noteq> 2 \<and> (f1 \<ge> 3 \<or> part = 0)")
    case True
    then show ?thesis using assms(2) c f by (simp add: find_volume_def)
  next
    case False
    then obtain pts where "find_parts K part pts f1 fs1 = Some (fmt, fs')"
      using assms(2) c by (auto simp: find_volume_def Let_def)
    then show ?thesis by (rule find_parts_found[OF assms(1) f])
  qed
qed

lemma fat_subtype_cases:
  assumes "fat_subtype n \<noteq> 0"
  shows "unat n \<le> 0x0FFFFFF5" "fat_subtype n = FS_FAT12 \<or> fat_subtype n = FS_FAT16 \<or> fat_subtype n = FS_FAT32"
    "fat_subtype n = FS_FAT12 \<Longrightarrow> unat n \<le> 0xFF5" "fat_subtype n = FS_FAT16 \<Longrightarrow> unat n \<le> 0xFFF5"
  using assms by (auto simp: fat_subtype_def word_le_nat_alt FS_FAT12_def FS_FAT16_def FS_FAT32_def split: if_splits)

lemma fat_bytes_nat:
  assumes "unat n < 2 ^ 28"
  shows "unat (fat_bytes FS_FAT12 n) = (3 * unat n + 1) div 2" "unat (fat_bytes FS_FAT16 n) = 2 * unat n"
    "unat (fat_bytes FS_FAT32 n) = 4 * unat n"
proof -
  have a: "unat (n AND 1) = unat n mod 2" by (simp add: and_one_eq unat_mod_distrib)
  have b: "unat (n * 3 div 2) = 3 * unat n div 2" using assms by (simp add: unat_div_distrib unat_word_ariths)
  have "unat (n * 3 div 2 + (n AND 1)) = 3 * unat n div 2 + unat n mod 2"
    using assms a b by (simp add: unat_word_ariths)
  also have "\<dots> = (3 * unat n + 1) div 2" by presburger
  finally show "unat (fat_bytes FS_FAT12 n) = (3 * unat n + 1) div 2" using fat_types by (simp add: fat_bytes_def)
  show "unat (fat_bytes FS_FAT16 n) = 2 * unat n" "unat (fat_bytes FS_FAT32 n) = 4 * unat n"
    using assms fat_types by (simp_all add: fat_bytes_def unat_word_ariths)
qed

lemma fat_size_enough:
  assumes "\<not> fsize fs < (fat_bytes fmt n + (SS - 1)) div SS" "unat (fat_bytes fmt n) < 2 ^ 31"
  shows "unat (fat_bytes fmt n) \<le> 512 * unat (fsize fs)"
proof -
  have "unat (fat_bytes fmt n + (SS - 1)) = unat (fat_bytes fmt n) + 511"
    using assms(2) by (simp add: SS_def unat_word_ariths)
  then have "(unat (fat_bytes fmt n) + 511) div 512 \<le> unat (fsize fs)"
    using assms(1) by (simp add: not_less word_le_nat_alt unat_div_distrib SS_def)
  then show ?thesis by linarith
qed

lemma mount_fits:
  assumes "\<not> fsize fs < (fat_bytes fmt (n_fatent fs) + (SS - 1)) div SS" "unat (n_fatent fs) < 2 ^ 28"
    "fmt = FS_FAT12 \<or> fmt = FS_FAT16 \<or> fmt = FS_FAT32"
    "fmt = FS_FAT12 \<Longrightarrow> unat (n_fatent fs) \<le> 0xFFF" "fmt = FS_FAT16 \<Longrightarrow> unat (n_fatent fs) \<le> 0xFFFF"
  shows "fat_fits (fs\<lparr>fs_type := fmt, fs_id := i\<rparr>)"
proof -
  note b = fat_bytes_nat[OF assms(2)]
  have "unat (fat_bytes fmt (n_fatent fs)) < 2 ^ 31" using assms(2,3) b by auto
  from fat_size_enough[OF assms(1) this] show ?thesis using assms(2-5) b by (auto simp: fat_fits_def)
qed

lemma mount_limits_ok:
  assumes r: "mount_limits bsect nrsv fasize tsect fs = (FR_OK, fmt, fs')"
    and area: "unat fasize = fat_area fs" "unat fasize < 2 ^ 31" and nrsv: "0 < unat nrsv" "unat nrsv < 2 ^ 16"
    and cs: "unat (csize fs) = 2 ^ k" and vol: "unat bsect + unat tsect < 2 ^ 32"
  shows "geo_ok fs'" "fat_fits (fs'\<lparr>fs_type := fmt, fs_id := i\<rparr>)" "unat (fatbase fs') + fat_area fs' < 2 ^ 32"
    "volbase fs' = bsect" "wflag fs' = wflag fs" "winsect fs' = winsect fs" "win fs' = win fs" "disk fs' = disk fs"
proof -
  define root where "root = (ucast (n_rootdir fs) div 16 :: u32)"
  define sys where "sys = nrsv + fasize + root"
  define n where "n = (tsect - sys) div ucast (csize fs)"
  have "unat (ucast (n_rootdir fs) :: u32) < 2 ^ 16"
    using unsigned_less[of "n_rootdir fs", where 'a = nat] by (simp add: unat_ucast_up)
  then have root: "unat root < 4096" by (simp add: root_def unat_div_distrib)
  have sys: "unat sys = unat nrsv + unat fasize + unat root"
    using area(2) nrsv(2) root by (simp add: sys_def unat_word_ariths)
  have le: "sys \<le> tsect" and n0: "n \<noteq> 0" and f0: "fat_subtype n \<noteq> 0"
    and fmt: "fmt = fat_subtype n"
    and sz: "\<not> fsize fs' < (fat_bytes fmt (n_fatent fs') + (SS - 1)) div SS"
    and fs': "fs' = fs\<lparr>n_fatent := n + 2, volbase := bsect, fatbase := bsect + nrsv, database := bsect + sys,
      dirbase := dirbase fs'\<rparr>"
    using r by (auto simp: mount_limits_def Let_def root_def[symmetric] sys_def[symmetric] n_def[symmetric] split: if_splits)
  have nu: "unat n = (unat tsect - unat sys) div 2 ^ k"
    using le cs by (simp add: n_def unat_div_distrib unat_sub unat_ucast_up)
  have n2: "unat (n + 2) = unat n + 2" "unat (n + 2) < 2 ^ 28"
    using fat_subtype_cases(1)[OF f0] by (simp_all add: unat_word_ariths)
  have les: "unat sys \<le> unat tsect" using le by (simp add: word_le_nat_alt)
  have m: "2 ^ k * unat n \<le> unat tsect - unat sys" by (simp add: nu)
  have base: "unat (bsect + nrsv) = unat bsect + unat nrsv" "unat (bsect + sys) = unat bsect + unat sys"
    using vol les sys by (simp_all add: unat_word_ariths)
  have e: "n_fatent fs' = n + 2" "fatbase fs' = bsect + nrsv" "database fs' = bsect + sys" "csize fs' = csize fs"
    "fat_area fs' = fat_area fs" "volbase fs' = bsect"
    by (subst fs', simp add: fat_area_def)+
  have "0 < unat n" using n0 by (simp add: unat_gt_0)
  then show "geo_ok fs'"
    using e base n2 m les vol sys area(1) nrsv(1) cs unfolding geo_ok_def by (auto intro: exI[of _ k])
  show "fat_fits (fs'\<lparr>fs_type := fmt, fs_id := i\<rparr>)"
    using fat_subtype_cases[OF f0] fmt n2 by (intro mount_fits[OF sz]) (auto simp: e(1))
  show "unat (fatbase fs') + fat_area fs' < 2 ^ 32"
    using e base vol les sys area(1) by simp
  show "volbase fs' = bsect" by (rule e(6))
  show "wflag fs' = wflag fs" "winsect fs' = winsect fs" "win fs' = win fs" "disk fs' = disk fs"
    by (subst fs', simp)+
qed

lemma mount_bpb_ok:
  assumes r: "mount_bpb bsect fs = (FR_OK, fmt, fs')"
    and fat: "bpb_fatsz (win fs) < 2 ^ 30" and vol: "unat bsect + unat (bpb_tsect (win fs)) < 2 ^ 32"
  shows "geo_ok fs'" "fat_fits (fs'\<lparr>fs_type := fmt, fs_id := i\<rparr>)" "unat (fatbase fs') + fat_area fs' < 2 ^ 32"
    "volbase fs' = bsect" "wflag fs' = wflag fs" "winsect fs' = winsect fs" "win fs' = win fs" "disk fs' = disk fs"
proof -
  let ?w = "win fs"
  define nf where "nf = ?w ! 16"
  define cs where "cs = (ucast (?w ! 13) :: u16)"
  define nrsv where "nrsv = (ucast (ld_word ?w 14) :: u32)"
  define f1 where "f1 = fs\<lparr>fsize := bpb_fatsz ?w, n_fats := nf, csize := cs, n_rootdir := ld_word ?w 17\<rparr>"
  have c: "nf = 1 \<or> nf = 2" "cs \<noteq> 0" "cs AND (cs - 1) = 0" "nrsv \<noteq> 0"
    and l: "mount_limits bsect nrsv (bpb_fatsz ?w * ucast nf) (bpb_tsect ?w) f1 = (FR_OK, fmt, fs')"
    using r unfolding mount_bpb_def
    by (auto simp: Let_def nf_def cs_def nrsv_def f1_def split: if_splits)
  obtain k where k: "unat (csize f1) = 2 ^ k" using pow2_word[OF c(2,3)] by (auto simp: f1_def)
  have f: "unat (bpb_fatsz ?w) < 2 ^ 30" using fat by (simp add: word_less_nat_alt)
  have a: "unat (bpb_fatsz ?w * ucast nf) = fat_area f1"
    using c(1) f by (auto simp: fat_area_def f1_def unat_word_ariths)
  have a2: "unat (bpb_fatsz ?w * ucast nf) < 2 ^ 31" using a c(1) f by (auto simp: fat_area_def f1_def)
  have n: "0 < unat nrsv" "unat nrsv < 2 ^ 16"
    using c(4) by (simp add: unat_gt_0)
      (use unsigned_less[of "ld_word ?w 14", where 'a = nat] in \<open>simp add: nrsv_def unat_ucast_up\<close>)
  note m = mount_limits_ok[OF l a a2 n k vol]
  show "geo_ok fs'" "fat_fits (fs'\<lparr>fs_type := fmt, fs_id := i\<rparr>)" "unat (fatbase fs') + fat_area fs' < 2 ^ 32"
    "volbase fs' = bsect" by (rule m)+
  show "wflag fs' = wflag fs" "winsect fs' = winsect fs" "win fs' = win fs" "disk fs' = disk fs"
    using m(5-8) by (simp_all add: f1_def)
qed

lemma mount_fsinfo_ok:
  assumes g: "good_disk K C" and f: "wflag fs = 0" and r: "mount_fsinfo K fmt bsect fs = Some fs'"
  shows "same_geo fs fs' \<and> wflag fs' = 0 \<and> C (disk fs') = C (disk fs) \<and>
    (win fs = C (disk fs) (winsect fs) \<longrightarrow> win fs' = C (disk fs') (winsect fs'))"
proof -
  let ?W = "\<lambda>f. win f = C (disk f) (winsect f)"
  define f0 where "f0 = fs\<lparr>last_clst := 0xFFFFFFFF, free_clst := 0xFFFFFFFF, fsi_flag := 0x80\<rparr>"
  have w0: "same_geo fs f0" "wflag f0 = 0" "C (disk f0) = C (disk fs)" "?W f0 = ?W fs"
    using f by (auto simp: f0_def same_geo_def same_vol_iff)
  obtain f1 where f1: "move_window K (bsect + 1) f0 = Some (FR_OK, f1)"
    "same_geo fs f1" "wflag f1 = 0" "C (disk f1) = C (disk fs)" "?W fs \<longrightarrow> ?W f1"
  proof (cases "bsect + 1 = winsect f0")
    case True
    then show ?thesis using that[of f0] w0 by (simp add: move_window_def)
  next
    case False
    obtain d where d: "dk_read K (pdrv f0) (bsect + 1) 1 (disk f0) = Some (RES_OK, C (disk f0) (bsect + 1), d)" "C d = C (disk f0)"
      using good_read[OF g] by blast
    let ?f1 = "f0\<lparr>disk := d, win := C d (bsect + 1), winsect := bsect + 1\<rparr>"
    have "move_window K (bsect + 1) f0 = Some (FR_OK, ?f1)"
      using d False w0(2) by (simp add: move_window_def sync_window_def)
    then show ?thesis using that[of ?f1] w0 d(2) by (simp add: same_geo_def same_vol_iff)
  qed
  have s1: "same_geo fs (f1\<lparr>fsi_flag := x, free_clst := y, last_clst := z\<rparr>)" "same_geo fs (f1\<lparr>fsi_flag := x\<rparr>)" for x y z
    using f1(2) by (simp_all add: same_geo_def same_vol_iff)
  show ?thesis
  proof (cases "fmt = FS_FAT32 \<and> ld_word (win f0) 48 = 1")
    case True
    then show ?thesis
      using r f1 s1 unfolding mount_fsinfo_def f0_def[symmetric] Let_def by (auto split: if_splits)
  next
    case False
    then show ?thesis using r w0 unfolding mount_fsinfo_def f0_def[symmetric] Let_def by auto
  qed
qed

lemma mounted_cong:
  assumes "same_geo fs fs'"
  shows "geo_ok (fs'\<lparr>fs_type := t, fs_id := i\<rparr>) = geo_ok fs" "fat_fits (fs'\<lparr>fs_type := t, fs_id := i\<rparr>) = fat_fits (fs\<lparr>fs_type := t, fs_id := i\<rparr>)"
    "fatbase fs' = fatbase fs" "fat_area fs' = fat_area fs" "volbase fs' = volbase fs"
  using assms by (auto simp: geo_ok_def fat_fits_def fat_area_def same_geo_def same_vol_iff)

lemma mount_scan_ok:
  assumes g: "good_disk K C" and r: "mount_scan K v = Some (FR_OK, v')"
    and w: "bpb_fatsz (C (disk (vol v')) (volbase (vol v'))) < 2 ^ 30"
      "unat (volbase (vol v')) + unat (bpb_tsect (C (disk (vol v')) (volbase (vol v')))) < 2 ^ 32 - 1"
  shows "vol_ok C (vol v') \<and> geo_ok (vol v') \<and> fs_id (vol v') = Fsid v'"
proof -
  obtain fmt0 f1 where f1: "find_volume K 0 (vol v) = Some (fmt0, f1)" and f0: "\<not> fmt0 \<ge> 2"
    using r by (auto simp: mount_scan_def Let_def split: if_splits bind_splits prod.splits)
  obtain res fmt f2 where f2: "mount_bpb (winsect f1) f1 = (res, fmt, f2)" by (cases "mount_bpb (winsect f1) f1") auto
  have fmt4: "fmt0 \<noteq> 4" using f0 by auto
  obtain f3 where res: "res = FR_OK" and f3: "mount_fsinfo K fmt (winsect f1) f2 = Some f3"
    and v': "vol v' = f3\<lparr>fs_type := fmt, fs_id := Fsid v + 1\<rparr>" "Fsid v' = Fsid v + 1"
    using r f1 f0 fmt4 f2 by (auto simp: mount_scan_def Let_def split: if_splits bind_splits)
  have bs: "volbase f2 = winsect f1" "winsect f2 = winsect f1" "win f2 = win f1" "wflag f2 = wflag f1" "disk f2 = disk f1"
    using f2 res unfolding mount_bpb_def mount_limits_def by (auto simp: Let_def split: if_splits)
  have fnd: "found_at C f1" by (rule find_volume_found[OF g f1])
  then have "wflag f2 = 0" using bs by (simp add: found_at_def)
  note m3 = mount_fsinfo_ok[OF g this f3]
  have vb: "volbase (vol v') = winsect f1" "disk (vol v') = disk f3" using mounted_cong(5)[of f2 f3] m3 bs v' by simp_all
  have ne: "winsect f1 \<noteq> 0xFFFFFFFF" using w(2) vb by auto
  then have win: "win f1 = C (disk f1) (winsect f1)" using fnd by (simp add: found_at_def)
  have wb: "C (disk (vol v')) (volbase (vol v')) = win f1" using win vb m3 bs by simp
  have "bpb_fatsz (win f1) < 2 ^ 30" "unat (winsect f1) + unat (bpb_tsect (win f1)) < 2 ^ 32" using w wb vb by simp_all
  note b = mount_bpb_ok[OF f2[unfolded res] this]
  note c = mounted_cong[OF conjunct1[OF m3]]
  have "geo_ok (vol v')" using b(1) c(1) v' by simp
  moreover have "fat_fits (vol v')" using b(2) c(2) v' by simp
  moreover have "unat (fatbase (vol v')) + fat_area (vol v') < 2 ^ 32" using b(3) c(3,4) v' by (simp add: fat_area_def)
  moreover have "win (vol v') = C (disk (vol v')) (winsect (vol v'))" using m3 bs win v' by simp
  moreover have "length (win (vol v')) = 512" using calculation(4) g by (simp add: good_disk_def)
  ultimately show ?thesis using v' by (auto simp: vol_ok_def fat_area_def)
qed


text \<open>A boot sector of a FAT12 volume of 200 sectors with one table of one sector.\<close>

definition demo_boot :: "u8 list" where
  "demo_boot = [0xEB, 0, 0, 0, 0, 0, 0, 0, 0, 0, 0, 0, 2, 1, 1, 0, 1, 16, 0, 200, 0, 0xF8, 1, 0]"

definition demo_unmounted :: "(u32 \<Rightarrow> u8 list) fatvol" where
  "demo_unmounted = \<lparr>vol = (ram_volume [])\<lparr>fs_type := 0, disk := (\<lambda>s. if s = 0 then demo_boot else [])\<rparr>, FatFs = True, Fsid = 0\<rparr>"

lemma ram_nth: "i < 512 \<Longrightarrow> ram_sector d s ! i = (if i < length (d s) then d s ! i else 0)"
  by (simp add: ram_sector_def)

lemma ram_length [simp]: "length (ram_sector d s) = 512"
  by (simp add: ram_sector_def)

lemma demo_mount:
  "\<exists>v'. mount_volume ram_disk [] 0 demo_unmounted = Some (FR_OK, [], v') \<and>
    volbase (vol v') = 0 \<and> disk (vol v') = (\<lambda>s. if s = 0 then demo_boot else [])"
  by (simp add: mount_volume_def get_ldnumber_def peek_def demo_unmounted_def disk_initialize_def mount_scan_def find_volume_def
      check_fs_def move_window_def sync_window_def ram_disk_def ram_volume_def ram_nth is_vbr_def ld_word_def ld_dword_def
      demo_boot_def mount_bpb_def mount_limits_def bpb_tsect_def bpb_fatsz_def fat_subtype_def fat_bytes_def
      FS_FAT12_def FS_FAT16_def FS_FAT32_def SS_def mount_fsinfo_def Let_def)


end
