(* ===== verification/Fat_Read.thy ===== *)
theory Fat_Read
  imports Fat_Geometry
begin

text \<open>
  Reading a file.  \<open>file_byte\<close> is the contents of a file as the cluster chain, the disk and the sector buffer of the file
  object hold them together; \<open>file_ok\<close> is the invariant of an open file.  A read returns the bytes of the contents from the
  position on, moves the position and changes neither the contents nor the invariant.
\<close>

section \<open>The table and the data sectors\<close>

text \<open>A sector of the data area is in no table.\<close>

lemma data_not_fat:
  assumes "geo_ok fs" "database fs \<le> s"
  shows "\<not> second_fat fs s" "\<not> in_fat fs s"
proof -
  have a: "unat (fatbase fs) + fat_area fs \<le> unat s" "unat (fatbase fs) + fat_area fs \<le> unat (database fs)"
    using assms by (auto simp: geo_ok_def word_le_nat_alt)
  have d32: "unat (database fs) < 2 ^ 32" using unsigned_less[of "database fs", where 'a = nat] by simp
  show "\<not> second_fat fs s"
  proof (cases "n_fats fs = 2")
    case True
    then have f: "unat (fatbase fs) + 2 * unat (fsize fs) \<le> unat s" using a(1) by (simp add: fat_area_def)
    have "unat (s - fatbase fs) = unat s - unat (fatbase fs)" using f by (simp add: unat_sub word_le_nat_alt)
    then have "unat (s - fatbase fs - fsize fs) = unat s - unat (fatbase fs) - unat (fsize fs)"
      using f by (subst unat_sub) (simp_all add: word_le_nat_alt)
    then show ?thesis using f True by (simp add: second_fat_def word_less_nat_alt)
  qed (simp add: second_fat_def)
  show "\<not> in_fat fs s"
  proof
    assume "in_fat fs s"
    then obtain k where k: "k < unat (fsize fs)" "s = fatbase fs + of_nat k" by (auto simp: in_fat_def)
    have fa: "unat (fsize fs) \<le> fat_area fs" by (simp add: fat_area_def)
    then have "unat (fatbase fs) + k < 2 ^ 32" using k(1) a(2) d32 by linarith
    then have "unat s = unat (fatbase fs) + k" using k(2) by (simp add: unat_word_ariths unat_of_nat32)
    then show False using a(1) fa k(1) by simp
  qed
qed


section \<open>The sectors of a file\<close>

lemma chain_unique: "chain V n (c # xs) \<Longrightarrow> chain V n (c # ys) \<Longrightarrow> xs = ys"
proof (induction xs arbitrary: c ys)
  case Nil
  then show ?case by (cases ys) (auto simp: chain_range dest: chain_range)
next
  case (Cons d xs)
  then obtain e zs where y: "ys = e # zs" by (cases ys) (auto dest!: chain_range)
  then show ?case using Cons by auto
qed

lemma chain_suffix: "chain V n (xs @ c # ys) \<Longrightarrow> chain V n (c # ys)"
proof (induction xs)
  case (Cons x xs)
  then show ?case by (cases xs) auto
qed simp

lemma chain_distinct: "chain V n cs \<Longrightarrow> distinct cs"
proof (induction cs)
  case (Cons c cs)
  have "c \<notin> set cs"
  proof
    assume "c \<in> set cs"
    then obtain xs ys where s: "cs = xs @ c # ys" by (auto dest: split_list)
    then have "chain V n (c # ys)" using chain_suffix[of V n "c # xs" c ys] Cons.prems by simp
    then have "cs = ys" using chain_unique Cons.prems by blast
    then show False using s by (metis length_append length_Cons less_add_Suc2 less_irrefl)
  qed
  moreover have "distinct cs" using Cons by (cases cs) auto
  ultimately show ?case by simp
qed simp

lemma chain_step: "chain V n cs \<Longrightarrow> Suc i < length cs \<Longrightarrow> V (unat (cs ! i)) = cs ! Suc i"
proof (induction cs arbitrary: i)
  case (Cons c cs)
  then show ?case by (cases cs; cases i) auto
qed simp

definition file_sect :: "'d fatfs \<Rightarrow> u32 list \<Rightarrow> nat \<Rightarrow> u32" where
  "file_sect fs cs i = clst2sect (cs ! (i div unat (csize fs))) fs + of_nat (i mod unat (csize fs))"

definition n_sects :: "'d fatfs \<Rightarrow> u32 list \<Rightarrow> nat" where
  "n_sects fs cs = length cs * unat (csize fs)"

definition file_vol :: "('d \<Rightarrow> u32 \<Rightarrow> u8 list) \<Rightarrow> u32 list \<Rightarrow> 'd fatfs \<Rightarrow> bool" where
  "file_vol C cs fs \<longleftrightarrow> vol_ok C fs \<and> geo_ok fs \<and> (cs = [] \<or> chain (fat_val C fs) (n_fatent fs) cs) \<and>
     (\<forall>i < n_sects fs cs. file_sect fs cs i \<noteq> winsect fs)"

lemma csize_pos: "geo_ok fs \<Longrightarrow> 0 < unat (csize fs)"
  by (auto simp: geo_ok_def)

lemma file_cluster: "file_vol C cs fs \<Longrightarrow> i < length cs \<Longrightarrow> cluster fs (cs ! i)"
  unfolding cluster_def by (rule chain_all[of "fat_val C fs"]) (auto simp: file_vol_def)

lemma sect_index: "i < n_sects fs cs \<Longrightarrow> i div unat (csize fs) < length cs"
  unfolding n_sects_def by (rule less_mult_imp_div_less)

lemma file_volD:
  assumes "file_vol C cs fs"
  shows "vol_ok C fs" "geo_ok fs" "d \<in> set cs \<Longrightarrow> cluster fs d" "cs \<noteq> [] \<Longrightarrow> chain (fat_val C fs) (n_fatent fs) cs"
  using assms chain_all[of "fat_val C fs" "n_fatent fs" cs d] by (auto simp: file_vol_def cluster_def)

lemma sect_nat:
  assumes g: "geo_ok fs" and c: "\<And>d. d \<in> set cs \<Longrightarrow> cluster fs d" and i: "i < n_sects fs cs"
  shows "unat (file_sect fs cs i) = unat (database fs) + unat (csize fs) * (unat (cs ! (i div unat (csize fs))) - 2) + i mod unat (csize fs)"
    and "database fs \<le> file_sect fs cs i"
    and "unat (file_sect fs cs i) < unat (database fs) + unat (csize fs) * (unat (n_fatent fs) - 2)"
proof -
  note n = clst2sect_nat[OF g c[OF nth_mem[OF sect_index[OF i]]]]
  have r: "i mod unat (csize fs) < unat (csize fs)" using csize_pos[OF g] by simp
  have b: "unat (database fs) + unat (csize fs) * (unat (n_fatent fs) - 2) < 2 ^ 32" using g by (simp add: geo_ok_def)
  have lt: "unat (clst2sect (cs ! (i div unat (csize fs))) fs) + i mod unat (csize fs) < 2 ^ 32" using n(3) r b by linarith
  have rw: "i mod unat (csize fs) < 2 ^ 32" using lt by linarith
  have u: "unat (file_sect fs cs i) = unat (clst2sect (cs ! (i div unat (csize fs))) fs) + i mod unat (csize fs)"
    using lt rw unfolding file_sect_def by (simp add: unat_word_ariths unat_of_nat32)
  show "unat (file_sect fs cs i) = unat (database fs) + unat (csize fs) * (unat (cs ! (i div unat (csize fs))) - 2) + i mod unat (csize fs)"
    using u n(1) by simp
  then show "database fs \<le> file_sect fs cs i" by (simp add: word_le_nat_alt)
  show "unat (file_sect fs cs i) < unat (database fs) + unat (csize fs) * (unat (n_fatent fs) - 2)" using u n(3) r by linarith
qed

lemma file_sect_nat:
  assumes v: "file_vol C cs fs" and i: "i < n_sects fs cs"
  shows "unat (file_sect fs cs i) = unat (database fs) + unat (csize fs) * (unat (cs ! (i div unat (csize fs))) - 2) + i mod unat (csize fs)"
    and "database fs \<le> file_sect fs cs i"
    and "unat (file_sect fs cs i) < unat (database fs) + unat (csize fs) * (unat (n_fatent fs) - 2)"
  using sect_nat[OF file_volD(2)[OF v] file_volD(3)[OF v] i] by blast+

lemma file_sect_inj:
  assumes v: "file_vol C cs fs" and i: "i < n_sects fs cs" and j: "j < n_sects fs cs" and e: "file_sect fs cs i = file_sect fs cs j"
  shows "i = j"
proof -
  let ?z = "unat (csize fs)"
  have z: "0 < ?z" using v by (auto simp: file_vol_def intro: csize_pos)
  note ci = file_cluster[OF v sect_index[OF i]] and cj = file_cluster[OF v sect_index[OF j]]
  have q: "?z * (unat (cs ! (i div ?z)) - 2) + i mod ?z = ?z * (unat (cs ! (j div ?z)) - 2) + j mod ?z"
    using e file_sect_nat(1)[OF v i] file_sect_nat(1)[OF v j] by simp
  from arg_cong[OF q, of "\<lambda>x. x mod ?z"] have m: "i mod ?z = j mod ?z" by simp
  then have "unat (cs ! (i div ?z)) - 2 = unat (cs ! (j div ?z)) - 2" using q z by simp
  then have "unat (cs ! (i div ?z)) = unat (cs ! (j div ?z))" using ci[unfolded cluster_nat] cj[unfolded cluster_nat] by linarith
  then have "cs ! (i div ?z) = cs ! (j div ?z)" by (simp only: word_unat_eq_iff)
  moreover have "distinct cs" using v by (auto simp: file_vol_def dest: chain_distinct)
  ultimately have "i div ?z = j div ?z" using sect_index[OF i] sect_index[OF j] by (simp add: nth_eq_iff_index_eq)
  then show ?thesis using m by (metis div_mult_mod_eq)
qed

lemma file_sect_pos: "file_vol C cs fs \<Longrightarrow> i < n_sects fs cs \<Longrightarrow> file_sect fs cs i \<noteq> 0"
  using file_sect_nat(1)[of C cs fs i] by (auto simp: file_vol_def geo_ok_def)

lemma file_sect_data:
  assumes "file_vol C cs fs" "i < n_sects fs cs"
  shows "\<not> second_fat fs (file_sect fs cs i)" "\<not> in_fat fs (file_sect fs cs i)" "file_sect fs cs i \<noteq> winsect fs"
  using assms data_not_fat[OF _ file_sect_nat(2)[OF assms]] by (simp_all add: file_vol_def)


text \<open>A step that keeps the sectors of the file.\<close>

definition same_data :: "('d \<Rightarrow> u32 \<Rightarrow> u8 list) \<Rightarrow> u32 list \<Rightarrow> 'd fatfs \<Rightarrow> 'd fatfs \<Rightarrow> bool" where
  "same_data C cs fs fs' \<longleftrightarrow> same_vol fs fs' \<and> file_vol C cs fs' \<and>
     (\<forall>i < n_sects fs cs. C (disk fs') (file_sect fs cs i) = C (disk fs) (file_sect fs cs i))"

lemma file_sect_cong:
  assumes "same_vol fs fs'"
  shows "file_sect fs' = file_sect fs" "n_sects fs' = n_sects fs"
  using assms by (auto intro!: ext simp: file_sect_def n_sects_def clst2sect_def Let_def same_vol_iff)

lemma same_data_refl: "file_vol C cs fs \<Longrightarrow> same_data C cs fs fs"
  by (simp add: same_data_def)

lemma same_data_trans: "same_data C cs a b \<Longrightarrow> same_data C cs b c \<Longrightarrow> same_data C cs a c"
  by (auto simp: same_data_def file_sect_cong intro: same_vol_trans)

lemma file_volI:
  assumes "file_vol C cs fs" "same_vol fs fs'" "vol_ok C fs'" "\<And>i. i < unat (n_fatent fs) \<Longrightarrow> fat_val C fs' i = fat_val C fs i"
    "\<forall>i < n_sects fs cs. file_sect fs cs i \<noteq> winsect fs'"
  shows "file_vol C cs fs'"
proof -
  have "chain (fat_val C fs') (n_fatent fs) cs = chain (fat_val C fs) (n_fatent fs) cs" if c: "chain (fat_val C fs) (n_fatent fs) cs"
  proof (rule chain_cong)
    fix d assume "d \<in> set cs"
    then show "fat_val C fs' (unat d) = fat_val C fs (unat d)" using chain_all[OF c] assms(4) by (simp add: word_less_nat_alt)
  qed
  then show ?thesis
    using assms unfolding file_vol_def file_sect_cong[OF assms(2)] geo_cong[OF same_vol_geo[OF assms(2)]] same_volD[OF assms(2)] by blast
qed

lemma same_fat_data:
  assumes v: "file_vol C cs fs" and f: "same_fat C fs fs'"
  shows "same_data C cs fs fs'"
proof -
  have ok: "vol_ok C fs" using v by (simp add: file_vol_def)
  have k: "keeps_data C fs fs'" and sv: "same_vol fs fs'" "vol_ok C fs'" using f by (simp_all add: same_fat_def)
  have ne: "file_sect fs cs i \<noteq> winsect fs'" if "i < n_sects fs cs" for i
    using file_sect_data(2,3)[OF v that] k by (auto simp: keeps_data_def)
  have val: "fat_val C fs' i = fat_val C fs i" if "i < unat (n_fatent fs)" for i
    using fat_val_cong[OF f _ that] ok by (simp add: vol_ok_def)
  have "C (disk fs') (file_sect fs cs i) = C (disk fs) (file_sect fs cs i)" if i: "i < n_sects fs cs" for i
    using k file_sect_data[OF v i] ne[OF i] by (auto simp: keeps_data_def view_def dest!: spec[of _ "file_sect fs cs i"])
  then show ?thesis using file_volI[OF v sv val] ne sv by (simp add: same_data_def)
qed

lemma get_fat_data:
  assumes g: "good_disk K C" and v: "file_vol C cs fs" and c: "cluster fs clst"
  shows "\<exists>fs'. get_fat K clst fs = Some (fat_val C fs (unat clst), fs') \<and> same_data C cs fs fs'"
  using get_fat_val[OF g _ c] same_fat_data[OF v] v by (auto simp: file_vol_def)

lemma fat_val_disk:
  assumes "vol_ok C fs" "\<And>s. in_fat fs s \<Longrightarrow> C d s = C (disk fs) s" "c < unat (n_fatent fs)"
  shows "fat_val C (fs\<lparr>disk := d\<rparr>) c = fat_val C fs c"
proof -
  have "fat_byte C (fs\<lparr>disk := d\<rparr>) j = fat_byte C fs j" if "j < 512 * unat (fsize fs)" for j
  proof -
    have "in_fat fs (fatbase fs + of_nat (j div 512))" using that by (auto simp: in_fat_def intro!: exI[of _ "j div 512"])
    then show ?thesis using assms(2) by (simp add: fat_byte_def view_def)
  qed
  then have "entry (fs_type fs) (fat_byte C (fs\<lparr>disk := d\<rparr>)) c = entry (fs_type fs) (fat_byte C fs) c"
    using assms(1,3) by (intro entry_cong) (auto simp: vol_ok_def)
  then show ?thesis by (simp add: fat_val_def)
qed

text \<open>A disk operation that keeps every sector, and the write-back of one sector of the file.\<close>

lemma same_vol_disk [simp]: "same_vol fs (fs\<lparr>disk := d\<rparr>)"
  by (simp add: same_vol_def)

lemma disk_data: "file_vol C cs fs \<Longrightarrow> C d = C (disk fs) \<Longrightarrow> same_data C cs fs (fs\<lparr>disk := d\<rparr>)"
  unfolding same_data_def
  by (auto intro!: file_volI[of C cs fs "fs\<lparr>disk := d\<rparr>"] fat_val_disk) (simp_all add: file_vol_def vol_ok_def fat_fits_def)

lemma write_data:
  assumes v: "file_vol C cs fs" and k: "k < n_sects fs cs" and d: "C d = (C (disk fs))(file_sect fs cs k := w)"
  shows "file_vol C cs (fs\<lparr>disk := d\<rparr>)"
    and "i < n_sects fs cs \<Longrightarrow> C d (file_sect fs cs i) = (if i = k then w else C (disk fs) (file_sect fs cs i))"
proof -
  note nk = file_sect_data[OF v k]
  have ok: "vol_ok C fs" using v by (simp add: file_vol_def)
  show "file_vol C cs (fs\<lparr>disk := d\<rparr>)"
  proof (rule file_volI[OF v same_vol_disk])
    show "vol_ok C (fs\<lparr>disk := d\<rparr>)" using ok nk(3) d by (auto simp: vol_ok_def fat_fits_def)
    show "fat_val C (fs\<lparr>disk := d\<rparr>) c = fat_val C fs c" if "c < unat (n_fatent fs)" for c
      using nk(2) d by (intro fat_val_disk[OF ok _ that]) auto
    show "\<forall>i<n_sects fs cs. file_sect fs cs i \<noteq> winsect (fs\<lparr>disk := d\<rparr>)" using file_sect_data(3)[OF v] by simp
  qed
  show "C d (file_sect fs cs i) = (if i = k then w else C (disk fs) (file_sect fs cs i))" if "i < n_sects fs cs"
    using d file_sect_inj[OF v that k] by auto
qed


section \<open>The contents and the state of an open file\<close>

definition file_data :: "('d \<Rightarrow> u32 \<Rightarrow> u8 list) \<Rightarrow> u32 list \<Rightarrow> FIL \<Rightarrow> 'd fatfs \<Rightarrow> nat \<Rightarrow> u8 list" where
  "file_data C cs fp fs i =
     (if flag fp AND FA_DIRTY \<noteq> 0 \<and> sect fp = file_sect fs cs i then fbuf fp else C (disk fs) (file_sect fs cs i))"

definition file_byte :: "('d \<Rightarrow> u32 \<Rightarrow> u8 list) \<Rightarrow> u32 list \<Rightarrow> FIL \<Rightarrow> 'd fatfs \<Rightarrow> nat \<Rightarrow> u8" where
  "file_byte C cs fp fs j = file_data C cs fp fs (j div 512) ! (j mod 512)"

definition buf_ok :: "('d \<Rightarrow> u32 \<Rightarrow> u8 list) \<Rightarrow> u32 list \<Rightarrow> FIL \<Rightarrow> 'd fatfs \<Rightarrow> bool" where
  "buf_ok C cs fp fs \<longleftrightarrow> length (fbuf fp) = 512 \<and>
     (if sect fp = 0 then flag fp AND FA_DIRTY = 0
      else \<exists>i < n_sects fs cs. sect fp = file_sect fs cs i \<and> (flag fp AND FA_DIRTY = 0 \<longrightarrow> fbuf fp = C (disk fs) (sect fp)))"

definition pos_base :: "u32 list \<Rightarrow> FIL \<Rightarrow> 'd fatfs \<Rightarrow> bool" where
  "pos_base cs fp fs \<longleftrightarrow> fptr fp \<le> objsize (f_obj fp) \<and> unat (objsize (f_obj fp)) \<le> 512 * n_sects fs cs \<and>
     sclust (f_obj fp) = (if cs = [] then 0 else hd cs)"

definition pos_ok :: "u32 list \<Rightarrow> FIL \<Rightarrow> 'd fatfs \<Rightarrow> bool" where
  "pos_ok cs fp fs \<longleftrightarrow> pos_base cs fp fs \<and>
     (fptr fp \<noteq> 0 \<longrightarrow> clust fp = cs ! ((unat (fptr fp) - 1) div 512 div unat (csize fs))) \<and>
     (fptr fp mod SS \<noteq> 0 \<longrightarrow> sect fp = file_sect fs cs (unat (fptr fp) div 512))"

definition file_ok :: "('d \<Rightarrow> u32 \<Rightarrow> u8 list) \<Rightarrow> u32 list \<Rightarrow> FIL \<Rightarrow> 'd fatfs \<Rightarrow> bool" where
  "file_ok C cs fp fs \<longleftrightarrow> file_vol C cs fs \<and> buf_ok C cs fp fs \<and> pos_ok cs fp fs"

definition same_file :: "('d \<Rightarrow> u32 \<Rightarrow> u8 list) \<Rightarrow> u32 list \<Rightarrow> FIL \<Rightarrow> 'd fatfs \<Rightarrow> FIL \<Rightarrow> 'd fatfs \<Rightarrow> bool" where
  "same_file C cs fp fs fp' fs' \<longleftrightarrow> same_vol fs fs' \<and> (\<forall>i < n_sects fs cs. file_data C cs fp' fs' i = file_data C cs fp fs i)"

lemma same_file_refl [simp]: "same_file C cs fp fs fp fs"
  by (simp add: same_file_def)

lemma same_file_trans:
  "same_file C cs a fa b fb \<Longrightarrow> same_file C cs b fb c fc \<Longrightarrow> same_file C cs a fa c fc"
  unfolding same_file_def by (metis file_sect_cong(2) same_vol_trans)

lemma same_data_vol: "same_data C cs fs fs' \<Longrightarrow> same_vol fs fs'" "same_data C cs fs fs' \<Longrightarrow> file_vol C cs fs'"
  by (simp_all add: same_data_def)

lemma same_data_file:
  assumes "same_data C cs fs fs'"
  shows "same_file C cs fp fs fp fs'"
  using assms by (simp add: same_data_def same_file_def file_data_def file_sect_cong[OF same_data_vol(1)[OF assms]])

lemma same_data_buf:
  assumes "same_data C cs fs fs'" "buf_ok C cs fp fs"
  shows "buf_ok C cs fp fs'"
  using assms by (auto simp: same_data_def buf_ok_def file_sect_cong[OF same_data_vol(1)[OF assms(1)]]) blast+

lemma same_vol_pos:
  assumes "same_vol fs fs'"
  shows "pos_ok cs fp fs' = pos_ok cs fp fs"
  by (simp add: pos_ok_def pos_base_def file_sect_cong[OF assms] same_volD[OF assms])

lemma length_data: "good_disk K C \<Longrightarrow> buf_ok C cs fp fs \<Longrightarrow> length (file_data C cs fp fs i) = 512"
  by (simp add: file_data_def buf_ok_def good_disk_def)

lemma cached_data:
  "file_vol C cs fs \<Longrightarrow> buf_ok C cs fp fs \<Longrightarrow> i < n_sects fs cs \<Longrightarrow> sect fp = file_sect fs cs i \<Longrightarrow> fbuf fp = file_data C cs fp fs i"
  using file_sect_pos[of C cs fs i] by (auto simp: file_data_def buf_ok_def split: if_splits)

text \<open>The sector within the cluster, and the cluster of a position on a sector boundary.\<close>

lemma csect_nat:
  assumes "geo_ok fs"
  shows "unat ((p div SS) AND (ucast (csize fs) - 1)) = unat p div 512 mod unat (csize fs)"
proof -
  obtain k where k: "unat (csize fs) = 2 ^ k" using assms by (auto simp: geo_ok_def)
  have "(2::nat) ^ k < 2 ^ 16" using unsigned_less[of "csize fs", where 'a = nat] k by simp
  then have "k < 16" by (rule power_less_imp_less_exp[rotated]) simp
  then have "unat (2 ^ k :: u32) = 2 ^ k" using unat_of_nat32[of "2 ^ k"] power_strict_increasing[of k 32 "2::nat"] by simp
  moreover have "unat (ucast (csize fs) :: u32) = 2 ^ k" using k by (simp add: unat_ucast_up)
  ultimately have "(ucast (csize fs) :: u32) = 2 ^ k" by (simp only: word_unat_eq_iff)
  then have "(p div SS) AND (ucast (csize fs) - 1) = take_bit k (p div SS)" by (simp add: take_bit_eq_mask mask_eq_decr_exp)
  moreover have "unat (take_bit k (p div SS)) = unat (p div SS) mod 2 ^ k" by (subst unsigned_take_bit_eq, subst take_bit_eq_mod) (rule refl)
  ultimately show ?thesis using k by (simp add: unat_div SS_def)
qed

lemma pos_sect:
  assumes "file_ok C cs fp fs" "fptr fp < objsize (f_obj fp)"
  shows "unat (fptr fp) div 512 < n_sects fs cs"
proof -
  have "unat (fptr fp) < n_sects fs cs * 512"
    using assms by (simp add: file_ok_def pos_ok_def pos_base_def word_less_nat_alt)
  then show ?thesis by (rule less_mult_imp_div_less)
qed

lemma div_pred: "0 < q mod z \<Longrightarrow> (q - 1) div z = q div z" for q z :: nat
  by (cases q) (simp_all add: div_Suc)

lemma div_pred0: "0 < q \<Longrightarrow> 0 < z \<Longrightarrow> q mod z = 0 \<Longrightarrow> Suc ((q - 1) div z) = q div z" for q z :: nat
  by (cases q) (simp_all add: div_Suc)

lemma read_cluster:
  assumes g: "good_disk K C" and f: "file_ok C cs fp fs" and lt: "fptr fp < objsize (f_obj fp)" and al: "fptr fp mod SS = 0"
  defines "q \<equiv> unat (fptr fp) div 512"
  defines "csect \<equiv> (fptr fp div SS) AND (ucast (csize fs) - 1)"
  shows "\<exists>fs'. (if csect = 0 then (if fptr fp = 0 then Some (sclust (f_obj fp), fs) else get_fat K (clust fp) fs)
      else Some (clust fp, fs)) = Some (cs ! (q div unat (csize fs)), fs') \<and> same_data C cs fs fs'"
proof -
  let ?z = "unat (csize fs)"
  have v: "file_vol C cs fs" and p: "pos_ok cs fp fs" using f by (simp_all add: file_ok_def)
  have gf: "geo_ok fs" using v by (simp add: file_vol_def)
  have z: "0 < ?z" by (rule csize_pos[OF gf])
  have cn: "unat csect = q mod ?z" unfolding csect_def q_def by (rule csect_nat[OF gf])
  have qn: "q < n_sects fs cs" unfolding q_def by (rule pos_sect[OF f lt])
  note ix = sect_index[OF qn]
  have al': "unat (fptr fp) mod 512 = 0" using al by (simp add: SS_def word_unat_eq_iff unat_mod)
  have q1: "Suc ((unat (fptr fp) - 1) div 512) = q" if "0 < unat (fptr fp)" unfolding q_def by (rule div_pred0[OF that _ al']) simp
  show ?thesis
  proof (cases "fptr fp = 0")
    case True
    then have "csect = 0" "q = 0" by (simp_all add: csect_def q_def)
    moreover have "sclust (f_obj fp) = cs ! 0" using p ix by (cases cs) (simp_all add: pos_ok_def pos_base_def)
    ultimately show ?thesis using True same_data_refl[OF v] by simp
  next
    case False
    then have pos: "0 < unat (fptr fp)" by (simp add: unat_gt_0)
    have cl: "clust fp = cs ! ((q - 1) div ?z)" using p False q1[OF pos] by (auto simp: pos_ok_def pos_base_def)
    show ?thesis
    proof (cases "csect = 0")
      case True
      then have m: "q mod ?z = 0" using cn by simp
      have s: "Suc ((q - 1) div ?z) = q div ?z" using q1[OF pos] z m by (intro div_pred0) auto
      have ch: "chain (fat_val C fs) (n_fatent fs) cs" using v ix by (auto simp: file_vol_def)
      have "fat_val C fs (unat (clust fp)) = cs ! (q div ?z)" using chain_step[OF ch, of "(q - 1) div ?z"] s ix cl by simp
      moreover have "cluster fs (clust fp)" using file_cluster[OF v, of "(q - 1) div ?z"] s ix cl by simp
      ultimately show ?thesis using get_fat_data[OF g v, of "clust fp"] True False by simp
    next
      case False
      then have "0 < q mod ?z" using cn by (metis gr0I unat_eq_zero)
      then show ?thesis using False cl div_pred same_data_refl[OF v] by simp
    qed
  qed
qed


section \<open>Lists of sectors\<close>

lemma sector_bytes:
  assumes "length (D q) = 512"
  shows "map (\<lambda>j. D (j div 512) ! (j mod 512)) [512 * q..<512 * q + 512] = D q"
  using assms by (intro nth_equalityI) (simp_all add: div_mult_self4 mod_mult_self4)

lemma data_bytes:
  assumes "\<And>i. length (D i) = 512"
  shows "concat (map (\<lambda>i. D (k + i)) [0..<n]) = map (\<lambda>j. D (j div 512) ! (j mod 512)) [512 * k..<512 * k + 512 * n]"
proof (induction n)
  case (Suc n)
  have "[512 * k..<512 * k + 512 * Suc n] = [512 * k..<512 * k + 512 * n] @ [512 * (k + n)..<512 * (k + n) + 512]"
    using upt_add_eq_append[of "512 * k" "512 * k + 512 * n" 512] by (simp add: algebra_simps)
  then show ?case using Suc sector_bytes[of D "k + n", OF assms] by simp
qed simp

lemma part_bytes:
  assumes "length (D q) = 512" "off + r \<le> 512"
  shows "take r (drop off (D q)) = map (\<lambda>j. D (j div 512) ! (j mod 512)) [512 * q + off..<512 * q + off + r]"
proof (rule nth_equalityI)
  fix i assume "i < length (take r (drop off (D q)))"
  then have i: "i < r" "off + i < 512" using assms by auto
  have "(512 * q + (off + i)) div 512 = q" "(512 * q + (off + i)) mod 512 = off + i" using i(2) by simp_all
  then show "take r (drop off (D q)) ! i = map (\<lambda>j. D (j div 512) ! (j mod 512)) [512 * q + off..<512 * q + off + r] ! i"
    using i assms by (simp add: add.assoc)
qed (use assms in simp)

lemma length_sectors: "(\<And>i. length (f i) = 512) \<Longrightarrow> length (concat (map f xs)) = 512 * length xs"
  by (induction xs) simp_all

lemma patch_sector:
  assumes "\<And>i. length (f i) = 512" "m < n"
  shows "take (m * 512) (concat (map f [0..<n])) @ x @ drop (m * 512 + 512) (concat (map f [0..<n])) = concat (map (f(m := x)) [0..<n])"
proof -
  have s: "[0..<n] = [0..<m] @ m # [Suc m..<n]" using assms(2) upt_add_eq_append[of 0 m "n - m"] by (simp add: upt_conv_Cons)
  have l: "length (concat (map f [0..<m])) = m * 512" using length_sectors[of f "[0..<m]"] assms(1) by simp
  have e: "map (f(m := x)) [0..<m] = map f [0..<m]" "map (f(m := x)) [Suc m..<n] = map f [Suc m..<n]" by simp_all
  show ?thesis unfolding s map_append concat_append list.map concat.simps e using l assms(1)[of m] by simp
qed

section \<open>One round of a read\<close>

text \<open>What the code relies on of the disk: a run of sectors is read and written in order.\<close>

definition good_blocks :: "'d disk_ops \<Rightarrow> ('d \<Rightarrow> u32 \<Rightarrow> u8 list) \<Rightarrow> bool" where
  "good_blocks K C \<longleftrightarrow> good_disk K C \<and>
     (\<forall>p s n d. 0 < n \<and> unat s + unat n \<le> 2 ^ 32 \<longrightarrow>
        (\<exists>d'. dk_read K p s n d = Some (RES_OK, concat (map (\<lambda>i. C d (s + of_nat i)) [0..<unat n]), d') \<and> C d' = C d)) \<and>
     (\<forall>p w s n d. 0 < n \<and> unat s + unat n \<le> 2 ^ 32 \<and> length w = 512 * unat n \<longrightarrow>
        (\<exists>d'. dk_write K p w s n d = Some (RES_OK, d') \<and>
           C d' = (\<lambda>t. if t - s < n then take 512 (drop (512 * unat (t - s)) w) else C d t)))"

lemma run_index:
  assumes "(k :: nat) mod z + m \<le> z" "i < m"
  shows "(k + i) div z = k div z" "(k + i) mod z = k mod z + i"
proof -
  have e: "k + i = (k mod z + i) + z * (k div z)" by simp
  have l: "k mod z + i < z" using assms by simp
  show "(k + i) div z = k div z" by (subst e, subst div_mult_self2) (use l in simp_all)
  show "(k + i) mod z = k mod z + i" by (subst e, subst mod_mult_self2) (use l in simp)
qed

lemma run_sect:
  assumes "k < n_sects fs cs" "k mod unat (csize fs) + m \<le> unat (csize fs)" "i < m"
  shows "file_sect fs cs (k + i) = file_sect fs cs k + of_nat i" "k + i < n_sects fs cs"
proof -
  note r = run_index[OF assms(2,3)]
  show "file_sect fs cs (k + i) = file_sect fs cs k + of_nat i" using r by (simp add: file_sect_def add.assoc)
  have "(k + i) div unat (csize fs) < length cs" using r(1) sect_index[OF assms(1)] by simp
  moreover have "0 < unat (csize fs)" using assms(2,3) by linarith
  ultimately show "k + i < n_sects fs cs" by (simp add: n_sects_def div_less_iff_less_mult)
qed

lemma read_sectors_data:
  assumes g: "good_blocks K C" and v: "file_vol C cs fs" and b: "buf_ok C cs fp fs" and k: "k < n_sects fs cs"
    and cc: "0 < cc" and fit: "k mod unat (csize fs) + unat cc \<le> unat (csize fs)"
  shows "\<exists>d. read_sectors K (file_sect fs cs k) cc fp fs =
      Some (Inr (SS * cc, concat (map (\<lambda>i. file_data C cs fp fs (k + i)) [0..<unat cc])), fp, fs\<lparr>disk := d\<rparr>) \<and> C d = C (disk fs)"
proof -
  let ?s = "file_sect fs cs k" and ?f = "\<lambda>i. C (disk fs) (file_sect fs cs k + of_nat i)"
  note run = run_sect[OF k fit]
  have c0: "unat cc - 1 < unat cc" using cc by (simp add: word_less_nat_alt)
  have cz: "unat cc < 2 ^ 16" using fit unsigned_less[of "csize fs", where 'a = nat] by simp
  have "unat (file_sect fs cs (k + (unat cc - 1))) = unat ?s + (unat cc - 1)"
    using file_sect_nat(1)[OF v run(2)[OF c0]] file_sect_nat(1)[OF v k] run_index[OF fit c0] by simp
  then have top: "unat ?s + unat cc \<le> 2 ^ 32"
    using unsigned_less[of "file_sect fs cs (k + (unat cc - 1))", where 'a = nat] c0 by simp
  obtain d where d: "dk_read K (pdrv fs) ?s cc (disk fs) = Some (RES_OK, concat (map ?f [0..<unat cc]), d)" "C d = C (disk fs)"
    using g cc top unfolding good_blocks_def by blast
  have len: "length (?f i) = 512" for i using g by (simp add: good_blocks_def good_disk_def)
  have small: "unat (of_nat i :: u32) = i" if "i < unat cc" for i using that cz by (intro unat_of_nat32) simp
  show ?thesis
  proof (cases "flag fp AND FA_DIRTY \<noteq> 0 \<and> sect fp - ?s < cc")
    case True
    let ?m = "unat (sect fp - ?s)"
    have m: "?m < unat cc" using True by (simp add: word_less_nat_alt)
    have at: "sect fp = file_sect fs cs (k + ?m)" using run(1)[OF m] by simp
    have off: "unat ((sect fp - ?s) * SS) = ?m * 512"
      using m cz by (subst unat_mult_lem[THEN iffD1]) (simp_all add: SS_def)
    have mp: "map (?f(?m := fbuf fp)) [0..<unat cc] = map (\<lambda>i. file_data C cs fp fs (k + i)) [0..<unat cc]"
    proof (rule map_cong[OF refl])
      fix i assume "i \<in> set [0..<unat cc]"
      then have i: "i < unat cc" by simp
      have "file_sect fs cs (k + ?m) = file_sect fs cs (k + i) \<longleftrightarrow> i = ?m"
        using file_sect_inj[OF v run(2)[OF m] run(2)[OF i]] by auto
      then show "(?f(?m := fbuf fp)) i = file_data C cs fp fs (k + i)" using True at run(1)[OF i] by (auto simp: file_data_def)
    qed
    note pt = patch_sector[of ?f ?m "unat cc" "fbuf fp", OF len m, unfolded mp]
    show ?thesis using True by (intro exI[of _ d]) (simp add: read_sectors_def d off pt Let_def)
  next
    case False
    have mp: "map ?f [0..<unat cc] = map (\<lambda>i. file_data C cs fp fs (k + i)) [0..<unat cc]"
    proof (rule map_cong[OF refl])
      fix i assume "i \<in> set [0..<unat cc]"
      then have i: "i < unat cc" by simp
      then have "\<not> (flag fp AND FA_DIRTY \<noteq> 0 \<and> sect fp = ?s + of_nat i)" using False small[OF i] by (auto simp: word_less_nat_alt)
      then show "?f i = file_data C cs fp fs (k + i)" using run(1)[OF i] by (auto simp: file_data_def)
    qed
    show ?thesis by (intro exI[of _ d]) (simp add: read_sectors_def d mp Let_def if_not_P[OF False])
  qed
qed


lemma clean_flag: "(f AND NOT FA_DIRTY) AND FA_DIRTY = 0" "f AND FA_DIRTY = 0 \<Longrightarrow> f AND NOT FA_DIRTY = f"
  "(f AND NOT FA_DIRTY) AND 0x3F = f AND 0x3F"
proof -
  show "(f AND NOT FA_DIRTY) AND 0x3F = f AND 0x3F" by (simp add: and.assoc)
  show "(f AND NOT FA_DIRTY) AND FA_DIRTY = 0" by (simp add: and.assoc)
  assume "f AND FA_DIRTY = 0"
  moreover have "f AND (FA_DIRTY OR NOT FA_DIRTY) = (f AND FA_DIRTY) OR (f AND NOT FA_DIRTY)" by (simp only: bit.conj_disj_distrib)
  ultimately show "f AND NOT FA_DIRTY = f" by simp
qed

lemma flush_data:
  assumes g: "good_disk K C" and v: "file_vol C cs fs" and b: "buf_ok C cs fp fs"
  shows "\<exists>d. flush_buf K fp fs = Some (True, fp\<lparr>flag := flag fp AND NOT FA_DIRTY\<rparr>, fs\<lparr>disk := d\<rparr>) \<and>
    file_vol C cs (fs\<lparr>disk := d\<rparr>) \<and> (\<forall>j < n_sects fs cs. C d (file_sect fs cs j) = file_data C cs fp fs j) \<and>
    (\<forall>t. t \<notin> file_sect fs cs ` {..<n_sects fs cs} \<longrightarrow> C d t = C (disk fs) t)"
proof (cases "flag fp AND FA_DIRTY = 0")
  case True
  then show ?thesis using v clean_flag(2)[OF True]
    by (intro exI[of _ "disk fs"]) (simp add: flush_buf_def file_data_def)
next
  case False
  then obtain i where i: "i < n_sects fs cs" "sect fp = file_sect fs cs i" using b by (auto simp: buf_ok_def split: if_splits)
  have l: "length (fbuf fp) = 512" using b by (simp add: buf_ok_def)
  obtain d where d: "dk_write K (pdrv fs) (fbuf fp) (sect fp) 1 (disk fs) = Some (RES_OK, d)" "C d = (C (disk fs))(file_sect fs cs i := fbuf fp)"
    using good_write[OF g l] i(2) by metis
  note w = write_data[OF v i(1) d(2)]
  have "C d (file_sect fs cs j) = file_data C cs fp fs j" if j: "j < n_sects fs cs" for j
    using w(2)[OF j] i(2) False file_sect_inj[OF v i(1) j] by (auto simp: file_data_def)
  moreover have "C d t = C (disk fs) t" if "t \<notin> file_sect fs cs ` {..<n_sects fs cs}" for t using that i(1) d(2) by auto
  ultimately show ?thesis using d(1) False w(1) by (auto simp: flush_buf_def)
qed

lemma read_load_data:
  assumes g: "good_disk K C" and v: "file_vol C cs fs" and b: "buf_ok C cs fp fs" and k: "k < n_sects fs cs"
  defines "sec \<equiv> file_sect fs cs k"
  shows "\<exists>f d. f AND 0x3F = flag fp AND 0x3F \<and>
    read_load K sec fp fs = Some (True, fp\<lparr>flag := f, fbuf := file_data C cs fp fs k\<rparr>, fs\<lparr>disk := d\<rparr>) \<and>
    file_vol C cs (fs\<lparr>disk := d\<rparr>) \<and>
    buf_ok C cs (fp\<lparr>flag := f, fbuf := file_data C cs fp fs k, sect := sec\<rparr>) (fs\<lparr>disk := d\<rparr>) \<and>
    same_file C cs fp fs (fp\<lparr>flag := f, fbuf := file_data C cs fp fs k, sect := sec\<rparr>) (fs\<lparr>disk := d\<rparr>)"
proof (cases "sect fp = sec")
  case True
  have e: "fbuf fp = file_data C cs fp fs k" using cached_data[OF v b k] True by (simp add: sec_def)
  have u: "fp\<lparr>sect := sec\<rparr> = fp" unfolding True[symmetric] by simp
  have "buf_ok C cs (fp\<lparr>sect := sec\<rparr>) fs" "same_file C cs fp fs (fp\<lparr>sect := sec\<rparr>) fs" unfolding u by (simp_all add: b)
  then show ?thesis unfolding e[symmetric] using True v
    by (intro exI[of _ "flag fp"] exI[of _ "disk fs"]) (simp add: read_load_def)
next
  case False
  obtain d where d: "flush_buf K fp fs = Some (True, fp\<lparr>flag := flag fp AND NOT FA_DIRTY\<rparr>, fs\<lparr>disk := d\<rparr>)" "file_vol C cs (fs\<lparr>disk := d\<rparr>)"
    "\<And>j. j < n_sects fs cs \<Longrightarrow> C d (file_sect fs cs j) = file_data C cs fp fs j" using flush_data[OF g v b] by blast
  obtain d' where d': "dk_read K (pdrv fs) sec 1 d = Some (RES_OK, C d sec, d')" "C d' = C d" using good_read[OF g] by blast
  let ?fp = "fp\<lparr>flag := flag fp AND NOT FA_DIRTY, fbuf := file_data C cs fp fs k\<rparr>" and ?fs = "fs\<lparr>disk := d'\<rparr>"
  have sd: "same_data C cs (fs\<lparr>disk := d\<rparr>) ?fs" using disk_data[OF d(2), of d'] d'(2) by simp
  have r: "read_load K sec fp fs = Some (True, ?fp, ?fs)"
    using False d(1) d'(1) d(3)[OF k] by (simp add: read_load_def fill_buf_def sec_def)
  have dat: "file_data C cs (?fp\<lparr>sect := sec\<rparr>) ?fs j = file_data C cs fp fs j" if "j < n_sects fs cs" for j
    using d(3)[OF that] d'(2) clean_flag(1) file_sect_cong[OF same_vol_disk[of fs]] by (simp add: file_data_def)
  then have "same_file C cs fp fs (?fp\<lparr>sect := sec\<rparr>) ?fs" by (simp add: same_file_def)
  moreover have "buf_ok C cs (?fp\<lparr>sect := sec\<rparr>) ?fs"
    using length_data[OF g b] clean_flag(1) d(3)[OF k] d'(2) file_sect_cong[OF same_vol_disk[of fs]] file_sect_pos[OF v k] k by (auto simp: buf_ok_def sec_def)
  ultimately show ?thesis using r same_data_vol(2)[OF sd] clean_flag(3)
    by (intro exI[of _ "flag fp AND NOT FA_DIRTY"] exI[of _ d']) simp
qed


text \<open>The position after a round.\<close>

lemma file_data_simps [simp]:
  "file_data C cs (fp\<lparr>fptr := x\<rparr>) = file_data C cs fp" "file_data C cs (fp\<lparr>clust := y\<rparr>) = file_data C cs fp"
  "buf_ok C cs (fp\<lparr>fptr := x\<rparr>) = buf_ok C cs fp" "buf_ok C cs (fp\<lparr>clust := y\<rparr>) = buf_ok C cs fp"
  by (simp_all add: fun_eq_iff file_data_def buf_ok_def)

lemma same_file_simps [simp]:
  "same_file C cs (fp\<lparr>clust := y\<rparr>) fs fp' fs' = same_file C cs fp fs fp' fs'"
  "same_file C cs fp fs (fp'\<lparr>clust := y\<rparr>) fs' = same_file C cs fp fs fp' fs'"
  "same_file C cs (fp\<lparr>fptr := x\<rparr>) fs fp' fs' = same_file C cs fp fs fp' fs'"
  "same_file C cs fp fs (fp'\<lparr>fptr := x\<rparr>) fs' = same_file C cs fp fs fp' fs'"
  by (simp_all add: same_file_def)

text \<open>The fields that a read leaves alone; of the flags, the modified and the dirty bit may change.\<close>

definition same_handle :: "FIL \<Rightarrow> FIL \<Rightarrow> bool" where
  "same_handle fp fp' \<longleftrightarrow> f_obj fp' = f_obj fp \<and> ferr fp' = ferr fp \<and> flag fp' AND 0x3F = flag fp AND 0x3F \<and>
     dir_sect fp' = dir_sect fp \<and> dir_ptr fp' = dir_ptr fp"

lemma same_handle_simps [simp]:
  "same_handle fp fp" "same_handle fp (fp'\<lparr>fptr := x\<rparr>) = same_handle fp fp'" "same_handle (fp\<lparr>fptr := x\<rparr>) fp' = same_handle fp fp'"
  "same_handle fp (fp'\<lparr>clust := x\<rparr>) = same_handle fp fp'" "same_handle (fp\<lparr>clust := x\<rparr>) fp' = same_handle fp fp'"
  by (simp_all add: same_handle_def)

lemma same_handle_trans: "same_handle a b \<Longrightarrow> same_handle b c \<Longrightarrow> same_handle a c"
  by (simp add: same_handle_def)

definition advanced :: "('d \<Rightarrow> u32 \<Rightarrow> u8 list) \<Rightarrow> u32 list \<Rightarrow> FIL \<Rightarrow> 'd fatfs \<Rightarrow> u32 \<Rightarrow> FIL \<Rightarrow> 'd fatfs \<Rightarrow> bool" where
  "advanced C cs fp fs n fp' fs' \<longleftrightarrow> file_ok C cs (fp'\<lparr>fptr := fptr fp + n\<rparr>) fs' \<and> same_file C cs fp fs fp' fs' \<and>
     same_handle fp fp' \<and> fptr fp' = fptr fp"

lemma pos_advance:
  assumes "pos_base cs fp fs" "n \<le> objsize (f_obj fp) - fptr fp" "f_obj fp' = f_obj fp" "0 < n"
    and "clust fp' = cs ! ((unat (fptr fp) + unat n - 1) div 512 div unat (csize fs))"
    and "(unat (fptr fp) + unat n) mod 512 \<noteq> 0 \<Longrightarrow> sect fp' = file_sect fs cs ((unat (fptr fp) + unat n) div 512)"
  shows "pos_ok cs (fp'\<lparr>fptr := fptr fp + n\<rparr>) fs" "unat (fptr fp + n) = unat (fptr fp) + unat n" "fptr fp + n \<le> objsize (f_obj fp)"
proof -
  have le: "fptr fp \<le> objsize (f_obj fp)" using assms(1) by (simp add: pos_ok_def pos_base_def)
  then have b: "unat (fptr fp) + unat n \<le> unat (objsize (f_obj fp))"
    using assms(2) by (simp add: word_le_nat_alt unat_sub)
  then show u: "unat (fptr fp + n) = unat (fptr fp) + unat n"
    using unsigned_less[of "objsize (f_obj fp)", where 'a = nat] by (intro unat_add_lem[THEN iffD1]) simp
  then show l: "fptr fp + n \<le> objsize (f_obj fp)" using b by (simp add: word_le_nat_alt)
  have m: "(fptr fp + n) mod SS \<noteq> 0 \<longleftrightarrow> (unat (fptr fp) + unat n) mod 512 \<noteq> 0"
    by (simp add: SS_def word_unat_eq_iff unat_mod u)
  show "pos_ok cs (fp'\<lparr>fptr := fptr fp + n\<rparr>) fs"
    using assms l u m by (simp add: pos_ok_def pos_base_def)
qed

lemma pos_fits:
  assumes "pos_base cs fp fs" "n \<le> objsize (f_obj fp) - fptr fp"
  shows "unat (fptr fp) + unat n \<le> 512 * n_sects fs cs"
  using assms by (auto simp: pos_base_def word_le_nat_alt unat_sub)

lemma read_part_nat:
  assumes "fptr fp mod SS = r"
  shows "unat (fst (read_part btr fp)) = min (512 - unat r) (unat btr)"
    and "snd (read_part btr fp) = take (unat (fst (read_part btr fp))) (drop (unat r) (fbuf fp))"
proof -
  have "unat r < 512" unfolding assms[symmetric] by (simp add: SS_def unat_mod)
  then have "unat (SS - r) = 512 - unat r" by (simp add: SS_def unat_sub word_le_nat_alt)
  then show "unat (fst (read_part btr fp)) = min (512 - unat r) (unat btr)"
    unfolding read_part_def assms Let_def by (auto simp: word_less_nat_alt min_def)
  show "snd (read_part btr fp) = take (unat (fst (read_part btr fp))) (drop (unat r) (fbuf fp))"
    unfolding read_part_def assms Let_def by simp
qed

lemma read_part_data:
  assumes g: "good_disk K C" and v: "file_vol C cs fs" and b: "buf_ok C cs fp fs" and p: "pos_base cs fp fs"
    and n: "0 < btr" "btr \<le> objsize (f_obj fp) - fptr fp"
    and q: "unat (fptr fp) div 512 < n_sects fs cs" "sect fp = file_sect fs cs (unat (fptr fp) div 512)"
    and c: "clust fp = cs ! (unat (fptr fp) div 512 div unat (csize fs))"
    and r: "read_part btr fp = (rcnt, bs)"
  shows "0 < rcnt" "rcnt \<le> btr" "bs = map (file_byte C cs fp fs) [unat (fptr fp)..<unat (fptr fp) + unat rcnt]"
    "advanced C cs fp fs rcnt fp fs"
proof -
  let ?p = "unat (fptr fp)" and ?q = "unat (fptr fp) div 512" and ?o = "unat (fptr fp) mod 512"
  have o: "unat (fptr fp mod SS) = ?o" by (simp add: SS_def unat_mod)
  have rn: "unat rcnt = min (512 - ?o) (unat btr)" and rb: "bs = take (unat rcnt) (drop ?o (fbuf fp))"
    using read_part_nat[OF refl, of btr fp] r o by simp_all
  have o5: "?o < 512" by simp
  have b0: "0 < unat btr" using n(1) by (simp add: word_less_nat_alt)
  have r0: "0 < unat rcnt" "unat rcnt \<le> unat btr" "?o + unat rcnt \<le> 512" using rn o5 b0 by auto
  show rr: "0 < rcnt" "rcnt \<le> btr" using r0 by (simp_all add: word_less_nat_alt word_le_nat_alt)
  have "bs = map (\<lambda>j. file_data C cs fp fs (j div 512) ! (j mod 512)) [512 * ?q + ?o..<512 * ?q + ?o + unat rcnt]"
    unfolding rb cached_data[OF v b q] using length_data[OF g b] r0(3) by (rule part_bytes)
  then show "bs = map (file_byte C cs fp fs) [?p..<?p + unat rcnt]" by (simp add: file_byte_def[abs_def])
  have top: "(?p + unat rcnt - 1) div 512 = ?q" using run_index(1)[OF r0(3), of "unat rcnt - 1"] r0(1) by simp
  have "(?p + unat rcnt) div 512 = ?q" if "(?p + unat rcnt) mod 512 \<noteq> 0"
    using top div_pred[of "?p + unat rcnt" 512] that by simp
  then show "advanced C cs fp fs rcnt fp fs"
    using v b pos_advance(1)[OF p order.trans[OF rr(2) n(2)] refl rr(1)] q(2) c top by (simp add: advanced_def file_ok_def)
qed


lemma advanced_from:
  "same_file C cs fp fs fp1 fs1 \<Longrightarrow> same_handle fp fp1 \<Longrightarrow> fptr fp1 = fptr fp \<Longrightarrow>
   advanced C cs fp1 fs1 n fp' fs' \<Longrightarrow> advanced C cs fp fs n fp' fs'"
  by (auto simp: advanced_def intro: same_file_trans same_handle_trans)

lemma same_file_bytes:
  assumes "same_file C cs fp fs fp' fs'" "b \<le> 512 * n_sects fs cs"
  shows "map (file_byte C cs fp' fs') [a..<b] = map (file_byte C cs fp fs) [a..<b]"
proof (rule map_cong[OF refl])
  fix j assume "j \<in> set [a..<b]"
  then have "j < n_sects fs cs * 512" using assms(2) by simp
  then have "j div 512 < n_sects fs cs" by (rule less_mult_imp_div_less)
  then show "file_byte C cs fp' fs' j = file_byte C cs fp fs j" using assms(1) by (simp add: same_file_def file_byte_def)
qed

text \<open>A whole number of sectors within the cluster.\<close>

lemma read_run_data:
  assumes g: "good_blocks K C" and v: "file_vol C cs fs" and b: "buf_ok C cs fp fs" and p: "pos_base cs fp fs"
    and n: "0 < cc" "unat cc * 512 \<le> unat btr" "btr \<le> objsize (f_obj fp) - fptr fp"
    and al: "unat (fptr fp) = 512 * k" and k: "k < n_sects fs cs" and c: "clust fp = cs ! (k div unat (csize fs))"
    and fit: "k mod unat (csize fs) + unat cc \<le> unat (csize fs)"
  shows "\<exists>bs fs'. read_sectors K (file_sect fs cs k) cc fp fs = Some (Inr (SS * cc, bs), fp, fs') \<and> 0 < SS * cc \<and> SS * cc \<le> btr \<and>
    bs = map (file_byte C cs fp fs) [unat (fptr fp)..<unat (fptr fp) + unat (SS * cc)] \<and> advanced C cs fp fs (SS * cc) fp fs'"
proof -
  have gd: "good_disk K C" using g by (simp add: good_blocks_def)
  obtain d where d: "read_sectors K (file_sect fs cs k) cc fp fs =
      Some (Inr (SS * cc, concat (map (\<lambda>i. file_data C cs fp fs (k + i)) [0..<unat cc])), fp, fs\<lparr>disk := d\<rparr>)" "C d = C (disk fs)"
    using read_sectors_data[OF g v b k n(1) fit] by blast
  have "512 * unat cc < 2 ^ 32" using n(2) unsigned_less[of btr, where 'a = nat] by simp
  then have u: "unat (SS * cc) = 512 * unat cc" by (subst unat_mult_lem[THEN iffD1]) (simp_all add: SS_def)
  have c0: "0 < unat cc" using n(1) by (simp add: word_less_nat_alt)
  have r: "0 < SS * cc" "SS * cc \<le> btr" using u c0 n(2) by (simp_all add: word_less_nat_alt word_le_nat_alt)
  have bs: "concat (map (\<lambda>i. file_data C cs fp fs (k + i)) [0..<unat cc]) =
      map (file_byte C cs fp fs) [unat (fptr fp)..<unat (fptr fp) + unat (SS * cc)]"
    using data_bytes[of "file_data C cs fp fs" k "unat cc", OF length_data[OF gd b]] u al by (simp add: file_byte_def[abs_def])
  have sd: "same_data C cs fs (fs\<lparr>disk := d\<rparr>)" by (rule disk_data[OF v d(2)])
  have "(unat (fptr fp) + unat (SS * cc) - 1) div 512 = k + (unat cc - 1)"
    using u al c0 by (intro div_nat_eqI) simp_all
  then have "clust fp = cs ! ((unat (fptr fp) + unat (SS * cc) - 1) div 512 div unat (csize fs))"
    using c run_index(1)[OF fit, of "unat cc - 1"] c0 by simp
  then have "pos_ok cs (fp\<lparr>fptr := fptr fp + SS * cc\<rparr>) fs"
    using u al by (intro pos_advance(1)[OF p order.trans[OF r(2) n(3)] refl r(1)]) simp_all
  then have "advanced C cs fp fs (SS * cc) fp (fs\<lparr>disk := d\<rparr>)"
    using same_data_vol(2)[OF sd] same_data_buf[OF sd b] same_data_file[OF sd]
    by (simp add: advanced_def file_ok_def same_vol_pos[OF same_vol_disk])
  then show ?thesis using d(1) r bs by auto
qed


lemma run_count:
  assumes "unat csect = k mod unat (csize fs)" "k mod unat (csize fs) < unat (csize fs)" "0 < btr div SS"
  defines "cc \<equiv> (if csect + btr div SS > ucast (csize fs) then ucast (csize fs) - csect else btr div SS)"
  shows "0 < cc" "unat cc * 512 \<le> unat btr" "k mod unat (csize fs) + unat cc \<le> unat (csize fs)"
proof -
  let ?z = "unat (csize fs)"
  have z: "unat (ucast (csize fs) :: u32) = ?z" by (simp add: unat_ucast_up)
  have z16: "?z < 2 ^ 16" using unsigned_less[of "csize fs", where 'a = nat] by simp
  have b: "unat (btr div SS) = unat btr div 512" by (simp add: SS_def unat_div)
  have "unat btr div 512 < 2 ^ 23" using unsigned_less[of btr, where 'a = nat] by (intro less_mult_imp_div_less) simp
  then have s: "unat (csect + btr div SS) = k mod ?z + unat btr div 512"
    using assms(1,2) b z16 by (subst unat_add_lem[THEN iffD1]) simp_all
  have m: "unat (ucast (csize fs) - csect) = ?z - k mod ?z"
    using assms(1,2) z by (subst unat_sub) (simp_all add: word_le_nat_alt)
  have "0 < unat btr div 512" using assms(3) b by (simp add: word_less_nat_alt)
  moreover have "unat cc = (if ?z < k mod ?z + unat btr div 512 then ?z - k mod ?z else unat btr div 512)"
    unfolding cc_def using s m b z by (simp add: word_less_nat_alt)
  moreover have "unat btr div 512 * 512 \<le> unat btr" by simp
  ultimately have "0 < unat cc" "unat cc \<le> unat btr div 512" "k mod ?z + unat cc \<le> ?z" using assms(2) by (auto split: if_splits)
  moreover from this have "unat cc * 512 \<le> unat btr div 512 * 512" by simp
  ultimately show "0 < cc" "unat cc * 512 \<le> unat btr" "k mod ?z + unat cc \<le> ?z"
    using \<open>unat btr div 512 * 512 \<le> unat btr\<close> by (simp_all add: word_less_nat_alt)
qed

lemma read_load_step:
  assumes g: "good_disk K C" and v: "file_vol C cs fs" and b: "buf_ok C cs fp fs" and p: "pos_base cs fp fs"
    and n: "0 < btr" "btr \<le> objsize (f_obj fp) - fptr fp"
    and q: "unat (fptr fp) div 512 = k" "k < n_sects fs cs" and c: "clust fp = cs ! (k div unat (csize fs))"
  shows "\<exists>rcnt bs fp' fs'. (case read_load K (file_sect fs cs k) fp fs of None \<Rightarrow> None | Some (a, fp1, fs1) \<Rightarrow>
      if \<not> a then Some (Inl FR_DISK_ERR, fp1, fs1)
      else Some (Inr (read_part btr (fp1\<lparr>sect := file_sect fs cs k\<rparr>)), fp1\<lparr>sect := file_sect fs cs k\<rparr>, fs1)) = Some (Inr (rcnt, bs), fp', fs') \<and>
    0 < rcnt \<and> rcnt \<le> btr \<and> bs = map (file_byte C cs fp fs) [unat (fptr fp)..<unat (fptr fp) + unat rcnt] \<and> advanced C cs fp fs rcnt fp' fs'"
proof -
  let ?s = "file_sect fs cs k"
  obtain f d where lf: "f AND 0x3F = flag fp AND 0x3F" and l: "read_load K ?s fp fs = Some (True, fp\<lparr>flag := f, fbuf := file_data C cs fp fs k\<rparr>, fs\<lparr>disk := d\<rparr>)"
    and v': "file_vol C cs (fs\<lparr>disk := d\<rparr>)"
    and b': "buf_ok C cs (fp\<lparr>flag := f, fbuf := file_data C cs fp fs k, sect := ?s\<rparr>) (fs\<lparr>disk := d\<rparr>)"
    and s': "same_file C cs fp fs (fp\<lparr>flag := f, fbuf := file_data C cs fp fs k, sect := ?s\<rparr>) (fs\<lparr>disk := d\<rparr>)"
    using read_load_data[OF g v b q(2)] by blast
  let ?fp = "fp\<lparr>flag := f, fbuf := file_data C cs fp fs k, sect := ?s\<rparr>" and ?fs = "fs\<lparr>disk := d\<rparr>"
  obtain rcnt bs where r: "read_part btr ?fp = (rcnt, bs)" by fastforce
  have p': "pos_base cs ?fp ?fs" using p file_sect_cong[OF same_vol_disk[of fs]] by (simp add: pos_base_def)
  have h: "unat (fptr ?fp) div 512 < n_sects ?fs cs" "sect ?fp = file_sect ?fs cs (unat (fptr ?fp) div 512)"
    "clust ?fp = cs ! (unat (fptr ?fp) div 512 div unat (csize ?fs))"
    using q c file_sect_cong[OF same_vol_disk[of fs]] by simp_all
  have n': "btr \<le> objsize (f_obj ?fp) - fptr ?fp" using n(2) by simp
  note rp = read_part_data[OF g v' b' p' n(1) n' h r]
  have top: "unat (fptr fp) + unat rcnt \<le> 512 * n_sects fs cs"
    by (rule pos_fits[OF p order.trans[OF rp(2) n(2)]])
  have "bs = map (file_byte C cs fp fs) [unat (fptr fp)..<unat (fptr fp) + unat rcnt]"
    unfolding rp(3) using same_file_bytes[OF s' top] by simp
  moreover have "advanced C cs fp fs rcnt ?fp ?fs" using advanced_from[OF s' _ _ rp(4)] lf by (simp add: same_handle_def)
  ultimately show ?thesis using rp(1,2)
    by (intro exI[of _ rcnt] exI[of _ bs] exI[of _ ?fp] exI[of _ ?fs]) (simp add: l r)
qed


definition one_round :: "('d \<Rightarrow> u32 \<Rightarrow> u8 list) \<Rightarrow> u32 list \<Rightarrow> u32 \<Rightarrow> FIL \<Rightarrow> 'd fatfs \<Rightarrow>
    ((FRESULT + u32 \<times> u8 list) \<times> FIL \<times> 'd fatfs) option \<Rightarrow> bool" where
  "one_round C cs btr fp fs r \<longleftrightarrow> (\<exists>rcnt bs fp' fs'. r = Some (Inr (rcnt, bs), fp', fs') \<and> 0 < rcnt \<and> rcnt \<le> btr \<and>
     bs = map (file_byte C cs fp fs) [unat (fptr fp)..<unat (fptr fp) + unat rcnt] \<and> advanced C cs fp fs rcnt fp' fs')"

lemma one_round_from:
  assumes "same_data C cs fs fs1" "pos_base cs fp fs" "btr \<le> objsize (f_obj fp) - fptr fp" "one_round C cs btr (fp\<lparr>clust := c\<rparr>) fs1 r"
  shows "one_round C cs btr fp fs r"
proof -
  have s: "same_file C cs fp fs (fp\<lparr>clust := c\<rparr>) fs1" using same_data_file[OF assms(1)] by simp
  obtain rcnt bs fp' fs' where r: "r = Some (Inr (rcnt, bs), fp', fs')" "0 < rcnt" "rcnt \<le> btr"
    "bs = map (file_byte C cs (fp\<lparr>clust := c\<rparr>) fs1) [unat (fptr fp)..<unat (fptr fp) + unat rcnt]"
    "advanced C cs (fp\<lparr>clust := c\<rparr>) fs1 rcnt fp' fs'"
    using assms(4) by (auto simp: one_round_def)
  have "advanced C cs fp fs rcnt fp' fs'" by (rule advanced_from[OF s _ _ r(5)]) simp_all
  moreover have "bs = map (file_byte C cs fp fs) [unat (fptr fp)..<unat (fptr fp) + unat rcnt]"
    unfolding r(4) by (rule same_file_bytes[OF s pos_fits[OF assms(2) order.trans[OF r(3) assms(3)]]])
  ultimately show ?thesis using r(1-3) by (simp add: one_round_def)
qed

lemma aligned_nat: "p mod SS = 0 \<longleftrightarrow> unat p mod 512 = 0" for p :: u32
  by (simp add: SS_def word_unat_eq_iff unat_mod)

lemma read_step_round:
  assumes g: "good_blocks K C" and f: "file_ok C cs fp fs" and lt: "fptr fp < objsize (f_obj fp)"
    and n: "0 < btr" "btr \<le> objsize (f_obj fp) - fptr fp"
  shows "one_round C cs btr fp fs (read_step K btr fp fs)"
proof -
  let ?q = "unat (fptr fp) div 512" and ?z = "unat (csize fs)"
  have gd: "good_disk K C" using g by (simp add: good_blocks_def)
  have v: "file_vol C cs fs" and b: "buf_ok C cs fp fs" and p: "pos_ok cs fp fs" using f by (simp_all add: file_ok_def)
  have pb: "pos_base cs fp fs" using p by (simp add: pos_ok_def)
  have q: "?q < n_sects fs cs" by (rule pos_sect[OF f lt])
  show ?thesis
  proof (cases "fptr fp mod SS = 0")
    case False
    obtain rcnt bs where r: "read_part btr fp = (rcnt, bs)" by fastforce
    have "0 < unat (fptr fp) mod 512" using False by (simp add: aligned_nat)
    then have e: "(unat (fptr fp) - 1) div 512 = ?q" by (rule div_pred)
    have nz: "fptr fp \<noteq> 0" using False by auto
    have s: "sect fp = file_sect fs cs ?q" "clust fp = cs ! (?q div ?z)" using p False e nz by (simp_all add: pos_ok_def)
    have "read_step K btr fp fs = Some (Inr (rcnt, bs), fp, fs)" using False r by (simp add: read_step_def)
    then show ?thesis using read_part_data[OF gd v b pb n q s r] by (simp add: one_round_def)
  next
    case True
    let ?c = "cs ! (?q div ?z)" and ?cs = "(fptr fp div SS) AND (ucast (csize fs) - 1)"
    obtain fs1 where r: "(if ?cs = 0 then (if fptr fp = 0 then Some (sclust (f_obj fp), fs) else get_fat K (clust fp) fs)
        else Some (clust fp, fs)) = Some (?c, fs1)" and sd: "same_data C cs fs fs1"
      using read_cluster[OF gd f lt True] by blast
    note sv = same_data_vol[OF sd]
    note cg = file_sect_cong[OF sv(1)] same_volD(7)[OF sv(1)]
    have gf: "geo_ok fs" "geo_ok fs1" using v sv(2) by (simp_all add: file_vol_def)
    have cl: "cluster fs ?c" "cluster fs1 ?c" using file_cluster[OF v sect_index[OF q]] file_cluster[OF sv(2), of "?q div ?z"] sect_index[OF q] by simp_all
    have c1: "\<not> ?c < 2" using cl(1) by (auto simp: cluster_def not_less)
    have c2: "?c \<noteq> 0xFFFFFFFF" using cl(1) unsigned_less[of "n_fatent fs", where 'a = nat] by (auto simp: cluster_nat)
    have c3: "clst2sect ?c fs1 \<noteq> 0" by (rule clst2sect_nat(2)[OF gf(2) cl(2)])
    have csn: "unat ?cs = ?q mod ?z" by (rule csect_nat[OF gf(1)])
    have "of_nat (unat ?cs) = ?cs" by simp
    then have "?cs = of_nat (?q mod ?z)" unfolding csn by (rule sym)
    then have sec: "clst2sect ?c fs1 + ?cs = file_sect fs1 cs ?q" by (simp add: file_sect_def cg(3))
    let ?fp = "fp\<lparr>clust := ?c\<rparr>"
    have st: "read_step K btr fp fs =
        (if btr div SS > 0 then read_sectors K (file_sect fs1 cs ?q) (if ?cs + btr div SS > ucast (csize fs1) then ucast (csize fs1) - ?cs else btr div SS) ?fp fs1
         else (case read_load K (file_sect fs1 cs ?q) ?fp fs1 of None \<Rightarrow> None | Some (a, fp1, fs2) \<Rightarrow>
           if \<not> a then Some (Inl FR_DISK_ERR, fp1, fs2)
           else Some (Inr (read_part btr (fp1\<lparr>sect := file_sect fs1 cs ?q\<rparr>)), fp1\<lparr>sect := file_sect fs1 cs ?q\<rparr>, fs2)))"
      unfolding read_step_def if_P[OF True] Let_def r using c1 c2 c3 sec by (simp split: option.split)
    have b1: "buf_ok C cs ?fp fs1" and p1: "pos_base cs ?fp fs1" and q1: "?q < n_sects fs1 cs" and k1: "clust ?fp = cs ! (?q div unat (csize fs1))"
      using same_data_buf[OF sd b] pb q by (simp_all add: pos_base_def cg)
    have n1: "btr \<le> objsize (f_obj ?fp) - fptr ?fp" using n(2) by simp
    have "one_round C cs btr ?fp fs1 (read_step K btr fp fs)"
    proof (cases "btr div SS > 0")
      case True
      have al: "unat (fptr ?fp) = 512 * ?q" using \<open>fptr fp mod SS = 0\<close> by (auto simp: aligned_nat)
      have rc: "unat ?cs = ?q mod unat (csize fs1)" "?q mod unat (csize fs1) < unat (csize fs1)"
        using csn csize_pos[OF gf(2)] by (simp_all add: cg(3))
      note cc = run_count[OF rc True]
      show ?thesis unfolding st if_P[OF True] one_round_def
        using read_run_data[OF g sv(2) b1 p1 cc(1,2) n1 al q1 k1 cc(3)] by blast
    next
      case False
      show ?thesis unfolding st if_not_P[OF False] one_round_def
        by (rule read_load_step[OF gd sv(2) b1 p1 n(1) n1 _ q1 k1]) simp
    qed
    then show ?thesis by (rule one_round_from[OF sd pb n(2)])
  qed
qed


section \<open>Reading\<close>

lemma fread_loop_data:
  assumes g: "good_blocks K C"
  shows "file_ok C cs fp fs \<Longrightarrow> btr \<le> objsize (f_obj fp) - fptr fp \<Longrightarrow>
    \<exists>fp' fs'. fread_loop K btr acc fp fs =
        Some (FR_OK, acc @ map (file_byte C cs fp fs) [unat (fptr fp)..<unat (fptr fp) + unat btr], fp', fs') \<and>
      file_ok C cs fp' fs' \<and> same_file C cs fp fs fp' fs' \<and> same_handle fp fp' \<and> fptr fp' = fptr fp + btr"
proof (induction "unat btr" arbitrary: btr acc fp fs rule: less_induct)
  case less
  have f: "file_ok C cs fp fs" and n: "btr \<le> objsize (f_obj fp) - fptr fp" by fact+
  have pb: "pos_base cs fp fs" using f by (simp add: file_ok_def pos_ok_def)
  show ?case
  proof (cases "btr = 0")
    case True
    then show ?thesis using f by (subst fread_loop.simps) simp
  next
    case False
    then have pos: "0 < btr" by (simp add: word_neq_0_conv)
    have sz: "unat btr \<le> unat (objsize (f_obj fp)) - unat (fptr fp)" "unat (fptr fp) \<le> unat (objsize (f_obj fp))"
      using n pb by (simp_all add: pos_base_def word_le_nat_alt unat_sub)
    have lt: "fptr fp < objsize (f_obj fp)" using sz pos by (simp add: word_less_nat_alt)
    obtain rcnt bs fp1 fs1 where st: "read_step K btr fp fs = Some (Inr (rcnt, bs), fp1, fs1)" and rc: "0 < rcnt" "rcnt \<le> btr"
      and bs: "bs = map (file_byte C cs fp fs) [unat (fptr fp)..<unat (fptr fp) + unat rcnt]" and ad: "advanced C cs fp fs rcnt fp1 fs1"
      using read_step_round[OF g f lt pos n] unfolding one_round_def by blast
    let ?fp = "fp1\<lparr>fptr := fptr fp1 + rcnt\<rparr>"
    have a: "file_ok C cs ?fp fs1" "same_file C cs fp fs ?fp fs1" "f_obj ?fp = f_obj fp" "same_handle fp ?fp" "fptr ?fp = fptr fp + rcnt"
      using ad by (simp_all add: advanced_def) (simp add: same_handle_def)
    have u: "unat (btr - rcnt) = unat btr - unat rcnt" using rc(2) by (simp add: unat_sub)
    have uf: "unat (fptr fp + rcnt) = unat (fptr fp) + unat rcnt"
      using sz rc(2) unsigned_less[of "objsize (f_obj fp)", where 'a = nat] by (intro unat_add_lem[THEN iffD1]) (simp add: word_le_nat_alt)
    have le: "fptr fp + rcnt \<le> objsize (f_obj fp)" using uf sz rc(2) by (simp add: word_le_nat_alt)
    have l: "unat (btr - rcnt) < unat btr" using u rc by (simp add: word_less_nat_alt word_le_nat_alt)
    have n1: "btr - rcnt \<le> objsize (f_obj ?fp) - fptr ?fp"
      unfolding a using u uf sz le by (simp add: word_le_nat_alt unat_sub)
    obtain fp' fs' where ih: "fread_loop K (btr - rcnt) (acc @ bs) ?fp fs1 =
        Some (FR_OK, (acc @ bs) @ map (file_byte C cs ?fp fs1) [unat (fptr ?fp)..<unat (fptr ?fp) + unat (btr - rcnt)], fp', fs')"
      "file_ok C cs fp' fs'" "same_file C cs ?fp fs1 fp' fs'" "same_handle ?fp fp'" "fptr fp' = fptr ?fp + (btr - rcnt)"
      using less.hyps[OF l a(1) n1] by blast
    have e: "unat (fptr ?fp) + unat (btr - rcnt) = unat (fptr fp) + unat btr" unfolding a uf u using rc(2) by (simp add: word_le_nat_alt)
    have sp: "[unat (fptr fp)..<unat (fptr fp) + unat btr] =
        [unat (fptr fp)..<unat (fptr fp) + unat rcnt] @ [unat (fptr ?fp)..<unat (fptr fp) + unat btr]"
      unfolding a(5) uf using upt_add_eq_append[of "unat (fptr fp)" "unat (fptr fp) + unat rcnt" "unat btr - unat rcnt"] rc(2)
      by (simp add: word_le_nat_alt)
    have tail: "map (file_byte C cs ?fp fs1) [unat (fptr ?fp)..<unat (fptr fp) + unat btr] = map (file_byte C cs fp fs) [unat (fptr ?fp)..<unat (fptr fp) + unat btr]"
      by (rule same_file_bytes[OF a(2) pos_fits[OF pb n]])
    have res: "fread_loop K btr acc fp fs = Some (FR_OK, acc @ map (file_byte C cs fp fs) [unat (fptr fp)..<unat (fptr fp) + unat btr], fp', fs')"
      unfolding sp map_append tail[symmetric] bs[symmetric] using ih(1)[unfolded e] False st by (subst fread_loop.simps) simp
    show ?thesis using res ih(2,5) a(5) same_file_trans[OF a(2) ih(3)] same_handle_trans[OF a(4) ih(4)] by (intro exI conjI) simp_all
  qed
qed


lemma f_read_spec:
  assumes "good_blocks K C" "file_ok C cs fp (vol v)" "validate (f_obj fp) v = FR_OK" "ferr fp = FR_OK" "flag fp AND FA_READ \<noteq> 0"
    and n_def: "n = min btr (objsize (f_obj fp) - fptr fp)"
  shows "\<exists>fp' fs'. f_read K fp btr v =
      Some (FR_OK, map (file_byte C cs fp (vol v)) [unat (fptr fp)..<unat (fptr fp) + unat n], fp', v\<lparr>vol := fs'\<rparr>) \<and>
    fptr fp' = fptr fp + n \<and> same_handle fp fp' \<and> file_ok C cs fp' fs' \<and>
    (\<forall>j < unat (objsize (f_obj fp)). file_byte C cs fp' fs' j = file_byte C cs fp (vol v) j)"
proof -
  have m: "n = (if btr > objsize (f_obj fp) - fptr fp then objsize (f_obj fp) - fptr fp else btr)" by (auto simp: n_def min_def)
  have le: "n \<le> objsize (f_obj fp) - fptr fp" by (simp add: n_def)
  obtain fp' fs' where l: "fread_loop K n [] fp (vol v) =
      Some (FR_OK, [] @ map (file_byte C cs fp (vol v)) [unat (fptr fp)..<unat (fptr fp) + unat n], fp', fs')"
    "file_ok C cs fp' fs'" "same_file C cs fp (vol v) fp' fs'" "same_handle fp fp'" "fptr fp' = fptr fp + n"
    using fread_loop_data[OF assms(1,2) le] by blast
  have "unat (objsize (f_obj fp)) \<le> 512 * n_sects (vol v) cs" using assms(2) by (simp add: file_ok_def pos_ok_def pos_base_def)
  then have same: "map (file_byte C cs fp' fs') [0..<unat (objsize (f_obj fp))] = map (file_byte C cs fp (vol v)) [0..<unat (objsize (f_obj fp))]"
    by (rule same_file_bytes[OF l(3)])
  have "f_read K fp btr v = Some (FR_OK, map (file_byte C cs fp (vol v)) [unat (fptr fp)..<unat (fptr fp) + unat n], fp', v\<lparr>vol := fs'\<rparr>)"
    unfolding f_read_def Let_def m[symmetric] using assms(3-5) l(1) by simp
  then show ?thesis using l(2,4,5) same by auto
qed


text \<open>
  C35: A read of an open file on a working disk succeeds and returns exactly the bytes of the file from the
  position on, as many as requested and left in the file, whether they are on the disk or still in the sector buffer of the
  file.  The position advances by that number, the contents of the file stay what they were and the file object stays
  consistent.  The hypotheses are the state after a successful open: the object is valid and opened for reading, and \<open>cs\<close> is
  its cluster chain.
\<close>

theorem f_read_contents:
  assumes "good_blocks K C" "file_ok C cs fp (vol v)" "validate (f_obj fp) v = FR_OK" "ferr fp = FR_OK" "flag fp AND FA_READ \<noteq> 0"
    and n_def: "n = min btr (objsize (f_obj fp) - fptr fp)"
  shows "\<exists>fp' fs'. f_read K fp btr v =
      Some (FR_OK, map (file_byte C cs fp (vol v)) [unat (fptr fp)..<unat (fptr fp) + unat n], fp', v\<lparr>vol := fs'\<rparr>) \<and>
    fptr fp' = fptr fp + n \<and> same_handle fp fp' \<and> file_ok C cs fp' fs' \<and>
    (\<forall>j < unat (objsize (f_obj fp)). file_byte C cs fp' fs' j = file_byte C cs fp (vol v) j)"
  by (rule f_read_spec[OF assms])

text \<open>A volume with a file of 520 bytes in the clusters 2 and 3, of which the first sector is on the disk and starts with 7 and 9.\<close>

definition ram_blocks :: "(u32 \<Rightarrow> u8 list) disk_ops" where
  "ram_blocks = ram_disk\<lparr>dk_read := \<lambda>p s n d. Some (RES_OK, concat (map (\<lambda>i. ram_sector d (s + of_nat i)) [0..<unat n]), d),
     dk_write := \<lambda>p w s n d. Some (RES_OK, \<lambda>t. if t - s < n then take 512 (drop (512 * unat (t - s)) w) else d t)\<rparr>"

definition demo_vol :: "(u32 \<Rightarrow> u8 list) fatvol" where
  "demo_vol = \<lparr>vol = (ram_volume [])\<lparr>disk := (\<lambda>s. if s = 1 then [0xF8, 0xFF, 0xFF, 0x03, 0xF0, 0xFF] else if s = 3 then [7, 9] else [])\<rparr>,
     FatFs = True, Fsid = 0\<rparr>"

definition demo_file :: FIL where
  "demo_file = \<lparr>f_obj = \<lparr>ob_fs = True, ob_id = 0, ob_attr = 0, ob_stat = 0, sclust = 2, objsize = 520\<rparr>, flag = FA_READ, ferr = FR_OK,
     fptr = 0, clust = 0, sect = 0, dir_sect = 0, dir_ptr = 0, fbuf = replicate 512 0\<rparr>"

lemma ram_blocks_good: "good_blocks ram_blocks ram_sector"
proof -
  have id: "ram_sector d t = d t" if "length (d t) = 512" for d t
    using that by (intro nth_equalityI) (simp_all add: ram_nth)
  have w: "ram_sector (\<lambda>t. if t - s < n then take 512 (drop (512 * unat (t - s)) w) else d t) =
      (\<lambda>t. if t - s < n then take 512 (drop (512 * unat (t - s)) w) else ram_sector d t)"
    if "length w = 512 * unat n" for w s n d
  proof (rule ext)
    fix t
    show "ram_sector (\<lambda>t. if t - s < n then take 512 (drop (512 * unat (t - s)) w) else d t) t =
      (if t - s < n then take 512 (drop (512 * unat (t - s)) w) else ram_sector d t)"
    proof (cases "t - s < n")
      case True
      then have "unat (t - s) + 1 \<le> unat n" by (simp add: word_less_nat_alt)
      then have "512 * (unat (t - s) + 1) \<le> length w" using that by (metis mult_le_mono2)
      then show ?thesis using True by (simp add: id)
    qed (simp add: ram_sector_def)
  qed
  have one: "(\<lambda>t. if t - s < 1 then take 512 (drop (512 * unat (t - s)) w) else f t) = f(s := w)" if "length w = 512"
    for s :: u32 and w :: "u8 list" and f using that by (auto simp: fun_eq_iff)
  have "\<exists>d'. dk_write ram_blocks p w s 1 d = Some (RES_OK, d') \<and> ram_sector d' = (ram_sector d)(s := w)" if "length w = 512" for p w s d
    using w[of w 1 s d] one[OF that] that by (simp add: ram_blocks_def ram_disk_def)
  then have "good_disk ram_blocks ram_sector" by (simp add: good_disk_def ram_blocks_def ram_disk_def)
  then show ?thesis using w by (simp add: good_blocks_def) (simp add: ram_blocks_def ram_disk_def)
qed

lemma demo_vals: "fat_val ram_sector (vol demo_vol) 2 = 3" "fat_val ram_sector (vol demo_vol) 3 = 0xFFF"
  by (simp_all add: fat_val_def fat_byte_def view_def demo_vol_def ram_volume_def ram_nth entry_def FS_FAT12_def le16_def)

lemma demo_sects: "n_sects (vol demo_vol) [2, 3] = 2" "file_sect (vol demo_vol) [2, 3] 0 = 3" "file_sect (vol demo_vol) [2, 3] (Suc 0) = 4"
  by (simp_all add: n_sects_def file_sect_def clst2sect_def demo_vol_def ram_volume_def Let_def word_le_nat_alt)

lemma demo_file_vol: "file_vol ram_sector [2, 3] (vol demo_vol)"
proof -
  have "vol_ok ram_sector (vol demo_vol)" "geo_ok (vol demo_vol)"
    by (simp_all add: demo_vol_def vol_ok_def ram_volume_def ram_sector_def fat_fits_def map_replicate_const geo_ok_def fat_area_def exI[of _ 0])
  moreover have "chain (fat_val ram_sector (vol demo_vol)) (n_fatent (vol demo_vol)) [2, 3]"
    using demo_vals by (simp add: demo_vol_def)
  moreover have "winsect (vol demo_vol) = 0" by (simp add: demo_vol_def ram_volume_def)
  ultimately show ?thesis using demo_sects by (auto simp: file_vol_def less_2_cases_iff)
qed

lemma demo_file_ok: "file_ok ram_sector [2, 3] demo_file (vol demo_vol)"
  using demo_file_vol demo_sects
  by (auto simp: file_ok_def buf_ok_def pos_ok_def pos_base_def demo_file_def less_2_cases_iff SS_def)

theorem f_read_contents_witness:
  "\<exists>fp' v'. f_read ram_blocks demo_file 3 demo_vol = Some (FR_OK, [7, 9, 0], fp', v') \<and> fptr fp' = 3"
proof -
  have "validate (f_obj demo_file) demo_vol = FR_OK" "ferr demo_file = FR_OK" "flag demo_file AND FA_READ \<noteq> 0"
    by (simp_all add: validate_def demo_file_def demo_vol_def ram_volume_def FS_FAT12_def disk_status_def)
  note r = f_read_contents[OF ram_blocks_good demo_file_ok this refl, of 3]
  have "[0..<3] = [0, 1, 2 :: nat]" by (simp add: upt_rec)
  then have "map (file_byte ram_sector [2, 3] demo_file (vol demo_vol)) [0..<3] = [7, 9, 0]"
    using demo_sects by (simp add: file_byte_def file_data_def demo_file_def) (simp add: demo_vol_def ram_nth)
  then show ?thesis using r by (auto simp: demo_file_def)
qed

end
