(* ===== verification/Fat_Write.thy ===== *)
theory Fat_Write
  imports Fat_Read "HOL-Library.Sublist"
begin

text \<open>
  Writing a file.  A write changes the bytes of the contents from the position on and no other byte of the file, stretches
  the cluster chain where it has to, and leaves every sector alone that is neither of the tables nor of the file.
\<close>

section \<open>Stretching the chain of a file\<close>

lemma file_sect_geo:
  assumes "same_geo fs fs'"
  shows "file_sect fs' = file_sect fs" "n_sects fs' = n_sects fs" "second_fat fs' = second_fat fs" "in_fat fs' = in_fat fs"
  using same_geoD[OF assms] by (auto simp: fun_eq_iff file_sect_def n_sects_def clst2sect_def second_fat_def in_fat_def Let_def)

lemma file_sect_append: "i < n_sects fs cs \<Longrightarrow> file_sect fs (cs @ ext) i = file_sect fs cs i"
  using sect_index[of i fs cs] by (simp add: file_sect_def nth_append)

lemma n_sects_append: "n_sects fs (cs @ ext) = n_sects fs cs + n_sects fs ext"
  by (simp add: n_sects_def add_mult_distrib)

lemma chain_last: "chain V n cs \<Longrightarrow> n \<le> V (unat (last cs))"
  by (induction V n cs rule: chain.induct) auto

lemma chain_snoc:
  "chain V n cs \<Longrightarrow> (\<And>d. d \<in> set cs \<Longrightarrow> d \<noteq> last cs \<Longrightarrow> W (unat d) = V (unat d)) \<Longrightarrow> W (unat (last cs)) = c \<Longrightarrow> chain W n [c] \<Longrightarrow>
   chain W n (cs @ [c])"
proof (induction V n cs rule: chain.induct)
  case (3 V n a b cs)
  have "a \<noteq> last (b # cs)"
    using chain_distinct[OF "3.prems"(1)] last_in_set[of "b # cs"] by (auto simp del: last.simps)
  then show ?case using 3 by auto
qed auto

lemma chain_taken: "chain V n cs \<Longrightarrow> d \<in> set cs \<Longrightarrow> V (unat d) \<noteq> 0"
proof -
  assume c: "chain V n cs" and "d \<in> set cs"
  then obtain xs ys where "cs = xs @ d # ys" by (auto dest: split_list)
  then have "2 \<le> V (unat d)" using chain_next chain_suffix c by blast
  then show ?thesis by auto
qed

lemma and_low: "unat c < 2 ^ k \<Longrightarrow> c AND mask k = c" for c :: u32
  by (simp add: word_unat_eq_iff unsigned_take_bit_eq take_bit_nat_eq_self flip: take_bit_eq_mask)

lemma mask_bound:
  assumes "fat_fits fs"
  shows "n_fatent fs \<le> fat_mask fs" "cluster fs c \<Longrightarrow> c AND fat_mask fs = c"
proof -
  have e: "0xFFF = (mask 12 :: u32)" "0xFFFF = (mask 16 :: u32)" "0x0FFFFFFF = (mask 28 :: u32)" by (simp_all add: mask_eq_decr_exp)
  show "n_fatent fs \<le> fat_mask fs" using assms by (auto simp: fat_fits_def fat_mask_def word_le_nat_alt)
  assume "cluster fs c"
  then show "c AND fat_mask fs = c" using assms and_low[of c 12] and_low[of c 16] and_low[of c 28]
    by (auto simp: fat_fits_def fat_mask_def cluster_nat e)
qed

definition frame :: "('d \<Rightarrow> u32 \<Rightarrow> u8 list) \<Rightarrow> u32 set \<Rightarrow> 'd fatfs \<Rightarrow> 'd fatfs \<Rightarrow> bool" where
  "frame C S fs fs' \<longleftrightarrow> (\<forall>t. \<not> second_fat fs t \<longrightarrow> \<not> in_fat fs t \<longrightarrow> t \<notin> S \<longrightarrow> view C fs' t = view C fs t)"

lemma keeps_frame: "keeps_data C fs fs' \<Longrightarrow> frame C S fs fs'"
  by (simp add: frame_def keeps_data_def)

lemma frame_refl [simp]: "frame C S fs fs"
  by (simp add: frame_def)

lemma frame_trans: "frame C S a b \<Longrightarrow> frame C T b c \<Longrightarrow> same_geo a b \<Longrightarrow> S \<subseteq> T \<Longrightarrow> frame C T a c"
  by (auto simp: frame_def file_sect_geo)

definition file_sects :: "'d fatfs \<Rightarrow> u32 list \<Rightarrow> u32 set" where
  "file_sects fs cs = file_sect fs cs ` {..<n_sects fs cs}"

lemma file_sects_mono: "prefix cs cs' \<Longrightarrow> file_sects fs cs \<subseteq> file_sects fs cs'"
proof (elim prefixE)
  fix ext assume e: "cs' = cs @ ext"
  have "file_sect fs cs i \<in> file_sects fs cs'" if "i < n_sects fs cs" for i
    unfolding file_sects_def e using that by (intro image_eqI[of _ _ i]) (simp_all add: file_sect_append n_sects_append)
  then show ?thesis by (auto simp: file_sects_def)
qed

text \<open>Taking a free cluster for the file and linking it behind the last one.\<close>

lemma linked_file:
  assumes v: "file_vol C cs fs" and l: "linked C clst ncl fs fs'" and n: "cluster fs ncl" "fat_val C fs (unat ncl) = 0"
    and c: "clst = (if cs = [] then 0 else last cs)"
  shows "file_vol C (cs @ [ncl]) fs'"
    and "i < n_sects fs cs \<Longrightarrow> C (disk fs') (file_sect fs cs i) = C (disk fs) (file_sect fs cs i)"
proof -
  have ok: "vol_ok C fs" and gf: "geo_ok fs" using v by (simp_all add: file_vol_def)
  have g: "same_geo fs fs'" and ok': "vol_ok C fs'" and k: "keeps_data C fs fs'" and w: "in_fat fs (winsect fs')"
    and val: "\<And>c. c < unat (n_fatent fs) \<Longrightarrow> fat_val C fs' c =
      (if clst \<noteq> 0 \<and> c = unat clst then ncl AND fat_mask fs else if c = unat ncl then fat_mask fs else fat_val C fs c)"
    using l by (simp_all add: linked_def)
  note ff = mask_bound[of fs] and nn = n(1)[unfolded cluster_nat]
  have fits: "fat_fits fs" using ok by (simp add: vol_ok_def)
  have ch: "chain (fat_val C fs') (n_fatent fs) (cs @ [ncl])"
  proof (cases "cs = []")
    case True
    then show ?thesis using n(1) nn val[of "unat ncl"] ff(1)[OF fits] c by (simp add: cluster_def)
  next
    case False
    then have h: "chain (fat_val C fs) (n_fatent fs) cs" using v by (simp add: file_vol_def)
    have in_n: "unat d < unat (n_fatent fs)" "2 \<le> d" if "d \<in> set cs" for d using chain_all[OF h that] by (simp_all add: word_less_nat_alt)
    have ne: "ncl \<noteq> d" if "d \<in> set cs" for d using chain_taken[OF h that] n(2) by auto
    have cl: "clst = last cs" "last cs \<in> set cs" using c False by simp_all
    have c0: "clst \<noteq> 0" using in_n(2)[OF cl(2)] cl(1) by auto
    have eq: "unat d = unat e \<longleftrightarrow> d = e" for d e :: u32 by (simp add: word_unat_eq_iff)
    show ?thesis
    proof (rule chain_snoc[OF h])
      show "fat_val C fs' (unat d) = fat_val C fs (unat d)" if "d \<in> set cs" "d \<noteq> last cs" for d
        using val[OF in_n(1)[OF that(1)]] ne[OF that(1)] that(2) cl(1) by (auto simp: eq)
      show "fat_val C fs' (unat (last cs)) = ncl"
        using val[OF in_n(1)[OF cl(2)]] c0 cl(1) ff(2)[OF fits n(1)] by simp
      show "chain (fat_val C fs') (n_fatent fs) [ncl]"
        using val[of "unat ncl"] ne[OF cl(2)] cl(1) nn n(1) ff(1)[OF fits] by (auto simp: cluster_def eq)
    qed
  qed
  have geo': "geo_ok fs'" using gf geo_cong[OF g] by simp
  note cg = file_sect_geo[OF g]
  have cln: "cluster fs d" if "d \<in> set (cs @ [ncl])" for d using chain_all[OF ch that] by (simp add: cluster_def)
  have db: "database fs \<le> file_sect fs (cs @ [ncl]) i" if "i < n_sects fs (cs @ [ncl])" for i
    using sect_nat(2)[OF gf cln that] .
  then have "file_sect fs (cs @ [ncl]) i \<noteq> winsect fs'" if "i < n_sects fs (cs @ [ncl])" for i
    using data_not_fat(2)[OF gf db[OF that]] w by auto
  then show v': "file_vol C (cs @ [ncl]) fs'"
    using ok' geo' ch cg same_geoD[OF g] by (simp add: file_vol_def)
  assume i: "i < n_sects fs cs"
  have "file_sect fs cs i \<noteq> winsect fs'" using file_sect_data(2)[OF v i] w by auto
  then show "C (disk fs') (file_sect fs cs i) = C (disk fs) (file_sect fs cs i)"
    using k file_sect_data[OF v i] by (auto simp: keeps_data_def view_def dest!: spec[of _ "file_sect fs cs i"])
qed


definition open_core :: "('d \<Rightarrow> u32 \<Rightarrow> u8 list) \<Rightarrow> u32 list \<Rightarrow> FIL \<Rightarrow> 'd fatfs \<Rightarrow> bool" where
  "open_core C cs fp fs \<longleftrightarrow> file_vol C cs fs \<and> buf_ok C cs fp fs \<and> pos_base cs fp fs \<and> fat_sane C fs"

lemma open_coreD:
  assumes "open_core C cs fp fs"
  shows "file_vol C cs fs" "buf_ok C cs fp fs" "pos_base cs fp fs" "fat_sane C fs" "vol_ok C fs" "geo_ok fs"
  using assms by (simp_all add: open_core_def file_vol_def)

text \<open>No cluster left, as the count kept with the volume or the table says.\<close>

definition volume_full :: "('d \<Rightarrow> u32 \<Rightarrow> u8 list) \<Rightarrow> 'd fatfs \<Rightarrow> bool" where
  "volume_full C fs \<longleftrightarrow> free_clst fs = 0 \<or> (\<forall>c \<in> {2 ..< unat (n_fatent fs)}. fat_val C fs c \<noteq> 0)"

text \<open>A step that may stretch the chain of the file but keeps its contents.\<close>

definition grown :: "('d \<Rightarrow> u32 \<Rightarrow> u8 list) \<Rightarrow> u32 list \<Rightarrow> FIL \<Rightarrow> 'd fatfs \<Rightarrow> u32 list \<Rightarrow> FIL \<Rightarrow> 'd fatfs \<Rightarrow> bool" where
  "grown C cs fp fs cs' fp' fs' \<longleftrightarrow> same_geo fs fs' \<and> prefix cs cs' \<and> open_core C cs' fp' fs' \<and>
     (\<forall>i < n_sects fs cs. file_data C cs' fp' fs' i = file_data C cs fp fs i) \<and> frame C (file_sects fs cs') fs fs' \<and>
     fp' = fp\<lparr>clust := clust fp', f_obj := (f_obj fp)\<lparr>sclust := sclust (f_obj fp')\<rparr>\<rparr>"

lemma same_geo_refl [simp]: "same_geo fs fs"
  by (simp add: same_geo_def same_vol_iff)

lemma grown_same: "open_core C cs fp fs \<Longrightarrow> grown C cs fp fs cs (fp\<lparr>clust := c\<rparr>) fs"
  by (simp add: grown_def open_core_def pos_base_def)

lemma buf_grow:
  assumes "buf_ok C cs fp fs" "same_geo fs fs'" "\<And>i. i < n_sects fs cs \<Longrightarrow> C (disk fs') (file_sect fs cs i) = C (disk fs) (file_sect fs cs i)"
  shows "buf_ok C (cs @ ext) fp fs'" "i < n_sects fs cs \<Longrightarrow> file_data C (cs @ ext) fp fs' i = file_data C cs fp fs i"
proof -
  note cg = file_sect_geo[OF assms(2)]
  show "file_data C (cs @ ext) fp fs' i = file_data C cs fp fs i" if "i < n_sects fs cs"
    using that assms(3) by (simp add: file_data_def cg file_sect_append)
  show "buf_ok C (cs @ ext) fp fs'"
  proof (cases "sect fp = 0")
    case False
    then obtain i where "i < n_sects fs cs" "sect fp = file_sect fs cs i" "flag fp AND FA_DIRTY = 0 \<longrightarrow> fbuf fp = C (disk fs) (sect fp)"
      using assms(1) by (auto simp: buf_ok_def)
    then show ?thesis using assms(1,3) False unfolding buf_ok_def cg
      by (auto simp: file_sect_append n_sects_append intro!: exI[of _ i])
  qed (use assms(1) in \<open>simp add: buf_ok_def\<close>)
qed

lemma same_fat_grown:
  assumes c: "open_core C cs fp fs" and f: "same_fat C fs fs'"
  shows "grown C cs fp fs cs (fp\<lparr>clust := x\<rparr>) fs'"
proof -
  note cd = open_coreD[OF c]
  note sd = same_fat_data[OF cd(1) f] and fd = same_fatD[OF f cd(5)]
  have "fat_sane C fs'" using sane_cong[OF f cd(5)] cd(4) by simp
  moreover have "pos_base cs fp fs'" using cd(3) file_sect_cong(2)[OF fd(1)] by (simp add: pos_base_def)
  ultimately show ?thesis
    using same_data_vol[OF sd] same_data_buf[OF sd cd(2)] same_data_file[OF sd, of fp] fd(3) keeps_frame[OF fd(5)]
    by (simp add: grown_def open_core_def same_file_def pos_base_def)
qed

lemma linked_sane:
  assumes "linked C clst ncl fs fs'" "fat_sane C fs" "vol_ok C fs" "cluster fs ncl"
  shows "fat_sane C fs'"
proof -
  have f: "fat_fits fs" using assms(3) by (simp add: vol_ok_def)
  have n: "ncl AND fat_mask fs \<noteq> 1" "fat_mask fs \<noteq> 1"
    using mask_bound(2)[OF f assms(4)] assms(4) by (auto simp: cluster_nat fat_mask_def)
  show ?thesis using assms(1,2) n same_geoD(2)[of fs fs'] by (auto simp: fat_sane_def linked_def)
qed

lemma linked_grown:
  assumes c: "open_core C cs fp fs" and l: "linked C clst ncl fs fs'" and n: "cluster fs ncl" "fat_val C fs (unat ncl) = 0"
    and cl: "clst = (if cs = [] then 0 else last cs)"
    and o: "f = (f_obj fp)\<lparr>sclust := (if cs = [] then ncl else hd cs)\<rparr>"
  shows "grown C cs fp fs (cs @ [ncl]) (fp\<lparr>clust := ncl, f_obj := f\<rparr>) fs'"
proof -
  let ?fp = "fp\<lparr>clust := ncl, f_obj := f\<rparr>"
  note cd = open_coreD[OF c]
  note lf = linked_file[OF cd(1) l n cl]
  have g: "same_geo fs fs'" and k: "keeps_data C fs fs'" using l by (simp_all add: linked_def)
  note cg = file_sect_geo[OF g]
  have b0: "buf_ok C cs ?fp fs" "\<And>i. file_data C cs ?fp fs i = file_data C cs fp fs i"
    using cd(2) by (simp_all add: buf_ok_def file_data_def)
  note bg = buf_grow[OF b0(1) g lf(2)]
  have "pos_base (cs @ [ncl]) ?fp fs'" using cd(3) by (auto simp: pos_base_def cg n_sects_append o)
  then have "open_core C (cs @ [ncl]) ?fp fs'"
    using lf(1) bg(1) linked_sane[OF l cd(4,5) n(1)] by (simp add: open_core_def)
  then show ?thesis using g bg(2) b0(2) keeps_frame[OF k] by (simp add: grown_def o)
qed

lemma grow_file:
  assumes g: "good_disk K C" and c: "open_core C cs fp fs" and cl: "clst = (if cs = [] then 0 else last cs)"
  shows "\<exists>ncl fs'. create_chain K clst fs = Some (ncl, fs') \<and>
    (ncl = 0 \<and> grown C cs fp fs cs fp fs' \<and> volume_full C fs' \<or>
     cluster fs ncl \<and> fat_val C fs (unat ncl) = 0 \<and> linked C clst ncl fs fs')"
proof -
  note cd = open_coreD[OF c]
  have e: "clst = 0 \<or> cluster fs clst \<and> fat_val C fs (unat clst) \<ge> n_fatent fs"
    using cl file_volD(3,4)[OF cd(1)] chain_last by auto
  have "fp\<lparr>clust := clust fp\<rparr> = fp" by simp
  note same = same_fat_grown[OF c, where x = "clust fp", unfolded this]
  show ?thesis
  proof (cases "free_clst fs = 0")
    case True
    obtain fs' where f: "create_chain K clst fs = Some (0, fs')" "same_fat C fs fs'"
      using create_chain_full[OF g cd(5) True e] by blast
    then show ?thesis using same True same_volD(10)[OF same_fatD(1)[OF f(2) cd(5)]] by (simp add: volume_full_def)
  next
    case False
    obtain ncl fs' where f: "create_chain K clst fs = Some (ncl, fs')" "if \<exists>c \<in> {2 ..< unat (n_fatent fs)}. fat_val C fs c = 0
      then cluster fs ncl \<and> fat_val C fs (unat ncl) = 0 \<and> linked C clst ncl fs fs' else ncl = 0 \<and> same_fat C fs fs'"
      using create_chain_spec[OF g cd(5) cd(4) False e] by blast
    show ?thesis
    proof (cases "\<exists>c \<in> {2 ..< unat (n_fatent fs)}. fat_val C fs c = 0")
      case True
      then show ?thesis using f by simp
    next
      case none: False
      then have s: "ncl = 0" "same_fat C fs fs'" using f(2) by simp_all
      then have "volume_full C fs'" using none same_fatD(1,4)[OF s(2) cd(5)] by (auto simp: volume_full_def same_volD)
      then show ?thesis using f(1) s same by simp
    qed
  qed
qed


text \<open>The cluster of a write at a cluster boundary.\<close>

lemma write_clust_ok:
  assumes "(if fptr fp = 0 then (if sclust (f_obj fp) = 0 then create_chain K 0 fs else Some (sclust (f_obj fp), fs))
      else create_chain K (clust fp) fs) = Some (clst, fs')" "cluster fs clst"
  shows "write_clust K fp fs = Some (Inr (), fp\<lparr>clust := clst, f_obj := (f_obj fp)\<lparr>sclust := (if sclust (f_obj fp) = 0 then clst else sclust (f_obj fp))\<rparr>\<rparr>, fs')"
proof -
  have "clst \<noteq> 0" "clst \<noteq> 1" "clst \<noteq> 0xFFFFFFFF"
    using assms(2) unsigned_less[of "n_fatent fs", where 'a = nat] by (auto simp: cluster_nat)
  then show ?thesis unfolding write_clust_def assms(1) by (simp add: set_fsclust_def Let_def)
qed

lemma write_clust_full:
  assumes "(if fptr fp = 0 then (if sclust (f_obj fp) = 0 then create_chain K 0 fs else Some (sclust (f_obj fp), fs))
      else create_chain K (clust fp) fs) = Some (0, fs')"
  shows "write_clust K fp fs = Some (Inl None, fp, fs')"
  unfolding write_clust_def assms by simp

definition placed :: "('d \<Rightarrow> u32 \<Rightarrow> u8 list) \<Rightarrow> u32 list \<Rightarrow> FIL \<Rightarrow> 'd fatfs \<Rightarrow> ((FRESULT option + unit) \<times> FIL \<times> 'd fatfs) option \<Rightarrow> bool" where
  "placed C cs fp fs x \<longleftrightarrow> (\<exists>r fp1 fs1. x = Some (r, fp1, fs1) \<and>
     (r = Inl None \<and> fp1 = fp \<and> grown C cs fp fs cs fp fs1 \<and> volume_full C fs1 \<or>
      r = Inr () \<and> (\<exists>cs'. grown C cs fp fs cs' fp1 fs1 \<and> unat (fptr fp) div 512 < n_sects fs cs' \<and>
        clust fp1 = cs' ! (unat (fptr fp) div 512 div unat (csize fs)))))"

lemma placed_new:
  assumes g: "good_disk K C" and c: "open_core C cs fp fs" and cl: "clst = (if cs = [] then 0 else last cs)"
    and e: "(if fptr fp = 0 then (if sclust (f_obj fp) = 0 then create_chain K 0 fs else Some (sclust (f_obj fp), fs))
      else create_chain K (clust fp) fs) = create_chain K clst fs"
    and q: "unat (fptr fp) div 512 = n_sects fs cs"
  shows "placed C cs fp fs (write_clust K fp fs)"
proof -
  obtain ncl fs' where f: "create_chain K clst fs = Some (ncl, fs')"
    "ncl = 0 \<and> grown C cs fp fs cs fp fs' \<and> volume_full C fs' \<or> cluster fs ncl \<and> fat_val C fs (unat ncl) = 0 \<and> linked C clst ncl fs fs'"
    using grow_file[OF g c cl] by blast
  note cd = open_coreD[OF c]
  have z: "0 < unat (csize fs)" by (rule csize_pos[OF cd(6)])
  from f(2) show ?thesis
  proof (elim disjE conjE)
    assume "ncl = 0" "grown C cs fp fs cs fp fs'" "volume_full C fs'"
    then show ?thesis using write_clust_full[of fp K fs fs'] e f(1) by (simp add: placed_def)
  next
    assume n: "cluster fs ncl" "fat_val C fs (unat ncl) = 0" and l: "linked C clst ncl fs fs'"
    have h: "hd cs \<noteq> 0" if "cs \<noteq> []" using file_volD(3)[OF cd(1), of "hd cs"] that by (auto simp: cluster_nat)
    have "(if sclust (f_obj fp) = 0 then ncl else sclust (f_obj fp)) = (if cs = [] then ncl else hd cs)"
      using cd(3) h by (auto simp: pos_base_def)
    then have w: "write_clust K fp fs = Some (Inr (), fp\<lparr>clust := ncl, f_obj := (f_obj fp)\<lparr>sclust := (if cs = [] then ncl else hd cs)\<rparr>\<rparr>, fs')"
      using write_clust_ok[of fp K fs ncl fs', OF _ n(1)] e f(1) by simp
    have "n_sects fs cs < n_sects fs (cs @ [ncl])" "n_sects fs cs div unat (csize fs) = length cs"
      using z by (simp_all add: n_sects_def)
    then show ?thesis using w linked_grown[OF c l n cl refl] q
      by (auto simp: placed_def nth_append intro!: exI[of _ "cs @ [ncl]"])
  qed
qed

lemma create_chain_next:
  assumes g: "good_disk K C" and c: "open_core C cs fp fs" and m: "Suc m < length cs"
  shows "\<exists>fs'. create_chain K (cs ! m) fs = Some (cs ! Suc m, fs') \<and> same_fat C fs fs'"
proof -
  note cd = open_coreD[OF c]
  have cl: "cluster fs (cs ! m)" "cluster fs (cs ! Suc m)" using m file_volD(3)[OF cd(1)] by simp_all
  have "cs \<noteq> []" using m by auto
  then have v: "fat_val C fs (unat (cs ! m)) = cs ! Suc m" by (rule chain_step[OF file_volD(4)[OF cd(1)] m])
  obtain fs' where f: "get_fat K (cs ! m) fs = Some (cs ! Suc m, fs')" "same_fat C fs fs'" using get_fat_val[OF g cd(5) cl(1)] v by auto
  have n: "cs ! m \<noteq> 0" "\<not> cs ! Suc m < 2" "cs ! Suc m \<noteq> 0xFFFFFFFF" "cs ! Suc m < n_fatent fs'"
    using cl fat_val_not_max[of C fs "unat (cs ! m)"] v same_volD(11)[OF same_fatD(1)[OF f(2) cd(5)]]
    by (auto simp: cluster_def not_less)
  have "create_chain K (cs ! m) fs = Some (cs ! Suc m, fs')"
    using f(1) n by (simp add: create_chain_def)
  then show ?thesis using f(2) by blast
qed

lemma write_cluster:
  assumes g: "good_disk K C" and c: "open_core C cs fp fs" and p: "pos_ok cs fp fs" and al: "fptr fp mod SS = 0"
    and z: "unat (fptr fp) div 512 mod unat (csize fs) = 0"
  shows "placed C cs fp fs (write_clust K fp fs)"
proof -
  let ?q = "unat (fptr fp) div 512" and ?z = "unat (csize fs)"
  note cd = open_coreD[OF c]
  have zp: "0 < ?z" by (rule csize_pos[OF cd(6)])
  have le: "unat (fptr fp) \<le> 512 * n_sects fs cs" using cd(3) by (auto simp: pos_base_def word_le_nat_alt)
  have qs: "?q = ?q div ?z * ?z" using z by auto
  show ?thesis
  proof (cases "fptr fp = 0")
    case True
    show ?thesis
    proof (cases "cs = []")
      case e: True
      show ?thesis by (rule placed_new[OF g c refl]) (use True e cd(3) in \<open>simp_all add: pos_base_def n_sects_def\<close>)
    next
      case False
      have s: "sclust (f_obj fp) = hd cs" using cd(3) False by (simp add: pos_base_def)
      have h: "cluster fs (hd cs)" using file_volD(3)[OF cd(1)] False by simp
      then have "hd cs \<noteq> 0" by (auto simp: cluster_nat)
      then have "write_clust K fp fs = Some (Inr (), fp\<lparr>clust := hd cs\<rparr>, fs)"
        using write_clust_ok[of fp K fs "hd cs" fs, OF _ h] True s by simp
      moreover have "0 < n_sects fs cs" using False zp by (simp add: n_sects_def)
      ultimately show ?thesis using grown_same[OF c, of "hd cs"] True False
        by (auto simp: placed_def hd_conv_nth intro!: exI[of _ cs])
    qed
  next
    case False
    then have pos: "0 < unat (fptr fp)" by (simp add: unat_gt_0)
    have "unat (fptr fp) mod 512 = 0" using al by (simp add: aligned_nat)
    then have q1: "Suc ((unat (fptr fp) - 1) div 512) = ?q" using pos by (intro div_pred0) simp_all
    have q2: "Suc ((?q - 1) div ?z) = ?q div ?z" using q1 zp z by (intro div_pred0) auto
    have "(unat (fptr fp) - 1) div 512 = ?q - 1" using q1 by simp
    then have cl: "clust fp = cs ! ((?q - 1) div ?z)" using p False by (simp add: pos_ok_def)
    have "?q \<le> length cs * ?z" using le by (simp add: n_sects_def)
    then have ml: "?q div ?z \<le> length cs" using qs zp by (metis mult_le_cancel2)
    show ?thesis
    proof (cases "?q div ?z < length cs")
      case True
      obtain fs' where f: "create_chain K (clust fp) fs = Some (cs ! (?q div ?z), fs')" "same_fat C fs fs'"
        using create_chain_next[OF g c, of "(?q - 1) div ?z"] True q2 cl by auto
      have h: "cluster fs (cs ! (?q div ?z))" using file_volD(3)[OF cd(1)] True by simp
      have "cs \<noteq> []" using True by auto
      then have s: "sclust (f_obj fp) \<noteq> 0" using cd(3) file_volD(3)[OF cd(1), of "hd cs"] by (auto simp: pos_base_def cluster_nat)
      have "write_clust K fp fs = Some (Inr (), fp\<lparr>clust := cs ! (?q div ?z)\<rparr>, fs')"
        using write_clust_ok[of fp K fs _ fs', OF _ h] False f(1) s by simp
      moreover have "?q < n_sects fs cs" using True qs zp by (metis mult_less_cancel2 n_sects_def)
      ultimately show ?thesis using same_fat_grown[OF c f(2)] by (auto simp: placed_def intro!: exI[of _ cs])
    next
      case False
      then have m: "?q div ?z = length cs" using ml by simp
      then have ne: "cs \<noteq> []" using q2 by auto
      have "(?q - 1) div ?z = length cs - 1" using q2 m by simp
      then have "clust fp = last cs" using cl ne by (simp add: last_conv_nth)
      moreover have "?q = n_sects fs cs" using m qs by (simp add: n_sects_def)
      ultimately show ?thesis using \<open>fptr fp \<noteq> 0\<close> ne by (intro placed_new[OF g c refl]) simp_all
    qed
  qed
qed


section \<open>Storing into the sectors of a file\<close>

text \<open>The contents after the bytes \<open>bs\<close> are stored at position \<open>p\<close> of a file of \<open>s\<close> bytes.\<close>

definition wrote :: "('d \<Rightarrow> u32 \<Rightarrow> u8 list) \<Rightarrow> nat \<Rightarrow> nat \<Rightarrow> u8 list \<Rightarrow> u32 list \<Rightarrow> FIL \<Rightarrow> 'd fatfs \<Rightarrow> u32 list \<Rightarrow> FIL \<Rightarrow> 'd fatfs \<Rightarrow> bool" where
  "wrote C p s bs cs fp fs cs' fp' fs' \<longleftrightarrow> same_geo fs fs' \<and> prefix cs cs' \<and> frame C (file_sects fs cs') fs fs' \<and>
     (\<forall>j < max s (p + length bs). file_byte C cs' fp' fs' j =
        (if p \<le> j \<and> j < p + length bs then bs ! (j - p) else file_byte C cs fp fs j))"

lemma wrote_trans:
  assumes "wrote C p s bs cs fp fs cs1 fp1 fs1" "wrote C (p + length bs) (max s (p + length bs)) bs' cs1 fp1 fs1 cs2 fp2 fs2" "p \<le> s"
  shows "wrote C p s (bs @ bs') cs fp fs cs2 fp2 fs2"
proof -
  have g: "same_geo fs fs1" "same_geo fs1 fs2" "prefix cs cs1" "prefix cs1 cs2" using assms(1,2) by (simp_all add: wrote_def)
  have "frame C (file_sects fs cs2) fs fs2"
  proof (rule frame_trans[OF _ _ g(1) file_sects_mono[OF g(4)]])
    show "frame C (file_sects fs cs1) fs fs1" using assms(1) by (simp add: wrote_def)
    show "frame C (file_sects fs cs2) fs1 fs2" using assms(2) by (simp add: wrote_def file_sects_def file_sect_geo[OF g(1)])
  qed
  moreover have "file_byte C cs2 fp2 fs2 j = (if p \<le> j \<and> j < p + length (bs @ bs') then (bs @ bs') ! (j - p) else file_byte C cs fp fs j)"
    if j: "j < max s (p + length (bs @ bs'))" for j
  proof (cases "p + length bs \<le> j \<and> j < p + length bs + length bs'")
    case True
    then have "file_byte C cs2 fp2 fs2 j = bs' ! (j - (p + length bs))" using assms(2) by (auto simp: wrote_def)
    then show ?thesis using True by (auto simp: nth_append)
  next
    case False
    then have "file_byte C cs2 fp2 fs2 j = file_byte C cs1 fp1 fs1 j" using assms(2) j by (auto simp: wrote_def)
    then show ?thesis using False assms(1) j by (auto simp: wrote_def nth_append)
  qed
  ultimately show ?thesis using same_geo_trans[OF g(1,2)] g(3,4) by (simp add: wrote_def)
qed

lemma wrote_after:
  "wrote C p s [] cs fp fs cs1 fp1 fs1 \<Longrightarrow> wrote C p s bs cs1 fp1 fs1 cs2 fp2 fs2 \<Longrightarrow> p \<le> s \<Longrightarrow> wrote C p s bs cs fp fs cs2 fp2 fs2"
  using wrote_trans[of C p s "[]" cs fp fs cs1 fp1 fs1 bs] by (simp add: max_def)

lemma data_wrote:
  assumes "same_geo fs fs'" "prefix cs cs'" "frame C (file_sects fs cs') fs fs'" "s \<le> 512 * n_sects fs cs" "p \<le> s"
    "\<And>i. i < n_sects fs cs \<Longrightarrow> file_data C cs' fp' fs' i = file_data C cs fp fs i"
  shows "wrote C p s [] cs fp fs cs' fp' fs'"
proof -
  have "file_byte C cs' fp' fs' j = file_byte C cs fp fs j" if "j < s" for j
  proof -
    have "j < n_sects fs cs * 512" using that assms(4) by simp
    then show ?thesis using assms(6) less_mult_imp_div_less by (simp add: file_byte_def)
  qed
  then show ?thesis using assms(1-3,5) by (auto simp: wrote_def max_def)
qed

lemma grown_wrote:
  assumes "grown C cs fp fs cs' fp' fs'" "s \<le> 512 * n_sects fs cs" "p \<le> s"
  shows "wrote C p s [] cs fp fs cs' fp' fs'"
  using assms by (intro data_wrote) (simp_all add: grown_def)

text \<open>A change of the disk within the sectors of the file.\<close>

lemma disk_file:
  assumes v: "file_vol C cs fs" and d: "\<And>t. t \<notin> file_sects fs cs \<Longrightarrow> C d t = C (disk fs) t"
  shows "file_vol C cs (fs\<lparr>disk := d\<rparr>)" "fat_sane C (fs\<lparr>disk := d\<rparr>) = fat_sane C fs" "frame C (file_sects fs cs) fs (fs\<lparr>disk := d\<rparr>)"
proof -
  have ok: "vol_ok C fs" by (rule file_volD(1)[OF v])
  have nf: "t \<notin> file_sects fs cs" if "in_fat fs t" for t using file_sect_data(2)[OF v] that by (auto simp: file_sects_def)
  have val: "fat_val C (fs\<lparr>disk := d\<rparr>) c = fat_val C fs c" if "c < unat (n_fatent fs)" for c
    using d nf by (intro fat_val_disk[OF ok _ that]) auto
  have w: "winsect fs \<notin> file_sects fs cs" using file_sect_data(3)[OF v] unfolding file_sects_def by (metis imageE lessThan_iff)
  show "file_vol C cs (fs\<lparr>disk := d\<rparr>)"
  proof (rule file_volI[OF v same_vol_disk])
    show "vol_ok C (fs\<lparr>disk := d\<rparr>)" using ok d[OF w] by (auto simp: vol_ok_def fat_fits_def)
    show "\<forall>i<n_sects fs cs. file_sect fs cs i \<noteq> winsect (fs\<lparr>disk := d\<rparr>)" using file_sect_data(3)[OF v] by simp
  qed (rule val)
  show "fat_sane C (fs\<lparr>disk := d\<rparr>) = fat_sane C fs" using val by (auto simp: fat_sane_def)
  show "frame C (file_sects fs cs) fs (fs\<lparr>disk := d\<rparr>)" using d by (auto simp: frame_def view_def)
qed

lemma same_geo_disk [simp]: "same_geo fs (fs\<lparr>disk := d\<rparr>)"
  by (simp add: same_geo_def same_vol_iff)

lemma flush_step:
  assumes g: "good_disk K C" and c: "open_core C cs fp fs" and s: "s \<le> 512 * n_sects fs cs" "p \<le> s"
  shows "\<exists>fp' fs'. flush_buf K fp fs = Some (True, fp', fs') \<and> same_handle fp fp' \<and> clust fp' = clust fp \<and> fptr fp' = fptr fp \<and>
    flag fp' AND FA_DIRTY = 0 \<and> open_core C cs fp' fs' \<and> same_vol fs fs' \<and> wrote C p s [] cs fp fs cs fp' fs'"
proof -
  note cd = open_coreD[OF c]
  obtain d where d: "flush_buf K fp fs = Some (True, fp\<lparr>flag := flag fp AND NOT FA_DIRTY\<rparr>, fs\<lparr>disk := d\<rparr>)" "file_vol C cs (fs\<lparr>disk := d\<rparr>)"
    "\<And>j. j < n_sects fs cs \<Longrightarrow> C d (file_sect fs cs j) = file_data C cs fp fs j" "\<And>t. t \<notin> file_sects fs cs \<Longrightarrow> C d t = C (disk fs) t"
    using flush_data[OF g cd(1,2)] by (auto simp: file_sects_def)
  let ?fp = "fp\<lparr>flag := flag fp AND NOT FA_DIRTY\<rparr>" and ?fs = "fs\<lparr>disk := d\<rparr>"
  note cg = file_sect_cong[OF same_vol_disk[of fs d]] and df = disk_file[OF cd(1) d(4)]
  have dat: "file_data C cs ?fp ?fs i = file_data C cs fp fs i" if "i < n_sects fs cs" for i
    using d(3)[OF that] clean_flag(1) by (simp add: file_data_def cg)
  have "buf_ok C cs ?fp ?fs"
  proof (cases "sect fp = 0")
    case False
    then obtain i where i: "i < n_sects fs cs" "sect fp = file_sect fs cs i" using cd(2) by (auto simp: buf_ok_def)
    then have "fbuf fp = C d (sect fp)" using cached_data[OF cd(1,2) i] d(3)[OF i(1)] by simp
    then show ?thesis using False i cd(2) by (auto simp: buf_ok_def cg intro!: exI[of _ i])
  qed (use cd(2) clean_flag(1) in \<open>simp add: buf_ok_def\<close>)
  then have "open_core C cs ?fp ?fs" using df(1,2) cd(3,4) by (simp add: open_core_def pos_base_def cg)
  moreover have "wrote C p s [] cs fp fs cs ?fp ?fs"
    using df(3) by (intro data_wrote[OF _ _ _ s dat]) simp_all
  ultimately show ?thesis using d(1) clean_flag by (intro exI[of _ ?fp] exI[of _ ?fs]) (simp add: same_handle_def)
qed


text \<open>A store of part of a sector into the buffer, which holds the bytes of the file in that sector or is about to.\<close>

lemma splice_nth:
  assumes "length b = 512" "off + n \<le> 512" "n \<le> length wb" "k < 512"
  shows "(take off b @ take n wb @ drop (off + n) b) ! k = (if off \<le> k \<and> k < off + n then wb ! (k - off) else b ! k)"
  using assms by (auto simp: nth_append min_def)

lemma sector_of: "j div 512 = q \<longleftrightarrow> 512 * q \<le> j \<and> j < 512 * q + 512" for j q :: nat
  by auto

lemma dirty_flag: "(f OR FA_DIRTY) AND FA_DIRTY \<noteq> 0" "(f OR FA_DIRTY) AND 0x3F = f AND 0x3F"
proof -
  have "bit ((f OR FA_DIRTY) AND FA_DIRTY) 7" by (simp add: bit_simps)
  then show "(f OR FA_DIRTY) AND FA_DIRTY \<noteq> 0" by auto
  show "(f OR FA_DIRTY) AND 0x3F = f AND 0x3F" by (simp only: bit.conj_disj_distrib2) simp
qed

lemma part_stored:
  assumes c: "open_core C cs fp fs" and q: "q < n_sects fs cs" and h: "flag fp AND FA_DIRTY = 0 \<or> sect fp = file_sect fs cs q"
    and b: "length b = 512" "\<And>j. j < s \<Longrightarrow> j div 512 = q \<Longrightarrow> b ! (j mod 512) = file_byte C cs fp fs j"
    and p: "p div 512 = q" "p \<le> s" "s \<le> 512 * n_sects fs cs" and n: "p mod 512 + n \<le> 512" "n \<le> length wb"
  defines "fp' \<equiv> fp\<lparr>sect := file_sect fs cs q, fbuf := take (p mod 512) b @ take n wb @ drop (p mod 512 + n) b, flag := flag fp OR FA_DIRTY\<rparr>"
  shows "open_core C cs fp' fs" "wrote C p s (take n wb) cs fp fs cs fp' fs"
proof -
  let ?b = "take (p mod 512) b @ take n wb @ drop (p mod 512 + n) b"
  note cd = open_coreD[OF c]
  have l: "length ?b = 512" using b(1) n by simp
  have "buf_ok C cs fp' fs" unfolding buf_ok_def fp'_def using l q file_sect_pos[OF cd(1) q] dirty_flag(1) by auto
  then show "open_core C cs fp' fs" using cd by (simp add: open_core_def fp'_def pos_base_def)
  have dq: "file_data C cs fp' fs q = ?b" using dirty_flag(1) by (simp add: file_data_def fp'_def)
  have dn: "file_data C cs fp' fs i = file_data C cs fp fs i" if "i < n_sects fs cs" "i \<noteq> q" for i
  proof -
    have "file_sect fs cs q \<noteq> file_sect fs cs i" using file_sect_inj[OF cd(1) q that(1)] that(2) by auto
    then show ?thesis using h by (auto simp: file_data_def fp'_def)
  qed
  have e: "p = 512 * q + p mod 512" using p(1) by auto
  have "file_byte C cs fp' fs j = (if p \<le> j \<and> j < p + n then take n wb ! (j - p) else file_byte C cs fp fs j)"
    if j: "j < max s (p + n)" for j
  proof (cases "j div 512 = q")
    case True
    then have jq: "j = 512 * q + j mod 512" by auto
    have f: "file_byte C cs fp' fs j = (if p mod 512 \<le> j mod 512 \<and> j mod 512 < p mod 512 + n then wb ! (j mod 512 - p mod 512) else b ! (j mod 512))"
      unfolding file_byte_def True dq by (rule splice_nth[OF b(1) n]) simp
    have r: "p \<le> j \<longleftrightarrow> p mod 512 \<le> j mod 512" "j < p + n \<longleftrightarrow> j mod 512 < p mod 512 + n" "j - p = j mod 512 - p mod 512"
      using e jq by linarith+
    show ?thesis
    proof (cases "p \<le> j \<and> j < p + n")
      case True
      then show ?thesis using f r by simp
    next
      case False
      then have "j < s" using j p(2) by (auto simp: max_def split: if_splits)
      then show ?thesis using f r False b(2)[OF _ True] by auto
    qed
  next
    case False
    have "j < 512 * q \<or> 512 * q + 512 \<le> j" using False sector_of[of j q] by auto
    then have o: "\<not> (p \<le> j \<and> j < p + n)" using e n(1) by auto
    then have "j < s" using j p(2) by (auto simp: max_def split: if_splits)
    then have "j < n_sects fs cs * 512" using p(3) by simp
    then have "j div 512 < n_sects fs cs" by (rule less_mult_imp_div_less)
    then show ?thesis using o dn[OF _ False] by (auto simp: file_byte_def)
  qed
  moreover have "length (take n wb) = n" using n(2) by simp
  ultimately show "wrote C p s (take n wb) cs fp fs cs fp' fs" by (simp add: wrote_def)
qed


text \<open>A store of a run of whole sectors.\<close>

lemma run_stored:
  assumes g: "good_blocks K C" and c: "open_core C cs fp fs" and cl: "flag fp AND FA_DIRTY = 0" and k: "k < n_sects fs cs"
    and cc: "0 < cc" and fit: "k mod unat (csize fs) + unat cc \<le> unat (csize fs)" and l: "512 * unat cc \<le> length wb" "512 * unat cc < 2 ^ 32"
    and s: "512 * k \<le> s" "s \<le> 512 * n_sects fs cs"
  shows "\<exists>fp' fs'. write_sectors K (file_sect fs cs k) cc wb fp fs = Some (Inr (SS * cc), fp', fs') \<and> open_core C cs fp' fs' \<and>
    same_handle fp fp' \<and> clust fp' = clust fp \<and> fptr fp' = fptr fp \<and> same_vol fs fs' \<and>
    wrote C (512 * k) s (take (512 * unat cc) wb) cs fp fs cs fp' fs'"
proof -
  let ?s = "file_sect fs cs k" and ?n = "unat cc"
  note cd = open_coreD[OF c]
  note v = cd(1)
  note run = run_sect[OF k fit]
  have c0: "?n - 1 < ?n" using cc by (simp add: word_less_nat_alt)
  have cz: "?n < 2 ^ 16" using fit unsigned_less[of "csize fs", where 'a = nat] by simp
  have "unat (file_sect fs cs (k + (?n - 1))) = unat ?s + (?n - 1)"
    using file_sect_nat(1)[OF v run(2)[OF c0]] file_sect_nat(1)[OF v k] run_index[OF fit c0] by simp
  then have top: "unat ?s + ?n \<le> 2 ^ 32"
    using unsigned_less[of "file_sect fs cs (k + (?n - 1))", where 'a = nat] c0 by simp
  have u: "unat (cc * SS) = 512 * ?n" using l(2) by (subst unat_mult_lem[THEN iffD1]) (simp_all add: SS_def mult.commute)
  let ?w = "take (512 * ?n) wb"
  have lw: "length ?w = 512 * ?n" using l(1) by simp
  obtain d where d: "dk_write K (pdrv fs) ?w ?s cc (disk fs) = Some (RES_OK, d)"
    "C d = (\<lambda>t. if t - ?s < cc then take 512 (drop (512 * unat (t - ?s)) ?w) else C (disk fs) t)"
    using g cc top lw unfolding good_blocks_def by blast
  have small: "unat (of_nat i :: u32) = i" if "i < ?n" for i using that cz by (intro unat_of_nat32) simp
  have inr: "t - ?s < cc \<longleftrightarrow> (\<exists>i < ?n. t = file_sect fs cs (k + i))" for t
  proof
    assume "t - ?s < cc"
    then have i: "unat (t - ?s) < ?n" by (simp add: word_less_nat_alt)
    show "\<exists>i < ?n. t = file_sect fs cs (k + i)" using run(1)[OF i] i by (intro exI[of _ "unat (t - ?s)"]) simp
  next
    assume "\<exists>i < ?n. t = file_sect fs cs (k + i)"
    then show "t - ?s < cc" using run(1) small by (auto simp: word_less_nat_alt)
  qed
  have out: "C d t = C (disk fs) t" if "t \<notin> file_sects fs cs" for t
    using that run(2) inr[of t] by (auto simp: d(2) file_sects_def)
  have sec: "C d (file_sect fs cs (k + i)) = take 512 (drop (512 * i) wb)" if i: "i < ?n" for i
  proof -
    have "file_sect fs cs (k + i) - ?s < cc" "unat (file_sect fs cs (k + i) - ?s) = i" using i run(1)[OF i] small[OF i] by (simp_all add: word_less_nat_alt)
    moreover have "512 * i + 512 \<le> 512 * ?n" using i by simp
    ultimately show ?thesis by (simp add: d(2) drop_take min_def)
  qed
  have oth: "C d (file_sect fs cs j) = C (disk fs) (file_sect fs cs j)" if "j < n_sects fs cs" "\<not> (k \<le> j \<and> j < k + ?n)" for j
  proof -
    have "file_sect fs cs j \<noteq> file_sect fs cs (k + i)" if "i < ?n" for i
      using file_sect_inj[OF v \<open>j < n_sects fs cs\<close> run(2)[OF that]] \<open>\<not> (k \<le> j \<and> j < k + ?n)\<close> that by auto
    then have "\<not> file_sect fs cs j - ?s < cc" using inr by blast
    then show ?thesis by (simp add: d(2))
  qed
  note df = disk_file[OF v out]
  define fp' where "fp' = (if sect fp - ?s < cc
    then fp\<lparr>fbuf := take 512 (drop (unat ((sect fp - ?s) * SS)) wb), flag := flag fp AND NOT FA_DIRTY\<rparr> else fp)"
  let ?fs = "fs\<lparr>disk := d\<rparr>"
  note cg = file_sect_cong[OF same_vol_disk[of fs d]]
  have r: "write_sectors K ?s cc wb fp fs = Some (Inr (SS * cc), fp', ?fs)"
    by (simp add: write_sectors_def u d(1) fp'_def Let_def)
  have cln: "flag fp' AND FA_DIRTY = 0" "sect fp' = sect fp" using cl clean_flag(1) by (simp_all add: fp'_def)
  have h: "same_handle fp fp'" "clust fp' = clust fp" "fptr fp' = fptr fp" using clean_flag(3) by (simp_all add: fp'_def same_handle_def)
  have "buf_ok C cs fp' ?fs"
  proof (cases "sect fp - ?s < cc")
    case True
    let ?m = "unat (sect fp - ?s)"
    have m: "?m < ?n" using True by (simp add: word_less_nat_alt)
    have at: "sect fp = file_sect fs cs (k + ?m)" using run(1)[OF m] by simp
    have off: "unat ((sect fp - ?s) * SS) = 512 * ?m" using m cz by (subst unat_mult_lem[THEN iffD1]) (simp_all add: SS_def mult.commute)
    have "512 * ?m + 512 \<le> 512 * ?n" using m by simp
    then have "length (take 512 (drop (512 * ?m) wb)) = 512" using l(1) by simp
    then show ?thesis
      using True at off sec[OF m] run(2)[OF m] file_sect_pos[OF v run(2)[OF m]] unfolding buf_ok_def cg fp'_def
      by (auto intro!: exI[of _ "k + ?m"])
  next
    case False
    then have e: "fp' = fp" by (simp add: fp'_def)
    show ?thesis
    proof (cases "sect fp = 0")
      case nz: False
      then obtain i where i: "i < n_sects fs cs" "sect fp = file_sect fs cs i" "fbuf fp = C (disk fs) (sect fp)"
        using cd(2) cl by (auto simp: buf_ok_def)
      have "C d (sect fp) = C (disk fs) (sect fp)" using False by (simp add: d(2))
      then show ?thesis using cd(2) nz i unfolding buf_ok_def cg e by (auto intro!: exI[of _ i])
    qed (use cd(2) e in \<open>simp add: buf_ok_def\<close>)
  qed
  moreover have "pos_base cs fp' ?fs" using cd(3) h(1,3) by (simp add: pos_base_def cg same_handle_def)
  ultimately have core: "open_core C cs fp' ?fs" using df(1,2) cd(4) by (simp add: open_core_def)
  have dat: "file_data C cs fp' ?fs i = C d (file_sect fs cs i)" for i using cln(1) by (simp add: file_data_def cg)
  have "file_byte C cs fp' ?fs j = (if 512 * k \<le> j \<and> j < 512 * k + 512 * ?n then take (512 * ?n) wb ! (j - 512 * k) else file_byte C cs fp fs j)"
    if j: "j < max s (512 * k + 512 * ?n)" for j
  proof (cases "512 * k \<le> j \<and> j < 512 * k + 512 * ?n")
    case True
    define i where "i = j div 512 - k"
    have i: "i < ?n" "k + i = j div 512" using True by (auto simp: i_def)
    have "512 * (k + i) + j mod 512 = j" unfolding i(2) by simp
    then have ix: "512 * i + j mod 512 = j - 512 * k" by (simp add: distrib_left)
    have "512 * i + 512 \<le> length wb" using i(1) l(1) by linarith
    moreover have "file_data C cs fp' ?fs (j div 512) = take 512 (drop (512 * i) wb)" using sec[OF i(1)] by (simp only: dat i(2))
    ultimately have "file_byte C cs fp' ?fs j = wb ! (512 * i + j mod 512)" by (simp add: file_byte_def)
    moreover have "j - 512 * k < 512 * ?n" using True by linarith
    ultimately show ?thesis using True ix by simp
  next
    case False
    then have "j < s" using j s(1) by (auto simp: max_def split: if_splits)
    then have "j < n_sects fs cs * 512" using s(2) by simp
    then have n: "j div 512 < n_sects fs cs" by (rule less_mult_imp_div_less)
    have "\<not> (k \<le> j div 512 \<and> j div 512 < k + ?n)" using False by auto
    from oth[OF n this] have "file_byte C cs fp' ?fs j = file_byte C cs fp fs j"
      unfolding file_byte_def dat using cl by (simp add: file_data_def)
    then show ?thesis using False by auto
  qed
  then have "wrote C (512 * k) s ?w cs fp fs cs fp' ?fs" using df(3) lw by (simp add: wrote_def)
  then show ?thesis using r core h by (intro exI[of _ fp'] exI[of _ ?fs]) simp
qed


section \<open>One round of a write\<close>

text \<open>The fields that a write leaves alone, and the position and size after it.\<close>

definition same_open :: "FIL \<Rightarrow> FIL \<Rightarrow> bool" where
  "same_open fp fp' \<longleftrightarrow> ferr fp' = ferr fp \<and> flag fp' AND 0x3F = flag fp AND 0x3F \<and> dir_sect fp' = dir_sect fp \<and> dir_ptr fp' = dir_ptr fp \<and>
     f_obj fp' = (f_obj fp)\<lparr>sclust := sclust (f_obj fp'), objsize := objsize (f_obj fp')\<rparr>"

lemma same_open_refl [simp]: "same_open fp fp"
  by (simp add: same_open_def)

lemma same_open_trans: "same_open a b \<Longrightarrow> same_open b c \<Longrightarrow> same_open a c"
  by (auto simp: same_open_def) (metis (no_types, lifting) FFOBJID.surjective FFOBJID.update_convs(5,6))

lemma handle_open: "same_handle fp fp' \<Longrightarrow> same_open fp fp'"
  by (simp add: same_handle_def same_open_def)

definition advance :: "u32 \<Rightarrow> FIL \<Rightarrow> FIL" where
  "advance n fp = set_objsize (if fptr fp + n > objsize (f_obj fp) then fptr fp + n else objsize (f_obj fp)) (fp\<lparr>fptr := fptr fp + n\<rparr>)"

lemma advance_simps [simp]:
  "fptr (advance n fp) = fptr fp + n" "clust (advance n fp) = clust fp" "sect (advance n fp) = sect fp" "fbuf (advance n fp) = fbuf fp"
  "flag (advance n fp) = flag fp" "ferr (advance n fp) = ferr fp" "sclust (f_obj (advance n fp)) = sclust (f_obj fp)"
  "file_data C cs (advance n fp) = file_data C cs fp" "same_open fp (advance n fp)"
  by (simp_all add: advance_def set_objsize_def fun_eq_iff file_data_def same_open_def)

lemma write_advance:
  assumes c: "open_core C cs fp fs" and n: "0 < n" "unat (fptr fp) + unat n < 2 ^ 32" "unat (fptr fp) + unat n \<le> 512 * n_sects fs cs"
    and cl: "clust fp = cs ! ((unat (fptr fp) + unat n - 1) div 512 div unat (csize fs))"
    and s: "(unat (fptr fp) + unat n) mod 512 \<noteq> 0 \<Longrightarrow> sect fp = file_sect fs cs ((unat (fptr fp) + unat n) div 512)"
  shows "file_ok C cs (advance n fp) fs" "unat (fptr (advance n fp)) = unat (fptr fp) + unat n"
    "unat (objsize (f_obj (advance n fp))) = max (unat (objsize (f_obj fp))) (unat (fptr fp) + unat n)"
proof -
  note cd = open_coreD[OF c]
  have u: "unat (fptr fp + n) = unat (fptr fp) + unat n" using n(2) by (intro unat_add_lem[THEN iffD1]) simp
  then show "unat (fptr (advance n fp)) = unat (fptr fp) + unat n" by simp
  show m: "unat (objsize (f_obj (advance n fp))) = max (unat (objsize (f_obj fp))) (unat (fptr fp) + unat n)"
    using u by (auto simp: advance_def set_objsize_def word_less_nat_alt max_def)
  have "buf_ok C cs (advance n fp) fs" using cd(2) by (simp add: buf_ok_def)
  moreover have "pos_base cs (advance n fp) fs"
    using cd(3) m n(3) u by (auto simp: pos_base_def word_le_nat_alt)
  moreover have "(fptr fp + n) mod SS \<noteq> 0 \<longleftrightarrow> (unat (fptr fp) + unat n) mod 512 \<noteq> 0" by (simp add: aligned_nat u)
  moreover have "fptr fp + n \<noteq> 0" using u n(1) by (auto simp: word_less_nat_alt)
  ultimately show "file_ok C cs (advance n fp) fs"
    using cd(1) cl s u by (simp add: file_ok_def pos_ok_def)
qed

definition one_write :: "('d \<Rightarrow> u32 \<Rightarrow> u8 list) \<Rightarrow> u32 list \<Rightarrow> u32 \<Rightarrow> u8 list \<Rightarrow> FIL \<Rightarrow> 'd fatfs \<Rightarrow>
    ((FRESULT option + u32) \<times> FIL \<times> 'd fatfs) option \<Rightarrow> bool" where
  "one_write C cs btw wb fp fs x \<longleftrightarrow> (\<exists>n fp' fs' cs'. x = Some (Inr n, fp', fs') \<and> same_open fp fp' \<and> fptr fp' = fptr fp \<and>
     objsize (f_obj fp') = objsize (f_obj fp) \<and> 0 < n \<and> n \<le> btw \<and> file_ok C cs' (advance n fp') fs' \<and> fat_sane C fs' \<and>
     unat (objsize (f_obj (advance n fp'))) = max (unat (objsize (f_obj fp))) (unat (fptr fp) + unat n) \<and>
     wrote C (unat (fptr fp)) (unat (objsize (f_obj fp))) (take (unat n) wb) cs fp fs cs' fp' fs')"

lemma one_write_after:
  assumes "wrote C (unat (fptr fp)) (unat (objsize (f_obj fp))) [] cs fp fs cs1 fp1 fs1" "same_open fp fp1" "fptr fp1 = fptr fp"
    "objsize (f_obj fp1) = objsize (f_obj fp)" "fptr fp \<le> objsize (f_obj fp)" "one_write C cs1 btw wb fp1 fs1 x"
  shows "one_write C cs btw wb fp fs x"
proof -
  obtain n fp' fs' cs' where x: "x = Some (Inr n, fp', fs')" and o: "same_open fp1 fp'" "fptr fp' = fptr fp1" "objsize (f_obj fp') = objsize (f_obj fp1)"
    "0 < n" "n \<le> btw" "file_ok C cs' (advance n fp') fs'" "fat_sane C fs'"
    "unat (objsize (f_obj (advance n fp'))) = max (unat (objsize (f_obj fp1))) (unat (fptr fp1) + unat n)"
    and w: "wrote C (unat (fptr fp1)) (unat (objsize (f_obj fp1))) (take (unat n) wb) cs1 fp1 fs1 cs' fp' fs'"
    using assms(6) by (auto simp: one_write_def)
  have "wrote C (unat (fptr fp)) (unat (objsize (f_obj fp))) (take (unat n) wb) cs fp fs cs' fp' fs'"
    using wrote_after[OF assms(1)] w assms(3-5) by (simp add: word_le_nat_alt)
  then show ?thesis using x o same_open_trans[OF assms(2) o(1)] assms(3,4) by (auto simp: one_write_def)
qed

lemma write_part_nat:
  assumes "write_part btw wb fp = (n, fp')"
  shows "unat n = min (512 - unat (fptr fp) mod 512) (unat btw)"
    "fp' = fp\<lparr>fbuf := take (unat (fptr fp) mod 512) (fbuf fp) @ take (unat n) wb @ drop (unat (fptr fp) mod 512 + unat n) (fbuf fp), flag := flag fp OR FA_DIRTY\<rparr>"
proof -
  have o: "unat (fptr fp mod SS) = unat (fptr fp) mod 512" by (simp add: SS_def unat_mod)
  have "unat (SS - fptr fp mod SS) = 512 - unat (fptr fp) mod 512"
    using o by (subst unat_sub) (simp_all add: SS_def word_le_nat_alt)
  then show "unat n = min (512 - unat (fptr fp) mod 512) (unat btw)"
    using assms unfolding write_part_def Let_def by (auto simp: word_less_nat_alt min_def)
  show "fp' = fp\<lparr>fbuf := take (unat (fptr fp) mod 512) (fbuf fp) @ take (unat n) wb @ drop (unat (fptr fp) mod 512 + unat n) (fbuf fp), flag := flag fp OR FA_DIRTY\<rparr>"
    using assms unfolding write_part_def Let_def o by auto
qed

lemma part_step:
  assumes c: "open_core C cs fp fs" and q: "unat (fptr fp) div 512 = q" "q < n_sects fs cs"
    and h: "flag fp AND FA_DIRTY = 0 \<or> sect fp = file_sect fs cs q"
    and b: "length b = 512" "\<And>j. j < unat (objsize (f_obj fp)) \<Longrightarrow> j div 512 = q \<Longrightarrow> b ! (j mod 512) = file_byte C cs fp fs j"
    and cl: "clust fp = cs ! (q div unat (csize fs))"
    and n: "0 < btw" "unat btw \<le> length wb" "unat (fptr fp) + unat btw < 2 ^ 32"
    and w: "write_part btw wb (fp\<lparr>sect := file_sect fs cs q, fbuf := b\<rparr>) = (k, fp')"
  shows "one_write C cs btw wb fp fs (Some (Inr k, fp', fs))"
proof -
  let ?p = "unat (fptr fp)" and ?s = "unat (objsize (f_obj fp))"
  note cd = open_coreD[OF c]
  note wn = write_part_nat[OF w]
  have kn: "unat k = min (512 - ?p mod 512) (unat btw)" using wn(1) by simp
  have o5: "?p mod 512 < 512" by simp
  have k0: "0 < unat k" "unat k \<le> unat btw" "?p mod 512 + unat k \<le> 512" using kn n(1) o5 by (auto simp: word_less_nat_alt)
  have ps: "?p \<le> ?s" "?s \<le> 512 * n_sects fs cs" using cd(3) by (simp_all add: pos_base_def word_le_nat_alt)
  have fp': "fp' = fp\<lparr>sect := file_sect fs cs q, fbuf := take (?p mod 512) b @ take (unat k) wb @ drop (?p mod 512 + unat k) b, flag := flag fp OR FA_DIRTY\<rparr>"
    using wn(2) by simp
  have kl: "unat k \<le> length wb" using k0(2) n(2) by simp
  note ps' = part_stored[OF c q(2) h b q(1) ps k0(3) kl, folded fp']
  have top: "(?p + unat k - 1) div 512 = q" using run_index(1)[OF k0(3), of "unat k - 1"] k0(1) q(1) by simp
  have ed: "(?p + unat k) div 512 = q" if "(?p + unat k) mod 512 \<noteq> 0" using top div_pred[of "?p + unat k" 512] that by simp
  have e: "?p = 512 * q + ?p mod 512" using q(1) by auto
  have "512 * q + 512 \<le> 512 * n_sects fs cs" using q(2) by simp
  then have fit: "?p + unat k \<le> 512 * n_sects fs cs" using e k0(3) by linarith
  have k1: "0 < k" "k \<le> btw" using k0 by (simp_all add: word_less_nat_alt word_le_nat_alt)
  have f: "fptr fp' = fptr fp" "f_obj fp' = f_obj fp" "clust fp' = clust fp" "sect fp' = file_sect fs cs q" "same_open fp fp'"
    using fp' dirty_flag(2) by (simp_all add: same_open_def)
  have lt: "?p + unat k < 2 ^ 32" using k0(2) n(3) by simp
  have "file_ok C cs (advance k fp') fs" "unat (objsize (f_obj (advance k fp'))) = max ?s (?p + unat k)"
    using write_advance[OF ps'(1) k1(1)] lt fit cl top ed f by simp_all
  then show ?thesis using ps'(2) k1 f cd(4) by (auto simp: one_write_def)
qed


lemma run_step:
  assumes g: "good_blocks K C" and c: "open_core C cs fp fs" and d: "flag fp AND FA_DIRTY = 0" and q: "unat (fptr fp) = 512 * k" "k < n_sects fs cs"
    and cl: "clust fp = cs ! (k div unat (csize fs))" and cc: "0 < cc" "unat cc * 512 \<le> unat btw" "k mod unat (csize fs) + unat cc \<le> unat (csize fs)"
    and n: "unat btw \<le> length wb" "unat (fptr fp) + unat btw < 2 ^ 32"
  shows "one_write C cs btw wb fp fs (write_sectors K (file_sect fs cs k) cc wb fp fs)"
proof -
  let ?p = "unat (fptr fp)" and ?s = "unat (objsize (f_obj fp))"
  note cd = open_coreD[OF c]
  have l: "512 * unat cc \<le> length wb" "512 * unat cc < 2 ^ 32" using cc(2) n by simp_all
  have s: "512 * k \<le> ?s" "?s \<le> 512 * n_sects fs cs" using cd(3) q(1) by (simp_all add: pos_base_def word_le_nat_alt)
  obtain fp' fs' where r: "write_sectors K (file_sect fs cs k) cc wb fp fs = Some (Inr (SS * cc), fp', fs')" and c': "open_core C cs fp' fs'"
    and h: "same_handle fp fp'" "clust fp' = clust fp" "fptr fp' = fptr fp" "same_vol fs fs'"
    and w: "wrote C (512 * k) ?s (take (512 * unat cc) wb) cs fp fs cs fp' fs'"
    using run_stored[OF g c d q(2) cc(1,3) l s] by blast
  have u: "unat (SS * cc) = 512 * unat cc" using l(2) by (subst unat_mult_lem[THEN iffD1]) (simp_all add: SS_def)
  have c0: "0 < unat cc" using cc(1) by (simp add: word_less_nat_alt)
  have nn: "0 < SS * cc" "SS * cc \<le> btw" using u c0 cc(2) by (simp_all add: word_less_nat_alt word_le_nat_alt)
  note cg = file_sect_cong[OF h(4)] same_volD(7)[OF h(4)]
  have i1: "unat cc - 1 < unat cc" using c0 by simp
  have top: "(?p + unat (SS * cc) - 1) div 512 = k + (unat cc - 1)" using u q(1) c0 by (intro div_nat_eqI) simp_all
  have in_n: "k + (unat cc - 1) < n_sects fs cs" by (rule run_sect(2)[OF q(2) cc(3) i1])
  have fit: "?p + unat (SS * cc) \<le> 512 * n_sects fs cs" using in_n u q(1) c0 by linarith
  have lt: "?p + unat (SS * cc) < 2 ^ 32" using u cc(2) n(2) by simp
  have cl': "clust fp' = cs ! ((?p + unat (SS * cc) - 1) div 512 div unat (csize fs))"
    using h(2) cl run_index(1)[OF cc(3) i1] top by simp
  have al: "(?p + unat (SS * cc)) mod 512 = 0" using u q(1) by simp
  have o: "f_obj fp' = f_obj fp" using h(1) by (simp add: same_handle_def)
  have "file_ok C cs (advance (SS * cc) fp') fs'" "unat (objsize (f_obj (advance (SS * cc) fp'))) = max ?s (?p + unat (SS * cc))"
    using write_advance[OF c' nn(1)] lt fit cl' al h(3) o by (simp_all add: cg)
  then show ?thesis
    using r nn handle_open[OF h(1)] h(3) o w u q(1) open_coreD(4)[OF c'] by (auto simp: one_write_def)
qed


lemma write_aligned_step:
  assumes g: "good_blocks K C" and c: "open_core C cs fp fs" and q: "unat (fptr fp) = 512 * q" "q < n_sects fs cs"
    and cl: "clust fp = cs ! (q div unat (csize fs))" and cs: "unat csect = q mod unat (csize fs)"
    and n: "0 < btw" "unat btw \<le> length wb" "unat (fptr fp) + unat btw < 2 ^ 32"
  shows "one_write C cs btw wb fp fs (write_aligned K btw wb csect fp fs)"
proof -
  let ?p = "unat (fptr fp)" and ?s = "unat (objsize (f_obj fp))"
  note cd = open_coreD[OF c]
  have gd: "good_disk K C" using g by (simp add: good_blocks_def)
  have s: "?s \<le> 512 * n_sects fs cs" "?p \<le> ?s" and le: "fptr fp \<le> objsize (f_obj fp)" using cd(3) by (simp_all add: pos_base_def word_le_nat_alt)
  obtain fp1 fs1 where f: "flush_buf K fp fs = Some (True, fp1, fs1)" and h: "same_handle fp fp1" "clust fp1 = clust fp" "fptr fp1 = fptr fp"
    "flag fp1 AND FA_DIRTY = 0" and c1: "open_core C cs fp1 fs1" and sv: "same_vol fs fs1" and w: "wrote C ?p ?s [] cs fp fs cs fp1 fs1"
    using flush_step[OF gd c s] by blast
  note c1d = open_coreD[OF c1]
  note cg = file_sect_cong[OF sv] same_volD(7)[OF sv]
  have o: "f_obj fp1 = f_obj fp" using h(1) by (simp add: same_handle_def)
  let ?c = "cs ! (q div unat (csize fs))"
  have q1: "q < n_sects fs1 cs" using q(2) by (simp add: cg)
  have cl1: "cluster fs1 ?c" using file_volD(3)[OF c1d(1)] sect_index[OF q(2)] by simp
  have "of_nat (unat csect) = csect" by simp
  then have sec: "clst2sect ?c fs1 + csect = file_sect fs1 cs q" using cs by (simp add: file_sect_def cg(3)) 
  have nz: "clst2sect ?c fs1 \<noteq> 0" by (rule clst2sect_nat(2)[OF c1d(6) cl1])
  have k1: "clust fp1 = cs ! (q div unat (csize fs1))" "unat csect = q mod unat (csize fs1)" "q mod unat (csize fs1) < unat (csize fs1)"
    using h(2) cl cs csize_pos[OF c1d(6)] by (simp_all add: cg(3))
  have p1: "unat (fptr fp1) = 512 * q" "unat (fptr fp1) + unat btw < 2 ^ 32" using q(1) n(3) h(3) by simp_all
  have "one_write C cs btw wb fp1 fs1 (write_aligned K btw wb csect fp fs)"
  proof (cases "btw div SS > 0")
    case True
    note cc = run_count[OF k1(2,3) True]
    have "write_aligned K btw wb csect fp fs = write_sectors K (file_sect fs1 cs q)
        (if csect + btw div SS > ucast (csize fs1) then ucast (csize fs1) - csect else btw div SS) wb fp1 fs1"
      using f nz sec h(2) cl True by (simp add: write_aligned_def)
    then show ?thesis using run_step[OF g c1 h(4) p1(1) q1 k1(1) cc n(2) p1(2)] by simp
  next
    case False
    let ?sec = "file_sect fs1 cs q"
    show ?thesis
    proof (cases "sect fp1 \<noteq> ?sec \<and> fptr fp1 < objsize (f_obj fp1)")
      case True
      obtain d where d: "dk_read K (pdrv fs1) ?sec 1 (disk fs1) = Some (RES_OK, C (disk fs1) ?sec, d)" "C d = C (disk fs1)"
        using good_read[OF gd] by blast
      let ?fs = "fs1\<lparr>disk := d\<rparr>" and ?b = "C (disk fs1) (file_sect fs1 cs q)"
      obtain k fp' where wp: "write_part btw wb (fp1\<lparr>sect := ?sec, fbuf := ?b\<rparr>) = (k, fp')" by fastforce
      have "fp1\<lparr>fbuf := ?b, sect := ?sec\<rparr> = fp1\<lparr>sect := ?sec, fbuf := ?b\<rparr>" by simp
      then have wp': "write_part btw wb (fp1\<lparr>fbuf := ?b, sect := ?sec\<rparr>) = (k, fp')" using wp by metis
      have r: "write_aligned K btw wb csect fp fs = Some (Inr k, fp', ?fs)"
        using f nz sec h(2) cl False True d(1) wp' by (simp add: write_aligned_def fill_buf_def Let_def)
      note cg' = file_sect_cong[OF same_vol_disk[of fs1 d]]
      have sd: "same_data C cs fs1 ?fs" by (rule disk_data[OF c1d(1) d(2)])
      have "fat_sane C ?fs" using disk_file(2)[OF c1d(1), of d] d(2) c1d(4) by simp
      then have c2: "open_core C cs fp1 ?fs"
        using same_data_vol[OF sd] same_data_buf[OF sd c1d(2)] c1d(3) by (simp add: open_core_def pos_base_def cg')
      have "one_write C cs btw wb fp1 ?fs (Some (Inr k, fp', ?fs))"
      proof (rule part_step[OF c2, of q ?b])
        show "unat (fptr fp1) div 512 = q" using p1(1) by simp
        show "length ?b = 512" using gd by (simp add: good_disk_def)
        show "?b ! (j mod 512) = file_byte C cs fp1 ?fs j" if "j div 512 = q" for j
          using that h(4) d(2) by (simp add: file_byte_def file_data_def cg')
        show "write_part btw wb (fp1\<lparr>sect := file_sect ?fs cs q, fbuf := ?b\<rparr>) = (k, fp')" using wp by (simp add: cg')
      qed (use q1 h(4) k1 n p1 in \<open>simp_all add: cg'\<close>)
      moreover have "wrote C (unat (fptr fp1)) (unat (objsize (f_obj fp1))) [] cs fp1 fs1 cs fp1 ?fs"
        using disk_file(3)[OF c1d(1), of d] d(2) s same_data_file[OF sd, of fp1] h(3) o
        by (intro data_wrote) (simp_all add: cg same_file_def)
      ultimately show ?thesis unfolding r using le h(3) o by (intro one_write_after[of C fp1 cs fs1 cs fp1 ?fs]) simp_all
    next
      case part: False
      obtain k fp' where wp: "write_part btw wb (fp1\<lparr>sect := ?sec\<rparr>) = (k, fp')" by fastforce
      have r: "write_aligned K btw wb csect fp fs = Some (Inr k, fp', fs1)"
        using f nz sec h(2) cl False part wp by (auto simp: write_aligned_def)
      show ?thesis unfolding r
      proof (rule part_step[OF c1, of q "fbuf fp1"])
        show "unat (fptr fp1) div 512 = q" using p1(1) by simp
        show "length (fbuf fp1) = 512" using c1d(2) by (simp add: buf_ok_def)
        show "fbuf fp1 ! (j mod 512) = file_byte C cs fp1 fs1 j" if j: "j < unat (objsize (f_obj fp1))" "j div 512 = q" for j
        proof (cases "sect fp1 = ?sec")
          case True
          then show ?thesis using cached_data[OF c1d(1,2) q1] j(2) by (simp add: file_byte_def)
        next
          case False
          then have "unat (objsize (f_obj fp1)) \<le> 512 * q" using part p1(1) by (simp add: word_less_nat_alt)
          then have "j < 512 * q" using j(1) by simp
          then show ?thesis using j(2) by auto
        qed
        show "write_part btw wb (fp1\<lparr>sect := ?sec, fbuf := fbuf fp1\<rparr>) = (k, fp')" using wp by simp
      qed (use q1 h(4) k1 n p1 in simp_all)
    qed
  qed
  then show ?thesis using one_write_after[OF w handle_open[OF h(1)] h(3) _ le] o by simp
qed


definition full_round :: "('d \<Rightarrow> u32 \<Rightarrow> u8 list) \<Rightarrow> u32 list \<Rightarrow> FIL \<Rightarrow> 'd fatfs \<Rightarrow> ((FRESULT option + u32) \<times> FIL \<times> 'd fatfs) option \<Rightarrow> bool" where
  "full_round C cs fp fs x \<longleftrightarrow> (\<exists>fs'. x = Some (Inl None, fp, fs') \<and> grown C cs fp fs cs fp fs' \<and> volume_full C fs')"

lemma write_step_round:
  assumes g: "good_blocks K C" and f: "file_ok C cs fp fs" and sane: "fat_sane C fs"
    and n: "0 < btw" "unat btw \<le> length wb" "unat (fptr fp) + unat btw < 2 ^ 32"
  shows "full_round C cs fp fs (write_step K btw wb fp fs) \<or> one_write C cs btw wb fp fs (write_step K btw wb fp fs)"
proof -
  let ?p = "unat (fptr fp)" and ?q = "unat (fptr fp) div 512" and ?z = "unat (csize fs)" and ?s = "unat (objsize (f_obj fp))"
  have p: "pos_ok cs fp fs" and c: "open_core C cs fp fs" using f sane by (simp_all add: file_ok_def open_core_def pos_ok_def)
  note cd = open_coreD[OF c]
  have gd: "good_disk K C" using g by (simp add: good_blocks_def)
  have zp: "0 < ?z" by (rule csize_pos[OF cd(6)])
  have s: "?s \<le> 512 * n_sects fs cs" "?p \<le> ?s" and le: "fptr fp \<le> objsize (f_obj fp)" using cd(3) by (simp_all add: pos_base_def word_le_nat_alt)
  show ?thesis
  proof (cases "fptr fp mod SS = 0")
    case False
    obtain k fp' where w: "write_part btw wb fp = (k, fp')" by fastforce
    have o: "0 < ?p mod 512" using False by (simp add: aligned_nat)
    then have e: "(?p - 1) div 512 = ?q" by (rule div_pred)
    have p0: "fptr fp \<noteq> 0" "0 < ?p" using False o by auto
    have "?p - 1 < n_sects fs cs * 512" using s p0(2) by linarith
    then have qn: "?q < n_sects fs cs" unfolding e[symmetric] by (rule less_mult_imp_div_less)
    have st: "sect fp = file_sect fs cs ?q" "clust fp = cs ! (?q div ?z)" using p False e p0(1) by (simp_all add: pos_ok_def)
    have id: "fp\<lparr>sect := file_sect fs cs ?q, fbuf := fbuf fp\<rparr> = fp" unfolding st(1)[symmetric] by simp
    have "one_write C cs btw wb fp fs (Some (Inr k, fp', fs))"
    proof (rule part_step[OF c refl qn])
      show "length (fbuf fp) = 512" using cd(2) by (simp add: buf_ok_def)
      show "fbuf fp ! (j mod 512) = file_byte C cs fp fs j" if "j div 512 = ?q" for j
        using cached_data[OF cd(1,2) qn st(1)] that by (simp add: file_byte_def)
      show "write_part btw wb (fp\<lparr>sect := file_sect fs cs ?q, fbuf := fbuf fp\<rparr>) = (k, fp')" unfolding id by (rule w)
    qed (use st n in simp_all)
    then show ?thesis using False w by (simp add: write_step_def)
  next
    case True
    let ?cs = "(fptr fp div SS) AND (ucast (csize fs) - 1)"
    have csn: "unat ?cs = ?q mod ?z" by (rule csect_nat[OF cd(6)])
    have al: "?p = 512 * ?q" using True by (auto simp: aligned_nat)
    show ?thesis
    proof (cases "?cs = 0")
      case False
      then have m: "0 < ?q mod ?z" using csn by (metis gr0I unat_eq_zero)
      have q0: "0 < ?p" using m by (metis div_0 gr0I mod_0 less_irrefl)
      have "?p mod 512 = 0" using True by (simp add: aligned_nat)
      then have q1: "Suc ((?p - 1) div 512) = ?q" using q0 by (intro div_pred0) simp_all
      have "(?p - 1) div 512 div ?z = ?q div ?z" using q1 div_pred[OF m] by (metis diff_Suc_1)
      then have cl: "clust fp = cs ! (?q div ?z)" using p q0 by (auto simp: pos_ok_def)
      have "512 * ?q \<le> 512 * n_sects fs cs" using s al by linarith
      then have "?q \<le> n_sects fs cs" by simp
      moreover have "?q \<noteq> n_sects fs cs" using m by (auto simp: n_sects_def)
      ultimately have qn: "?q < n_sects fs cs" by simp
      have "write_step K btw wb fp fs = write_aligned K btw wb ?cs fp fs" using True False by (simp add: write_step_def Let_def)
      then show ?thesis using write_aligned_step[OF g c al qn cl csn n] by simp
    next
      case z: True
      then have zm: "?q mod ?z = 0" using csn by simp
      have st: "write_step K btw wb fp fs = (case write_clust K fp fs of None \<Rightarrow> None | Some (r, fp1, fs1) \<Rightarrow>
          (case r of Inl e \<Rightarrow> Some (Inl e, fp1, fs1) | Inr _ \<Rightarrow> write_aligned K btw wb 0 fp1 fs1))"
        using True z by (simp add: write_step_def Let_def split: option.split)
      from write_cluster[OF gd c p True zm] obtain r fp1 fs1 where w: "write_clust K fp fs = Some (r, fp1, fs1)" and
        h: "r = Inl None \<and> fp1 = fp \<and> grown C cs fp fs cs fp fs1 \<and> volume_full C fs1 \<or>
          r = Inr () \<and> (\<exists>cs'. grown C cs fp fs cs' fp1 fs1 \<and> ?q < n_sects fs cs' \<and> clust fp1 = cs' ! (?q div ?z))"
        unfolding placed_def by blast
      from h show ?thesis
      proof (elim disjE conjE exE)
        assume "r = Inl None" "fp1 = fp" "grown C cs fp fs cs fp fs1" "volume_full C fs1"
        then show ?thesis using st w by (simp add: full_round_def)
      next
        fix cs' assume r: "r = Inr ()" and gr: "grown C cs fp fs cs' fp1 fs1" and q: "?q < n_sects fs cs'" "clust fp1 = cs' ! (?q div ?z)"
        have gg: "same_geo fs fs1" and c1: "open_core C cs' fp1 fs1"
          and fe: "fp1 = fp\<lparr>clust := clust fp1, f_obj := (f_obj fp)\<lparr>sclust := sclust (f_obj fp1)\<rparr>\<rparr>"
          using gr by (simp_all add: grown_def)
        have fl: "fptr fp1 = fptr fp" "objsize (f_obj fp1) = objsize (f_obj fp)" "same_open fp fp1"
          by (subst fe, simp)+ (subst fe, simp add: same_open_def)
        note cg = file_sect_geo[OF gg] same_geoD(7)[OF gg]
        have "one_write C cs' btw wb fp1 fs1 (write_aligned K btw wb 0 fp1 fs1)"
          by (rule write_aligned_step[OF g c1, of ?q]) (use fl al q zm n in \<open>simp_all add: cg\<close>)
        then show ?thesis using st w r one_write_after[OF grown_wrote[OF gr s] fl(3,1,2) le] by simp
      qed
    qed
  qed
qed


section \<open>Writing\<close>

lemma modified_flag: "(f OR FA_MODIFIED) AND FA_DIRTY = f AND FA_DIRTY" "(f OR FA_MODIFIED) AND 0x3F = f AND 0x3F"
  by (simp_all only: bit.conj_disj_distrib2) simp_all

definition mark_modified :: "FIL \<Rightarrow> FIL" where
  "mark_modified fp = fp\<lparr>flag := flag fp OR FA_MODIFIED\<rparr>"

lemma mark_modified_simps [simp]:
  "fptr (mark_modified fp) = fptr fp" "f_obj (mark_modified fp) = f_obj fp" "file_data C cs (mark_modified fp) = file_data C cs fp"
  "file_ok C cs (mark_modified fp) fs = file_ok C cs fp fs" "same_open fp (mark_modified fp)"
  "wrote C p s bs cs fp fs cs' (mark_modified fp') fs' = wrote C p s bs cs fp fs cs' fp' fs'"
  by (simp_all add: mark_modified_def fun_eq_iff file_data_def file_ok_def buf_ok_def pos_ok_def pos_base_def same_open_def
      wrote_def file_byte_def modified_flag)

definition write_result :: "('d \<Rightarrow> u32 \<Rightarrow> u8 list) \<Rightarrow> u32 list \<Rightarrow> u32 \<Rightarrow> u8 list \<Rightarrow> FIL \<Rightarrow> 'd fatfs \<Rightarrow> u32 \<Rightarrow> FIL \<Rightarrow> 'd fatfs \<Rightarrow> u32 list \<Rightarrow> bool" where
  "write_result C cs btw wb fp fs n fp' fs' cs' \<longleftrightarrow> n \<le> btw \<and> (n < btw \<longrightarrow> volume_full C fs') \<and> file_ok C cs' fp' fs' \<and> fat_sane C fs' \<and>
     same_open fp fp' \<and> fptr fp' = fptr fp + n \<and>
     unat (objsize (f_obj fp')) = max (unat (objsize (f_obj fp))) (unat (fptr fp) + unat n) \<and>
     wrote C (unat (fptr fp)) (unat (objsize (f_obj fp))) (take (unat n) wb) cs fp fs cs' fp' fs'"

lemma wrote_nil: "p \<le> s \<Longrightarrow> wrote C p s [] cs fp fs cs fp fs"
  by (auto simp: wrote_def max_def)

lemma wrote_advance [simp]:
  "wrote C p s bs cs (advance k fp) fs cs' fp' fs' = wrote C p s bs cs fp fs cs' fp' fs'"
  "wrote C p s bs cs fp fs cs' (advance k fp') fs' = wrote C p s bs cs fp fs cs' fp' fs'"
  by (simp_all add: wrote_def file_byte_def)

lemma write_loop_result:
  assumes g: "good_blocks K C"
  shows "file_ok C cs fp fs \<Longrightarrow> fat_sane C fs \<Longrightarrow> unat btw \<le> length wb \<Longrightarrow> unat (fptr fp) + unat btw < 2 ^ 32 \<Longrightarrow>
    \<exists>n fp' fs' cs'. fwrite_loop K btw wb bw fp fs = Some (FR_OK, bw + n, fp', fs') \<and> write_result C cs btw wb fp fs n fp' fs' cs'"
proof (induction "unat btw" arbitrary: btw wb bw cs fp fs rule: less_induct)
  case less
  let ?p = "unat (fptr fp)" and ?s = "unat (objsize (f_obj fp))"
  have f: "file_ok C cs fp fs" and sane: "fat_sane C fs" and n: "unat btw \<le> length wb" "?p + unat btw < 2 ^ 32" by fact+
  have ps: "?p \<le> ?s" "?s \<le> 512 * n_sects fs cs" using f by (simp_all add: file_ok_def pos_ok_def pos_base_def word_le_nat_alt)
  show ?case
  proof (cases "btw = 0")
    case True
    have "fwrite_loop K btw wb bw fp fs = Some (FR_OK, bw + 0, mark_modified fp, fs)"
      using True by (subst fwrite_loop.simps) (simp add: mark_modified_def)
    moreover have "write_result C cs btw wb fp fs 0 (mark_modified fp) fs cs"
      using True f sane ps wrote_nil[OF ps(1)] by (simp add: write_result_def max_def)
    ultimately show ?thesis by blast
  next
    case False
    then have pos: "0 < btw" by (simp add: word_neq_0_conv)
    from write_step_round[OF g f sane pos n] show ?thesis
    proof (elim disjE)
      assume "full_round C cs fp fs (write_step K btw wb fp fs)"
      then obtain fs' where st: "write_step K btw wb fp fs = Some (Inl None, fp, fs')" and gr: "grown C cs fp fs cs fp fs'" and full: "volume_full C fs'"
        by (auto simp: full_round_def)
      have "fwrite_loop K btw wb bw fp fs = Some (FR_OK, bw + 0, mark_modified fp, fs')"
        using False st by (subst fwrite_loop.simps) (simp add: mark_modified_def)
      moreover have "pos_ok cs fp fs'" using f gr file_sect_geo[of fs fs'] same_geoD(7)[of fs fs']
        by (auto simp: file_ok_def pos_ok_def pos_base_def grown_def)
      then have "file_ok C cs fp fs'" "fat_sane C fs'" using gr by (simp_all add: file_ok_def grown_def open_core_def)
      then have "write_result C cs btw wb fp fs 0 (mark_modified fp) fs' cs"
        using full ps grown_wrote[OF gr ps(2,1)] by (simp add: write_result_def max_def)
      ultimately show ?thesis by blast
    next
      assume "one_write C cs btw wb fp fs (write_step K btw wb fp fs)"
      then obtain k fp1 fs1 cs1 where st: "write_step K btw wb fp fs = Some (Inr k, fp1, fs1)" and o: "same_open fp fp1" "fptr fp1 = fptr fp"
        "objsize (f_obj fp1) = objsize (f_obj fp)" "0 < k" "k \<le> btw" "file_ok C cs1 (advance k fp1) fs1" "fat_sane C fs1"
        "unat (objsize (f_obj (advance k fp1))) = max ?s (?p + unat k)" and w: "wrote C ?p ?s (take (unat k) wb) cs fp fs cs1 fp1 fs1"
        by (auto simp: one_write_def)
      have kb: "unat k \<le> unat btw" "0 < unat k" using o(4,5) by (simp_all add: word_le_nat_alt word_less_nat_alt)
      have ub: "unat (btw - k) = unat btw - unat k" using o(5) by (simp add: unat_sub)
      have uf: "unat (fptr fp + k) = ?p + unat k" using n(2) kb by (intro unat_add_lem[THEN iffD1]) simp
      have lk: "length (take (unat k) wb) = unat k" using n(1) kb by simp
      have rec: "fwrite_loop K btw wb bw fp fs = fwrite_loop K (btw - k) (drop (unat k) wb) (bw + k) (advance k fp1) fs1"
        using False st by (subst fwrite_loop.simps) (simp add: advance_def Let_def)
      have "\<exists>m fp' fs' cs'. fwrite_loop K (btw - k) (drop (unat k) wb) (bw + k) (advance k fp1) fs1 = Some (FR_OK, bw + k + m, fp', fs') \<and>
          write_result C cs1 (btw - k) (drop (unat k) wb) (advance k fp1) fs1 m fp' fs' cs'"
        using n kb ub uf o(2) by (intro less.hyps o) simp_all
      then obtain m fp' fs' cs' where l: "fwrite_loop K (btw - k) (drop (unat k) wb) (bw + k) (advance k fp1) fs1 = Some (FR_OK, bw + k + m, fp', fs')"
        and r: "write_result C cs1 (btw - k) (drop (unat k) wb) (advance k fp1) fs1 m fp' fs' cs'" by blast
      have m: "unat m \<le> unat btw - unat k" using r ub by (simp add: write_result_def word_le_nat_alt)
      have um: "unat (k + m) = unat k + unat m" using m kb n(2) by (intro unat_add_lem[THEN iffD1]) simp
      have "wrote C (?p + unat k) (max ?s (?p + unat k)) (take (unat m) (drop (unat k) wb)) cs1 fp1 fs1 cs' fp' fs'"
        using r o(2,8) uf by (simp add: write_result_def)
      then have "wrote C ?p ?s (take (unat k) wb @ take (unat m) (drop (unat k) wb)) cs fp fs cs' fp' fs'"
        using wrote_trans[OF w _ ps(1)] lk by simp
      then have w': "wrote C ?p ?s (take (unat (k + m)) wb) cs fp fs cs' fp' fs'" by (simp add: um take_add)
      have "write_result C cs btw wb fp fs (k + m) fp' fs' cs'"
      proof -
        have "k + m \<le> btw" using um m kb by (simp add: word_le_nat_alt)
        moreover have "m < btw - k" if "k + m < btw" using that um ub by (simp add: word_less_nat_alt)
        moreover have "same_open (advance k fp1) fp'" using r by (simp add: write_result_def)
        then have "same_open fp fp'" by (rule same_open_trans[OF same_open_trans[OF o(1) advance_simps(9)]])
        moreover have "unat (objsize (f_obj fp')) = max ?s (?p + unat (k + m))" using r o(2,8) uf um by (simp add: write_result_def)
        ultimately show ?thesis using r w' o(2) by (auto simp: write_result_def add.assoc)
      qed
      then show ?thesis using rec l by (auto simp: add.assoc)
    qed
  qed
qed


lemma f_write_spec:
  assumes "good_blocks K C" "file_ok C cs fp (vol v)" "fat_sane C (vol v)" "validate (f_obj fp) v = FR_OK" "ferr fp = FR_OK"
    and "flag fp AND FA_WRITE \<noteq> 0" "unat btw \<le> length buff"
  shows "\<exists>n fp' fs' cs'. f_write K fp buff btw v = Some (FR_OK, n, fp', v\<lparr>vol := fs'\<rparr>) \<and>
    n \<le> btw \<and> (n < btw \<longrightarrow> volume_full C fs' \<or> unat (fptr fp) + unat btw \<ge> 2 ^ 32) \<and>
    file_ok C cs' fp' fs' \<and> fat_sane C fs' \<and> prefix cs cs' \<and> same_open fp fp' \<and> fptr fp' = fptr fp + n \<and>
    unat (objsize (f_obj fp')) = max (unat (objsize (f_obj fp))) (unat (fptr fp) + unat n) \<and>
    (\<forall>j < unat (objsize (f_obj fp')). file_byte C cs' fp' fs' j =
       (if unat (fptr fp) \<le> j \<and> j < unat (fptr fp) + unat n then buff ! (j - unat (fptr fp)) else file_byte C cs fp (vol v) j)) \<and>
    (\<forall>t. \<not> second_fat (vol v) t \<and> \<not> in_fat (vol v) t \<and> t \<notin> file_sects (vol v) cs' \<longrightarrow> view C fs' t = view C (vol v) t) \<and> same_geo (vol v) fs'"
proof -
  define b where "b = (if fptr fp + btw < fptr fp then 0xFFFFFFFF - fptr fp else btw)"
  have over: "fptr fp + btw < fptr fp \<longleftrightarrow> unat (fptr fp) + unat btw \<ge> 2 ^ 32"
    using no_olen_add_nat[of "fptr fp" btw] by (simp add: not_le[symmetric])
  have u: "unat (0xFFFFFFFF - fptr fp) = 2 ^ 32 - 1 - unat (fptr fp)"
    using unsigned_less[of "fptr fp", where 'a = nat] by (subst unat_sub) (simp_all add: word_le_nat_alt)
  have b: "unat (fptr fp) + unat b < 2 ^ 32" "unat b \<le> unat btw" "b \<noteq> btw \<Longrightarrow> unat (fptr fp) + unat btw \<ge> 2 ^ 32"
    using over u unsigned_less[of "fptr fp", where 'a = nat] unfolding b_def by (auto simp: not_le)
  obtain n fp' fs' cs' where l: "fwrite_loop K b buff 0 fp (vol v) = Some (FR_OK, 0 + n, fp', fs')" and r: "write_result C cs b buff fp (vol v) n fp' fs' cs'"
    using write_loop_result[OF assms(1-3) order.trans[OF b(2) assms(7)] b(1), of 0] by blast
  have nb: "unat n \<le> unat b" using r by (simp add: write_result_def word_le_nat_alt)
  have f: "f_write K fp buff btw v = Some (FR_OK, n, fp', v\<lparr>vol := fs'\<rparr>)"
    using l assms(4-6) by (simp add: f_write_def b_def[symmetric] Let_def)
  have ln: "length (take (unat n) buff) = unat n" using nb b(2) assms(7) by simp
  have "n \<le> btw" using nb b(2) by (simp add: word_le_nat_alt)
  moreover have "volume_full C fs' \<or> unat (fptr fp) + unat btw \<ge> 2 ^ 32" if "n < btw"
    using that r b(3) by (cases "b = btw") (auto simp: write_result_def)
  moreover have "file_byte C cs' fp' fs' j = (if unat (fptr fp) \<le> j \<and> j < unat (fptr fp) + unat n then buff ! (j - unat (fptr fp)) else file_byte C cs fp (vol v) j)"
    if "j < unat (objsize (f_obj fp'))" for j
    using that r ln by (auto simp: write_result_def wrote_def)
  moreover have "view C fs' t = view C (vol v) t" if "\<not> second_fat (vol v) t \<and> \<not> in_fat (vol v) t \<and> t \<notin> file_sects (vol v) cs'" for t
    using that r by (simp add: write_result_def wrote_def frame_def)
  moreover have "file_ok C cs' fp' fs'" "fat_sane C fs'" "prefix cs cs'" "same_open fp fp'" "fptr fp' = fptr fp + n" "same_geo (vol v) fs'"
    "unat (objsize (f_obj fp')) = max (unat (objsize (f_obj fp))) (unat (fptr fp) + unat n)"
    using r by (simp_all add: write_result_def wrote_def)
  ultimately show ?thesis using f by (intro exI[of _ n] exI[of _ fp'] exI[of _ fs'] exI[of _ cs'] conjI allI impI)
qed

text \<open>
  C36: A write to an open file on a working disk succeeds and stores the bytes of the buffer into the
  contents of the file from the position on; every other byte of the file keeps its value, the size becomes the larger
  of the old size and the end of the write, and the position moves behind the written bytes.  All bytes are written
  unless the volume has no free cluster left or the file would pass the largest size of 2 ^ 32 - 1 bytes.  The cluster chain
  is only stretched, the file object stays consistent, and no sector changes that is neither of the allocation tables
  nor of the file.
\<close>

theorem f_write_contents:
  assumes "good_blocks K C" "file_ok C cs fp (vol v)" "fat_sane C (vol v)" "validate (f_obj fp) v = FR_OK" "ferr fp = FR_OK"
    and "flag fp AND FA_WRITE \<noteq> 0" "unat btw \<le> length buff"
  shows "\<exists>n fp' fs' cs'. f_write K fp buff btw v = Some (FR_OK, n, fp', v\<lparr>vol := fs'\<rparr>) \<and>
    n \<le> btw \<and> (n < btw \<longrightarrow> volume_full C fs' \<or> unat (fptr fp) + unat btw \<ge> 2 ^ 32) \<and>
    file_ok C cs' fp' fs' \<and> fat_sane C fs' \<and> prefix cs cs' \<and> same_open fp fp' \<and> fptr fp' = fptr fp + n \<and>
    unat (objsize (f_obj fp')) = max (unat (objsize (f_obj fp))) (unat (fptr fp) + unat n) \<and>
    (\<forall>j < unat (objsize (f_obj fp')). file_byte C cs' fp' fs' j =
       (if unat (fptr fp) \<le> j \<and> j < unat (fptr fp) + unat n then buff ! (j - unat (fptr fp)) else file_byte C cs fp (vol v) j)) \<and>
    (\<forall>t. \<not> second_fat (vol v) t \<and> \<not> in_fat (vol v) t \<and> t \<notin> file_sects (vol v) cs' \<longrightarrow> view C fs' t = view C (vol v) t)"
  using f_write_spec[OF assms] by blast

definition demo_rw :: FIL where
  "demo_rw = demo_file\<lparr>flag := 3\<rparr>"

lemma demo_rw_ok: "file_ok ram_sector [2, 3] demo_rw (vol demo_vol)" "fat_sane ram_sector (vol demo_vol)"
  "validate (f_obj demo_rw) demo_vol = FR_OK" "ferr demo_rw = FR_OK" "flag demo_rw AND FA_READ \<noteq> 0" "flag demo_rw AND FA_WRITE \<noteq> 0"
proof -
  show "file_ok ram_sector [2, 3] demo_rw (vol demo_vol)"
    using demo_file_vol demo_sects
    by (auto simp: file_ok_def buf_ok_def pos_ok_def pos_base_def demo_rw_def demo_file_def less_2_cases_iff SS_def)
  have "c = 2 \<or> c = 3" if "c < unat (n_fatent (vol demo_vol))" "2 \<le> c" for c using that by (auto simp: demo_vol_def)
  then show "fat_sane ram_sector (vol demo_vol)" using demo_vals by (fastforce simp: fat_sane_def)
  show "validate (f_obj demo_rw) demo_vol = FR_OK" "ferr demo_rw = FR_OK" "flag demo_rw AND FA_READ \<noteq> 0" "flag demo_rw AND FA_WRITE \<noteq> 0"
    by (simp_all add: validate_def demo_rw_def demo_file_def demo_vol_def ram_volume_def FS_FAT12_def disk_status_def)
qed

theorem f_write_contents_witness:
  "\<exists>n fp' v'. f_write ram_blocks demo_rw [5, 6] 2 demo_vol = Some (FR_OK, n, fp', v') \<and> n \<le> 2 \<and> unat (objsize (f_obj fp')) = 520"
proof -
  have "unat (2 :: u32) \<le> length [5, 6 :: u8]" by simp
  from f_write_contents[OF ram_blocks_good demo_rw_ok(1-4,6) this] show ?thesis
    by (auto simp: demo_rw_def demo_file_def word_le_nat_alt max_def)
qed

end
