(* ===== verification/Fat_Seek.thy ===== *)
theory Fat_Seek
  imports Fat_Write
begin

text \<open>
  Seeking within a file, and the three operations together: what is written at a position is what a read returns after a
  seek back to it.
\<close>

section \<open>Positions as clusters\<close>

lemma and_not_mask_nat: "unat (x AND NOT (mask n)) = unat x div 2 ^ n * 2 ^ n" for x :: u32
proof -
  have "x AND NOT (mask n) = push_bit n (drop_bit n x)"
    by (rule bit_word_eqI) (auto simp: bit_simps not_less dest: bit_imp_le_length)
  moreover have "unat x div 2 ^ n * 2 ^ n < 2 ^ 32"
    by (rule order.strict_trans1[OF div_times_less_eq_dividend]) (use unsigned_less[of x, where 'a = nat] in simp)
  moreover have "unat (push_bit n (drop_bit n x)) = take_bit 32 (push_bit n (drop_bit n (unat x)))"
    by (simp only: unsigned_push_bit_eq unat_drop_bit_eq) simp
  ultimately show ?thesis by (simp only: push_bit_eq_mult drop_bit_eq_div take_bit_nat_eq_self)
qed

definition clust_bytes :: "'d fatfs \<Rightarrow> nat" where
  "clust_bytes fs = 512 * unat (csize fs)"

lemma bcs_nat:
  assumes "geo_ok fs"
  shows "unat (ucast (csize fs) * SS :: u32) = clust_bytes fs" "0 < clust_bytes fs"
    "unat (x AND NOT (ucast (csize fs) * SS - 1)) = unat x div clust_bytes fs * clust_bytes fs"
proof -
  obtain k where k: "unat (csize fs) = 2 ^ k" using assms by (auto simp: geo_ok_def)
  have z: "unat (csize fs) < 2 ^ 16" using unsigned_less[of "csize fs", where 'a = nat] by simp
  show b: "unat (ucast (csize fs) * SS :: u32) = clust_bytes fs"
    using z by (subst unat_mult_lem[THEN iffD1]) (simp_all add: SS_def unat_ucast_up clust_bytes_def)
  show "0 < clust_bytes fs" using csize_pos[OF assms] by (simp add: clust_bytes_def)
  have "(2::nat) ^ k < 2 ^ 16" using z k by simp
  then have k16: "k < 16" by (rule power_less_imp_less_exp[rotated]) simp
  have c: "clust_bytes fs = 2 ^ (k + 9)" by (simp add: clust_bytes_def k power_add)
  have "unat (2 ^ (k + 9) :: u32) = 2 ^ (k + 9)"
    using unat_of_nat32[of "2 ^ (k + 9)"] power_strict_increasing[of "k + 9" 32 "2::nat"] k16 by simp
  then have "(ucast (csize fs) * SS :: u32) = 2 ^ (k + 9)" using b c by (simp only: word_unat_eq_iff)
  then have "(ucast (csize fs) * SS - 1 :: u32) = mask (k + 9)" by (simp add: mask_eq_decr_exp)
  then show "unat (x AND NOT (ucast (csize fs) * SS - 1)) = unat x div clust_bytes fs * clust_bytes fs"
    using and_not_mask_nat[of x "k + 9"] c by simp
qed

lemma last_cluster:
  assumes "0 < t" "t \<le> 512 * n_sects fs cs" "0 < clust_bytes fs"
  shows "(t - 1) div clust_bytes fs < length cs"
proof -
  have "t - 1 < length cs * clust_bytes fs" using assms by (simp add: n_sects_def clust_bytes_def mult.commute mult.left_commute)
  then show ?thesis by (rule less_mult_imp_div_less)
qed

lemma cluster_index: "x div 512 div unat (csize fs) = x div clust_bytes fs"
  by (simp add: clust_bytes_def div_mult2_eq)

section \<open>Following the chain\<close>

lemma open_core_fptr:
  assumes "open_core C cs fp fs" "x \<le> objsize (f_obj fp)"
  shows "open_core C cs (fp\<lparr>fptr := x, clust := c\<rparr>) fs"
  using assms by (simp add: open_core_def pos_base_def buf_ok_def)

lemma same_fat_core: "open_core C cs fp fs \<Longrightarrow> same_fat C fs fs' \<Longrightarrow> open_core C cs fp fs'"
  using same_fat_grown[of C cs fp fs fs' "clust fp"] by (simp add: grown_def)

lemma next_cluster:
  assumes g: "good_disk K C" and c: "open_core C cs fp fs" and m: "Suc m < length cs"
  shows "\<exists>fs'. (if w then create_chain K (cs ! m) fs else get_fat K (cs ! m) fs) = Some (cs ! Suc m, fs') \<and> same_fat C fs fs'"
proof (cases w)
  case True
  then show ?thesis using create_chain_next[OF g c m] by simp
next
  case False
  note cd = open_coreD[OF c]
  have "cs \<noteq> []" "cluster fs (cs ! m)" using m file_volD(3)[OF cd(1)] by auto
  then show ?thesis
    using False get_fat_val[OF g cd(5)] chain_step[OF file_volD(4)[OF cd(1)] m] by force
qed

lemma seek_follow_ok:
  assumes g: "good_disk K C"
  shows "open_core C cs fp fs \<Longrightarrow> clst = cs ! m \<Longrightarrow> clust fp = clst \<Longrightarrow> unat (fptr fp) = m * clust_bytes fs \<Longrightarrow> 0 < unat ofs \<Longrightarrow>
    m * clust_bytes fs + unat ofs = t \<Longrightarrow> t \<le> unat (objsize (f_obj fp)) \<Longrightarrow> d = (t - 1) div clust_bytes fs \<Longrightarrow>
    \<exists>x ofs' fs'. seek_follow K (ucast (csize fs) * SS) clst ofs fp fs = Some (Inr (cs ! d, ofs'), fp\<lparr>fptr := x, clust := cs ! d\<rparr>, fs') \<and>
      unat x = d * clust_bytes fs \<and> unat x + unat ofs' = t \<and> same_fat C fs fs'"
proof (induction "unat ofs" arbitrary: clst m ofs fp fs rule: less_induct)
  case less
  let ?B = "clust_bytes fs" and ?b = "ucast (csize fs) * SS :: u32"
  have c: "open_core C cs fp fs" by fact
  note cd = open_coreD[OF c] and h = less.prems(2-)
  note b = bcs_nat[OF cd(6)]
  have size: "unat (objsize (f_obj fp)) \<le> 512 * n_sects fs cs" using cd(3) by (simp add: pos_base_def)
  have len: "d < length cs" using last_cluster[of t fs cs] h size b(2) by simp
  show ?case
  proof (cases "ofs > ?b")
    case False
    then have "unat ofs \<le> ?B" using b(1) by (simp add: word_less_nat_alt)
    then have "(t - 1) div ?B = m" using h(4,5) by (intro div_nat_eqI) (auto simp: algebra_simps)
    then have d: "d = m" using h(7) by simp
    have "seek_follow K ?b clst ofs fp fs = Some (Inr (cs ! d, ofs), fp, fs)" using False h(1) d by (subst seek_follow.simps) simp
    moreover have "fp\<lparr>fptr := fptr fp, clust := cs ! d\<rparr> = fp" unfolding d using h(1,2) by simp
    moreover have "same_fat C fs fs" using cd(5) by (simp add: same_fat_def)
    ultimately show ?thesis using h(3,5) d by (intro exI[of _ "fptr fp"] exI[of _ ofs] exI[of _ fs]) simp
  next
    case True
    then have lt: "?B < unat ofs" using b(1) by (simp add: word_less_nat_alt)
    have uo: "unat (ofs - ?b) = unat ofs - ?B" using True b(1) by (simp add: unat_sub less_imp_le)
    have le: "(m + 1) * ?B < t" using lt h(5) by (simp add: algebra_simps)
    then have "(m + 1) * ?B \<le> t - 1" by simp
    then have "m + 1 \<le> d" using h(7) b(2) by (simp add: less_eq_div_iff_mult_less_eq)
    then have m1: "Suc m < length cs" using len by simp
    have uf: "unat (fptr fp + ?b) = (m + 1) * ?B"
      using h(3,5,6) b(1) le unsigned_less[of "objsize (f_obj fp)", where 'a = nat] by (subst unat_add_lem[THEN iffD1]) simp_all
    obtain fs1 where f: "(if flag fp AND FA_WRITE \<noteq> 0 then create_chain K (cs ! m) fs else get_fat K (cs ! m) fs) = Some (cs ! Suc m, fs1)" "same_fat C fs fs1"
      using next_cluster[OF g c m1] by blast
    note fd = same_fatD[OF f(2) cd(5)]
    have cl: "cluster fs (cs ! Suc m)" using m1 file_volD(3)[OF cd(1)] by simp
    have n: "cs ! Suc m \<noteq> 0" "cs ! Suc m \<noteq> 0xFFFFFFFF" "\<not> (cs ! Suc m \<le> 1 \<or> cs ! Suc m \<ge> n_fatent fs1)"
      using cl unsigned_less[of "n_fatent fs", where 'a = nat] same_volD(11)[OF fd(1)] by (auto simp: cluster_nat word_le_nat_alt)
    let ?fp = "fp\<lparr>fptr := fptr fp + ?b, clust := cs ! Suc m\<rparr>"
    have r: "seek_follow K ?b clst ofs fp fs = seek_follow K ?b (cs ! Suc m) (ofs - ?b) ?fp fs1"
      using True f(1) n h(1) by (subst seek_follow.simps) (auto simp: Let_def split: if_splits)
    have "fptr fp + ?b \<le> objsize (f_obj fp)" using uf le h(6) by (simp add: word_le_nat_alt)
    then have c1: "open_core C cs ?fp fs1" by (rule open_core_fptr[OF same_fat_core[OF c f(2)]])
    have bs: "csize fs1 = csize fs" "clust_bytes fs1 = ?B" using same_volD(7)[OF fd(1)] by (simp_all add: clust_bytes_def)
    have "\<exists>x ofs' fs'. seek_follow K (ucast (csize fs1) * SS) (cs ! Suc m) (ofs - ?b) ?fp fs1 = Some (Inr (cs ! d, ofs'), ?fp\<lparr>fptr := x, clust := cs ! d\<rparr>, fs') \<and>
        unat x = d * clust_bytes fs1 \<and> unat x + unat ofs' = t \<and> same_fat C fs1 fs'"
      using uo lt b(2) uf h(5-7) bs by (intro less.hyps[OF _ c1 refl]) (simp_all add: algebra_simps)
    then show ?thesis using r bs same_fat_trans[OF f(2)] by auto
  qed
qed


section \<open>The seek\<close>

lemma seek_start_ok:
  assumes f: "file_ok C cs fp fs" and o: "0 < ofs" "ofs \<le> objsize (f_obj fp)"
  shows "\<exists>x m ofs'. seek_start K (ucast (csize fs) * SS) (fptr fp) ofs (fp\<lparr>fptr := 0\<rparr>) fs =
      Some (Inr (cs ! m, ofs'), fp\<lparr>fptr := x, clust := cs ! m\<rparr>, fs) \<and> unat x = m * clust_bytes fs \<and> 0 < unat ofs' \<and>
      m * clust_bytes fs + unat ofs' = unat ofs \<and> m < length cs"
proof -
  let ?B = "clust_bytes fs" and ?b = "ucast (csize fs) * SS :: u32" and ?p = "fptr fp"
  have v: "file_vol C cs fs" and p: "pos_ok cs fp fs" using f by (simp_all add: file_ok_def)
  have pb: "pos_base cs fp fs" using p by (simp add: pos_ok_def)
  note gf = file_volD(2)[OF v]
  note b = bcs_nat[OF gf]
  have o0: "0 < unat ofs" and size: "unat ofs \<le> 512 * n_sects fs cs" "unat ?p \<le> 512 * n_sects fs cs"
    using o pb by (auto simp: word_less_nat_alt word_le_nat_alt pos_base_def)
  have m1: "unat (x - 1) = unat x - 1" if "0 < x" for x :: u32 using that by (simp add: unat_sub word_le_nat_alt word_less_nat_alt)
  show ?thesis
  proof (cases "?p > 0 \<and> (ofs - 1) div ?b \<ge> (?p - 1) div ?b")
    case True
    let ?m = "(unat ?p - 1) div ?B" and ?x = "(?p - 1) AND NOT (?b - 1)"
    have x: "unat ?x = ?m * ?B" using b(3)[of "?p - 1"] m1 True by simp
    have "?m \<le> (unat ofs - 1) div ?B" using True m1[OF o(1)] m1[of ?p] b(1) by (simp add: word_le_nat_alt unat_div)
    then have "?m * ?B \<le> (unat ofs - 1) div ?B * ?B" by simp
    then have lt: "?m * ?B < unat ofs" using div_times_less_eq_dividend[of "unat ofs - 1" ?B] o0 by linarith
    then have "?x \<le> ofs" using x by (simp add: word_le_nat_alt)
    then have u: "unat (ofs - ?x) = unat ofs - ?m * ?B" using x by (simp add: unat_sub)
    have "clust fp = cs ! ?m" using p True by (auto simp: pos_ok_def cluster_index)
    then have "seek_start K ?b ?p ofs (fp\<lparr>fptr := 0\<rparr>) fs = Some (Inr (cs ! ?m, ofs - ?x), fp\<lparr>fptr := ?x, clust := cs ! ?m\<rparr>, fs)"
      using True by (simp add: seek_start_def Let_def)
    moreover have "?m < length cs" using last_cluster[OF _ size(2) b(2)] True by (simp add: word_less_nat_alt)
    ultimately show ?thesis using x u lt by (intro exI[of _ ?x] exI[of _ ?m] exI[of _ "ofs - ?x"]) simp
  next
    case False
    have ne: "cs \<noteq> []" using last_cluster[OF o0 size(1) b(2)] by auto
    then have s: "sclust (f_obj fp) = cs ! 0" "cs ! 0 \<noteq> 0"
      using pb file_volD(3)[OF v, of "hd cs"] by (auto simp: pos_base_def hd_conv_nth cluster_nat)
    have "seek_start K ?b ?p ofs (fp\<lparr>fptr := 0\<rparr>) fs = Some (Inr (cs ! 0, ofs), fp\<lparr>fptr := 0, clust := cs ! 0\<rparr>, fs)"
      unfolding seek_start_def if_not_P[OF False] using s by (simp add: Let_def)
    then show ?thesis using o0 ne by (intro exI[of _ 0] exI[of _ 0] exI[of _ ofs]) simp
  qed
qed

lemma open_core_zero: "open_core C cs fp fs \<Longrightarrow> open_core C cs (fp\<lparr>fptr := 0\<rparr>) fs"
  by (simp add: open_core_def pos_base_def)

lemma seek_walk_ok:
  assumes g: "good_disk K C" and f: "file_ok C cs fp fs" and sane: "fat_sane C fs" and o: "ofs \<le> objsize (f_obj fp)"
  shows "\<exists>ns c fs'. seek_walk K ofs fp fs = Some (Inr ns, fp\<lparr>fptr := ofs, clust := c\<rparr>, fs') \<and> same_fat C fs fs' \<and>
    (ofs \<noteq> 0 \<longrightarrow> c = cs ! ((unat ofs - 1) div 512 div unat (csize fs))) \<and>
    (ofs mod SS \<noteq> 0 \<longrightarrow> unat ofs div 512 < n_sects fs cs \<and> ns = file_sect fs cs (unat ofs div 512))"
proof -
  have c: "open_core C cs fp fs" using f sane by (simp add: file_ok_def open_core_def pos_ok_def)
  note cd = open_coreD[OF c]
  note b = bcs_nat[OF cd(6)]
  let ?B = "clust_bytes fs" and ?b = "ucast (csize fs) * SS :: u32"
  have size: "unat ofs \<le> 512 * n_sects fs cs" using o cd(3) by (auto simp: pos_base_def word_le_nat_alt)
  show ?thesis
  proof (cases "ofs > 0")
    case False
    then have "ofs = 0" by (simp add: word_gt_0)
    moreover have "same_fat C fs fs" using cd(5) by (simp add: same_fat_def)
    ultimately show ?thesis by (intro exI[of _ 0] exI[of _ "clust fp"] exI[of _ fs]) (simp add: seek_walk_def Let_def SS_def)
  next
    case True
    obtain x m ofs1 where st: "seek_start K ?b (fptr fp) ofs (fp\<lparr>fptr := 0\<rparr>) fs = Some (Inr (cs ! m, ofs1), fp\<lparr>fptr := x, clust := cs ! m\<rparr>, fs)"
      and h: "unat x = m * ?B" "0 < unat ofs1" "m * ?B + unat ofs1 = unat ofs" "m < length cs"
      using seek_start_ok[OF f True o] by blast
    define d where "d = (unat ofs - 1) div ?B"
    have "x \<le> objsize (f_obj fp)" using h o by (auto simp: word_le_nat_alt)
    then have c1: "open_core C cs (fp\<lparr>fptr := x, clust := cs ! m\<rparr>) fs" by (rule open_core_fptr[OF c])
    have t: "unat ofs \<le> unat (objsize (f_obj (fp\<lparr>fptr := x, clust := cs ! m\<rparr>)))" using o by (simp add: word_le_nat_alt)
    obtain y ofs2 fs' where fo: "seek_follow K ?b (cs ! m) ofs1 (fp\<lparr>fptr := x, clust := cs ! m\<rparr>) fs = Some (Inr (cs ! d, ofs2), fp\<lparr>fptr := y, clust := cs ! d\<rparr>, fs')"
      and y: "unat y = d * ?B" "unat y + unat ofs2 = unat ofs" and sf: "same_fat C fs fs'"
      using seek_follow_ok[OF g c1 refl _ _ h(2,3) t d_def] h(1) by auto
    note fd = same_fatD[OF sf cd(5)]
    have len: "d < length cs" using last_cluster[OF _ size b(2)] True by (simp add: d_def word_less_nat_alt)
    have o0: "0 < unat ofs" using True by (simp add: word_less_nat_alt)
    have "unat ofs - 1 < d * ?B + ?B" using b(2) dividend_less_times_div[of ?B "unat ofs - 1"] by (simp add: d_def mult.commute)
    then have o2: "unat ofs2 \<le> ?B" using y o0 by linarith
    have yo: "y + ofs2 = ofs" using y by (metis of_nat_add of_nat_unat ucast_id)
    have nz: "cs ! m \<noteq> 0" using file_volD(3)[OF cd(1), of "cs ! m"] h(4) by (auto simp: cluster_nat)
    have cl: "cluster fs' (cs ! d)" using file_volD(3)[OF cd(1), of "cs ! d"] len by (simp add: cluster_def same_volD[OF fd(1)])
    have gf': "geo_ok fs'" using cd(6) geo_cong[OF fd(3)] by simp
    have cz: "clst2sect (cs ! d) fs' \<noteq> 0" by (rule clst2sect_nat(2)[OF gf' cl])
    let ?ns = "if ofs2 mod SS \<noteq> 0 then clst2sect (cs ! d) fs' + ofs2 div SS else 0"
    have w: "seek_walk K ofs fp fs = Some (Inr ?ns, fp\<lparr>fptr := ofs, clust := cs ! d\<rparr>, fs')"
      using True st fo nz cz yo by (simp add: seek_walk_def Let_def)
    have ce: "cs ! d = cs ! ((unat ofs - 1) div 512 div unat (csize fs))" by (simp add: d_def cluster_index)
    have "unat ofs div 512 < n_sects fs cs \<and> ?ns = file_sect fs cs (unat ofs div 512)" if a: "ofs mod SS \<noteq> 0"
    proof -
      let ?z = "unat (csize fs)" and ?i = "unat ofs2 div 512"
      have e: "unat ofs = unat ofs2 + 512 * (d * ?z)" using y by (simp add: clust_bytes_def mult.commute mult.left_commute)
      have am: "unat ofs2 mod 512 \<noteq> 0" using a e by (simp add: aligned_nat)
      then have "unat ofs2 \<noteq> ?B" by (auto simp: clust_bytes_def)
      then have "unat ofs2 < ?z * 512" using o2 by (simp add: clust_bytes_def)
      then have i: "?i < ?z" by (rule less_mult_imp_div_less)
      have q: "unat ofs div 512 = ?i + d * ?z" unfolding e by simp
      have dm: "(unat ofs div 512) div ?z = d" "(unat ofs div 512) mod ?z = ?i" unfolding q using i by simp_all
      have "unat (ofs2 div SS) = ?i" by (simp add: SS_def unat_div)
      then have "of_nat ?i = ofs2 div SS" by (metis of_nat_unat ucast_id)
      then have "clst2sect (cs ! d) fs' + ofs2 div SS = file_sect fs' cs (unat ofs div 512)"
        by (simp add: file_sect_def same_volD[OF fd(1)] dm)
      moreover have "unat ofs div 512 < n_sects fs cs"
      proof -
        have "?i + d * ?z < (d + 1) * ?z" using i by simp
        also have "\<dots> \<le> length cs * ?z" using len by (intro mult_le_mono1) simp
        finally show ?thesis unfolding q n_sects_def .
      qed
      ultimately show ?thesis using am by (simp add: aligned_nat file_sect_cong[OF fd(1)])
    qed
    then have ns: "ofs mod SS \<noteq> 0 \<longrightarrow> unat ofs div 512 < n_sects fs cs \<and> ?ns = file_sect fs cs (unat ofs div 512)" by blast
    show ?thesis by (intro exI[of _ ?ns] exI[of _ "cs ! d"] exI[of _ fs'] conjI impI) (rule w sf ce ns[THEN mp, THEN conjunct1] ns[THEN mp, THEN conjunct2] | assumption)+
  qed
qed


lemma f_lseek_spec:
  assumes g: "good_disk K C" and f: "file_ok C cs fp (vol v)" and sane: "fat_sane C (vol v)" and val: "validate (f_obj fp) v = FR_OK" "ferr fp = FR_OK"
    and o: "ofs \<le> objsize (f_obj fp)"
  shows "\<exists>fp' fs'. f_lseek K fp ofs v = Some (FR_OK, fp', v\<lparr>vol := fs'\<rparr>) \<and> fptr fp' = ofs \<and> same_handle fp fp' \<and>
    file_ok C cs fp' fs' \<and> same_file C cs fp (vol v) fp' fs'"
proof -
  let ?fs = "vol v"
  obtain ns c fs1 where w: "seek_walk K ofs fp ?fs = Some (Inr ns, fp\<lparr>fptr := ofs, clust := c\<rparr>, fs1)" and sf: "same_fat C ?fs fs1"
    and cl: "ofs \<noteq> 0 \<longrightarrow> c = cs ! ((unat ofs - 1) div 512 div unat (csize ?fs))"
    and se: "ofs mod SS \<noteq> 0 \<longrightarrow> unat ofs div 512 < n_sects ?fs cs \<and> ns = file_sect ?fs cs (unat ofs div 512)"
    using seek_walk_ok[OF g f sane o] by (elim exE conjE) (rule that)
  let ?fp = "fp\<lparr>fptr := ofs, clust := c\<rparr>"
  have v: "file_vol C cs ?fs" and b: "buf_ok C cs fp ?fs" and pb: "pos_base cs fp ?fs" using f by (simp_all add: file_ok_def pos_ok_def)
  note sd = same_fat_data[OF v sf]
  note sv = same_data_vol[OF sd]
  note cg = file_sect_cong[OF sv(1)] same_volD(7)[OF sv(1)]
  have b1: "buf_ok C cs ?fp fs1" using same_data_buf[OF sd b] by (simp add: buf_ok_def)
  have s1: "same_file C cs fp ?fs ?fp fs1" using same_data_file[OF sd, of fp] by (simp add: same_file_def file_data_def)
  have pos: "pos_ok cs fp' fs'" if "fptr fp' = ofs" "clust fp' = c" "f_obj fp' = f_obj fp" "same_vol fs1 fs'"
    "ofs mod SS \<noteq> 0 \<Longrightarrow> sect fp' = ns" for fp' fs'
    using that pb o cl se file_sect_cong[OF that(4)] same_volD(7)[OF that(4)] by (simp add: pos_ok_def pos_base_def cg)
  have l: "f_lseek K fp ofs v = (if ofs mod SS \<noteq> 0 \<and> ns \<noteq> sect fp then
      (case read_load K ns ?fp fs1 of None \<Rightarrow> None | Some (k, fp, fs) \<Rightarrow>
        Some (if \<not> k then (FR_DISK_ERR, fp\<lparr>ferr := FR_DISK_ERR\<rparr>, v\<lparr>vol := fs\<rparr>) else (FR_OK, fp\<lparr>sect := ns\<rparr>, v\<lparr>vol := fs\<rparr>)))
      else Some (FR_OK, ?fp, v\<lparr>vol := fs1\<rparr>))"
    using val o w by (auto simp: f_lseek_def Let_def not_less split: option.split)
  show ?thesis
  proof (cases "ofs mod SS \<noteq> 0 \<and> ns \<noteq> sect fp")
    case False
    have "pos_ok cs ?fp fs1" using False by (intro pos) auto
    then have "file_ok C cs ?fp fs1" using sv(2) b1 by (simp add: file_ok_def)
    moreover have "same_handle fp ?fp" by (simp add: same_handle_def)
    ultimately show ?thesis using l s1 False by (intro exI[of _ ?fp] exI[of _ fs1]) auto
  next
    case True
    let ?k = "unat ofs div 512"
    have k: "?k < n_sects fs1 cs" "ns = file_sect fs1 cs ?k" using True se by (simp_all add: cg)
    obtain fl d where lf: "fl AND 0x3F = flag ?fp AND 0x3F"
      and r: "read_load K ns ?fp fs1 = Some (True, ?fp\<lparr>flag := fl, fbuf := file_data C cs ?fp fs1 ?k\<rparr>, fs1\<lparr>disk := d\<rparr>)"
      and v2: "file_vol C cs (fs1\<lparr>disk := d\<rparr>)"
      and b2: "buf_ok C cs (?fp\<lparr>flag := fl, fbuf := file_data C cs ?fp fs1 ?k, sect := ns\<rparr>) (fs1\<lparr>disk := d\<rparr>)"
      and s2: "same_file C cs ?fp fs1 (?fp\<lparr>flag := fl, fbuf := file_data C cs ?fp fs1 ?k, sect := ns\<rparr>) (fs1\<lparr>disk := d\<rparr>)"
      using read_load_data[OF g sv(2) b1 k(1)] unfolding k(2) by blast
    let ?fp' = "?fp\<lparr>flag := fl, fbuf := file_data C cs ?fp fs1 ?k, sect := ns\<rparr>"
    have "file_ok C cs ?fp' (fs1\<lparr>disk := d\<rparr>)" using v2 b2 pos[of ?fp' "fs1\<lparr>disk := d\<rparr>"] by (simp add: file_ok_def)
    moreover have "same_handle fp ?fp'" using lf by (simp add: same_handle_def)
    moreover have "f_lseek K fp ofs v = Some (FR_OK, ?fp', v\<lparr>vol := fs1\<lparr>disk := d\<rparr>\<rparr>)" using l True r by simp
    ultimately show ?thesis using same_file_trans[OF s1 s2] by (intro exI[of _ ?fp'] exI[of _ "fs1\<lparr>disk := d\<rparr>"]) simp
  qed
qed


section \<open>Writing, seeking back and reading\<close>

lemma mode_bits:
  assumes "f AND 0x3F = g AND (0x3F :: u8)"
  shows "f AND FA_READ = g AND FA_READ" "f AND FA_WRITE = g AND FA_WRITE"
proof -
  have e: "x AND FA_READ = (x AND 0x3F) AND FA_READ" "x AND FA_WRITE = (x AND 0x3F) AND FA_WRITE" for x :: u8 by (simp_all add: and.assoc)
  show "f AND FA_READ = g AND FA_READ" by (subst (1 2) e(1)) (simp only: assms)
  show "f AND FA_WRITE = g AND FA_WRITE" by (subst (1 2) e(2)) (simp only: assms)
qed

lemma validate_geo:
  assumes "same_geo (vol v) fs'" "ob_fs ob' = ob_fs ob" "ob_id ob' = ob_id ob"
  shows "validate ob' (v\<lparr>vol := fs'\<rparr>) = validate ob v"
  using assms by (simp add: validate_def same_geo_def same_vol_iff)

text \<open>
  C37: what is written to a file is what is read back.  On a working disk, a write at the position of an
  open file, a seek back to that position and a read of the number of bytes that the write reports all succeed, and the
  read returns exactly the bytes written.
\<close>

theorem write_seek_read:
  assumes "good_blocks K C" "file_ok C cs fp (vol v)" "fat_sane C (vol v)" "validate (f_obj fp) v = FR_OK" "ferr fp = FR_OK"
    and "flag fp AND FA_READ \<noteq> 0" "flag fp AND FA_WRITE \<noteq> 0" "unat btw \<le> length buff"
  shows "\<exists>n fp1 v1 fp2 v2 fp3 v3. f_write K fp buff btw v = Some (FR_OK, n, fp1, v1) \<and> f_lseek K fp1 (fptr fp) v1 = Some (FR_OK, fp2, v2) \<and>
    f_read K fp2 n v2 = Some (FR_OK, take (unat n) buff, fp3, v3)"
proof -
  let ?p = "unat (fptr fp)"
  obtain n fp1 fs1 cs1 where w: "f_write K fp buff btw v = Some (FR_OK, n, fp1, v\<lparr>vol := fs1\<rparr>)" "n \<le> btw"
    "file_ok C cs1 fp1 fs1" "fat_sane C fs1" "same_open fp fp1" "unat (objsize (f_obj fp1)) = max (unat (objsize (f_obj fp))) (?p + unat n)"
    "\<forall>j < unat (objsize (f_obj fp1)). file_byte C cs1 fp1 fs1 j = (if ?p \<le> j \<and> j < ?p + unat n then buff ! (j - ?p) else file_byte C cs fp (vol v) j)"
    "same_geo (vol v) fs1"
    using f_write_spec[OF assms(1-5,7,8)] by blast
  have gd: "good_disk K C" using assms(1) by (simp add: good_blocks_def)
  have le: "fptr fp \<le> objsize (f_obj fp1)"
    using w(6) by (simp add: word_le_nat_alt)
  let ?v1 = "v\<lparr>vol := fs1\<rparr>"
  have o1: "ob_fs (f_obj fp1) = ob_fs (f_obj fp)" "ob_id (f_obj fp1) = ob_id (f_obj fp)"
    using w(5) unfolding same_open_def by (metis FFOBJID.select_convs(1,2) FFOBJID.surjective FFOBJID.update_convs(5,6))+
  have val1: "validate (f_obj fp1) ?v1 = FR_OK" "ferr fp1 = FR_OK" "flag fp1 AND 0x3F = flag fp AND 0x3F"
    using validate_geo[OF w(8) o1] assms(4,5) w(5) by (simp_all add: same_open_def)
  obtain fp2 fs2 where s: "f_lseek K fp1 (fptr fp) ?v1 = Some (FR_OK, fp2, ?v1\<lparr>vol := fs2\<rparr>)" "fptr fp2 = fptr fp" "same_handle fp1 fp2"
    "file_ok C cs1 fp2 fs2" "same_file C cs1 fp1 fs1 fp2 fs2"
    using f_lseek_spec[OF gd _ _ val1(1,2) le, of cs1] w(3,4) by auto
  let ?v2 = "?v1\<lparr>vol := fs2\<rparr>"
  have h2: "f_obj fp2 = f_obj fp1" "ferr fp2 = FR_OK" "flag fp2 AND 0x3F = flag fp AND 0x3F" using s(3) val1 by (simp_all add: same_handle_def)
  have "same_geo (vol ?v1) fs2" using s(5) by (simp add: same_file_def same_vol_geo)
  from validate_geo[OF this, of "f_obj fp2" "f_obj fp1"] have val2: "validate (f_obj fp2) ?v2 = FR_OK" using h2(1) val1(1) by simp
  have fr: "flag fp2 AND FA_READ \<noteq> 0" using mode_bits(1)[OF h2(3)] assms(6) by simp
  have mn: "min n (objsize (f_obj fp2) - fptr fp2) = n"
  proof (rule min_absorb1)
    show "n \<le> objsize (f_obj fp2) - fptr fp2" unfolding h2(1) s(2) using le w(6) by (simp add: word_le_nat_alt unat_sub)
  qed
  obtain fp3 fs3 where r: "f_read K fp2 n ?v2 = Some (FR_OK, map (file_byte C cs1 fp2 fs2) [?p..<?p + unat n], fp3, ?v2\<lparr>vol := fs3\<rparr>)"
    using f_read_spec[OF assms(1) _ val2 h2(2) fr mn[symmetric], of cs1] s(2,4) by auto
  have cap: "?p + unat n \<le> 512 * n_sects fs1 cs1" using w(3,6) by (auto simp: file_ok_def pos_ok_def pos_base_def)
  have ln: "unat n \<le> length buff" using w(2) assms(8) by (simp add: word_le_nat_alt)
  have "map (file_byte C cs1 fp2 fs2) [?p..<?p + unat n] = map (file_byte C cs1 fp1 fs1) [?p..<?p + unat n]"
    by (rule same_file_bytes[OF s(5) cap])
  also have "\<dots> = take (unat n) buff"
    using w(6,7) ln by (intro nth_equalityI) simp_all
  finally show ?thesis using w(1) s(1) r by auto
qed

theorem write_seek_read_witness:
  "\<exists>n fp1 v1 fp2 v2 fp3 v3. f_write ram_blocks demo_rw [5, 6] 2 demo_vol = Some (FR_OK, n, fp1, v1) \<and>
    f_lseek ram_blocks fp1 0 v1 = Some (FR_OK, fp2, v2) \<and> f_read ram_blocks fp2 n v2 = Some (FR_OK, take (unat n) [5, 6], fp3, v3)"
proof -
  have "unat (2 :: u32) \<le> length [5, 6 :: u8]" "fptr demo_rw = 0" by (simp_all add: demo_rw_def demo_file_def)
  then show ?thesis using write_seek_read[OF ram_blocks_good demo_rw_ok, of 2 "[5, 6]"] by simp
qed

end
