(* ===== verification/Syscall.thy ===== *)
theory Syscall
  imports Fat_Api Device Net
begin

text \<open>
  System calls (\<^verbatim>\<open>kernel/src/idt/syscall.c\<close>) and the interrupt handlers of \<^verbatim>\<open>kernel/src/idt/int_handlers.c\<close> that use
  them.  The state \<open>kern\<close> joins the machine with the mounted volume: the disk behind the volume is the machine itself, reached
  through the AHCI driver and the kernel heap, and file objects are kept by the address \<^verbatim>\<open>kmalloc\<close> gave them.  A system call
  whose user pointer is not mapped ends in the page fault handler, which never returns; it has the value \<open>None\<close>, as has a call
  that overruns the stack buffer of its handler or the table of system calls.
\<close>

section \<open>The kernel as the disk of its volume\<close>

record kern =
  kfs :: "devs fatvol"
  kfiles :: "u64 \<Rightarrow> FIL"

definition mach :: "kern \<Rightarrow> devs" where "mach k = disk (vol (kfs k))"

definition set_mach :: "devs \<Rightarrow> kern \<Rightarrow> kern" where
  "set_mach s k = k\<lparr>kfs := (kfs k)\<lparr>vol := (vol (kfs k))\<lparr>disk := s\<rparr>\<rparr>\<rparr>"

lemma mach_simps [simp]:
  "mach (set_mach s k) = s" "kfiles (set_mach s k) = kfiles k" "set_mach s' (set_mach s k) = set_mach s' k"
  "set_mach (mach k) k = k" "FatFs (kfs (set_mach s k)) = FatFs (kfs k)"
  by (simp_all add: mach_def set_mach_def)

definition ff_memalloc :: "u32 \<Rightarrow> 'a kheap_scheme \<Rightarrow> (u64 \<times> 'a kheap_scheme) option" where
  "ff_memalloc msize s = kmalloc msize s"

definition ff_memfree :: "u64 \<Rightarrow> 'a kheap_scheme \<Rightarrow> 'a kheap_scheme option" where
  "ff_memfree mblock s = kfree mblock s"

text \<open>The disk functions with \<open>buff\<close> the address of the sector buffer they are given.\<close>

definition kernel_ops :: "device_env \<Rightarrow> u64 \<Rightarrow> 'a ahci_scheme disk_ops" where
  "kernel_ops D buff =
     \<lparr>dk_read = (\<lambda>p sec n s. do {
        (r, s) \<leftarrow> disk_read D p buff sec n s;
        Some (r, bytes_at (mem s) buff (unat (n * SS)), s) }),
      dk_write = (\<lambda>p w sec n s. disk_write D p buff sec n (s\<lparr>mem := put_bytes (mem s) buff w\<rparr>)),
      dk_ioctl = (\<lambda>p c. disk_ioctl p c 0),
      mem_alloc = (\<lambda>n s. do { (p, s) \<leftarrow> ff_memalloc n s; Some (p, bytes_at (mem s) p (unat n), s) }),
      mem_free = ff_memfree\<rparr>"

section \<open>Registers and user memory\<close>

definition get_reg :: "u64 \<Rightarrow> u64 \<Rightarrow> kern \<Rightarrow> u64" where
  "get_reg regs r k = rd64 (mem (mach k)) (regs + r)"

definition set_reg :: "u64 \<Rightarrow> u64 \<Rightarrow> u64 \<Rightarrow> kern \<Rightarrow> kern" where
  "set_reg regs r v k = set_mach ((mach k)\<lparr>mem := wr64 (mem (mach k)) (regs + r) v\<rparr>) k"

text \<open>Reads through the page tables the processor uses.\<close>

definition user_read :: "u64 \<Rightarrow> nat \<Rightarrow> 'a paging_scheme \<Rightarrow> u8 list option" where
  "user_read a n s = those (map (\<lambda>i. map_option (rd8 (mem s)) (translate (mem s) (cr3 s) (a + of_nat i))) [0..<n])"

partial_function (option) user_string :: "u64 \<Rightarrow> 'a paging_scheme \<Rightarrow> u8 list option" where
  "user_string a s = do {
     p \<leftarrow> translate (mem s) (cr3 s) a;
     if rd8 (mem s) p = 0 then Some []
     else do { cs \<leftarrow> user_string (a + 1) s; Some (rd8 (mem s) p # cs) }
   }"

section \<open>System calls\<close>

definition MAX_SYSCALLS :: nat where "MAX_SYSCALLS = 128"
definition sizeof_FIL :: u32 where "sizeof_FIL = 568"

text \<open>The numbers of the result codes; the enumeration has no negative value, so \<^verbatim>\<open>-res\<close> is an unsigned 32-bit number.\<close>

definition fresult_code :: "FRESULT \<Rightarrow> u32" where
  "fresult_code r =
     (case r of FR_OK \<Rightarrow> 0 | FR_DISK_ERR \<Rightarrow> 1 | FR_INT_ERR \<Rightarrow> 2 | FR_NOT_READY \<Rightarrow> 3 | FR_NO_FILE \<Rightarrow> 4 | FR_NO_PATH \<Rightarrow> 5
      | FR_INVALID_NAME \<Rightarrow> 6 | FR_DENIED \<Rightarrow> 7 | FR_EXIST \<Rightarrow> 8 | FR_INVALID_OBJECT \<Rightarrow> 9 | FR_WRITE_PROTECTED \<Rightarrow> 10
      | FR_INVALID_DRIVE \<Rightarrow> 11 | FR_NOT_ENABLED \<Rightarrow> 12 | FR_NO_FILESYSTEM \<Rightarrow> 13 | FR_MKFS_ABORTED \<Rightarrow> 14 | FR_TIMEOUT \<Rightarrow> 15
      | FR_LOCKED \<Rightarrow> 16 | FR_NOT_ENOUGH_CORE \<Rightarrow> 17 | FR_TOO_MANY_OPEN_FILES \<Rightarrow> 18 | FR_INVALID_PARAMETER \<Rightarrow> 19)"

definition fresult_neg :: "FRESULT \<Rightarrow> u64" where "fresult_neg r = ucast (- fresult_code r)"

definition test_syscall :: "u64 \<Rightarrow> kern \<Rightarrow> kern option" where
  "test_syscall regs k =
     (let k = set_reg regs reg_rdi (get_reg regs reg_rdi k + 10) k
      in Some (set_mach (emit (Printed (''SYSCALL! RDI is now %d'' @ nl) [Arg_word (get_reg regs reg_rdi k)]) (mach k)) k))"

definition mmap_syscall :: "u64 \<Rightarrow> kern \<Rightarrow> kern option" where
  "mmap_syscall regs k = do {
     let proc = get_cur_proc (mach k);
     (ret, s) \<leftarrow> mmap proc (get_reg regs reg_rdi k) (get_reg regs reg_rsi k) (ucast (get_reg regs reg_rdx k)) (mach k);
     Some (set_reg regs reg_rax ret (set_mach s k))
   }"

definition munmap_syscall :: "u64 \<Rightarrow> kern \<Rightarrow> kern option" where
  "munmap_syscall regs k =
     (let proc = get_cur_proc (mach k);
          (ret, s) = munmap proc (get_reg regs reg_rdi k) (ucast (get_reg regs reg_rsi k)) (mach k)
      in Some (set_reg regs reg_rax (scast ret) (set_mach s k)))"

text \<open>The search for a descriptor runs through the whole table, so that it ends with the last free one.\<close>

definition open_slot :: "memory \<Rightarrow> u64 \<Rightarrow> u32" where
  "open_slot m proc =
     fold (\<lambda>i x. if proc_file m proc (of_nat i) \<noteq> 0 then x else of_nat i) [2..<MAX_FILES_OPENABLE] (- 1)"

definition open_at :: "device_env \<Rightarrow> u64 \<Rightarrow> codepage \<Rightarrow> u64 \<Rightarrow> u8 list \<Rightarrow> u8 \<Rightarrow> kern \<Rightarrow> (FRESULT \<times> kern) option" where
  "open_at D buff T p path mode k =
     (if p = 0 then Some (FR_INVALID_OBJECT, k)
      else do {
        (res, fp, v) \<leftarrow> f_open (kernel_ops D buff) T (kfiles k p) path mode (kfs k);
        Some (res, k\<lparr>kfs := v, kfiles := (kfiles k)(p := fp)\<rparr>)
      })"

definition close_at :: "device_env \<Rightarrow> u64 \<Rightarrow> u64 \<Rightarrow> kern \<Rightarrow> (FRESULT \<times> kern) option" where
  "close_at D buff p k = do {
     (res, fp, v) \<leftarrow> f_close (kernel_ops D buff) (kfiles k p) (kfs k);
     Some (res, k\<lparr>kfs := v, kfiles := (kfiles k)(p := fp)\<rparr>)
   }"

definition open_syscall :: "device_env \<Rightarrow> u64 \<Rightarrow> codepage \<Rightarrow> u64 \<Rightarrow> kern \<Rightarrow> kern option" where
  "open_syscall D buff T regs k = do {
     let proc = get_cur_proc (mach k);
     let x = open_slot (mem (mach k)) proc;
     if x = - 1 then Some (set_reg regs reg_rax 1 k)
     else do {
       let s = process_set_pml4_to_cur_proc (mach k);
       fname \<leftarrow> user_string (rd64 (mem s) (regs + reg_rdi)) s;
       if length fname + 1 > 256 then None
       else do {
         let s = process_set_pml4_to_kernel s;
         (fp, s) \<leftarrow> kmalloc sizeof_FIL s;
         let s = s\<lparr>mem := set_proc_file (mem s) proc (ucast x) fp\<rparr>;
         let k = set_mach s k;
         (res, k) \<leftarrow> open_at D buff T (proc_file (mem s) proc (ucast x)) fname (ucast (get_reg regs reg_rsi k)) k;
         if res \<noteq> FR_OK then Some (set_reg regs reg_rax (fresult_neg res) k)
         else Some (set_reg regs reg_rax (scast x) k)
       }
     }
   }"

definition close_syscall :: "device_env \<Rightarrow> u64 \<Rightarrow> u64 \<Rightarrow> kern \<Rightarrow> kern option" where
  "close_syscall D buff regs k = do {
     let proc = get_cur_proc (mach k);
     let fp = proc_file (mem (mach k)) proc (get_reg regs reg_rdi k);
     if fp = 0 then Some (set_reg regs reg_rax (- 2) k)
     else do {
       (res, k) \<leftarrow> close_at D buff fp k;
       if res \<noteq> FR_OK then Some (set_reg regs reg_rax (fresult_neg res) k)
       else Some (set_reg regs reg_rax 0 k)
     }
   }"

definition read_syscall :: "u64 \<Rightarrow> kern \<Rightarrow> kern option" where
  "read_syscall regs k = Some k"

definition write_syscall :: "u64 \<Rightarrow> kern \<Rightarrow> kern option" where
  "write_syscall regs k = do {
     let fd = (ucast (get_reg regs reg_rdi k) :: u32);
     let len = (ucast (get_reg regs reg_rdx k) :: u32);
     if sint len < 0 then None
     else do {
       let s = process_set_pml4_to_cur_proc (mach k);
       buffer \<leftarrow> user_read (rd64 (mem s) (regs + reg_rsi)) (nat (sint len)) s;
       let s = process_set_pml4_to_kernel s;
       if fd = 1 then do {
         let s = fold (\<lambda>i s. emit (Put_char (buffer ! i)) s) [0..<nat (sint len)] s;
         Some (set_reg regs reg_rax (scast len) (set_mach s k))
       }
       else Some (set_mach s k)
     }
   }"

definition syscalls :: "device_env \<Rightarrow> u64 \<Rightarrow> codepage \<Rightarrow> (u64 \<Rightarrow> kern \<Rightarrow> kern option) option list" where
  "syscalls D buff T =
     map Some [test_syscall, mmap_syscall, munmap_syscall, open_syscall D buff T, close_syscall D buff, read_syscall, write_syscall]
     @ replicate (MAX_SYSCALLS - 7) None"

definition syscall :: "device_env \<Rightarrow> u64 \<Rightarrow> codepage \<Rightarrow> u64 \<Rightarrow> kern \<Rightarrow> kern option" where
  "syscall D buff T regs k =
     (let syscall_num = get_reg regs reg_rax k in
      if unat syscall_num \<ge> MAX_SYSCALLS then None
      else case syscalls D buff T ! unat syscall_num of None \<Rightarrow> Some k | Some handler \<Rightarrow> handler regs k)"

section \<open>Interrupt handlers\<close>

definition syscall_handler :: "device_env \<Rightarrow> u64 \<Rightarrow> codepage \<Rightarrow> u64 \<Rightarrow> kern \<Rightarrow> kern option" where
  "syscall_handler D buff T regs k = syscall D buff T regs k"

definition kbd_ps2_handler :: "device_env \<Rightarrow> 'a hw_scheme \<Rightarrow> 'a hw_scheme" where
  "kbd_ps2_handler D s = snd (inb D 0x60 s)"

section \<open>The first program\<close>

text \<open>
  \<^verbatim>\<open>user_programs/lib/syscall/syscall.c\<close> puts the number and the arguments in registers, which the entry stub of the interrupt
  stores in a frame at \<open>regs\<close>, and returns what it finds in \<^verbatim>\<open>rax\<close>.  \<^verbatim>\<open>user_programs/src/init/init.c\<close> is the program the
  kernel starts; its two strings lie at the addresses \<open>path\<close> and \<open>msg\<close>.
\<close>

definition user_syscall ::
  "device_env \<Rightarrow> u64 \<Rightarrow> codepage \<Rightarrow> u64 \<Rightarrow> u64 \<Rightarrow> u64 \<Rightarrow> u64 \<Rightarrow> u64 \<Rightarrow> kern \<Rightarrow> (u64 \<times> kern) option" where
  "user_syscall D buff T regs rax rdi rsi rdx k = do {
     let k = set_reg regs reg_rdx rdx (set_reg regs reg_rsi rsi (set_reg regs reg_rdi rdi (set_reg regs reg_rax rax k)));
     k \<leftarrow> syscall_handler D buff T regs k;
     Some (get_reg regs reg_rax k, k)
   }"

definition init_main :: "device_env \<Rightarrow> u64 \<Rightarrow> codepage \<Rightarrow> u64 \<Rightarrow> u64 \<Rightarrow> u64 \<Rightarrow> kern \<Rightarrow> (u32 \<times> kern) option" where
  "init_main D buff T regs path msg k = do {
     (fd, k) \<leftarrow> user_syscall D buff T regs 3 path 0x03 0 k;
     (_, k) \<leftarrow> user_syscall D buff T regs 4 (scast (ucast fd :: u32)) 0 0 k;
     (_, k) \<leftarrow> user_syscall D buff T regs 6 1 msg 23 k;
     Some (0, k)
   }"

section \<open>Frames and tables\<close>

lemmas reg_defs = reg_rax_def reg_rdi_def reg_rsi_def reg_rdx_def

lemma set_reg_fields [simp]:
  "kfiles (set_reg regs r v k) = kfiles k" "cur_proc (mach (set_reg regs r v k)) = cur_proc (mach k)"
  "console (mach (set_reg regs r v k)) = console (mach k)" "proc_queue (mach (set_reg regs r v k)) = proc_queue (mach k)"
  "cr3 (mach (set_reg regs r v k)) = cr3 (mach k)"
  by (simp_all add: set_reg_def)

lemma get_set_reg: "get_reg regs r (set_reg regs r v k) = v"
  by (simp add: get_reg_def set_reg_def mem_simps)

lemma get_set_reg_other: "sep (regs + r') 8 (regs + r) 8 \<Longrightarrow> get_reg regs r (set_reg regs r' v k) = get_reg regs r k"
  by (simp add: get_reg_def set_reg_def mem_simps)

lemma request_regs [simp]:
  "get_reg regs reg_rax (set_reg regs reg_rdx rdx (set_reg regs reg_rsi rsi (set_reg regs reg_rdi rdi (set_reg regs reg_rax rax k)))) = rax"
  "get_reg regs reg_rdi (set_reg regs reg_rdx rdx (set_reg regs reg_rsi rsi (set_reg regs reg_rdi rdi k))) = rdi"
  "get_reg regs reg_rsi (set_reg regs reg_rdx rdx (set_reg regs reg_rsi rsi k)) = rsi"
  "get_reg regs reg_rdx (set_reg regs reg_rdx rdx k) = rdx"
  by (simp_all add: get_set_reg get_set_reg_other reg_defs sep_def)

lemma set_reg_file:
  assumes "sep regs 152 (cur_proc (mach k)) 1224" "r \<le> 144" "unat i < MAX_FILES_OPENABLE"
  shows "proc_file (mem (mach (set_reg regs r v k))) (cur_proc (mach k)) i = proc_file (mem (mach k)) (cur_proc (mach k)) i"
proof -
  have "sep (regs + r) 8 (cur_proc (mach k) + (704 + 8 * i)) 8"
    using sep_sub[OF assms(1), of "unat r" 8 "704 + 8 * unat i" 8] assms(2,3)
    by (simp add: MAX_FILES_OPENABLE_def word_le_nat_alt)
  then show ?thesis by (simp add: set_reg_def proc_file_def mem_simps add.assoc)
qed

lemma syscalls_entry [simp]:
  "syscalls D buff T ! 3 = Some (open_syscall D buff T)" "syscalls D buff T ! 4 = Some (close_syscall D buff)"
  "syscalls D buff T ! 6 = Some write_syscall"
  by (simp_all add: syscalls_def nth_append)

lemma open_slot_full:
  assumes "\<And>i. 2 \<le> i \<Longrightarrow> i < MAX_FILES_OPENABLE \<Longrightarrow> proc_file m p (of_nat i) \<noteq> 0"
  shows "open_slot m p = - 1"
proof -
  have "fold (\<lambda>i x. if proc_file m p (of_nat i) \<noteq> 0 then x else of_nat i) is a = a"
    if "set is \<subseteq> {2..<MAX_FILES_OPENABLE}" for "is" and a :: u32
    using that assms by (induction "is") auto
  then show ?thesis by (simp add: open_slot_def)
qed

section \<open>Output of a program\<close>

lemma user_read_mapped:
  assumes "\<And>i. i < n \<Longrightarrow> translate (mem s) (cr3 s) (a + of_nat i) = Some (pa i)"
  shows "user_read a n s = Some (map (\<lambda>i. rd8 (mem s) (pa i)) [0..<n])"
proof -
  have th: "those (map f is) = Some (map g is)" if "\<And>i. i \<in> set is \<Longrightarrow> f i = Some (g i)" for f g and "is" :: "nat list"
    using that by (induction "is") auto
  show ?thesis unfolding user_read_def by (rule th) (simp add: assms)
qed

lemma emit_chars:
  "fold (\<lambda>i s. emit (Put_char (f i)) s) is s = s\<lparr>console := console s @ map (\<lambda>i. Put_char (f i)) is\<rparr>"
  by (induction "is" arbitrary: s) (simp_all add: emit_def)

lemma render_chars: "fold_opt render (map Put_char cs) t = Some (fold terminal_putc cs t)"
  by (induction cs arbitrary: t) (simp_all add: render_def)

lemma write_syscall_spec:
  assumes "cur_proc (mach k) \<noteq> 0" "proc_queue (mach k) \<noteq> 0"
    and "ucast (get_reg regs reg_rdi k) = (1 :: u32)" "get_reg regs reg_rdx k = of_nat n" "n < 2 ^ 31"
    and "\<And>i. i < n \<Longrightarrow> translate (mem (mach k)) (proc_pml4 (mem (mach k)) (cur_proc (mach k)))
      (get_reg regs reg_rsi k + of_nat i) = Some (pa i)"
  defines "d \<equiv> proc_pml4 (mem (mach k)) (proc_queue (mach k))"
  shows "write_syscall regs k = Some (set_reg regs reg_rax (of_nat n)
    (set_mach ((mach k)\<lparr>pml4 := d, cr3 := d, console := console (mach k) @ map (\<lambda>i. Put_char (mem (mach k) (pa i))) [0..<n]\<rparr>) k))"
proof -
  let ?s = "process_set_pml4_to_cur_proc (mach k)"
  have s: "?s = paging_change_dir (proc_pml4 (mem (mach k)) (cur_proc (mach k))) (mach k)"
    using assms(1) by (simp add: process_set_pml4_to_cur_proc_def)
  have "sint (of_nat n :: u32) = int n" using assms(5) by (simp add: signed_of_nat signed_take_bit_int_eq_self)
  moreover have "ucast (of_nat n :: u64) = (of_nat n :: u32)"
    using assms(5) by (simp add: word_unat_eq_iff unat_of_nat unsigned_ucast_eq take_bit_nat_eq_self)
  ultimately have len: "sint (ucast (get_reg regs reg_rdx k) :: u32) = int n" unfolding assms(4) by simp
  have ext: "scast (ucast (get_reg regs reg_rdx k) :: u32) = (of_nat n :: u64)"
    using len by (metis of_int_of_nat_eq scast_eq)
  have bs: "user_read (rd64 (mem ?s) (regs + reg_rsi)) n ?s = Some (map (\<lambda>i. mem (mach k) (pa i)) [0..<n])"
    using user_read_mapped[of n ?s _ pa] assms(6) by (simp add: s paging_change_dir_def get_reg_def rd8_def)
  have q: "process_set_pml4_to_kernel ?s = paging_change_dir d (mach k)"
    using assms(2) by (simp add: process_set_pml4_to_kernel_def s paging_change_dir_def d_def)
  have c: "fold (\<lambda>i s. emit (Put_char (map (\<lambda>i. mem (mach k) (pa i)) [0..<n] ! i)) s) [0..<n] u =
      u\<lparr>console := console u @ map (\<lambda>i. Put_char (mem (mach k) (pa i))) [0..<n]\<rparr>" for u :: devs
    unfolding emit_chars by (simp cong: map_cong)
  show ?thesis unfolding write_syscall_def Let_def len bs[simplified] 
    using bs assms(3) by (simp add: len q c ext paging_change_dir_def)
qed

section \<open>Descriptors\<close>

lemma f_close_clean:
  assumes "flag fp AND FA_MODIFIED = 0"
  shows "\<exists>fp'. f_close K fp v = Some (validate (f_obj fp) v, fp', v) \<and> flag fp' = flag fp"
  using assms by (auto simp: f_close_def f_sync_def close_obj_def)

lemma close_at_clean:
  assumes "\<And>a. flag (kfiles k a) AND FA_MODIFIED = 0"
  shows "\<exists>r k'. close_at D buff p k = Some (r, k') \<and> mach k' = mach k \<and> (\<forall>a. flag (kfiles k' a) AND FA_MODIFIED = 0)"
proof -
  obtain fp' where "f_close (kernel_ops D buff) (kfiles k p) (kfs k) = Some (validate (f_obj (kfiles k p)) (kfs k), fp', kfs k)"
    "flag fp' = flag (kfiles k p)" using f_close_clean[OF assms] by blast
  then show ?thesis using assms by (simp add: close_at_def mach_def)
qed

text \<open>What system calls leave alone: the descriptors of the current process, and no file has pending changes.\<close>

definition same_table :: "u64 \<Rightarrow> kern \<Rightarrow> kern \<Rightarrow> bool" where
  "same_table regs k k' \<longleftrightarrow> cur_proc (mach k') = cur_proc (mach k) \<and>
     (\<forall>i. unat i < MAX_FILES_OPENABLE \<longrightarrow>
        proc_file (mem (mach k')) (cur_proc (mach k)) i = proc_file (mem (mach k)) (cur_proc (mach k)) i) \<and>
     (\<forall>a. flag (kfiles k' a) AND FA_MODIFIED = 0)"

definition table_ok :: "u64 \<Rightarrow> kern \<Rightarrow> bool" where
  "table_ok regs k \<longleftrightarrow> sep regs 152 (cur_proc (mach k)) 1224 \<and> (\<forall>a. flag (kfiles k a) AND FA_MODIFIED = 0)"

lemma same_table_refl: "table_ok regs k \<Longrightarrow> same_table regs k k"
  by (simp add: same_table_def table_ok_def)

lemma same_table_ok: "table_ok regs k \<Longrightarrow> same_table regs k k' \<Longrightarrow> table_ok regs k'"
  by (simp add: same_table_def table_ok_def)

lemma same_table_trans: "same_table regs k k' \<Longrightarrow> same_table regs k' k'' \<Longrightarrow> same_table regs k k''"
  by (simp add: same_table_def)

lemma set_reg_table: "table_ok regs k \<Longrightarrow> r \<le> 144 \<Longrightarrow> same_table regs k (set_reg regs r v k)"
  by (simp add: same_table_def table_ok_def set_reg_file)

lemma set_reg_table_trans: "table_ok regs k \<Longrightarrow> r \<le> 144 \<Longrightarrow> same_table regs k k' \<Longrightarrow> same_table regs k (set_reg regs r v k')"
  by (blast intro: same_table_trans set_reg_table same_table_ok)

lemma request_table:
  assumes "table_ok regs k"
  shows "same_table regs k (set_reg regs reg_rdx rdx (set_reg regs reg_rsi rsi (set_reg regs reg_rdi rdi (set_reg regs reg_rax rax k))))"
  using assms by (intro set_reg_table_trans set_reg_table) (simp_all add: reg_defs)

lemma close_syscall_table:
  assumes "table_ok regs k"
  shows "\<exists>k'. close_syscall D buff regs k = Some k' \<and> same_table regs k k'"
proof -
  let ?p = "proc_file (mem (mach k)) (get_cur_proc (mach k)) (get_reg regs reg_rdi k)"
  obtain r k1 where k1: "close_at D buff ?p k = Some (r, k1)" "mach k1 = mach k" "\<forall>a. flag (kfiles k1 a) AND FA_MODIFIED = 0"
    using close_at_clean assms unfolding table_ok_def by metis
  then have "same_table regs k k1" by (simp add: same_table_def)
  then show ?thesis using k1(1) assms
    by (auto simp: close_syscall_def Let_def reg_defs intro!: set_reg_table_trans same_table_refl)
qed

lemma user_close:
  assumes "table_ok regs k"
  shows "\<exists>x k'. user_syscall D buff T regs 4 fd 0 0 k = Some (x, k') \<and> same_table regs k k'"
  unfolding user_syscall_def Let_def syscall_handler_def syscall_def request_regs
  using close_syscall_table[OF same_table_ok[OF assms request_table[OF assms]], of D buff 0 0 fd 4]
    request_table[OF assms, of 0 0 fd 4] same_table_trans
  by (fastforce simp: MAX_SYSCALLS_def)

lemma user_closes:
  assumes "table_ok regs k"
  shows "\<exists>k'. fold_opt (\<lambda>fd k. map_option snd (user_syscall D buff T regs 4 fd 0 0 k)) fds k = Some k' \<and> same_table regs k k'"
  using assms
proof (induction fds arbitrary: k)
  case (Cons fd fds)
  obtain x k1 where k1: "user_syscall D buff T regs 4 fd 0 0 k = Some (x, k1)" "same_table regs k k1"
    using user_close[OF Cons.prems] by blast
  from Cons.IH[OF same_table_ok[OF Cons.prems k1(2)]] k1 show ?case by (auto intro: same_table_trans)
qed (simp add: same_table_refl)

lemma user_open_full:
  assumes "table_ok regs k" "\<And>i. 2 \<le> i \<Longrightarrow> i < MAX_FILES_OPENABLE \<Longrightarrow> proc_file (mem (mach k)) (cur_proc (mach k)) (of_nat i) \<noteq> 0"
  shows "\<exists>k'. user_syscall D buff T regs 3 path mode 0 k = Some (1, k') \<and> kfiles k' = kfiles k \<and> same_table regs k k'"
proof -
  let ?k = "set_reg regs reg_rdx 0 (set_reg regs reg_rsi mode (set_reg regs reg_rdi path (set_reg regs reg_rax 3 k)))"
  have "open_slot (mem (mach ?k)) (get_cur_proc (mach ?k)) = - 1"
  proof (rule open_slot_full)
    fix i assume i: "2 \<le> i" "i < MAX_FILES_OPENABLE"
    then have "unat (of_nat i :: u64) < MAX_FILES_OPENABLE" by (simp add: MAX_FILES_OPENABLE_def unat_of_nat64)
    then show "proc_file (mem (mach ?k)) (get_cur_proc (mach ?k)) (of_nat i) \<noteq> 0"
      using request_table[OF assms(1), of 0 mode path 3] assms(2)[OF i] by (simp add: same_table_def get_cur_proc_def)
  qed
  then have "open_syscall D buff T regs ?k = Some (set_reg regs reg_rax 1 ?k)" by (simp add: open_syscall_def Let_def)
  moreover have "same_table regs k (set_reg regs reg_rax 1 ?k)"
    using assms(1) by (intro set_reg_table_trans request_table) (simp_all add: reg_defs)
  ultimately show ?thesis
    by (simp add: user_syscall_def Let_def syscall_handler_def syscall_def MAX_SYSCALLS_def get_set_reg)
qed

section \<open>Properties\<close>

text \<open>
  A concrete kernel: the current process has its control block at \<open>0x8000\<close> and maps the page \<open>0x400000\<close> of its address space,
  where the text ``Hi'' lies, to the frame \<open>0x14000\<close>; the register frame at \<open>0xC000\<close> asks to write the two bytes.  All
  descriptors are in use.
\<close>

definition demo_mem :: memory where
  "demo_mem a = (if a - 0x82C0 < 512 then 1 else ((\<lambda>_. 0)
     (0x809A := 1, 0x10000 := 3, 0x10001 := 0x10, 0x10002 := 1, 0x11000 := 3, 0x11001 := 0x20, 0x11002 := 1,
      0x12010 := 3, 0x12011 := 0x30, 0x12012 := 1, 0x13000 := 3, 0x13001 := 0x40, 0x13002 := 1, 0x14000 := 0x48, 0x14001 := 0x69,
      0xC070 := 6, 0xC040 := 1, 0xC04A := 0x40, 0xC060 := 2)) a)"

definition demo_devs :: devs where
  "demo_devs = \<lparr>mem = demo_mem, console = [], kern_start = 0, kern_end = 0,
     pmm_bitmap = \<lparr>bm_bitmap = 0, bm_size = 0\<rparr>, start_of_mem = 0, memorySizeBytes = 0,
     pml4 = 0, cr3 = 0, b_info = 0, invlpg_log = [], heap_ptr = 0, region = 0,
     proc_queue = 0x8000, cur_proc = 0x8000, num_pids = 1, fpu = [], int_enabled = True, io_log = [],
     k_gdt = \<lparr>gdt_tab = default_gdt, gdt_desc_size = 0, gdt_desc_offset = 0, gdt_loaded = False\<rparr>,
     k_idt = \<lparr>idt_entries = (\<lambda>_. \<lparr>offset0 = 0, selector = 0, ist = 0, type_attr = 0, offset1 = 0, offset2 = 0, ignore = 0\<rparr>),
       idtr_limit = 0, idtr_offset = 0, lidt_done = False, interrupts_on = False\<rparr>,
     rsdp = 0, rsdt = 0, xsdt = 0, lapic_address = 0, ioapic_madt = 0, ioapic_address = 0, hpet_table = 0, ticks_per_10us = 0,
     currentIntHandlerNum = 0, current_bus = 0, current_device = 0, current_func = 0, edu_memory = 0, edu_interrupt = 0,
     e1000_io_base = 0, e1000_mem_base = 0, e1000_io_type = 0, e1000_mac_addr = [], e1000_device = 0, rx_descs = [], tx_descs = [],
     rx_cur = 0, tx_cur = 0, e1000_is_init = 0, ahci_abar = 0, ports = [], portCount = 0, devices = [], framebuffer_dev = 0\<rparr>"

definition demo_kern :: kern where
  "demo_kern = \<lparr>kfs = \<lparr>vol = \<lparr>fs_type = 0, pdrv = 0, n_fats = 1, wflag = 0, fsi_flag = 0, fs_id = 0, n_rootdir = 16, csize = 1,
       lfnbuf = [], last_clst = 2, free_clst = 1, n_fatent = 4, fsize = 1, volbase = 0, fatbase = 1, dirbase = 2, database = 3,
       winsect = 0, win = [], disk = demo_devs\<rparr>, FatFs = False, Fsid = 0\<rparr>,
     kfiles = (\<lambda>_. \<lparr>f_obj = \<lparr>ob_fs = True, ob_id = 0, ob_attr = 0, ob_stat = 0, sclust = 0, objsize = 0\<rparr>, flag = FA_READ,
       ferr = FR_OK, fptr = 0, clust = 0, sect = 0, dir_sect = 0, dir_ptr = 0, fbuf = []\<rparr>)\<rparr>"

lemma rd64_unroll:
  "rd64 m a = ucast (m a) OR push_bit 8 (ucast (m (a + 1)) OR push_bit 8 (ucast (m (a + 2)) OR push_bit 8 (ucast (m (a + 3)) OR
     push_bit 8 (ucast (m (a + 4)) OR push_bit 8 (ucast (m (a + 5)) OR push_bit 8 (ucast (m (a + 6)) OR push_bit 8 (ucast (m (a + 7)))))))))"
proof -
  have e: "(8 :: nat) = Suc (Suc (Suc (Suc (Suc (Suc (Suc (Suc 0)))))))" by simp
  have "rd64 m a = rdn m a (Suc (Suc (Suc (Suc (Suc (Suc (Suc (Suc 0))))))))" unfolding rd64_def by (subst e) (rule refl)
  then show ?thesis by (simp add: add.assoc)
qed

lemma demo_kern_mach: "mach demo_kern = demo_devs"
  by (simp add: demo_kern_def mach_def)

lemma demo_regs:
  "get_reg 0xC000 reg_rax demo_kern = 6" "get_reg 0xC000 reg_rdi demo_kern = 1" "get_reg 0xC000 reg_rsi demo_kern = 0x400000"
  "get_reg 0xC000 reg_rdx demo_kern = of_nat 2" "proc_pml4 demo_mem 0x8000 = 0x10000"
  by (simp_all add: get_reg_def demo_kern_mach demo_devs_def demo_mem_def rd64_unroll reg_defs proc_pml4_def)

lemma demo_entries:
  "rd64 demo_mem 0x10000 = 0x11003" "rd64 demo_mem 0x11000 = 0x12003" "rd64 demo_mem 0x12010 = 0x13003" "rd64 demo_mem 0x13000 = 0x14003"
  by (simp_all add: demo_mem_def rd64_unroll)

lemma demo_translate:
  "translate demo_mem 0x10000 0x400000 = Some 0x14000" "translate demo_mem 0x10000 0x400001 = Some 0x14001"
  by (simp_all add: translate_def pte_def pmidx_init_def entry_addr_def demo_entries PAGE_PRESENT_def pde_getaddress_def)

lemma demo_table: "table_ok 0xC000 demo_kern"
  unfolding table_ok_def demo_kern_mach by (simp add: demo_devs_def demo_kern_def sep_def)

lemma rd64_nonzero:
  assumes "m a = 1"
  shows "rd64 m a \<noteq> 0"
proof
  assume "rd64 m a = 0"
  then have "\<not> bit (rd64 m a) 0" by simp
  then show False using assms by (simp add: rd64_unroll bit_simps)
qed

lemma demo_files: "2 \<le> i \<Longrightarrow> i < MAX_FILES_OPENABLE \<Longrightarrow> proc_file (mem (mach demo_kern)) (cur_proc (mach demo_kern)) (of_nat i) \<noteq> 0"
proof -
  assume "2 \<le> i" "i < MAX_FILES_OPENABLE"
  then have u: "unat (of_nat i :: u64) = i" "i < 64" by (simp_all add: MAX_FILES_OPENABLE_def unat_of_nat64)
  then have "8 * of_nat i < (512 :: u64)" by (simp add: word_less_nat_alt unat_word_ariths)
  then have "demo_mem (0x82C0 + 8 * of_nat i) = 1" by (simp add: demo_mem_def)
  then show ?thesis by (simp add: proc_file_def demo_kern_mach demo_devs_def rd64_nonzero)
qed

text \<open>
  C38 Writing to descriptor 1.  When the \<open>n\<close> bytes at the user address in \<^verbatim>\<open>rsi\<close> are mapped in the address space of
  the current process, the system call returns; the kernel's output grows by exactly these bytes, read through the page tables of
  the process, and they are drawn one after the other; \<^verbatim>\<open>rax\<close> holds \<open>n\<close>, no other byte of memory changes and the page tables of
  the kernel process are active again.
\<close>

theorem write_syscall_prints:
  assumes "cur_proc (mach k) \<noteq> 0" and "proc_queue (mach k) \<noteq> 0" and "get_reg regs reg_rax k = 6"
    and "ucast (get_reg regs reg_rdi k) = (1 :: u32)" and "get_reg regs reg_rdx k = of_nat n" and "n < 2 ^ 31"
    and "\<And>i. i < n \<Longrightarrow> translate (mem (mach k)) (proc_pml4 (mem (mach k)) (cur_proc (mach k)))
      (get_reg regs reg_rsi k + of_nat i) = Some (pa i)"
  shows "\<exists>k' out. syscall_handler D buff T regs k = Some k' \<and> console (mach k') = console (mach k) @ out \<and>
    fold_opt render out t = Some (fold terminal_putc (map (\<lambda>i. mem (mach k) (pa i)) [0..<n]) t) \<and>
    get_reg regs reg_rax k' = of_nat n \<and> agree_off (regs + reg_rax) 8 (mem (mach k)) (mem (mach k')) \<and>
    cr3 (mach k') = proc_pml4 (mem (mach k)) (proc_queue (mach k)) \<and> kfiles k' = kfiles k"
proof -
  have "fold_opt render (map (\<lambda>i. Put_char (mem (mach k) (pa i))) [0..<n]) t =
      Some (fold terminal_putc (map (\<lambda>i. mem (mach k) (pa i)) [0..<n]) t)"
    using render_chars[of "map (\<lambda>i. mem (mach k) (pa i)) [0..<n]"] by (simp add: comp_def)
  moreover have "agree_off (regs + reg_rax) 8 m (wr64 m (regs + reg_rax) v)" for m v by (rule c64.wr_agree)
  ultimately show ?thesis using write_syscall_spec[OF assms(1,2,4-7)] assms(3)
    by (simp add: syscall_handler_def syscall_def MAX_SYSCALLS_def set_reg_def get_reg_def mem_simps)
qed

theorem write_syscall_prints_witness:
  "\<forall>D buff T (t :: terminal). \<exists>k' out. syscall_handler D buff T 0xC000 demo_kern = Some k' \<and>
    console (mach k') = out \<and> fold_opt render out t = Some (fold terminal_putc [0x48, 0x69] t)"
proof (intro allI)
  fix D buff T and t :: terminal
  have tr: "translate (mem (mach demo_kern)) (proc_pml4 (mem (mach demo_kern)) (cur_proc (mach demo_kern)))
      (get_reg 0xC000 reg_rsi demo_kern + of_nat i) = Some (0x14000 + of_nat i)" if "i < 2" for i
    using that demo_regs demo_translate by (auto simp: less_2_cases_iff demo_kern_mach demo_devs_def)
  have b: "map (\<lambda>i. mem (mach demo_kern) (0x14000 + of_nat i)) [0..<2] = [0x48, 0x69]"
    by (simp add: upt_rec demo_kern_mach demo_devs_def demo_mem_def)
  have c: "cur_proc (mach demo_kern) \<noteq> 0" "proc_queue (mach demo_kern) \<noteq> 0" "console (mach demo_kern) = []"
    by (simp_all add: demo_kern_mach demo_devs_def)
  have "ucast (get_reg 0xC000 reg_rdi demo_kern) = (1 :: u32)" by (simp add: demo_regs)
  from write_syscall_prints[OF c(1,2) demo_regs(1) this demo_regs(4) _ tr, of D buff T t]
  show "\<exists>k' out. syscall_handler D buff T 0xC000 demo_kern = Some k' \<and>
    console (mach k') = out \<and> fold_opt render out t = Some (fold terminal_putc [0x48, 0x69] t)"
    unfolding b c(3) by auto
qed



end
