(* ===== verification/Interrupts.thy ===== *)
theory Interrupts
  imports Syscall
begin

text \<open>
  The entry stubs of \<^verbatim>\<open>kernel/src/idt/interrupts.asm\<close>, with what the processor does on an interrupt and at \<^verbatim>\<open>iretq\<close>.  The
  record \<open>cpu\<close> holds the registers a program sees.  All code runs in ring 0, so an interrupt stays on the stack of the program.
  The C functions the stubs call use the stack below the frame, which the model leaves out.
\<close>

section \<open>Processor and stack\<close>

datatype gpr = RAX | RCX | RDX | RBX | RBP | RSI | RDI | R8 | R9 | R10 | R11 | R12 | R13 | R14 | R15

record cpu =
  gp :: "gpr \<Rightarrow> u64"
  sp :: u64
  ip :: u64
  cseg :: u64
  sseg :: u64
  flags :: u64

definition push :: "u64 \<Rightarrow> cpu \<times> 'a machine_scheme \<Rightarrow> cpu \<times> 'a machine_scheme" where
  "push v = (\<lambda>(c, s). (c\<lparr>sp := sp c - 8\<rparr>, s\<lparr>mem := wr64 (mem s) (sp c - 8) v\<rparr>))"

definition pop :: "(u64 \<Rightarrow> cpu \<Rightarrow> cpu) \<Rightarrow> cpu \<times> 'a machine_scheme \<Rightarrow> cpu \<times> 'a machine_scheme" where
  "pop f = (\<lambda>(c, s). (f (rd64 (mem s) (sp c)) (c\<lparr>sp := sp c + 8\<rparr>), s))"

definition set_gp :: "gpr \<Rightarrow> u64 \<Rightarrow> cpu \<Rightarrow> cpu" where
  "set_gp r v c = c\<lparr>gp := (gp c)(r := v)\<rparr>"

text \<open>
  Delivery through an interrupt gate of the same ring: the stack is aligned to 16 bytes, the stack segment and pointer, the
  flags and the return address are pushed and the interrupt flag is cleared.  \<^verbatim>\<open>iretq\<close> undoes this.
\<close>

definition int_enter :: "cpu \<times> 'a machine_scheme \<Rightarrow> cpu \<times> 'a machine_scheme" where
  "int_enter = (\<lambda>(c, s).
     let t = (c\<lparr>sp := sp c AND NOT 15\<rparr>, s);
         t = push (sseg c) t;
         t = push (sp c) t;
         t = push (flags c) t;
         t = push (cseg c) t;
         (c, s) = push (ip c) t
     in (c\<lparr>flags := flags c AND NOT 0x200\<rparr>, s))"

definition iretq :: "cpu \<times> 'a machine_scheme \<Rightarrow> cpu \<times> 'a machine_scheme" where
  "iretq = (\<lambda>(c, s).
     let b = sp c in
     (c\<lparr>ip := rd64 (mem s) b, cseg := rd64 (mem s) (b + 8), flags := rd64 (mem s) (b + 16), sp := rd64 (mem s) (b + 24),
        sseg := rd64 (mem s) (b + 32)\<rparr>, s))"

definition pushaq_order :: "gpr list" where
  "pushaq_order = [RAX, RCX, RDX, RBX, RBP, RSI, RDI, R8, R9, R10, R11, R12, R13, R14, R15]"

definition pushaq :: "cpu \<times> 'a machine_scheme \<Rightarrow> cpu \<times> 'a machine_scheme" where
  "pushaq = (\<lambda>(c, s). fold (\<lambda>r. push (gp c r)) pushaq_order (push (sp c) (c, s)))"

definition popaq :: "cpu \<times> 'a machine_scheme \<Rightarrow> cpu \<times> 'a machine_scheme" where
  "popaq t = (let (c, s) = fold (\<lambda>r. pop (set_gp r)) (rev pushaq_order) t in (c\<lparr>sp := sp c + 8\<rparr>, s))"

section \<open>Stubs\<close>

text \<open>
  The stub of an interrupt: it saves the registers, switches to the kernel's page tables, calls the handler with the frame,
  acknowledges the interrupt at the local APIC, switches to the page tables of the current process and returns.
\<close>

definition irq_stub ::
  "device_env \<Rightarrow> (u64 \<Rightarrow> 'a apic_scheme \<Rightarrow> 'a apic_scheme option) \<Rightarrow> cpu \<times> 'a apic_scheme \<Rightarrow> (cpu \<times> 'a apic_scheme) option" where
  "irq_stub D handler t = do {
     let (c, s) = pushaq t;
     let s = process_set_pml4_to_kernel s;
     s \<leftarrow> handler (sp c) s;
     let s = mmio_wr32 D (lapic_address s + 0xB0) 0 s;
     let s = process_set_pml4_to_cur_proc s;
     Some (iretq (popaq (c, s)))
   }"

definition timer_irq :: "device_env \<Rightarrow> cpu \<times> 'a apic_scheme \<Rightarrow> (cpu \<times> 'a apic_scheme) option" where
  "timer_irq D = irq_stub D (\<lambda>regs s. Some (timer_handler regs s))"

definition kbd_ps2_irq :: "device_env \<Rightarrow> cpu \<times> 'a apic_scheme \<Rightarrow> (cpu \<times> 'a apic_scheme) option" where
  "kbd_ps2_irq D = irq_stub D (\<lambda>regs s. Some (kbd_ps2_handler D s))"

definition sci_irq :: "device_env \<Rightarrow> cpu \<times> 'a apic_scheme \<Rightarrow> (cpu \<times> 'a apic_scheme) option" where
  "sci_irq D = irq_stub D (\<lambda>regs s. Some (sci_handler s))"

definition edu_irq :: "device_env \<Rightarrow> cpu \<times> 'a edu_scheme \<Rightarrow> (cpu \<times> 'a edu_scheme) option" where
  "edu_irq D = irq_stub D (\<lambda>regs s. Some (edu_irq_handler D s))"

definition e1000_irq :: "device_env \<Rightarrow> cpu \<times> 'a e1000_scheme \<Rightarrow> (cpu \<times> 'a e1000_scheme) option" where
  "e1000_irq D = irq_stub D (\<lambda>regs s. e1000_irq_handler D s)"

definition ahci_irq :: "device_env \<Rightarrow> cpu \<times> 'a ahci_scheme \<Rightarrow> (cpu \<times> 'a ahci_scheme) option" where
  "ahci_irq D = irq_stub D (\<lambda>regs s. Some (ahci_irq_handler D s))"

text \<open>The stub of system calls does not acknowledge anything.\<close>

definition syscall_req :: "device_env \<Rightarrow> u64 \<Rightarrow> codepage \<Rightarrow> cpu \<times> kern \<Rightarrow> (cpu \<times> kern) option" where
  "syscall_req D buff T = (\<lambda>(c, k). do {
     let (c, s) = pushaq (c, mach k);
     let s = process_set_pml4_to_kernel s;
     k \<leftarrow> syscall_handler D buff T (sp c) (set_mach s k);
     let s = process_set_pml4_to_cur_proc (mach k);
     let (c, s) = iretq (popaq (c, s));
     Some (c, set_mach s k)
   })"

section \<open>Exceptions\<close>

text \<open>
  The stub of an exception pushes a zero where the processor pushes no error code, so that the frame has the layout of
  \<^verbatim>\<open>regs_err_t\<close>; \<open>erc\<close> is the code of the processor.
\<close>

definition has_error_code :: "u64 \<Rightarrow> bool" where
  "has_error_code n \<longleftrightarrow> n \<in> {8, 10, 11, 12, 13, 14, 17}"

definition ld_regs_err :: "memory \<Rightarrow> u64 \<Rightarrow> regs_err" where
  "ld_regs_err m a =
     \<lparr>e_r15 = rd64 m a, e_r14 = rd64 m (a + 8), e_r13 = rd64 m (a + 16), e_r12 = rd64 m (a + 24),
      e_r11 = rd64 m (a + 32), e_r10 = rd64 m (a + 40), e_r9 = rd64 m (a + 48), e_r8 = rd64 m (a + 56),
      e_rdi = rd64 m (a + 64), e_rsi = rd64 m (a + 72), e_rbp = rd64 m (a + 80), e_rbx = rd64 m (a + 88),
      e_rdx = rd64 m (a + 96), e_rcx = rd64 m (a + 104), e_rax = rd64 m (a + 112), e_rsp = rd64 m (a + 120),
      e_erc = rd64 m (a + 128), e_rip = rd64 m (a + 136), e_cs = rd64 m (a + 144), e_rflags = rd64 m (a + 152)\<rparr>"

definition exception_frame :: "u64 \<Rightarrow> u64 \<Rightarrow> cpu \<times> 'a machine_scheme \<Rightarrow> regs_err" where
  "exception_frame n erc t =
     (let t = (if has_error_code n then push erc (int_enter t) else push 0 (int_enter t));
          (c, s) = pushaq t
      in ld_regs_err (mem s) (sp c))"

section \<open>Frames\<close>

primrec slot :: "gpr \<Rightarrow> u64" where
  "slot RAX = reg_rax"
| "slot RCX = reg_rcx"
| "slot RDX = reg_rdx"
| "slot RBX = reg_rbx"
| "slot RBP = reg_rbp"
| "slot RSI = reg_rsi"
| "slot RDI = reg_rdi"
| "slot R8 = reg_r8"
| "slot R9 = reg_r9"
| "slot R10 = reg_r10"
| "slot R11 = reg_r11"
| "slot R12 = reg_r12"
| "slot R13 = reg_r13"
| "slot R14 = reg_r14"
| "slot R15 = reg_r15"

lemmas frame_defs = reg_rax_def reg_rcx_def reg_rdx_def reg_rbx_def reg_rbp_def reg_rsi_def reg_rdi_def reg_r8_def reg_r9_def
  reg_r10_def reg_r11_def reg_r12_def reg_r13_def reg_r14_def reg_r15_def reg_rsp_def reg_rip_def reg_cs_def reg_rflags_def

lemma slot_order: "slot r \<in> set regs_order"
  by (cases r) (simp_all add: regs_order_def)

definition push_mem :: "u64 \<Rightarrow> cpu \<Rightarrow> memory \<Rightarrow> memory" where
  "push_mem b c m = fold (\<lambda>(i, v) m. wr64 m (b + of_nat i) v)
     ((120, sp c) # map (\<lambda>r. (unat (slot r), gp c r)) pushaq_order) m"

lemma pushaq_eq: "pushaq (c, s) = (c\<lparr>sp := sp c - 128\<rparr>, s\<lparr>mem := push_mem (sp c - 128) c (mem s)\<rparr>)"
  by (simp add: pushaq_def pushaq_order_def push_def push_mem_def frame_defs diff_diff_eq)

lemma push_mem_frame: "rd64 (push_mem b c m) (b + slot r) = gp c r" "rd64 (push_mem b c m) (b + reg_rsp) = sp c"
  by (cases r; simp add: push_mem_def pushaq_order_def frame_defs mem_simps sep_def)
     (simp add: push_mem_def pushaq_order_def frame_defs mem_simps sep_def)

lemma popaq_eq: "popaq (c, s) = (c\<lparr>gp := (\<lambda>r. rd64 (mem s) (sp c + slot r)), sp := sp c + 128\<rparr>, s)"
proof -
  have "(\<lambda>r. rd64 (mem s) (sp c + slot r)) = (gp c)
    (R15 := rd64 (mem s) (sp c), R14 := rd64 (mem s) (sp c + 8), R13 := rd64 (mem s) (sp c + 16), R12 := rd64 (mem s) (sp c + 24),
     R11 := rd64 (mem s) (sp c + 32), R10 := rd64 (mem s) (sp c + 40), R9 := rd64 (mem s) (sp c + 48), R8 := rd64 (mem s) (sp c + 56),
     RDI := rd64 (mem s) (sp c + 64), RSI := rd64 (mem s) (sp c + 72), RBP := rd64 (mem s) (sp c + 80), RBX := rd64 (mem s) (sp c + 88),
     RDX := rd64 (mem s) (sp c + 96), RCX := rd64 (mem s) (sp c + 104), RAX := rd64 (mem s) (sp c + 112))"
    (is "_ = ?f") by (rule ext, case_tac r) (simp_all add: frame_defs)
  then show ?thesis by (simp add: popaq_def pushaq_order_def pop_def set_gp_def add.assoc)
qed

text \<open>The frame the stub hands to the handler, and the memory with it.\<close>

definition frame_at :: "cpu \<Rightarrow> u64" where "frame_at c = (sp c AND NOT 15) - 168"

definition int_mem :: "cpu \<Rightarrow> memory \<Rightarrow> memory" where
  "int_mem c m = push_mem (frame_at c) (c\<lparr>sp := frame_at c + 128\<rparr>)
     (fold (\<lambda>(i, v) m. wr64 m (frame_at c + i) v) [(160, sseg c), (152, sp c), (144, flags c), (136, cseg c), (128, ip c)] m)"

lemma int_enter_eq:
  "pushaq (int_enter (c, s)) = (c\<lparr>sp := frame_at c, flags := flags c AND NOT 0x200\<rparr>, s\<lparr>mem := int_mem c (mem s)\<rparr>)"
  by (simp add: int_enter_def pushaq_eq push_def int_mem_def frame_at_def Let_def diff_diff_eq push_mem_def)

lemma frame_write_agree:
  assumes "agree_off b 168 m m'" "unat i + 8 \<le> 168"
  shows "agree_off b 168 m (wr64 m' (b + i) v)"
proof -
  have "agree_off b 168 m' (wr64 m' (b + i) v)" by (rule agree_off_widen[OF c64.wr_agree]) (use assms(2) in simp_all)
  then show ?thesis by (rule agree_off_trans[OF assms(1)])
qed

lemma int_mem_agree: "agree_off (frame_at c) 168 m (int_mem c m)"
  unfolding int_mem_def push_mem_def pushaq_order_def
  by (simp add: frame_defs) (intro frame_write_agree agree_off_refl frame_write_agree[of _ _ _ 0, simplified]; simp)

lemma int_mem_frame:
  "rd64 (int_mem c m) (frame_at c + slot r) = gp c r" "rd64 (int_mem c m) (frame_at c + reg_rip) = ip c"
  "rd64 (int_mem c m) (frame_at c + reg_cs) = cseg c" "rd64 (int_mem c m) (frame_at c + reg_rflags) = flags c"
  "rd64 (int_mem c m) (frame_at c + 152) = sp c" "rd64 (int_mem c m) (frame_at c + 160) = sseg c"
  unfolding int_mem_def push_mem_frame
  by simp (simp_all add: push_mem_def pushaq_order_def frame_defs mem_simps sep_def)

section \<open>Context switch\<close>

text \<open>The frame and the two words of the stack pointer above it lie outside the control blocks, which are apart.\<close>

definition stack_ok :: "u64 \<Rightarrow> u64 list \<Rightarrow> bool" where
  "stack_ok regs ring \<longleftrightarrow> blocks_ok regs ring \<and> (\<forall>p \<in> set ring. sep regs 168 p 1232)"

lemma block_agree:
  assumes "agree_off b 168 m m'" "sep b 168 p 1232" "i + 8 \<le> 1232"
  shows "rd64 m' (p + of_nat i) = rd64 m (p + of_nat i)"
  using sep_sub[OF assms(2), of 0 168 i 8] assms(3) by (intro c64.rd_agree[OF assms(1)]) simp_all

lemma block_reg:
  assumes "agree_off b 168 m m'" "sep b 168 p 1232" "r \<in> set regs_order"
  shows "rd64 m' (p + r) = rd64 m (p + r)"
  using block_agree[OF assms(1,2), of "unat r"] regs_order_bound[OF assms(3)] by simp

lemma sched_ok_frame:
  assumes "stack_ok regs ring" "agree_off regs 168 (mem s) m" "sched_ok regs ring s"
  shows "sched_ok regs ring (s\<lparr>mem := m\<rparr>)"
proof -
  have "proc_next m (ring ! i) = proc_next (mem s) (ring ! i)" if "i < length ring" for i
    using block_agree[OF assms(2), of "ring ! i" 1216] assms(1) that by (simp add: stack_ok_def proc_next_def)
  then show ?thesis using assms(3) by (simp add: sched_ok_def)
qed

lemma schedule_stack:
  assumes "stack_ok regs ring" "sched_ok regs ring s" "152 \<le> j" "j + 8 \<le> 168"
  shows "rd64 (mem (schedule regs s)) (regs + of_nat j) = rd64 (mem s) (regs + of_nat j)"
proof (rule rd64_bytes)
  fix i :: nat assume i: "i < 8"
  let ?c = "cur_proc s" and ?n = "proc_next (mem s) (cur_proc s)"
  have cn: "?c \<in> set ring" "?n \<in> set ring" using assms(2) sched_next_in[OF assms(2)] by (simp_all add: sched_ok_def)
  have b: "blocks_ok regs ring" and c: "sep regs 168 ?c 1232" using assms(1) cn by (simp_all add: stack_ok_def)
  have e: "regs + of_nat j + of_nat i = regs + of_nat (j + i)" by (simp add: add.assoc)
  have u: "unat (regs + of_nat (j + i) - regs) = j + i" using assms(4) i unat_of_nat64[of "j + i"] by simp
  have "sep regs 152 ?c 1232" "sep regs 152 ?n 152" using frame_sep[OF b cn(1)] sep_shorter[OF frame_sep[OF b cn(2)], of 152 152] by simp_all
  moreover have "sep ?c 1232 regs 168" using c by (simp add: sep_sym)
  moreover have "save_mem regs ?c (fpu s) (mem s) (regs + of_nat (j + i)) = mem s (regs + of_nat (j + i))"
    using assms(4) i by (intro save_mem_sep[OF calculation(1,3)]) simp
  ultimately show "mem (schedule regs s) (regs + of_nat j + of_nat i) = mem s (regs + of_nat j + of_nat i)"
    unfolding schedule_eq[OF b assms(2)] e using assms(3) u by (simp add: load_mem_def copy_regs_apply del: of_nat_add)
qed

text \<open>What the timer stub does with the frame: the registers come from the block of the next process, the stack pointer does not.\<close>

lemma timer_irq_eq:
  assumes "\<And>h m. dma D h m = m" "stack_ok (frame_at c) ring" "sched_ok (frame_at c) ring s"
  defines "s1 \<equiv> schedule (frame_at c) (process_set_pml4_to_kernel (s\<lparr>mem := int_mem c (mem s)\<rparr>))"
  shows "\<exists>s'. timer_irq D (int_enter (c, s)) = Some
    (\<lparr>gp = (\<lambda>r. rd64 (mem s1) (frame_at c + slot r)), sp = sp c, ip = rd64 (mem s1) (frame_at c + reg_rip),
      cseg = rd64 (mem s1) (frame_at c + reg_cs), sseg = sseg c, flags = rd64 (mem s1) (frame_at c + reg_rflags)\<rparr>, s') \<and>
    mem s' = mem s1 \<and> cur_proc s' = cur_proc s1 \<and> fpu s' = fpu s1 \<and>
    (cur_proc s1 \<noteq> 0 \<longrightarrow> cr3 s' = proc_pml4 (mem s1) (cur_proc s1))"
proof -
  let ?s0 = "process_set_pml4_to_kernel (s\<lparr>mem := int_mem c (mem s)\<rparr>)"
  have "sched_ok (frame_at c) ring (s\<lparr>mem := int_mem c (mem s)\<rparr>)"
    by (rule sched_ok_frame[OF assms(2) int_mem_agree assms(3)])
  then have "sched_ok (frame_at c) ring ?s0"
    by (simp add: process_set_pml4_to_kernel_def paging_change_dir_def sched_ok_def)
  note st = schedule_stack[OF assms(2) this]
  have m0: "mem ?s0 = int_mem c (mem s)" by (simp add: process_set_pml4_to_kernel_def paging_change_dir_def)
  have sp: "rd64 (mem s1) (frame_at c + 152) = sp c" "rd64 (mem s1) (frame_at c + 160) = sseg c"
    using st[of 152] st[of 160] by (simp_all add: s1_def m0 int_mem_frame)
  show ?thesis
    using sp assms(1)
    by (simp add: timer_irq_def irq_stub_def int_enter_eq popaq_eq iretq_def timer_handler_def Let_def s1_def[symmetric] add.assoc
        frame_defs process_set_pml4_to_cur_proc_def paging_change_dir_def mmio_wr32_def access_io_def)
qed

lemma ctx_reg:
  assumes "running_ctx regs s = saved_ctx m p" "r \<in> set regs_order"
  shows "rd64 (mem s) (regs + r) = rd64 m (p + r)"
  using assms by (auto simp: running_ctx_def saved_ctx_def)

lemma saved_ctx_reg:
  assumes "saved_ctx m p = saved_ctx m' p" "r \<in> set regs_order"
  shows "rd64 m (p + r) = rd64 m' (p + r)"
  using assms by (auto simp: saved_ctx_def)

lemma control_order: "reg_rip \<in> set regs_order" "reg_cs \<in> set regs_order" "reg_rflags \<in> set regs_order"
  by (simp_all add: regs_order_def)

lemma timer_switch:
  assumes "\<And>h m. dma D h m = m" "stack_ok (frame_at c) ring" "sched_ok (frame_at c) ring s"
    and "n = proc_next (mem s) (cur_proc s)" "n \<noteq> cur_proc s"
  shows "\<exists>c' s'. timer_irq D (int_enter (c, s)) = Some (c', s') \<and> cur_proc s' = n \<and> cr3 s' = proc_pml4 (mem s') n \<and>
    (\<forall>r. gp c' r = rd64 (mem s) (n + slot r)) \<and> ip c' = rd64 (mem s) (n + reg_rip) \<and>
    cseg c' = rd64 (mem s) (n + reg_cs) \<and> flags c' = rd64 (mem s) (n + reg_rflags) \<and>
    fpu s' = fxrstor (proc_fxsave n) (mem s') \<and> sp c' = sp c \<and> sseg c' = sseg c \<and>
    (\<forall>r. rd64 (mem s') (cur_proc s + slot r) = gp c r) \<and> rd64 (mem s') (cur_proc s + reg_rip) = ip c \<and>
    rd64 (mem s') (cur_proc s + reg_cs) = cseg c \<and> rd64 (mem s') (cur_proc s + reg_rflags) = flags c"
proof -
  define s0 where "s0 = process_set_pml4_to_kernel (s\<lparr>mem := int_mem c (mem s)\<rparr>)"
  define s1 where "s1 = schedule (frame_at c) s0"
  have m0: "mem s0 = int_mem c (mem s)" "cur_proc s0 = cur_proc s"
    by (simp_all add: s0_def process_set_pml4_to_kernel_def paging_change_dir_def)
  have b: "blocks_ok (frame_at c) ring" using assms(2) by (simp add: stack_ok_def)
  have "sched_ok (frame_at c) ring (s\<lparr>mem := int_mem c (mem s)\<rparr>)"
    by (rule sched_ok_frame[OF assms(2) int_mem_agree assms(3)])
  then have o: "sched_ok (frame_at c) ring s0"
    by (simp add: s0_def process_set_pml4_to_kernel_def paging_change_dir_def sched_ok_def)
  have in_ring: "cur_proc s \<in> set ring" "n \<in> set ring"
    using assms(3,4) sched_next_in[OF assms(3)] by (simp_all add: sched_ok_def)
  have sep: "sep (frame_at c) 168 p 1232" if "p \<in> set ring" for p using assms(2) that by (simp add: stack_ok_def)
  have "proc_next (mem s0) (cur_proc s) = n"
    using block_agree[OF int_mem_agree sep[OF in_ring(1)], of 1216 "mem s"] assms(4) by (simp add: proc_next_def m0)
  then have cur: "cur_proc s1 = n" using schedule_eq[OF b o] by (simp add: s1_def m0)
  then have nz: "n \<noteq> 0" using in_ring b by (auto simp: blocks_ok_def)
  have run: "running_ctx (frame_at c) s1 = saved_ctx (mem s1) n" using schedule_running[OF b o] cur by (simp add: s1_def)
  have next_reg: "rd64 (mem s1) (n + r) = rd64 (mem s) (n + r)" if "r \<in> set regs_order" for r
    using saved_ctx_reg[of "mem s1" n "mem s0" r] schedule_saved[OF b o in_ring(2)] assms(5) that
      block_reg[OF int_mem_agree sep[OF in_ring(2)] that] by (simp add: s1_def m0)
  have old: "rd64 (mem s1) (cur_proc s + r) = rd64 (int_mem c (mem s)) (frame_at c + r)" if "r \<in> set regs_order" for r
    using ctx_reg[of "frame_at c" s0 "mem s1" "cur_proc s" r] schedule_saved[OF b o in_ring(1)] that by (simp add: s1_def m0)
  from timer_irq_eq[OF assms(1-3)] obtain s' where s': "timer_irq D (int_enter (c, s)) = Some
    (\<lparr>gp = (\<lambda>r. rd64 (mem s1) (frame_at c + slot r)), sp = sp c, ip = rd64 (mem s1) (frame_at c + reg_rip),
      cseg = rd64 (mem s1) (frame_at c + reg_cs), sseg = sseg c, flags = rd64 (mem s1) (frame_at c + reg_rflags)\<rparr>, s')"
    "mem s' = mem s1" "cur_proc s' = cur_proc s1" "fpu s' = fpu s1" "cr3 s' = proc_pml4 (mem s1) n"
    unfolding s0_def[symmetric] s1_def[symmetric] using cur nz by auto
  have "fpu s1 = fxrstor (proc_fxsave n) (mem s1)" using run by (simp add: running_ctx_def saved_ctx_def)
  with s' cur show ?thesis
    by (simp add: ctx_reg[OF run] next_reg old slot_order control_order int_mem_frame)
qed

section \<open>Properties\<close>

text \<open>
  C40 A timer interrupt from the processor's entry to \<^verbatim>\<open>iretq\<close>, with the frame on the stack of the program and apart
  from the control blocks.  The fifteen general registers, the instruction pointer, the code segment, the flags, the FPU state and the page
  tables become those of the next process of the ring, and the registers of the interrupted program are in its control block.
  The stack pointer is not switched: the saved one is dropped by \<^verbatim>\<open>popaq\<close>, so that the next process runs on the stack of the
  interrupted one.
\<close>

theorem timer_irq_keeps_stack:
  assumes "\<And>h m. dma D h m = m" and "stack_ok (frame_at c) ring" and "sched_ok (frame_at c) ring s"
    and "n = proc_next (mem s) (cur_proc s)" and "n \<noteq> cur_proc s"
  shows "\<exists>c' s'. timer_irq D (int_enter (c, s)) = Some (c', s') \<and> cur_proc s' = n \<and> cr3 s' = proc_pml4 (mem s') n \<and>
    (\<forall>r. gp c' r = rd64 (mem s) (n + slot r)) \<and> ip c' = rd64 (mem s) (n + reg_rip) \<and>
    cseg c' = rd64 (mem s) (n + reg_cs) \<and> flags c' = rd64 (mem s) (n + reg_rflags) \<and>
    fpu s' = fxrstor (proc_fxsave n) (mem s') \<and> sp c' = sp c \<and> sseg c' = sseg c \<and>
    (\<forall>r. rd64 (mem s') (cur_proc s + slot r) = gp c r) \<and> rd64 (mem s') (cur_proc s + reg_rip) = ip c \<and>
    rd64 (mem s') (cur_proc s + reg_cs) = cseg c \<and> rd64 (mem s') (cur_proc s + reg_rflags) = flags c"
  by (rule timer_switch[OF assms])

definition demo_cpu :: cpu where
  "demo_cpu = \<lparr>gp = (\<lambda>_. 7), sp = 0x9000, ip = 0x400000, cseg = 8, sseg = 16, flags = 0x202\<rparr>"

definition demo_switch :: devs where
  "demo_switch = demo_devs\<lparr>mem := mem demo_procs, proc_queue := 0x1000, cur_proc := 0x1000, fpu := replicate 512 0\<rparr>"

lemma demo_switch_ok: "stack_ok (frame_at demo_cpu) demo_ring" "sched_ok (frame_at demo_cpu) demo_ring demo_switch"
  "proc_next (mem demo_switch) 0x1000 = 0x3000" "cur_proc demo_switch = 0x1000"
proof -
  show "stack_ok (frame_at demo_cpu) demo_ring"
    by (simp add: stack_ok_def blocks_ok_def demo_ring_def frame_at_def demo_cpu_def sep_def)
  have "sched_ok 0x8000 demo_ring demo_procs" using demo_ring_ok by (simp add: ring_ok_def)
  then show "sched_ok (frame_at demo_cpu) demo_ring demo_switch"
    by (simp add: sched_ok_def demo_switch_def demo_procs_def)
  show "proc_next (mem demo_switch) 0x1000 = 0x3000" "cur_proc demo_switch = 0x1000"
    by (simp_all add: demo_switch_def demo_procs_def proc_next_def mem_simps sep_def)
qed

theorem timer_irq_keeps_stack_witness:
  "\<exists>c' s'. timer_irq \<lparr>answer = \<lambda>_. 0, dma = \<lambda>_ m. m\<rparr> (int_enter (demo_cpu, demo_switch)) = Some (c', s') \<and>
    cur_proc s' = 0x3000 \<and> sp c' = 0x9000 \<and> rd64 (mem s') (0x1000 + reg_rax) = 7"
proof -
  have "dma \<lparr>answer = \<lambda>_. 0, dma = \<lambda>_ m. m\<rparr> h m = m" for h m by simp
  note r = timer_irq_keeps_stack[OF this demo_switch_ok(1,2) refl, unfolded demo_switch_ok(3,4), simplified]
  obtain c' s' where "timer_irq \<lparr>answer = \<lambda>_. 0, dma = \<lambda>_ m. m\<rparr> (int_enter (demo_cpu, demo_switch)) = Some (c', s')"
    "cur_proc s' = 0x3000" "sp c' = sp demo_cpu" "\<forall>r. rd64 (mem s') (0x1000 + slot r) = gp demo_cpu r"
    using r by blast
  moreover from this(4) have "rd64 (mem s') (0x1000 + slot RAX) = 7" by (simp add: demo_cpu_def del: slot.simps)
  ultimately show ?thesis by (simp add: demo_cpu_def)
qed

end
