(* ===== verification/Boot.thy ===== *)
theory Boot
  imports Interrupts Pci_Bus
begin

text \<open>
  The start of the kernel, \<^verbatim>\<open>kernel/src/kernel.c\<close>, with the assembly routines \<^verbatim>\<open>enable_optimizations\<close> (\<^verbatim>\<open>sse.asm\<close>),
  \<^verbatim>\<open>enable_sce\<close> and \<^verbatim>\<open>to_userspace\<close> (\<^verbatim>\<open>sce.asm\<close>): every component is initialised in the order of the code, the volume is
  registered and the program \<^verbatim>\<open>/init\<close> is read and made a process.
\<close>

section \<open>Control registers\<close>

record cpu_ctl =
  cr0 :: u64
  cr4 :: u64

definition enable_optimizations :: "cpu_ctl \<Rightarrow> cpu_ctl" where
  "enable_optimizations c =
     (let c = c\<lparr>cr0 := (cr0 c AND NOT (push_bit 2 1)) OR push_bit 1 1\<rparr>
      in c\<lparr>cr4 := cr4 c OR push_bit 9 1\<rparr>)"

text \<open>\<^verbatim>\<open>rdmsr\<close> leaves the halves of the register in \<^verbatim>\<open>edx\<close> and \<^verbatim>\<open>eax\<close>, which \<^verbatim>\<open>wrmsr\<close> writes.\<close>

definition enable_sce :: "device_env \<Rightarrow> 'a hw_scheme \<Rightarrow> 'a hw_scheme" where
  "enable_sce D s =
     (let (v, s) = access_io D (Msr_read 0xc0000080) s;
          (_, s) = access_io D (Msr_write 0xc0000080 (ucast v OR 1) (ucast (drop_bit 32 v))) s;
          (v, s) = access_io D (Msr_read 0xc0000081) s;
          (_, s) = access_io D (Msr_write 0xc0000081 (ucast v) 0x00180008) s
      in s)"

text \<open>\<^verbatim>\<open>sysret\<close> continues at the address in \<^verbatim>\<open>rcx\<close> with the flags in \<^verbatim>\<open>r11\<close>.\<close>

definition to_userspace :: "u64 \<Rightarrow> u64 \<Rightarrow> cpu \<Rightarrow> cpu" where
  "to_userspace target stack c =
     (let c = set_gp RCX target c;
          c = c\<lparr>sp := stack\<rparr>;
          c = set_gp R11 0x0202 c
      in c\<lparr>ip := gp c RCX, flags := gp c R11\<rparr>)"

section \<open>Listing a directory\<close>

definition text_of :: "u8 list \<Rightarrow> string" where
  "text_of bs = map (\<lambda>b. char_of (unat b)) (takeWhile (\<lambda>b. b \<noteq> 0) bs)"

definition kprint :: "string \<Rightarrow> vararg list \<Rightarrow> kern \<Rightarrow> kern" where
  "kprint fmt args k = set_mach (emit (Printed fmt args) (mach k)) k"

text \<open>The loop over the entries; the directory and file information objects live on the stack.\<close>

partial_function (option) list_dir_loop ::
  "device_env \<Rightarrow> u64 \<Rightarrow> codepage \<Rightarrow> DIR \<Rightarrow> FILINFO \<Rightarrow> u32 \<Rightarrow> u32 \<Rightarrow> kern \<Rightarrow> (FRESULT \<times> DIR \<times> u32 \<times> u32 \<times> kern) option" where
  "list_dir_loop D buff T dir fno nfile ndir k = do {
     (res, dir, info, v) \<leftarrow> f_readdir (kernel_ops D buff) T dir (Some fno) (kfs k);
     let k = k\<lparr>kfs := v\<rparr>;
     let fno = (case info of Some i \<Rightarrow> i | None \<Rightarrow> fno);
     if res \<noteq> FR_OK \<or> fname fno ! 0 = 0 then Some (res, dir, nfile, ndir, k)
     else if fattrib fno AND AM_DIR \<noteq> 0
     then list_dir_loop D buff T dir fno nfile (ndir + 1) (kprint (''     <DIR> %s'' @ nl) [Arg_str (text_of (fname fno))] k)
     else list_dir_loop D buff T dir fno (nfile + 1) ndir
            (kprint (''%10u %s'' @ nl) [Arg_word (ucast (fi_size fno)), Arg_str (text_of (fname fno))] k)
   }"

definition list_dir ::
  "device_env \<Rightarrow> u64 \<Rightarrow> codepage \<Rightarrow> DIR \<Rightarrow> FILINFO \<Rightarrow> u8 list \<Rightarrow> kern \<Rightarrow> (FRESULT \<times> kern) option" where
  "list_dir D buff T dir fno path k = do {
     (res, dir, v) \<leftarrow> f_opendir (kernel_ops D buff) T dir path (kfs k);
     let k = k\<lparr>kfs := v\<rparr>;
     if res = FR_OK then do {
       (res, dir, nfile, ndir, k) \<leftarrow> list_dir_loop D buff T dir fno 0 0 k;
       let (_, dir) = f_closedir dir (kfs k);
       Some (res, kprint (''%d dirs, %d files.'' @ nl) [Arg_word (scast ndir), Arg_word (scast nfile)] k)
     }
     else Some (res, kprint (''Failed to open '' @ [CHR 0x22] @ ''%s'' @ [CHR 0x22] @ ''. (%u)'' @ nl)
            [Arg_str (text_of path), Arg_word (ucast (fresult_code res))] k)
   }"

section \<open>Start\<close>

text \<open>
  What the start code takes from its surroundings: the devices, the ACPI interpreter, the addresses of static objects, and the
  contents of its uninitialised file object.
\<close>

record boot_env =
  be_dev :: device_env
  be_buff :: u64
  be_pages :: codepage
  be_lai :: "u8 \<Rightarrow> devs \<Rightarrow> devs option"
  be_route :: "devs pci_route"
  be_syms :: kernel_syms
  be_stubs :: int_stubs
  be_tss :: u64
  be_gdt :: u64
  be_idt :: u64
  be_file :: FIL

definition bi_psf1_Font :: "memory \<Rightarrow> u64 \<Rightarrow> u64" where "bi_psf1_Font m b = rd64 m (b + 8)"

text \<open>The start ends in the idle loop, or stops after a message.\<close>

datatype boot_result = Idle kern | Stopped kern

definition gdt_step :: "boot_env \<Rightarrow> 'a hw_scheme \<Rightarrow> 'a hw_scheme" where
  "gdt_step E s = (let (g, s) = gdt_init (be_tss E) (be_gdt E) (k_gdt s, s) in s\<lparr>k_gdt := g\<rparr>)"

definition idt_step :: "boot_env \<Rightarrow> 'a hw_scheme \<Rightarrow> 'a hw_scheme" where
  "idt_step E s = (let (i, s) = idt_init (be_stubs E) (be_idt E) (k_idt s, s) in s\<lparr>k_idt := i\<rparr>)"

text \<open>The part before the check of the RSDP and the part up to the mount.\<close>

definition start_early :: "boot_env \<Rightarrow> u64 \<Rightarrow> devs \<Rightarrow> devs option" where
  "start_early E boot_info s = do {
     let s = emit (Init_terminal (bi_framebuffer (mem s) boot_info) (bi_psf1_Font (mem s) boot_info)) s;
     let s = emit Clear_screen s;
     let s = pmm_init (bi_mMap (mem s) boot_info) (bi_mMapSize (mem s) boot_info) (bi_mMapDescSize (mem s) boot_info) s;
     s \<leftarrow> paging_init boot_info s;
     let s = gdt_step E s;
     let s = idt_step E s;
     (_, s) \<leftarrow> fb_init (sym_fb_name (be_syms E)) (sym_fb_ioctl (be_syms E)) (bi_framebuffer (mem s) boot_info) s;
     Some s
   }"

definition start_devices :: "boot_env \<Rightarrow> u64 \<Rightarrow> devs \<Rightarrow> devs option" where
  "start_devices E boot_info s = do {
     s \<leftarrow> heap_init s;
     s \<leftarrow> acpi_init (be_dev E) (be_lai E) (sym_sci_irq (be_syms E)) boot_info s;
     s \<leftarrow> lapic_init (be_dev E) s;
     s \<leftarrow> ioapic_init (be_dev E) s;
     (_, s) \<leftarrow> hpet_init (be_dev E) s;
     let s = net_init s;
     pci_init (be_dev E) (be_route E) (be_syms E) s
   }"

definition start_banner :: "devs \<Rightarrow> devs" where
  "start_banner s =
     (let s = emit (Set_fg 10) s;
          s = emit (Printed (nl @ ''Done'' @ nl @ nl) []) s;
          s = emit (Set_fg 15) s;
          s = fold (\<lambda>i s. emit (Printed ''# '' []) (emit (Set_bg (of_nat i + 8)) (emit (Set_fg (of_nat i)) s))) [0..<8] s;
          s = emit (Set_fg 15) s;
          s = emit (Set_bg 0) s
      in emit (Printed nl []) s)"

definition str_init :: "u8 list" where "str_init = bytes ''/init''"

definition start_init :: "boot_env \<Rightarrow> kern \<Rightarrow> boot_result option" where
  "start_init E k = do {
     let K = kernel_ops (be_dev E) (be_buff E);
     (res, file, v) \<leftarrow> f_open K (be_pages E) (be_file E) str_init (FA_READ OR FA_WRITE) (kfs k);
     let k = k\<lparr>kfs := v\<rparr>;
     if res \<noteq> FR_OK then Some (Stopped (kprint (''Failed to open /test (%d)'' @ nl) [Arg_word (ucast (fresult_code res))] k))
     else do {
       let file_sz = objsize (f_obj file);
       (buffer, s) \<leftarrow> kmalloc file_sz (mach k);
       (res, bs, file, v) \<leftarrow> f_read K file file_sz (kfs (set_mach s k));
       let k = k\<lparr>kfs := v\<rparr>;
       let k = set_mach ((mach k)\<lparr>mem := put_bytes (mem (mach k)) buffer bs\<rparr>) k;
       if res \<noteq> FR_OK then Some (Stopped (kprint (''Failed to read /test (%d)'' @ nl) [Arg_word (ucast (fresult_code res))] k))
       else do {
         (res, file, v) \<leftarrow> f_close K file (kfs k);
         let k = k\<lparr>kfs := v\<rparr>;
         if res \<noteq> FR_OK then Some (Stopped (kprint (''Failed to close /test (%d)'' @ nl) [Arg_word (ucast (fresult_code res))] k))
         else do {
           s \<leftarrow> make_proc_from_elf buffer (mach k);
           Some (Idle (set_mach s k))
         }
       }
     }
   }"

definition start :: "boot_env \<Rightarrow> u64 \<Rightarrow> cpu_ctl \<Rightarrow> kern \<Rightarrow> (cpu_ctl \<times> boot_result) option" where
  "start E boot_info ctl k = do {
     let ctl = enable_optimizations ctl;
     s \<leftarrow> start_early E boot_info (mach k);
     let k = set_mach s k;
     if bi_rsdp (mem s) boot_info = 0 then do {
       let k = set_mach (emit (Panicked ''No RSDP/XSDP found.'') s) k;
       Some (ctl, Stopped (kprint (''This OS does not support computers without ACPI.'' @ nl) [] k))
     }
     else do {
       s \<leftarrow> start_devices E boot_info s;
       let k = set_mach s k;
       (res, v) \<leftarrow> f_mount (kernel_ops (be_dev E) (be_buff E)) True [] 0 (kfs k);
       let k = k\<lparr>kfs := v\<rparr>;
       if res \<noteq> FR_OK then Some (ctl, Stopped (kprint (''Failed to mount (%d)'' @ nl) [Arg_word (ucast (fresult_code res))] k))
       else do {
         s \<leftarrow> process_init (sym_idle (be_syms E)) (mach k);
         let s = enable_sce (be_dev E) s;
         let s = start_banner s;
         line \<leftarrow> ioapic_remap_irq 1 s;
         let s = ioapic_set_entry (be_dev E) (ucast line) 0x21 s;
         r \<leftarrow> start_init E (set_mach s k);
         Some (ctl, r)
       }
     }
   }"

end
