(* ===== verification/Spec2Isabelle.thy ===== *)
theory Spec2Isabelle
  imports Kernel_Prelude Kernel_Memory Kernel_State Kernel_String Bitmap Pmm Paging Heap_Llist Heap
    Process_Block Vmm Elf Process Scheduler Printk Terminal Descriptor_Tables
    Kernel_Io Acpi Apic Hpet Lai_Host Pci Edu E1000 Net Ahci Device Pci_Bus Fat_Volume Fat_Table Fat_Chain
    Fat_Names Fat_Dir Fat_Path Fat_Mount Fat_File Fat_Api Fat_Geometry Fat_Read Fat_Write Fat_Seek
    Syscall Interrupts Boot
begin

text \<open>
  A verification of the ChronOS kernel (\<^verbatim>\<open>src/kernel\<close>), a 64-bit kernel for UEFI machines.  The boot loader hands the kernel
  a frame buffer, a font, the memory map and the ACPI root pointer; \<^verbatim>\<open>_start\<close> (\<^verbatim>\<open>kernel.c\<close>) initialises the terminal, the
  page allocator, paging, the descriptor tables, the heap, ACPI, the interrupt controllers, the timer, PCI with its drivers,
  mounts the FAT volume on the SATA disk, and starts the program \<^verbatim>\<open>/init\<close> as a process, which uses the kernel through
  system calls and is scheduled by the timer interrupt.

  \<^bold>\<open>Model.\<close>  C functions are HOL functions on an explicit state; machine integers are words of their width and wrap
  around.  Memory is a function from 64-bit addresses to bytes (\<open>Kernel_Memory\<close>); structures in memory are read and written field by
  field at their offsets.  The state is a chain of records, one per component, each extending the one it builds on: \<open>machine\<close>
  (memory, output), \<open>pmm\<close>, \<open>paging\<close>, \<open>kheap\<close>, \<open>procs\<close>, \<open>hw\<close> (devices), \<open>acpi\<close>, \<open>apic\<close>, \<open>hpet\<close>, \<open>pci\<close>, \<open>edu\<close>, \<open>e1000\<close>,
  \<open>ahci\<close>, \<open>devs\<close>; operations take any extension of the record they need, so that they compose as the code does.  A loop
  that need not end is a \<open>partial_function\<close> with value \<open>None\<close> when it runs forever; panics that never return are \<open>None\<close> as
  well.  No fuel is used anywhere: a counted loop is a fold over its range.  Devices are a parameter \<open>device_env\<close> that answers every register
  access from the history of accesses and may change memory by DMA.  The output functions append to \<open>console\<close>, and \<open>Terminal\<close>
  says what each item draws.

  \<^bold>\<open>Memory management.\<close>  \<open>Kernel_String\<close> is \<^verbatim>\<open>string/string.c\<close>; \<open>Bitmap\<close>, \<open>Pmm\<close>, \<open>Paging\<close> are \<^verbatim>\<open>ds/bitmap.c\<close>, \<^verbatim>\<open>mm/pmm/pmm.c\<close>
  and \<^verbatim>\<open>mm/vmm/paging.c\<close>; \<open>Heap_Llist\<close> and \<open>Heap\<close> are \<^verbatim>\<open>shmall\<close>; \<open>Vmm\<close> is \<^verbatim>\<open>mm/vmm/vmm.c\<close>.  The lemmas show that the bitmap is an array
  of bits (locale \<open>bit_store\<close>), that the page allocator hands out distinct free pages and keeps its invariant
  (locale \<open>page_allocator\<close>), that mapping and unmapping change exactly one virtual page of one address space (locale \<open>page_mapper\<close>), that the bins of
  the heap are sorted doubly linked lists, and that \<^verbatim>\<open>mmap\<close> maps the first free run of pages.

  \<^bold>\<open>Processes and interrupts.\<close>  \<open>Process_Block\<close>, \<open>Process\<close> and \<open>Scheduler\<close> are \<^verbatim>\<open>process/process.c\<close>, \<open>Elf\<close> the loader;
  \<open>Descriptor_Tables\<close> has the GDT, the IDT and the exception handler; \<open>Syscall\<close> the system calls (\<^verbatim>\<open>idt/syscall.c\<close>) on the
  state \<open>kern\<close> of the whole kernel, \<open>Interrupts\<close> the entry stubs of \<^verbatim>\<open>idt/interrupts.asm\<close>, \<open>Boot\<close> the start of the kernel.  Shown are the isolation and
  fairness of the scheduler over all sequences of ticks and program runs (locale \<open>scheduler\<close>), the gates, the output and the descriptor table of system
  calls, and what a timer interrupt switches, the stack pointer excepted.

  \<^bold>\<open>Output.\<close>  \<open>Printk\<close> is the formatter, \<open>Terminal\<close> the terminal, the log functions and the panic screen: numbers are
  printed with their digits and drawing stays inside the frame buffer.

  \<^bold>\<open>Devices.\<close>  \<open>Kernel_Io\<close> (ports and registers, with the locale \<open>indexed_regs\<close> for index and data windows), \<open>Acpi\<close>, \<open>Apic\<close>, \<open>Hpet\<close>,
  \<open>Lai_Host\<close> (the services for the ACPI interpreter), \<open>Pci\<close>, \<open>Pci_Bus\<close>, \<open>Edu\<close>, \<open>E1000\<close>, \<open>Net\<close>, \<open>Ahci\<close>, \<open>Device\<close>: every
  function of the drivers; shown are the programming of the I/O APIC, table and capability searches against a reference, waiting and termination of loops,
  the transmit ring, the fields of ARP replies and the commands for the disk.

  \<^bold>\<open>File system.\<close>  \<open>Fat_Volume\<close>, \<open>Fat_Table\<close>, \<open>Fat_Chain\<close>, \<open>Fat_Names\<close>, \<open>Fat_Dir\<close>, \<open>Fat_Path\<close>, \<open>Fat_Mount\<close>, \<open>Fat_File\<close> and \<open>Fat_Api\<close> are
  \<^verbatim>\<open>fs/fat/ff.c\<close> in the configuration of \<^verbatim>\<open>ffconf.h\<close>, from the sector window to the interface.  The disk and the memory
  functions are the argument \<open>disk_ops\<close>, instantiated by the kernel's own driver and heap in \<open>Syscall\<close>; theorems assume a
  disk that stores what is written (\<open>good_disk\<close>, \<open>good_blocks\<close>), which memory disks satisfy.  The tables of the code page are the
  argument \<open>codepage\<close>.  \<open>Fat_Geometry\<close>, \<open>Fat_Read\<close>, \<open>Fat_Write\<close> and \<open>Fat_Seek\<close> hold the theorems: a mounted volume is well formed, table entries
  and chains are updated exactly, reading returns the bytes of the file, writing stores them and nothing else, and what was
  written is read back after seeking.

  \<^bold>\<open>Not modelled.\<close>  The data tables of \<^verbatim>\<open>ffunicode.c\<close> (about 15000 lines of code page constants; the functions over them are
  modelled with the tables as an argument); the boot loader and the gnu-efi library, which run before the kernel on firmware services;
  \<^verbatim>\<open>link.ld\<close> and build scripts.  The stack below an interrupt frame, caches and the TLB (only the invalidations are
  recorded) and other processors are outside the model.
\<close>

end
